(* ===== verification/Prelude.thy ===== *)
theory Prelude
  imports Main
begin

text \<open>
  Shared vocabulary of the development.  Go functions that return \<open>(T, error)\<close> are modelled by
  the sum type \<open>'e + 'a\<close>: \<open>Inl\<close> carries the error value, \<open>Inr\<close> the result.  \<open>sbind\<close> is the
  sequencing \<open>x, err := f(); if err != nil { return err }\<close>, \<open>guardE\<close> is an early error return.
  The theory also has the generic lemmas on sums, options and maps that the component theories
  use, most of them as simplification rules.
\<close>

section \<open>Errors as values\<close>

definition sbind :: "'e + 'a \<Rightarrow> ('a \<Rightarrow> 'e + 'b) \<Rightarrow> 'e + 'b" where
  "sbind r f = (case r of Inl e \<Rightarrow> Inl e | Inr x \<Rightarrow> f x)"

definition guardE :: "bool \<Rightarrow> 'e \<Rightarrow> 'e + unit" where
  "guardE c e = (if c then Inr () else Inl e)"

definition of_option :: "'e \<Rightarrow> 'a option \<Rightarrow> 'e + 'a" where
  "of_option e x = (case x of None \<Rightarrow> Inl e | Some y \<Rightarrow> Inr y)"

fun mapE :: "('a \<Rightarrow> 'e + 'b) \<Rightarrow> 'a list \<Rightarrow> 'e + 'b list" where
  "mapE f [] = Inr []"
| "mapE f (x # xs) = sbind (f x) (\<lambda>y. sbind (mapE f xs) (\<lambda>ys. Inr (y # ys)))"

lemma sbind_Inl [simp]: "sbind (Inl e) f = Inl e"
  and sbind_Inr [simp]: "sbind (Inr x) f = f x"
  by (simp_all add: sbind_def)

lemma sbind_eq_Inr_iff [simp]: "sbind r f = Inr y \<longleftrightarrow> (\<exists>x. r = Inr x \<and> f x = Inr y)"
  by (cases r) auto

lemma sbind_eq_Inl_iff:
  "sbind r f = Inl e \<longleftrightarrow> r = Inl e \<or> (\<exists>x. r = Inr x \<and> f x = Inl e)"
  by (cases r) auto

lemma sbind_assoc: "sbind (sbind r f) g = sbind r (\<lambda>x. sbind (f x) g)"
  by (cases r) auto

lemma guardE_eq_Inr_iff [simp]: "guardE c e = Inr u \<longleftrightarrow> c"
  by (simp add: guardE_def)

lemma guardE_True [simp]: "guardE True e = Inr ()"
  and guardE_False [simp]: "guardE False e = Inl e"
  by (simp_all add: guardE_def)

lemma of_option_eq_Inr_iff [simp]: "of_option e x = Inr y \<longleftrightarrow> x = Some y"
  by (cases x) (auto simp: of_option_def)

lemma of_option_simps [simp]: "of_option e None = Inl e" "of_option e (Some y) = Inr y"
  by (simp_all add: of_option_def)

lemma mapE_Inr_iff: "mapE f xs = Inr ys \<longleftrightarrow> list_all2 (\<lambda>x y. f x = Inr y) xs ys"
  by (induction xs arbitrary: ys) (auto simp: list_all2_Cons1)

lemma mapE_length: "mapE f xs = Inr ys \<Longrightarrow> length ys = length xs"
  by (auto simp: mapE_Inr_iff dest: list_all2_lengthD)

section \<open>Maps\<close>

lemma option_eqI: "(\<And>x. a = Some x \<longleftrightarrow> b = Some x) \<Longrightarrow> a = b"
  by (cases a; cases b) auto

lemma map_upd_frame: "k \<noteq> k' \<Longrightarrow> (m(k \<mapsto> v)) k' = m k'"
  by simp

lemma fold_min_le: "fold min xs (a::'a::linorder) \<le> a"
proof (induction xs arbitrary: a)
  case (Cons y ys)
  have "fold min ys (min y a) \<le> min y a" by (rule Cons.IH)
  then show ?case by simp
qed simp

lemma fold_min_le_mem: "x \<in> set xs \<Longrightarrow> fold min xs (a::'a::linorder) \<le> x"
proof (induction xs arbitrary: a)
  case (Cons y ys)
  then show ?case using fold_min_le [of ys "min y a"] by auto
qed simp

lemma fold_min_in: "fold min xs (a::'a::linorder) \<in> insert a (set xs)"
proof (induction xs arbitrary: a)
  case (Cons y ys)
  have "fold min ys (min y a) \<in> insert (min y a) (set ys)" by (rule Cons.IH)
  moreover have "min y a \<in> {y, a}" by (simp add: min_def)
  ultimately show ?case by auto
qed simp

end
