(* ===== verification/GoLib.thy ===== *)
theory GoLib
  imports Prelude "HOL-Library.Sublist"
begin

text \<open>
  The parts of Go's standard library that the modelled sources call on strings: decimal
  formatting and parsing (\<open>strconv.FormatUint\<close>, \<open>FormatInt\<close>, \<open>ParseUint\<close>, \<open>ParseInt\<close>, always in
  base 10 and 64 bits), and \<open>strings.IndexByte\<close>, \<open>Split\<close>, \<open>SplitN\<close>, \<open>HasPrefix\<close>, \<open>TrimSuffix\<close> and
  \<open>Join\<close>.  A Go string is a byte string, modelled as a \<open>string\<close>.
\<close>

section \<open>Decimal numerals\<close>

definition digit_char :: "nat \<Rightarrow> char" where
  "digit_char d = char_of (48 + d)"

definition char_nat :: "char \<Rightarrow> nat" where
  "char_nat c = of_char c"

definition is_digit :: "char \<Rightarrow> bool" where
  "is_digit c \<longleftrightarrow> 48 \<le> char_nat c \<and> char_nat c \<le> 57"

fun format_uint :: "nat \<Rightarrow> string" where
  "format_uint n =
     (if n < 10 then [digit_char n] else format_uint (n div 10) @ [digit_char (n mod 10)])"

declare format_uint.simps [simp del]

definition format_int :: "int \<Rightarrow> string" where
  "format_int i = (if i < 0 then CHR ''-'' # format_uint (nat (- i)) else format_uint (nat i))"

fun parse_digits :: "nat \<Rightarrow> string \<Rightarrow> nat option" where
  "parse_digits a [] = Some a"
| "parse_digits a (c # cs) =
     (if is_digit c then parse_digits (10 * a + (char_nat c - 48)) cs else None)"

definition parse_uint64 :: "string \<Rightarrow> nat option" where
  "parse_uint64 s =
     (if s = [] then None
      else case parse_digits 0 s of
        None \<Rightarrow> None
      | Some n \<Rightarrow> if n < 2 ^ 64 then Some n else None)"

definition parse_int64 :: "string \<Rightarrow> int option" where
  "parse_int64 s =
     (case s of
        [] \<Rightarrow> None
      | c # cs \<Rightarrow>
          let neg = (c = CHR ''-'');
              body = (if c = CHR ''+'' \<or> neg then cs else s)
          in case parse_uint64 body of
               None \<Rightarrow> None
             | Some un \<Rightarrow>
                 if \<not> neg \<and> un \<ge> 2 ^ 63 then None
                 else if neg \<and> un > 2 ^ 63 then None
                 else Some (if neg then - int un else int un))"

section \<open>Splitting and joining\<close>

fun split_first :: "char \<Rightarrow> string \<Rightarrow> (string \<times> string) option" where
  "split_first c [] = None"
| "split_first c (x # xs) =
     (if x = c then Some ([], xs)
      else map_option (\<lambda>(a, b). (x # a, b)) (split_first c xs))"

fun split_on :: "char \<Rightarrow> string \<Rightarrow> string list" where
  "split_on c [] = [[]]"
| "split_on c (x # xs) =
     (if x = c then [] # split_on c xs
      else (case split_on c xs of [] \<Rightarrow> [[x]] | y # ys \<Rightarrow> (x # y) # ys))"

fun splitN :: "nat \<Rightarrow> char \<Rightarrow> string \<Rightarrow> string list" where
  "splitN 0 c s = []"
| "splitN (Suc 0) c s = [s]"
| "splitN (Suc (Suc n)) c s =
     (case split_first c s of None \<Rightarrow> [s] | Some (a, b) \<Rightarrow> a # splitN (Suc n) c b)"

fun join :: "string \<Rightarrow> string list \<Rightarrow> string" where
  "join sep [] = []"
| "join sep [s] = s"
| "join sep (s # t # ts) = s @ sep @ join sep (t # ts)"

definition has_prefix :: "string \<Rightarrow> string \<Rightarrow> bool" where
  "has_prefix s p \<longleftrightarrow> take (length p) s = p"

definition has_suffix :: "string \<Rightarrow> string \<Rightarrow> bool" where
  "has_suffix s p \<longleftrightarrow> length p \<le> length s \<and> drop (length s - length p) s = p"

definition trim_prefix :: "string \<Rightarrow> string \<Rightarrow> string" where
  "trim_prefix s p = (if has_prefix s p then drop (length p) s else s)"

definition trim_suffix :: "string \<Rightarrow> string \<Rightarrow> string" where
  "trim_suffix s p = (if has_suffix s p then take (length s - length p) s else s)"

definition trim_right :: "char \<Rightarrow> string \<Rightarrow> string" where
  "trim_right c s = rev (dropWhile (\<lambda>x. x = c) (rev s))"

text \<open>\<open>strings.ToLower\<close> on ASCII text.\<close>

definition to_lower :: "string \<Rightarrow> string" where
  "to_lower s = map (\<lambda>c. if 65 \<le> char_nat c \<and> char_nat c \<le> 90 then char_of (char_nat c + 32) else c) s"

section \<open>Numerals round trip\<close>

lemma char_nat_digit [simp]: "d < 10 \<Longrightarrow> char_nat (digit_char d) = 48 + d"
  by (simp add: char_nat_def digit_char_def of_char_of)

lemma is_digit_digit_char [simp]: "d < 10 \<Longrightarrow> is_digit (digit_char d)"
  by (simp add: is_digit_def)

lemma format_uint_ne [simp]: "format_uint n \<noteq> []"
  by (subst format_uint.simps) simp

lemma format_uint_digits: "c \<in> set (format_uint n) \<Longrightarrow> is_digit c"
proof (induction n rule: format_uint.induct)
  case (1 n)
  then show ?case
    by (subst (asm) (2) format_uint.simps) (auto split: if_splits)
qed

lemma parse_digits_append:
  "parse_digits a (s @ t) = Option.bind (parse_digits a s) (\<lambda>b. parse_digits b t)"
  by (induction a s rule: parse_digits.induct) auto

lemma parse_digits_format_uint: "\<exists>k. parse_digits a (format_uint n) = Some (a * 10 ^ k + n)"
proof (induction n arbitrary: a rule: format_uint.induct)
  case (1 n)
  show ?case
  proof (cases "n < 10")
    case True
    have "parse_digits a (format_uint n) = Some (a * 10 ^ 1 + n)"
      using True by (subst format_uint.simps) simp
    then show ?thesis by blast
  next
    case False
    with "1.IH" obtain k where
      k: "parse_digits a (format_uint (n div 10)) = Some (a * 10 ^ k + n div 10)" by blast
    have "parse_digits a (format_uint n) = Some (10 * (a * 10 ^ k + n div 10) + n mod 10)"
      using False by (subst format_uint.simps) (simp add: parse_digits_append k)
    also have "10 * (a * 10 ^ k + n div 10) + n mod 10 = a * 10 ^ Suc k + n"
      by (simp add: algebra_simps)
    finally show ?thesis by blast
  qed
qed

lemma parse_digits_0_format_uint [simp]: "parse_digits 0 (format_uint n) = Some n"
  using parse_digits_format_uint [of 0 n] by auto

lemma parse_uint64_format [simp]: "n < 2 ^ 64 \<Longrightarrow> parse_uint64 (format_uint n) = Some n"
  by (simp add: parse_uint64_def)

lemma parse_uint64_bound: "parse_uint64 s = Some n \<Longrightarrow> n < 2 ^ 64"
  by (auto simp: parse_uint64_def split: if_splits option.splits)

lemma parse_int64_bounds: "parse_int64 s = Some i \<Longrightarrow> - (2 ^ 63) \<le> i \<and> i < 2 ^ 63"
  by (auto simp: parse_int64_def Let_def split: list.splits option.splits if_splits)

lemma not_digit_sign [simp]: "\<not> is_digit CHR ''-''" "\<not> is_digit CHR ''+''" "\<not> is_digit CHR '';''"
  "\<not> is_digit CHR ''o''" "\<not> is_digit CHR ''b''"
  by (simp_all add: is_digit_def char_nat_def)

lemma format_uint_hd: obtains c cs where "format_uint n = c # cs" "is_digit c"
  by (metis format_uint_digits format_uint_ne list.exhaust list.set_intros(1))

lemma parse_int64_format [simp]:
  assumes "- (2 ^ 63) \<le> i" "i < 2 ^ 63"
  shows "parse_int64 (format_int i) = Some i"
proof (cases "i < 0")
  case True
  with assms have "nat (- i) < 2 ^ 64" "nat (- i) \<le> 2 ^ 63" by auto
  with True show ?thesis by (simp add: format_int_def parse_int64_def)
next
  case False
  obtain c cs where f: "format_uint (nat i) = c # cs" "is_digit c" by (rule format_uint_hd)
  then have c: "c \<noteq> CHR ''-''" "c \<noteq> CHR ''+''" by auto
  have "nat i < 2 ^ 63" using assms False by (simp add: nat_less_iff)
  moreover from this have "parse_uint64 (c # cs) = Some (nat i)"
    using parse_uint64_format [of "nat i"] f(1) by simp
  ultimately show ?thesis using c f(1) False by (simp add: format_int_def parse_int64_def)
qed

section \<open>Splitting lemmas\<close>

lemma split_first_None_iff: "split_first c s = None \<longleftrightarrow> c \<notin> set s"
  by (induction s) auto

lemma split_first_append [simp]: "c \<notin> set a \<Longrightarrow> split_first c (a @ c # b) = Some (a, b)"
  by (induction a) auto

lemma split_first_Some: "split_first c s = Some (a, b) \<Longrightarrow> s = a @ c # b \<and> c \<notin> set a"
  by (induction s arbitrary: a) (auto split: if_splits)

lemma split_on_ne [simp]: "split_on c s \<noteq> []"
  by (induction s) (auto split: list.splits)

lemma join_split_on: "join [c] (split_on c s) = s"
proof (induction s)
  case (Cons x s)
  obtain y ys where y: "split_on c s = y # ys" by (meson list.exhaust split_on_ne)
  with Cons.IH show ?case by (cases ys) auto
qed simp

lemma split_on_sep_free: "p \<in> set (split_on c s) \<Longrightarrow> c \<notin> set p"
proof (induction s arbitrary: p)
  case (Cons x s)
  obtain y ys where y: "split_on c s = y # ys" by (meson list.exhaust split_on_ne)
  with Cons show ?case by (auto split: if_splits)
qed simp

lemma split_on_no_sep: "c \<notin> set s \<Longrightarrow> split_on c s = [s]"
  by (induction s) auto

lemma split_on_append: "c \<notin> set a \<Longrightarrow> split_on c (a @ c # b) = a # split_on c b"
  by (induction a) auto

end
