(* ===== verification/Json.thy ===== *)
theory Json
  imports GoLib "HOL-Library.List_Lexorder" "HOL-Library.Char_ord"
begin

text \<open>
  JSON documents as the database and Go see them.  A \<open>JSONB\<close> value is a document whose objects have
  unique, ordered keys (the last duplicate wins), compared structurally; \<open>jsonb\<close> is that
  normalisation.  Go's \<open>json.Unmarshal\<close> into an \<open>any\<close> followed by \<open>json.Marshal\<close> also orders keys,
  and turns every number into a \<open>float64\<close>; \<open>go_any\<close> is that normalisation.  Numbers are the integer
  literals, which is what the resource types marshal to; \<open>f64\<close> is rounding to the nearest
  double, ties to even.
\<close>

datatype json =
    JNull
  | JBool bool
  | JNum int
  | JStr string
  | JArr "json list"
  | JObj "(string \<times> json) list"

section \<open>Normal forms\<close>

fun kv_upd :: "'k::linorder \<Rightarrow> 'v \<Rightarrow> ('k \<times> 'v) list \<Rightarrow> ('k \<times> 'v) list" where
  "kv_upd k v [] = [(k, v)]"
| "kv_upd k v ((k', v') # kvs) =
     (if k < k' then (k, v) # (k', v') # kvs
      else if k = k' then (k, v) # kvs
      else (k', v') # kv_upd k v kvs)"

definition obj_norm :: "('k::linorder \<times> 'v) list \<Rightarrow> ('k \<times> 'v) list" where
  "obj_norm kvs = fold (\<lambda>(k, v). kv_upd k v) kvs []"

primrec canon :: "(int \<Rightarrow> int) \<Rightarrow> json \<Rightarrow> json" where
  "canon f JNull = JNull"
| "canon f (JBool b) = JBool b"
| "canon f (JNum n) = JNum (f n)"
| "canon f (JStr s) = JStr s"
| "canon f (JArr js) = JArr (map (canon f) js)"
| "canon f (JObj kvs) = JObj (obj_norm (map (map_prod id (canon f)) kvs))"

definition jsonb :: "json \<Rightarrow> json" where
  "jsonb j = canon (\<lambda>n. n) j"

section \<open>Integers as float64\<close>

fun excess_bits :: "nat \<Rightarrow> nat" where
  "excess_bits n = (if n < 2 ^ 53 then 0 else Suc (excess_bits (n div 2)))"

declare excess_bits.simps [simp del]

definition f64_nat :: "nat \<Rightarrow> nat" where
  "f64_nat n =
     (let e = excess_bits n in
      if e = 0 then n
      else let q = n div 2 ^ e; r = n mod 2 ^ e; half = 2 ^ (e - 1)
           in (if half < r \<or> (r = half \<and> odd q) then q + 1 else q) * 2 ^ e)"

definition f64 :: "int \<Rightarrow> int" where
  "f64 i = (if i < 0 then - int (f64_nat (nat (- i))) else int (f64_nat (nat i)))"

definition go_any :: "json \<Rightarrow> json" where
  "go_any j = canon f64 j"

primrec f64_fits :: "json \<Rightarrow> bool" where
  "f64_fits JNull = True"
| "f64_fits (JBool b) = True"
| "f64_fits (JNum n) = (\<bar>f64 n\<bar> < 2 ^ 1024)"
| "f64_fits (JStr s) = True"
| "f64_fits (JArr js) = list_all id (map f64_fits js)"
| "f64_fits (JObj kvs) = list_all snd (map (map_prod id f64_fits) kvs)"

text \<open>\<open>writer.JSONEqual\<close>: an empty \<open>json.RawMessage\<close> is \<open>None\<close>.\<close>

definition JSONEqual :: "json option \<Rightarrow> json option \<Rightarrow> bool" where
  "JSONEqual a b =
     (case (a, b) of
        (None, None) \<Rightarrow> True
      | (Some x, Some y) \<Rightarrow> f64_fits x \<and> f64_fits y \<and> go_any x = go_any y
      | _ \<Rightarrow> False)"

section \<open>Object access\<close>

text \<open>The operator \<open>->\<close> on a \<open>JSONB\<close> value: SQL \<open>NULL\<close> (here \<open>None\<close>) unless the value is an object that
  has the key.\<close>

definition jget :: "string \<Rightarrow> json \<Rightarrow> json option" where
  "jget k j = (case j of JObj kvs \<Rightarrow> map_of kvs k | _ \<Rightarrow> None)"

section \<open>Facts\<close>

lemma map_of_kv_upd [simp]: "map_of (kv_upd k v kvs) = (map_of kvs)(k \<mapsto> v)"
  by (induction k v kvs rule: kv_upd.induct) auto

lemma map_of_fold_kv_upd:
  "map_of (fold (\<lambda>(k, v). kv_upd k v) kvs acc) = map_of acc ++ map_of (rev kvs)"
proof (induction kvs arbitrary: acc)
  case (Cons kv kvs)
  obtain k v where kv: "kv = (k, v)" by fastforce
  show ?case by (simp add: kv Cons.IH map_add_def fun_eq_iff split: option.splits)
qed simp

lemma map_of_obj_norm: "map_of (obj_norm kvs) = map_of (rev kvs)"
  by (simp add: obj_norm_def map_of_fold_kv_upd)

lemma map_of_rev_distinct: "distinct (map fst kvs) \<Longrightarrow> map_of (rev kvs) = map_of kvs"
proof (induction kvs)
  case (Cons kv kvs)
  obtain k v where kv: "kv = (k, v)" by fastforce
  have "map_of kvs k = None" using Cons.prems kv by (simp add: map_of_eq_None_iff)
  with Cons show ?case by (auto simp: kv map_add_def fun_eq_iff split: option.splits)
qed simp

lemma set_kv_upd: "set (map fst (kv_upd k v kvs)) = insert k (set (map fst kvs))"
  by (induction k v kvs rule: kv_upd.induct) auto

lemma excess_bits_small [simp]: "n < 2 ^ 53 \<Longrightarrow> excess_bits n = 0"
  by (subst excess_bits.simps) simp

lemma f64_exact [simp]: "\<bar>i\<bar> < 2 ^ 53 \<Longrightarrow> f64 i = i"
  by (auto simp: f64_def f64_nat_def Let_def nat_less_iff)

primrec nums :: "json \<Rightarrow> int list" where
  "nums JNull = []"
| "nums (JBool b) = []"
| "nums (JNum n) = [n]"
| "nums (JStr s) = []"
| "nums (JArr js) = concat (map nums js)"
| "nums (JObj kvs) = concat (map snd (map (map_prod id nums) kvs))"

definition small_nums :: "json \<Rightarrow> bool" where
  "small_nums j \<longleftrightarrow> (\<forall>n \<in> set (nums j). \<bar>n\<bar> < 2 ^ 53)"

lemma json_tree_induct [case_names JNull JBool JNum JStr JArr JObj]:
  assumes "P JNull" "\<And>b. P (JBool b)" "\<And>n. P (JNum n)" "\<And>s. P (JStr s)"
    and "\<And>js. (\<And>j. j \<in> set js \<Longrightarrow> P j) \<Longrightarrow> P (JArr js)"
    and "\<And>kvs. (\<And>k v. (k, v) \<in> set kvs \<Longrightarrow> P v) \<Longrightarrow> P (JObj kvs)"
  shows "P j"
proof (induction j)
  case (JObj kvs)
  then have "P v" if "(k, v) \<in> set kvs" for k v using that by (metis snds.intros snd_conv)
  then show ?case by (rule assms(6))
qed (auto intro: assms)

lemma nums_JObj: "set (nums (JObj kvs)) = (\<Union>(k, v) \<in> set kvs. set (nums v))"
  by force

lemma canon_cong_nums: "(\<And>n. n \<in> set (nums j) \<Longrightarrow> f n = g n) \<Longrightarrow> canon f j = canon g j"
proof (induction j rule: json_tree_induct)
  case (JObj kvs)
  have "canon f v = canon g v" if "(k, v) \<in> set kvs" for k v
    using JObj.IH [OF that] JObj.prems that unfolding nums_JObj by blast
  then have "map (map_prod id (canon f)) kvs = map (map_prod id (canon g)) kvs" by auto
  then show ?case by (simp only: canon.simps)
qed auto

lemma go_any_jsonb: "small_nums j \<Longrightarrow> go_any j = jsonb j"
  unfolding go_any_def jsonb_def by (rule canon_cong_nums) (simp add: small_nums_def)

lemma f64_fits_small: "small_nums j \<Longrightarrow> f64_fits j"
proof (induction j rule: json_tree_induct)
  case (JNum n)
  then have "\<bar>n\<bar> < (2::int) ^ 53" by (simp add: small_nums_def)
  moreover have "(2::int) ^ 53 < 2 ^ 1024" by (rule power_strict_increasing) simp_all
  ultimately have "\<bar>n\<bar> < (2::int) ^ 1024" by (rule less_trans)
  then show ?case using \<open>\<bar>n\<bar> < 2 ^ 53\<close> by (simp only: f64_fits.simps f64_exact)
next
  case (JArr js)
  then show ?case by (auto simp: small_nums_def list_all_iff)
next
  case (JObj kvs)
  have "f64_fits v" if "(k, v) \<in> set kvs" for k v
    using JObj.IH [OF that] JObj.prems that unfolding small_nums_def nums_JObj by blast
  then show ?case by (auto simp: list_all_iff)
qed auto

text \<open>Normal forms are normal: \<open>jsonb\<close> is idempotent.\<close>

lemma set_kv_upd_subset: "set (kv_upd k v kvs) \<subseteq> insert (k, v) (set kvs)"
  by (induction k v kvs rule: kv_upd.induct) auto

lemma sorted_distinct_kv_upd:
  "sorted (map fst kvs) \<Longrightarrow> distinct (map fst kvs) \<Longrightarrow>
     sorted (map fst (kv_upd k v kvs)) \<and> distinct (map fst (kv_upd k v kvs))"
proof (induction k v kvs rule: kv_upd.induct)
  case (2 k v k' v' kvs)
  have "set (map fst (kv_upd k v kvs)) = insert k (set (map fst kvs))" by (rule set_kv_upd)
  with 2 show ?case by (fastforce simp: less_imp_le order.strict_trans2 dest: leD)
qed simp

lemma obj_norm_props:
  "sorted (map fst (obj_norm kvs)) \<and> distinct (map fst (obj_norm kvs)) \<and>
   set (obj_norm kvs) \<subseteq> set kvs"
proof (induction kvs rule: rev_induct)
  case (snoc kv kvs)
  obtain k v where kv: "kv = (k, v)" by fastforce
  then have "obj_norm (kvs @ [kv]) = kv_upd k v (obj_norm kvs)" by (simp add: obj_norm_def)
  with snoc show ?case
    using sorted_distinct_kv_upd [of "obj_norm kvs" k v] set_kv_upd_subset [of k v "obj_norm kvs"]
    by (auto simp: kv)
qed (simp add: obj_norm_def)

lemma kv_upd_last: "\<forall>k' \<in> set (map fst kvs). k' < k \<Longrightarrow> kv_upd k v kvs = kvs @ [(k, v)]"
  by (induction k v kvs rule: kv_upd.induct) auto

lemma obj_norm_snoc: "obj_norm (kvs @ [(k, v)]) = kv_upd k v (obj_norm kvs)"
  by (simp add: obj_norm_def)

lemma obj_norm_sorted:
  "distinct (map fst kvs) \<Longrightarrow> sorted (map fst kvs) \<Longrightarrow> obj_norm kvs = kvs"
proof (induction kvs rule: rev_induct)
  case (snoc kv kvs)
  obtain k v where kv: "kv = (k, v)" by fastforce
  have "\<forall>k' \<in> set (map fst kvs). k' < k"
    using snoc.prems by (auto simp: kv sorted_append order_less_le image_iff)
  with snoc show ?case by (simp add: kv obj_norm_snoc kv_upd_last sorted_append)
qed (simp add: obj_norm_def)

lemma jsonb_idem [simp]: "jsonb (jsonb j) = jsonb j"
  unfolding jsonb_def
proof (induction j rule: json_tree_induct)
  case (JObj kvs)
  let ?c = "map_prod id (canon (\<lambda>n. n)) :: string \<times> json \<Rightarrow> string \<times> json"
  let ?n = "obj_norm (map ?c kvs)"
  have p: "sorted (map fst ?n)" "distinct (map fst ?n)" "set ?n \<subseteq> set (map ?c kvs)"
    using obj_norm_props [of "map ?c kvs"] by auto
  have "?c kv = kv" if n: "kv \<in> set ?n" for kv
  proof -
    from n p(3) have "kv \<in> ?c ` set kvs" by (simp only: set_map [symmetric] subset_iff)
    then obtain k v where "(k, v) \<in> set kvs" "kv = (k, canon (\<lambda>n. n) v)" by auto
    then show ?thesis using JObj.IH [of k v] by (simp only: map_prod_simp id_apply)
  qed
  then have "map ?c ?n = ?n" by (simp add: map_idI)
  then show ?case using obj_norm_sorted [OF p(2,1)] by (simp only: canon.simps)
qed auto

lemma nums_canon_subset: "set (nums (canon (\<lambda>n. n) j)) \<subseteq> set (nums j)"
proof (induction j rule: json_tree_induct)
  case (JObj kvs)
  let ?c = "map_prod id (canon (\<lambda>n. n)) :: string \<times> json \<Rightarrow> string \<times> json"
  have "set (obj_norm (map ?c kvs)) \<subseteq> set (map ?c kvs)" using obj_norm_props by blast
  then have "set (nums (JObj (obj_norm (map ?c kvs)))) \<subseteq> set (nums (JObj (map ?c kvs)))"
    unfolding nums_JObj by blast
  also have "\<dots> \<subseteq> set (nums (JObj kvs))" unfolding nums_JObj using JObj.IH by fastforce
  finally show ?case by (simp only: canon.simps)
qed auto

lemma small_nums_jsonb: "small_nums j \<Longrightarrow> small_nums (jsonb j)"
  unfolding small_nums_def jsonb_def using nums_canon_subset by blast

text \<open>Go's comparison of two documents and the database's agree on documents whose integers are
  below \<open>2\<^sup>5\<^sup>3\<close> in magnitude.\<close>

lemma JSONEqual_jsonb:
  "small_nums a \<Longrightarrow> small_nums b \<Longrightarrow> JSONEqual (Some a) (Some b) \<longleftrightarrow> jsonb a = jsonb b"
  by (simp add: JSONEqual_def f64_fits_small go_any_jsonb)

text \<open>They disagree beyond it: Go's comparison identifies these two documents.\<close>

lemma f64_collision: "f64 (2 ^ 53) = f64 (2 ^ 53 + 1)"
  by (simp add: f64_def f64_nat_def excess_bits.simps)

end
