(* ===== verification/Metadata.thy ===== *)
theory Metadata
  imports Json
begin

text \<open>
  Object metadata as it is stored (\<open>seaplane-db/convert.go\<close>): the \<open>storedMetadata\<close> struct, its JSON
  encoding with \<open>omitempty\<close>, its decoding, and the finalizer test in Go and in SQL.  Labels and
  annotations are Go maps, represented by key-ordered association lists (which is how
  \<open>json.Marshal\<close> emits them); an owner reference is an opaque JSON object, since its type belongs
  to \<open>apimachinery\<close>.  Field names are matched exactly: the only writer of the column is
  \<open>extractMetadata\<close>, which emits exactly these names.
\<close>

record storedMetadata =
  sm_Labels :: "(string \<times> string) list"
  sm_Annotations :: "(string \<times> string) list"
  sm_OwnerReferences :: "json list"
  sm_Finalizers :: "string list"
  sm_Generation :: int

definition empty_metadata :: storedMetadata where
  "empty_metadata = \<lparr>sm_Labels = [], sm_Annotations = [], sm_OwnerReferences = [],
                      sm_Finalizers = [], sm_Generation = 0\<rparr>"

section \<open>Encoding\<close>

definition str_obj :: "(string \<times> string) list \<Rightarrow> json" where
  "str_obj m = JObj (map (\<lambda>(k, v). (k, JStr v)) m)"

definition omitempty :: "bool \<Rightarrow> string \<Rightarrow> json \<Rightarrow> (string \<times> json) list" where
  "omitempty e k v = (if e then [] else [(k, v)])"

text \<open>\<open>extractMetadata\<close>: the struct literal filled from the object's accessors, marshalled.\<close>

definition meta_fields :: "storedMetadata \<Rightarrow> (string \<times> json) list" where
  "meta_fields sm =
     (omitempty (sm_Labels sm = []) ''labels'' (str_obj (sm_Labels sm))
         @ omitempty (sm_Annotations sm = []) ''annotations'' (str_obj (sm_Annotations sm))
         @ omitempty (sm_OwnerReferences sm = []) ''ownerReferences'' (JArr (sm_OwnerReferences sm))
         @ omitempty (sm_Finalizers sm = []) ''finalizers'' (JArr (map JStr (sm_Finalizers sm)))
         @ omitempty (sm_Generation sm = 0) ''generation'' (JNum (sm_Generation sm)))"

definition extractMetadata :: "storedMetadata \<Rightarrow> json" where
  "extractMetadata sm = JObj (meta_fields sm)"

section \<open>Decoding\<close>

fun dec_str :: "json \<Rightarrow> string option" where
  "dec_str (JStr s) = Some s"
| "dec_str JNull = Some []"
| "dec_str _ = None"

fun dec_list :: "('a \<Rightarrow> 'b option) \<Rightarrow> 'a list \<Rightarrow> 'b list option" where
  "dec_list f [] = Some []"
| "dec_list f (x # xs) =
     (case (f x, dec_list f xs) of (Some y, Some ys) \<Rightarrow> Some (y # ys) | _ \<Rightarrow> None)"

definition dec_str_map :: "json \<Rightarrow> (string \<times> string) list option" where
  "dec_str_map j =
     (case j of
        JObj kvs \<Rightarrow> dec_list (\<lambda>(k, v). map_option (Pair k) (dec_str v)) kvs
      | JNull \<Rightarrow> Some []
      | _ \<Rightarrow> None)"

definition dec_str_list :: "json \<Rightarrow> string list option" where
  "dec_str_list j = (case j of JArr js \<Rightarrow> dec_list dec_str js | JNull \<Rightarrow> Some [] | _ \<Rightarrow> None)"

fun dec_owner :: "json \<Rightarrow> json option" where
  "dec_owner (JObj kvs) = Some (JObj kvs)"
| "dec_owner JNull = Some (JObj [])"
| "dec_owner _ = None"

definition dec_owners :: "json \<Rightarrow> json list option" where
  "dec_owners j = (case j of JArr js \<Rightarrow> dec_list dec_owner js | JNull \<Rightarrow> Some [] | _ \<Rightarrow> None)"

definition dec_int64 :: "json \<Rightarrow> int option" where
  "dec_int64 j =
     (case j of
        JNum n \<Rightarrow> if - (2 ^ 63) \<le> n \<and> n < 2 ^ 63 then Some n else None
      | JNull \<Rightarrow> Some 0
      | _ \<Rightarrow> None)"

definition dec_field :: "string \<Rightarrow> (json \<Rightarrow> 'a option) \<Rightarrow> 'a \<Rightarrow> json \<Rightarrow> 'a option" where
  "dec_field k dec zero j = (case jget k j of None \<Rightarrow> Some zero | Some v \<Rightarrow> dec v)"

text \<open>\<open>json.Unmarshal(metadata, &sm)\<close>; \<open>None\<close> is an error.  A \<open>null\<close> document leaves the struct zero.\<close>

definition unmarshalMetadata :: "json \<Rightarrow> storedMetadata option" where
  "unmarshalMetadata j =
     (case j of
        JObj _ \<Rightarrow>
          Option.bind (dec_field ''labels'' dec_str_map [] j) (\<lambda>ls.
          Option.bind (dec_field ''annotations'' dec_str_map [] j) (\<lambda>as.
          Option.bind (dec_field ''ownerReferences'' dec_owners [] j) (\<lambda>os.
          Option.bind (dec_field ''finalizers'' dec_str_list [] j) (\<lambda>fs.
          Option.bind (dec_field ''generation'' dec_int64 0 j) (\<lambda>g.
            Some \<lparr>sm_Labels = ls, sm_Annotations = as, sm_OwnerReferences = os,
                  sm_Finalizers = fs, sm_Generation = g\<rparr>)))))
      | JNull \<Rightarrow> Some empty_metadata
      | _ \<Rightarrow> None)"

definition currentGeneration :: "json \<Rightarrow> int" where
  "currentGeneration m = (case unmarshalMetadata m of None \<Rightarrow> 0 | Some sm \<Rightarrow> sm_Generation sm)"

section \<open>Finalizers, in Go and in SQL\<close>

definition hasFinalizers :: "json \<Rightarrow> bool" where
  "hasFinalizers m =
     (case unmarshalMetadata m of None \<Rightarrow> False | Some sm \<Rightarrow> sm_Finalizers sm \<noteq> [])"

text \<open>\<open>metadata->'finalizers' IS NULL OR metadata->'finalizers' = '[]'::jsonb\<close>, in the compactor, the
  tombstone revival of the stored procedure and of the multi-statement writer.\<close>

definition sql_no_finalizers :: "json \<Rightarrow> bool" where
  "sql_no_finalizers m = (case jget ''finalizers'' m of None \<Rightarrow> True | Some v \<Rightarrow> v = JArr [])"

text \<open>\<open>metadata->'finalizers' != '[]'::jsonb\<close>, in the list query: \<open>NULL\<close>, hence not selected, when the
  key is missing.\<close>

definition sql_has_finalizers :: "json \<Rightarrow> bool" where
  "sql_has_finalizers m = (case jget ''finalizers'' m of None \<Rightarrow> False | Some v \<Rightarrow> v \<noteq> JArr [])"

lemma sql_has_finalizers_iff [simp]: "sql_has_finalizers m \<longleftrightarrow> \<not> sql_no_finalizers m"
  by (simp add: sql_has_finalizers_def sql_no_finalizers_def split: option.splits)

section \<open>What \<open>extractMetadata\<close> writes\<close>

definition valid_sm :: "storedMetadata \<Rightarrow> bool" where
  "valid_sm sm \<longleftrightarrow>
     distinct (map fst (sm_Labels sm)) \<and> sorted (map fst (sm_Labels sm)) \<and>
     distinct (map fst (sm_Annotations sm)) \<and> sorted (map fst (sm_Annotations sm)) \<and>
     list_all (\<lambda>j. (case j of JObj kvs \<Rightarrow> jsonb j = j | _ \<Rightarrow> False)) (sm_OwnerReferences sm) \<and>
     - (2 ^ 63) \<le> sm_Generation sm \<and> sm_Generation sm < 2 ^ 63"

text \<open>The metadata documents that the column can hold: \<open>JSONB\<close> images of \<open>extractMetadata\<close>.\<close>

definition stored_meta :: "json \<Rightarrow> bool" where
  "stored_meta m \<longleftrightarrow> (\<exists>sm. valid_sm sm \<and> m = jsonb (extractMetadata sm))"

lemma dec_list_map: "(\<And>x. x \<in> set xs \<Longrightarrow> f (g x) = Some x) \<Longrightarrow> dec_list f (map g xs) = Some xs"
  by (induction xs) auto

lemma jsonb_str_obj:
  assumes "distinct (map fst m)" "sorted (map fst m)"
  shows "jsonb (str_obj m) = str_obj m"
proof -
  let ?m = "map (\<lambda>(k, v). (k, JStr v)) m"
  have keys: "map fst ?m = map fst m" by (simp add: comp_def case_prod_beta)
  have "map (map_prod id (canon (\<lambda>n. n))) ?m = ?m" by (simp add: case_prod_beta)
  then have "jsonb (str_obj m) = JObj (obj_norm ?m)"
    by (simp only: jsonb_def str_obj_def canon.simps)
  also have "obj_norm ?m = ?m" using assms by (intro obj_norm_sorted) (simp_all only: keys)
  finally show ?thesis by (simp add: str_obj_def)
qed

lemma dec_str_map_str_obj [simp]: "dec_str_map (str_obj m) = Some m"
  unfolding dec_str_map_def str_obj_def
  by (simp add: dec_list_map [of m _ "\<lambda>(k, v). (k, JStr v)"] case_prod_beta)

lemma dec_str_list_strs [simp]: "dec_str_list (JArr (map JStr fs)) = Some fs"
  by (simp add: dec_str_list_def dec_list_map)

lemma jget_JObj [simp]: "jget k (JObj kvs) = map_of kvs k"
  by (simp add: jget_def)

lemma map_of_map_prod: "map_of (map (map_prod id g) kvs) k = map_option g (map_of kvs k)"
  by (induction kvs) auto

lemma jget_jsonb:
  assumes "distinct (map fst kvs)"
  shows "jget k (jsonb (JObj kvs)) = map_option jsonb (map_of kvs k)"
proof -
  have d: "distinct (map fst (map (map_prod id (canon (\<lambda>n. n))) kvs))" using assms by (simp add: comp_def)
  have "jget k (jsonb (JObj kvs)) = map_of (obj_norm (map (map_prod id (canon (\<lambda>n. n))) kvs)) k"
    by (simp only: jsonb_def canon.simps jget_JObj)
  also have "\<dots> = map_of (map (map_prod id (canon (\<lambda>n. n))) kvs) k"
    by (simp only: map_of_obj_norm map_of_rev_distinct [OF d])
  finally show ?thesis by (simp only: map_of_map_prod jsonb_def [abs_def])
qed

lemma distinct_meta_fields: "distinct (map fst (meta_fields sm))"
  by (simp add: meta_fields_def omitempty_def)

lemma meta_fields_lookup:
  "map_of (meta_fields sm) ''labels'' = (if sm_Labels sm = [] then None else Some (str_obj (sm_Labels sm)))"
  "map_of (meta_fields sm) ''annotations'' =
     (if sm_Annotations sm = [] then None else Some (str_obj (sm_Annotations sm)))"
  "map_of (meta_fields sm) ''ownerReferences'' =
     (if sm_OwnerReferences sm = [] then None else Some (JArr (sm_OwnerReferences sm)))"
  "map_of (meta_fields sm) ''finalizers'' =
     (if sm_Finalizers sm = [] then None else Some (JArr (map JStr (sm_Finalizers sm))))"
  "map_of (meta_fields sm) ''generation'' =
     (if sm_Generation sm = 0 then None else Some (JNum (sm_Generation sm)))"
  by (simp_all add: meta_fields_def omitempty_def)

lemma jget_extract:
  "jget k (jsonb (extractMetadata sm)) = map_option jsonb (map_of (meta_fields sm) k)"
  by (simp add: extractMetadata_def jget_jsonb distinct_meta_fields)

lemma jsonb_JArr_strs: "jsonb (JArr (map JStr fs)) = JArr (map JStr fs)"
  by (simp add: jsonb_def comp_def)

lemma owners_ok:
  assumes "list_all (\<lambda>j. (case j of JObj kvs \<Rightarrow> jsonb j = j | _ \<Rightarrow> False)) os"
  shows "dec_owners (jsonb (JArr os)) = Some os"
proof -
  have "map (canon (\<lambda>n. n)) os = os"
    using assms by (induction os) (auto simp: jsonb_def split: json.splits)
  moreover have "dec_list dec_owner os = Some os"
    using assms by (induction os) (auto split: json.splits)
  ultimately show ?thesis by (simp add: jsonb_def dec_owners_def)
qed

lemma unmarshal_extract:
  assumes "valid_sm sm"
  shows "unmarshalMetadata (jsonb (extractMetadata sm)) = Some sm"
proof -
  let ?j = "jsonb (extractMetadata sm)"
  obtain kvs where j: "?j = JObj kvs"
    by (simp add: extractMetadata_def jsonb_def)
  have l: "dec_field ''labels'' dec_str_map [] ?j = Some (sm_Labels sm)"
    and a: "dec_field ''annotations'' dec_str_map [] ?j = Some (sm_Annotations sm)"
    and ow: "dec_field ''ownerReferences'' dec_owners [] ?j = Some (sm_OwnerReferences sm)"
    and f: "dec_field ''finalizers'' dec_str_list [] ?j = Some (sm_Finalizers sm)"
    and g: "dec_field ''generation'' dec_int64 0 ?j = Some (sm_Generation sm)"
    using assms
    by (auto simp: dec_field_def jget_extract meta_fields_lookup valid_sm_def jsonb_str_obj
        jsonb_JArr_strs owners_ok dec_int64_def jsonb_def [of "JNum _"])
  then show ?thesis unfolding j by (simp add: unmarshalMetadata_def)
qed

text \<open>Decoding the metadata column gives back exactly the labels, annotations, owner references,
  finalizers and generation that \<open>extractMetadata\<close> stored there.\<close>
theorem metadata_roundtrip:
  "valid_sm sm \<Longrightarrow> unmarshalMetadata (jsonb (extractMetadata sm)) = Some sm"
  by (rule unmarshal_extract)

definition sm_ex :: storedMetadata where
  "sm_ex = \<lparr>sm_Labels = [(''app'', ''x'')], sm_Annotations = [], sm_OwnerReferences = [],
            sm_Finalizers = [''seaplane.io/cluster''], sm_Generation = 3\<rparr>"

lemma stored_meta_unmarshal:
  assumes "stored_meta m"
  obtains sm where "valid_sm sm" "unmarshalMetadata m = Some sm"
    "jget ''finalizers'' m =
       (if sm_Finalizers sm = [] then None else Some (JArr (map JStr (sm_Finalizers sm))))"
proof -
  from assms obtain sm where sm: "valid_sm sm" "m = jsonb (extractMetadata sm)"
    by (auto simp: stored_meta_def)
  have "unmarshalMetadata m = Some sm"
    using sm(1) unfolding sm(2) by (rule unmarshal_extract)
  moreover have "jget ''finalizers'' m =
       (if sm_Finalizers sm = [] then None else Some (JArr (map JStr (sm_Finalizers sm))))"
    by (simp add: sm(2) jget_extract meta_fields_lookup jsonb_JArr_strs)
  ultimately show thesis using that sm(1) by blast
qed

text \<open>On stored metadata, the SQL tests of the tombstone filters and the Go test agree.\<close>

lemma stored_meta_finalizers: "stored_meta m \<Longrightarrow> hasFinalizers m \<longleftrightarrow> \<not> sql_no_finalizers m"
  by (erule stored_meta_unmarshal) (auto simp: hasFinalizers_def sql_no_finalizers_def)

lemma stored_meta_empty: "stored_meta (JObj [])"
proof -
  have "valid_sm empty_metadata" "jsonb (extractMetadata empty_metadata) = JObj []"
    by (simp_all add: valid_sm_def empty_metadata_def extractMetadata_def meta_fields_def omitempty_def
        jsonb_def obj_norm_def)
  then show ?thesis unfolding stored_meta_def by metis
qed

end
