(* ===== verification/Store.thy ===== *)
theory Store
  imports Metadata "HOL-Library.Word"
begin

text \<open>
  The \<open>kubernetes_resources\<close> table and the write procedure \<open>pgctl_write\<close> of
  \<open>seaplane-db/internal/schema/migrations/001_initial.sql\<close>, statement by statement, with the request
  types of \<open>seaplane-db/internal/model/types.go\<close>.

  The table is a finite map from its primary key \<open>(gvk, namespace, name)\<close> to the other columns.
  \<open>JSONB\<close> columns hold normal forms (\<open>jsonb\<close>).  SQL \<open>NULL\<close> is \<open>None\<close>; an SQL comparison with \<open>NULL\<close> is
  not true.  What the procedure takes from the server, \<open>pg_current_xact_id()\<close>,
  \<open>gen_random_uuid()\<close> and \<open>now()\<close>, is the argument \<open>tx_env\<close>.  The procedure is modelled as its two
  statements, the suppression check and the upsert, because under READ COMMITTED each of them reads
  its own snapshot; \<open>pgctl_write\<close> composes them on one table.
\<close>

type_synonym uuid = "128 word"
type_synonym time = int
type_synonym key = "string \<times> string \<times> string"

abbreviation key_gvk :: "key \<Rightarrow> string" where "key_gvk k \<equiv> fst k"
abbreviation key_ns :: "key \<Rightarrow> string" where "key_ns k \<equiv> fst (snd k)"
abbreviation key_name :: "key \<Rightarrow> string" where "key_name k \<equiv> snd (snd k)"

record row =
  r_uid :: uuid
  r_txid :: nat
  r_version :: int
  r_spec :: json
  r_status :: json
  r_metadata :: json
  r_deletion :: "time option"
  r_created :: time
  r_updated :: time

type_synonym resource = "key \<times> row"
type_synonym table = "key \<rightharpoonup> row"

record tx_env =
  te_txid :: nat
  te_uuid :: uuid
  te_now :: time

section \<open>Requests\<close>

record writeParams =
  wp_statusOnly :: bool
  wp_gvk :: string
  wp_namespace :: string
  wp_name :: string
  wp_expectedVersion :: int
  wp_expectedUID :: "uuid option"
  wp_forceWrite :: bool
  wp_spec :: "json option"
  wp_status :: "json option"
  wp_metadata :: "json option"
  wp_deletionTimestamp :: "time option"

definition wp_key :: "writeParams \<Rightarrow> key" where
  "wp_key p = (wp_gvk p, wp_namespace p, wp_name p)"

section \<open>Lifecycle states\<close>

definition is_live :: "row \<Rightarrow> bool" where
  "is_live r \<longleftrightarrow> r_deletion r = None"

definition is_tombstone :: "row \<Rightarrow> bool" where
  "is_tombstone r \<longleftrightarrow> r_deletion r \<noteq> None \<and> sql_no_finalizers (r_metadata r)"

definition is_dying :: "row \<Rightarrow> bool" where
  "is_dying r \<longleftrightarrow> r_deletion r \<noteq> None \<and> \<not> sql_no_finalizers (r_metadata r)"

section \<open>pgctl_write\<close>

text \<open>A raised exception carries its SQLSTATE.\<close>

type_synonym sqlstate = string

abbreviation "sql_conflict \<equiv> ''P0002''"
abbreviation "sql_already_exists \<equiv> ''P0003''"
abbreviation "sql_status_version \<equiv> ''P0004''"
abbreviation "sql_not_null \<equiv> ''23502''"

record proc_result =
  out_uid :: uuid
  out_version :: int
  out_txid :: nat
  out_changed :: bool

text \<open>The guard of every \<open>UPDATE ... WHERE object_version = p_expected_version AND (p_expected_uid IS NULL
  OR uid = p_expected_uid)\<close>.\<close>

definition row_matches :: "writeParams \<Rightarrow> row \<Rightarrow> bool" where
  "row_matches p r \<longleftrightarrow>
     r_version r = wp_expectedVersion p \<and>
     (case wp_expectedUID p of None \<Rightarrow> True | Some u \<Rightarrow> r_uid r = u)"

definition content_equal :: "writeParams \<Rightarrow> row \<Rightarrow> bool" where
  "content_equal p r \<longleftrightarrow>
     (if wp_statusOnly p then map_option jsonb (wp_status p) = Some (r_status r)
      else map_option jsonb (wp_spec p) = Some (r_spec r) \<and>
           (case wp_status p of None \<Rightarrow> True | Some s \<Rightarrow> r_status r = jsonb s) \<and>
           map_option jsonb (wp_metadata p) = Some (r_metadata r) \<and>
           r_deletion r = wp_deletionTimestamp p)"

text \<open>Step 1.  \<open>Inr (Some _)\<close> is the early return of a suppressed write.\<close>

definition suppression_check :: "writeParams \<Rightarrow> table \<Rightarrow> sqlstate + proc_result option" where
  "suppression_check p t =
     (if \<not> wp_forceWrite p \<and> wp_expectedVersion p > 0 then
        (case t (wp_key p) of
           None \<Rightarrow> Inr None
         | Some ex \<Rightarrow>
             if \<not> row_matches p ex then Inl sql_conflict
             else if content_equal p ex
             then Inr (Some \<lparr>out_uid = r_uid ex, out_version = r_version ex, out_txid = 0,
                             out_changed = False\<rparr>)
             else Inr None)
      else Inr None)"

definition changed_result :: "tx_env \<Rightarrow> row \<Rightarrow> proc_result" where
  "changed_result e r =
     \<lparr>out_uid = r_uid r, out_version = r_version r, out_txid = te_txid e, out_changed = True\<rparr>"

text \<open>Step 2, branch A: the status update.\<close>

definition upsert_status :: "tx_env \<Rightarrow> writeParams \<Rightarrow> table \<Rightarrow> sqlstate + proc_result \<times> table" where
  "upsert_status e p t =
     (if wp_expectedVersion p = 0 then Inl sql_status_version
      else case t (wp_key p) of
        None \<Rightarrow> Inl sql_conflict
      | Some r \<Rightarrow>
          if \<not> row_matches p r then Inl sql_conflict
          else (case wp_status p of
                  None \<Rightarrow> Inl sql_not_null
                | Some s \<Rightarrow>
                    let r' = r\<lparr>r_txid := te_txid e, r_version := r_version r + 1,
                               r_status := jsonb s, r_updated := te_now e\<rparr>
                    in Inr (changed_result e r', t(wp_key p \<mapsto> r'))))"

text \<open>Branch B: create.  The column constraints of the \<open>INSERT\<close> are checked before its primary key; on
  a key that is taken, a tombstone is overwritten as a fresh resource.\<close>

definition upsert_create :: "tx_env \<Rightarrow> writeParams \<Rightarrow> table \<Rightarrow> sqlstate + proc_result \<times> table" where
  "upsert_create e p t =
     (case (wp_spec p, wp_status p, wp_metadata p) of
        (Some sp, Some st, Some md) \<Rightarrow>
          (case t (wp_key p) of
             None \<Rightarrow>
               let r' = \<lparr>r_uid = te_uuid e, r_txid = te_txid e, r_version = 1,
                         r_spec = jsonb sp, r_status = jsonb st, r_metadata = jsonb md,
                         r_deletion = wp_deletionTimestamp p,
                         r_created = te_now e, r_updated = te_now e\<rparr>
               in Inr (changed_result e r', t(wp_key p \<mapsto> r'))
           | Some r \<Rightarrow>
               if is_tombstone r then
                 let r' = r\<lparr>r_uid := te_uuid e, r_txid := te_txid e, r_version := 1,
                            r_spec := jsonb sp, r_status := jsonb st, r_metadata := jsonb md,
                            r_deletion := None, r_created := te_now e, r_updated := te_now e\<rparr>
                 in Inr (changed_result e r', t(wp_key p \<mapsto> r'))
               else Inl sql_already_exists)
      | _ \<Rightarrow> Inl sql_not_null)"

text \<open>Branch C: update of spec and metadata; \<open>COALESCE(p_status, status)\<close>.\<close>

definition upsert_update :: "tx_env \<Rightarrow> writeParams \<Rightarrow> table \<Rightarrow> sqlstate + proc_result \<times> table" where
  "upsert_update e p t =
     (case t (wp_key p) of
        None \<Rightarrow> Inl sql_conflict
      | Some r \<Rightarrow>
          if \<not> row_matches p r then Inl sql_conflict
          else (case (wp_spec p, wp_metadata p) of
                  (Some sp, Some md) \<Rightarrow>
                    let r' = r\<lparr>r_txid := te_txid e, r_version := r_version r + 1,
                               r_spec := jsonb sp,
                               r_status := (case wp_status p of None \<Rightarrow> r_status r | Some s \<Rightarrow> jsonb s),
                               r_metadata := jsonb md,
                               r_deletion := wp_deletionTimestamp p, r_updated := te_now e\<rparr>
                    in Inr (changed_result e r', t(wp_key p \<mapsto> r'))
                | _ \<Rightarrow> Inl sql_not_null))"

definition upsert :: "tx_env \<Rightarrow> writeParams \<Rightarrow> table \<Rightarrow> sqlstate + proc_result \<times> table" where
  "upsert e p t =
     (if wp_statusOnly p then upsert_status e p t
      else if wp_expectedVersion p = 0 then upsert_create e p t
      else upsert_update e p t)"

definition pgctl_write :: "tx_env \<Rightarrow> writeParams \<Rightarrow> table \<Rightarrow> sqlstate + proc_result \<times> table" where
  "pgctl_write e p t =
     (case suppression_check p t of
        Inl c \<Rightarrow> Inl c
      | Inr (Some out) \<Rightarrow> Inr (out, t)
      | Inr None \<Rightarrow> upsert e p t)"

section \<open>What a successful write did to the table\<close>

lemmas upsert_defs = upsert_def upsert_status_def upsert_create_def upsert_update_def

text \<open>Every successful upsert writes one row, the row of its key, and stamps it with its transaction.\<close>

lemma upsert_shape:
  assumes "upsert e p t = Inr (out, t')"
  obtains r' where "t' = t(wp_key p \<mapsto> r')" "r_txid r' = te_txid e" "r_updated r' = te_now e"
    "out = changed_result e r'"
  using assms
  by (auto simp: upsert_defs Let_def split: if_splits option.splits)

lemma upsert_frame: "upsert e p t = Inr (out, t') \<Longrightarrow> k \<noteq> wp_key p \<Longrightarrow> t' k = t k"
  by (erule upsert_shape) simp

lemma upsert_create_cases:
  assumes "upsert e p t = Inr (out, t')" "wp_expectedVersion p = 0" "\<not> wp_statusOnly p"
  shows "(t (wp_key p) = None \<or> (\<exists>r. t (wp_key p) = Some r \<and> is_tombstone r)) \<and>
         (\<exists>r'. t' (wp_key p) = Some r' \<and> r_version r' = 1 \<and> r_uid r' = te_uuid e)"
  using assms by (auto simp: upsert_defs Let_def split: if_splits option.splits)

lemma upsert_update_cases:
  assumes "upsert e p t = Inr (out, t')" "wp_expectedVersion p \<noteq> 0"
  obtains r r' where "t (wp_key p) = Some r" "row_matches p r" "t' = t(wp_key p \<mapsto> r')"
    "r_version r' = r_version r + 1" "r_uid r' = r_uid r" "r_created r' = r_created r"
    "wp_statusOnly p \<Longrightarrow> r_spec r' = r_spec r \<and> r_metadata r' = r_metadata r \<and> r_deletion r' = r_deletion r"
    "\<not> wp_statusOnly p \<Longrightarrow> wp_status p = None \<Longrightarrow> r_status r' = r_status r"
    "\<not> wp_statusOnly p \<Longrightarrow> r_deletion r' = wp_deletionTimestamp p"
  using assms by (auto simp: upsert_defs Let_def split: if_splits option.splits)

lemma suppression_Some:
  assumes "suppression_check p t = Inr (Some out)"
  obtains r where "t (wp_key p) = Some r" "row_matches p r" "content_equal p r"
    "wp_expectedVersion p > 0" "\<not> wp_forceWrite p"
    "out = \<lparr>out_uid = r_uid r, out_version = r_version r, out_txid = 0, out_changed = False\<rparr>"
  using assms by (auto simp: suppression_check_def split: if_splits option.splits)

lemma pgctl_write_cases:
  assumes "pgctl_write e p t = Inr (out, t')"
  obtains (suppressed) "suppression_check p t = Inr (Some out)" "t' = t" "\<not> out_changed out"
    | (written) "suppression_check p t = Inr None" "upsert e p t = Inr (out, t')" "out_changed out"
proof (cases "suppression_check p t")
  case (Inl c)
  with assms show ?thesis by (simp add: pgctl_write_def)
next
  case (Inr s)
  show ?thesis
  proof (cases s)
    case None
    with Inr assms have u: "upsert e p t = Inr (out, t')" by (simp add: pgctl_write_def)
    then have "out_changed out" by (rule upsert_shape) (simp add: changed_result_def)
    then show ?thesis using Inr None u written by simp
  next
    case (Some o1)
    with Inr assms have "o1 = out" "t' = t" by (auto simp: pgctl_write_def)
    moreover have "\<not> out_changed o1"
      using Inr Some by (auto elim!: suppression_Some)
    ultimately show ?thesis using Inr Some suppressed by simp
  qed
qed

end
