(* ===== verification/Writer.thy ===== *)
theory Writer
  imports Store
begin

text \<open>
  \<open>seaplane-db/internal/writer\<close>: the stored-procedure path that production uses, the multi-statement
  path that runs when transaction hooks are installed, and read-back.

  A call acts on the table it finds and returns its result, the table it leaves, and the GVKs it
  rang the doorbell for.  What can fail outside the program is an argument: \<open>link\<close> for the single
  round trip of the stored procedure (a lost connection, with the write landed or not) and \<open>fault\<close>
  for the statements of the multi-statement path.
\<close>

section \<open>Requests, results and errors\<close>

record WriteRequest =
  wr_GVK :: string
  wr_Namespace :: string
  wr_Name :: string
  wr_Spec :: "json option"
  wr_Status :: "json option"
  wr_Metadata :: "json option"
  wr_DeletionTimestamp :: "time option"
  wr_ExpectedVersion :: int
  wr_ExpectedUID :: "uuid option"
  wr_ForceWrite :: bool

record StatusWriteRequest =
  sr_GVK :: string
  sr_Namespace :: string
  sr_Name :: string
  sr_Status :: "json option"
  sr_ExpectedVersion :: int
  sr_ExpectedUID :: "uuid option"
  sr_ForceWrite :: bool

record ObjectWriteRequest =
  or_GVK :: string
  or_Namespace :: string
  or_Name :: string
  or_Spec :: "json option"
  or_Metadata :: "json option"
  or_DeletionTimestamp :: "time option"
  or_ExpectedVersion :: int
  or_ExpectedUID :: "uuid option"
  or_ForceWrite :: bool

record WriteResult =
  res_Txid :: nat
  res_ObjectVersion :: int
  res_UID :: uuid
  res_Changed :: bool

datatype writer_error =
    ErrConflict
  | ErrAlreadyExists
  | ErrStatusNeedsVersion
  | ErrObjectNeedsVersion
  | ErrStoredProc sqlstate
  | ErrStatement string
  | ErrHook string
  | AmbiguousCommitError key nat

text \<open>How the round trip of the procedure call ends when the server gives no answer: the connection breaks, and
  the procedure has committed or not, or the driver fails before it has sent anything and the
  connection stays usable.\<close>

datatype link = LinkOk | LinkLost bool | LinkUnsent

datatype fault =
    NoFault
  | FailBegin
  | FailReadExisting
  | FailSuppressedCommit
  | FailTxidAcquire
  | FailUpsert
  | FailCommit bool

type_synonym outcome = "(writer_error + WriteResult) \<times> table \<times> string list"

record TxHooks =
  AfterSuppressionCheck :: "bool \<Rightarrow> string option"
  AfterTxidAcquire :: "nat \<Rightarrow> string option"
  BeforeCommit :: "string option"

record Writer =
  w_hooks :: "TxHooks option"
  w_doorbell :: bool

definition ring :: "Writer \<Rightarrow> string \<Rightarrow> string list" where
  "ring w gvk = (if w_doorbell w then [gvk] else [])"

section \<open>The stored-procedure path\<close>

definition mapStoredProcError :: "sqlstate \<Rightarrow> writer_error" where
  "mapStoredProcError c =
     (if c = sql_conflict then ErrConflict
      else if c = sql_already_exists then ErrAlreadyExists
      else if c = sql_status_version then ErrStatusNeedsVersion
      else ErrStoredProc c)"

definition callStoredProc :: "Writer \<Rightarrow> link \<Rightarrow> tx_env \<Rightarrow> writeParams \<Rightarrow> table \<Rightarrow> outcome" where
  "callStoredProc w l e p t =
     (case l of
        LinkUnsent \<Rightarrow> (Inl (AmbiguousCommitError (wp_key p) 0), t, [])
      | LinkLost landed \<Rightarrow>
          (Inl (AmbiguousCommitError (wp_key p) 0),
           (case pgctl_write e p t of Inr (_, t') \<Rightarrow> if landed then t' else t | Inl _ \<Rightarrow> t), [])
      | LinkOk \<Rightarrow>
          (case pgctl_write e p t of
             Inl c \<Rightarrow> (Inl (mapStoredProcError c), t, [])
           | Inr (out, t') \<Rightarrow>
               if \<not> out_changed out
               then (Inr \<lparr>res_Txid = 0, res_ObjectVersion = out_version out,
                          res_UID = out_uid out, res_Changed = False\<rparr>, t', [])
               else (Inr \<lparr>res_Txid = out_txid out, res_ObjectVersion = out_version out,
                          res_UID = out_uid out, res_Changed = True\<rparr>, t', ring w (wp_gvk p))))"

definition write_params :: "WriteRequest \<Rightarrow> writeParams" where
  "write_params req =
     \<lparr>wp_statusOnly = False, wp_gvk = wr_GVK req, wp_namespace = wr_Namespace req,
      wp_name = wr_Name req, wp_expectedVersion = wr_ExpectedVersion req,
      wp_expectedUID = wr_ExpectedUID req, wp_forceWrite = wr_ForceWrite req,
      wp_spec = wr_Spec req, wp_status = wr_Status req, wp_metadata = wr_Metadata req,
      wp_deletionTimestamp = wr_DeletionTimestamp req\<rparr>"

definition status_params :: "StatusWriteRequest \<Rightarrow> writeParams" where
  "status_params req =
     \<lparr>wp_statusOnly = True, wp_gvk = sr_GVK req, wp_namespace = sr_Namespace req,
      wp_name = sr_Name req, wp_expectedVersion = sr_ExpectedVersion req,
      wp_expectedUID = sr_ExpectedUID req, wp_forceWrite = sr_ForceWrite req,
      wp_spec = None, wp_status = sr_Status req, wp_metadata = None,
      wp_deletionTimestamp = None\<rparr>"

definition object_params :: "ObjectWriteRequest \<Rightarrow> writeParams" where
  "object_params req =
     \<lparr>wp_statusOnly = False, wp_gvk = or_GVK req, wp_namespace = or_Namespace req,
      wp_name = or_Name req, wp_expectedVersion = or_ExpectedVersion req,
      wp_expectedUID = or_ExpectedUID req, wp_forceWrite = or_ForceWrite req,
      wp_spec = or_Spec req, wp_status = None, wp_metadata = or_Metadata req,
      wp_deletionTimestamp = or_DeletionTimestamp req\<rparr>"

definition writeStoredProc :: "Writer \<Rightarrow> link \<Rightarrow> tx_env \<Rightarrow> WriteRequest \<Rightarrow> table \<Rightarrow> outcome" where
  "writeStoredProc w l e req t = callStoredProc w l e (write_params req) t"

definition writeStatusStoredProc ::
  "Writer \<Rightarrow> link \<Rightarrow> tx_env \<Rightarrow> StatusWriteRequest \<Rightarrow> table \<Rightarrow> outcome" where
  "writeStatusStoredProc w l e req t = callStoredProc w l e (status_params req) t"

definition writeObjectStoredProc ::
  "Writer \<Rightarrow> link \<Rightarrow> tx_env \<Rightarrow> ObjectWriteRequest \<Rightarrow> table \<Rightarrow> outcome" where
  "writeObjectStoredProc w l e req t = callStoredProc w l e (object_params req) t"

section \<open>The multi-statement path\<close>

type_synonym upsertFunc = "tx_env \<Rightarrow> table \<Rightarrow> writer_error + (uuid \<times> int) \<times> table"
type_synonym contentChecker = "row \<Rightarrow> bool"

definition timeEqual :: "time option \<Rightarrow> time option \<Rightarrow> bool" where
  "timeEqual a b =
     (case (a, b) of (None, None) \<Rightarrow> True | (Some x, Some y) \<Rightarrow> x = y | _ \<Rightarrow> False)"

definition readExisting :: "table \<Rightarrow> key \<Rightarrow> row option" where
  "readExisting t k = t k"

text \<open>The closures of \<open>writeMultiStatement\<close>, \<open>writeStatusMultiStatement\<close> and
  \<open>writeObjectMultiStatement\<close>: content checker and upsert, the latter with the SQL of the Go source.\<close>

definition write_checker :: "WriteRequest \<Rightarrow> contentChecker" where
  "write_checker req ex \<longleftrightarrow>
     JSONEqual (Some (r_spec ex)) (wr_Spec req) \<and>
     JSONEqual (Some (r_status ex)) (wr_Status req) \<and>
     JSONEqual (Some (r_metadata ex)) (wr_Metadata req) \<and>
     timeEqual (r_deletion ex) (wr_DeletionTimestamp req)"

definition req_matches :: "int \<Rightarrow> uuid option \<Rightarrow> row \<Rightarrow> bool" where
  "req_matches v u r \<longleftrightarrow> r_version r = v \<and> (u = None \<or> u = Some (r_uid r))"

definition write_upsert :: "WriteRequest \<Rightarrow> upsertFunc" where
  "write_upsert req e t =
     (let k = (wr_GVK req, wr_Namespace req, wr_Name req) in
      if wr_ExpectedVersion req = 0 then
        (case (wr_Spec req, wr_Status req, wr_Metadata req) of
           (Some sp, Some st, Some md) \<Rightarrow>
             (case t k of
                None \<Rightarrow>
                  Inr ((te_uuid e, 1),
                       t(k \<mapsto> \<lparr>r_uid = te_uuid e, r_txid = te_txid e, r_version = 1,
                               r_spec = jsonb sp, r_status = jsonb st, r_metadata = jsonb md,
                               r_deletion = wr_DeletionTimestamp req,
                               r_created = te_now e, r_updated = te_now e\<rparr>))
              | Some r \<Rightarrow>
                  if r_deletion r \<noteq> None \<and> sql_no_finalizers (r_metadata r) then
                    Inr ((te_uuid e, 1),
                         t(k \<mapsto> r\<lparr>r_uid := te_uuid e, r_txid := te_txid e, r_version := 1,
                                  r_spec := jsonb sp, r_status := jsonb st,
                                  r_metadata := jsonb md, r_deletion := None,
                                  r_created := te_now e, r_updated := te_now e\<rparr>))
                  else Inl ErrAlreadyExists)
         | _ \<Rightarrow> Inl (ErrStatement ''create resource''))
      else
        (case t k of
           None \<Rightarrow> Inl ErrConflict
         | Some r \<Rightarrow>
             if \<not> req_matches (wr_ExpectedVersion req) (wr_ExpectedUID req) r then Inl ErrConflict
             else (case (wr_Spec req, wr_Metadata req) of
                     (Some sp, Some md) \<Rightarrow>
                       Inr ((r_uid r, r_version r + 1),
                            t(k \<mapsto> r\<lparr>r_txid := te_txid e, r_version := r_version r + 1,
                                     r_spec := jsonb sp,
                                     r_status := (case wr_Status req of None \<Rightarrow> r_status r
                                                  | Some s \<Rightarrow> jsonb s),
                                     r_metadata := jsonb md,
                                     r_deletion := wr_DeletionTimestamp req,
                                     r_updated := te_now e\<rparr>))
                   | _ \<Rightarrow> Inl (ErrStatement ''update resource''))))"

definition status_checker :: "StatusWriteRequest \<Rightarrow> contentChecker" where
  "status_checker req ex \<longleftrightarrow> JSONEqual (Some (r_status ex)) (sr_Status req)"

definition status_upsert :: "StatusWriteRequest \<Rightarrow> upsertFunc" where
  "status_upsert req e t =
     (let k = (sr_GVK req, sr_Namespace req, sr_Name req) in
      case t k of
        None \<Rightarrow> Inl ErrConflict
      | Some r \<Rightarrow>
          if \<not> req_matches (sr_ExpectedVersion req) (sr_ExpectedUID req) r then Inl ErrConflict
          else (case sr_Status req of
                  None \<Rightarrow> Inl (ErrStatement ''update status'')
                | Some s \<Rightarrow>
                    Inr ((r_uid r, r_version r + 1),
                         t(k \<mapsto> r\<lparr>r_txid := te_txid e, r_version := r_version r + 1,
                                  r_status := jsonb s, r_updated := te_now e\<rparr>))))"

definition object_checker :: "ObjectWriteRequest \<Rightarrow> contentChecker" where
  "object_checker req ex \<longleftrightarrow>
     JSONEqual (Some (r_spec ex)) (or_Spec req) \<and>
     JSONEqual (Some (r_metadata ex)) (or_Metadata req) \<and>
     timeEqual (r_deletion ex) (or_DeletionTimestamp req)"

definition object_upsert :: "ObjectWriteRequest \<Rightarrow> upsertFunc" where
  "object_upsert req e t =
     (let k = (or_GVK req, or_Namespace req, or_Name req) in
      case t k of
        None \<Rightarrow> Inl ErrConflict
      | Some r \<Rightarrow>
          if \<not> req_matches (or_ExpectedVersion req) (or_ExpectedUID req) r then Inl ErrConflict
          else (case (or_Spec req, or_Metadata req) of
                  (Some sp, Some md) \<Rightarrow>
                    Inr ((r_uid r, r_version r + 1),
                         t(k \<mapsto> r\<lparr>r_txid := te_txid e, r_version := r_version r + 1,
                                  r_spec := jsonb sp, r_metadata := jsonb md,
                                  r_deletion := or_DeletionTimestamp req,
                                  r_updated := te_now e\<rparr>))
                | _ \<Rightarrow> Inl (ErrStatement ''update spec'')))"

text \<open>\<open>execWriteInner\<close> from the acquisition of the transaction id on.\<close>

definition execUpsert ::
  "Writer \<Rightarrow> TxHooks \<Rightarrow> fault \<Rightarrow> tx_env \<Rightarrow> writeParams \<Rightarrow> upsertFunc \<Rightarrow> table \<Rightarrow> outcome" where
  "execUpsert w h f e p up t =
     (if f = FailTxidAcquire then (Inl (ErrStatement ''txid acquire''), t, [])
      else case AfterTxidAcquire h (te_txid e) of
        Some er \<Rightarrow> (Inl (ErrHook er), t, [])
      | None \<Rightarrow>
          if f = FailUpsert then (Inl (ErrStatement ''upsert''), t, [])
          else (case up e t of
            Inl er \<Rightarrow> (Inl er, t, [])
          | Inr ((uid, version), t') \<Rightarrow>
              (case BeforeCommit h of
                 Some er \<Rightarrow> (Inl (ErrHook er), t, [])
               | None \<Rightarrow>
                   (case f of
                      FailCommit landed \<Rightarrow>
                        (Inl (AmbiguousCommitError (wp_key p) (te_txid e)),
                         if landed then t' else t, [])
                    | _ \<Rightarrow>
                        (Inr \<lparr>res_Txid = te_txid e, res_ObjectVersion = version, res_UID = uid,
                              res_Changed = True\<rparr>, t', ring w (wp_gvk p))))))"

definition execWriteInner ::
  "Writer \<Rightarrow> TxHooks \<Rightarrow> fault \<Rightarrow> tx_env \<Rightarrow> writeParams \<Rightarrow> contentChecker \<Rightarrow> upsertFunc \<Rightarrow> table \<Rightarrow> outcome"
  where
  "execWriteInner w h f e p isContentEqual up t =
     (if f = FailBegin then (Inl (ErrStatement ''begin''), t, [])
      else if \<not> wp_forceWrite p then
        (if wp_expectedVersion p > 0 \<and> f = FailReadExisting
         then (Inl (ErrStatement ''read existing''), t, [])
         else
           let existing = (if wp_expectedVersion p > 0 then readExisting t (wp_key p) else None);
               stale = (case existing of
                          None \<Rightarrow> False
                        | Some ex \<Rightarrow> \<not> req_matches (wp_expectedVersion p) (wp_expectedUID p) ex);
               suppressed = (case existing of None \<Rightarrow> False | Some ex \<Rightarrow> isContentEqual ex)
           in if stale then
                (case AfterSuppressionCheck h False of
                   Some er \<Rightarrow> (Inl (ErrHook er), t, [])
                 | None \<Rightarrow> (Inl ErrConflict, t, []))
              else (case AfterSuppressionCheck h suppressed of
                      Some er \<Rightarrow> (Inl (ErrHook er), t, [])
                    | None \<Rightarrow>
                        (case existing of
                           Some ex \<Rightarrow>
                             if suppressed then
                               (if f = FailSuppressedCommit
                                then (Inl (ErrStatement ''commit (suppressed)''), t, [])
                                else (Inr \<lparr>res_Txid = 0, res_ObjectVersion = r_version ex,
                                           res_UID = r_uid ex, res_Changed = False\<rparr>, t, []))
                             else execUpsert w h f e p up t
                         | None \<Rightarrow> execUpsert w h f e p up t)))
      else (case AfterSuppressionCheck h False of
              Some er \<Rightarrow> (Inl (ErrHook er), t, [])
            | None \<Rightarrow> execUpsert w h f e p up t))"

definition writeMultiStatement ::
  "Writer \<Rightarrow> TxHooks \<Rightarrow> fault \<Rightarrow> tx_env \<Rightarrow> WriteRequest \<Rightarrow> table \<Rightarrow> outcome" where
  "writeMultiStatement w h f e req t =
     execWriteInner w h f e (write_params req) (write_checker req) (write_upsert req) t"

definition writeStatusMultiStatement ::
  "Writer \<Rightarrow> TxHooks \<Rightarrow> fault \<Rightarrow> tx_env \<Rightarrow> StatusWriteRequest \<Rightarrow> table \<Rightarrow> outcome" where
  "writeStatusMultiStatement w h f e req t =
     execWriteInner w h f e (status_params req) (status_checker req) (status_upsert req) t"

definition writeObjectMultiStatement ::
  "Writer \<Rightarrow> TxHooks \<Rightarrow> fault \<Rightarrow> tx_env \<Rightarrow> ObjectWriteRequest \<Rightarrow> table \<Rightarrow> outcome" where
  "writeObjectMultiStatement w h f e req t =
     execWriteInner w h f e (object_params req) (object_checker req) (object_upsert req) t"

section \<open>Entry points\<close>

definition Write :: "Writer \<Rightarrow> link \<Rightarrow> fault \<Rightarrow> tx_env \<Rightarrow> WriteRequest \<Rightarrow> table \<Rightarrow> outcome" where
  "Write w l f e req t =
     (case w_hooks w of
        Some h \<Rightarrow> writeMultiStatement w h f e req t
      | None \<Rightarrow> writeStoredProc w l e req t)"

definition WriteStatus ::
  "Writer \<Rightarrow> link \<Rightarrow> fault \<Rightarrow> tx_env \<Rightarrow> StatusWriteRequest \<Rightarrow> table \<Rightarrow> outcome" where
  "WriteStatus w l f e req t =
     (if sr_ExpectedVersion req = 0 then (Inl ErrStatusNeedsVersion, t, [])
      else case w_hooks w of
        Some h \<Rightarrow> writeStatusMultiStatement w h f e req t
      | None \<Rightarrow> writeStatusStoredProc w l e req t)"

definition WriteObject ::
  "Writer \<Rightarrow> link \<Rightarrow> fault \<Rightarrow> tx_env \<Rightarrow> ObjectWriteRequest \<Rightarrow> table \<Rightarrow> outcome" where
  "WriteObject w l f e req t =
     (if or_ExpectedVersion req = 0 then (Inl ErrObjectNeedsVersion, t, [])
      else case w_hooks w of
        Some h \<Rightarrow> writeObjectMultiStatement w h f e req t
      | None \<Rightarrow> writeObjectStoredProc w l e req t)"

definition ReadBack :: "table \<Rightarrow> key \<Rightarrow> nat \<Rightarrow> row option" where
  "ReadBack t k txid =
     (case t k of None \<Rightarrow> None | Some r \<Rightarrow> if r_txid r = txid then Some r else None)"

text \<open>The label under which \<open>observeResult\<close> counts a write.\<close>

definition observeResult :: "writer_error + WriteResult \<Rightarrow> string" where
  "observeResult r =
     (case r of
        Inr res \<Rightarrow> if res_Changed res then ''success'' else ''noop''
      | Inl ErrConflict \<Rightarrow> ''conflict''
      | Inl ErrAlreadyExists \<Rightarrow> ''already_exists''
      | Inl (AmbiguousCommitError _ _) \<Rightarrow> ''ambiguous_commit''
      | Inl _ \<Rightarrow> ''error'')"

end
