(* ===== verification/WriterProps.thy ===== *)
theory WriterProps
  imports Writer
begin

text \<open>
  What the write paths guarantee: the multi-statement path computes what the stored procedure
  computes; optimistic concurrency and incarnation safety; creation as put-if-absent over the
  non-tombstone objects; the column split between status writes and object writes; no-op
  suppression; and what an ambiguous commit turns into.
\<close>

section \<open>The two write paths agree\<close>

definition quiet :: "TxHooks \<Rightarrow> bool" where
  "quiet h \<longleftrightarrow> (\<forall>b. AfterSuppressionCheck h b = None) \<and> (\<forall>x. AfterTxidAcquire h x = None) \<and>
     BeforeCommit h = None"

definition quiet_hooks :: TxHooks where
  "quiet_hooks = \<lparr>AfterSuppressionCheck = (\<lambda>_. None), AfterTxidAcquire = (\<lambda>_. None),
                  BeforeCommit = None\<rparr>"

lemma quiet_quiet_hooks [simp]: "quiet quiet_hooks"
  by (simp add: quiet_def quiet_hooks_def)

definition row_normal :: "row \<Rightarrow> bool" where
  "row_normal r \<longleftrightarrow> jsonb (r_spec r) = r_spec r \<and> jsonb (r_status r) = r_status r \<and>
     jsonb (r_metadata r) = r_metadata r"

definition row_small :: "row \<Rightarrow> bool" where
  "row_small r \<longleftrightarrow> small_nums (r_spec r) \<and> small_nums (r_status r) \<and> small_nums (r_metadata r)"

lemma upsert_row_normal:
  assumes "upsert e p t = Inr (out, t')" "\<forall>k r. t k = Some r \<longrightarrow> row_normal r" "t' k = Some r"
  shows "row_normal r"
proof (cases "k = wp_key p")
  case True
  have old: "row_normal x" if "t (wp_key p) = Some x" for x using assms(2) that by blast
  from assms(1,3) True show ?thesis
    by (auto simp: upsert_defs Let_def row_normal_def split: if_splits option.splits
        dest!: old [unfolded row_normal_def])
next
  case False
  then show ?thesis using assms upsert_frame by metis
qed

lemma req_matches_row_matches:
  "req_matches (wp_expectedVersion p) (wp_expectedUID p) r \<longleftrightarrow> row_matches p r"
  by (auto simp: req_matches_def row_matches_def split: option.splits)

text \<open>A checker and an upsert that compute what the procedure computes make the whole path compute
  what the stored-procedure path computes.\<close>

definition upsert_sim :: "tx_env \<Rightarrow> writeParams \<Rightarrow> upsertFunc \<Rightarrow> table \<Rightarrow> bool" where
  "upsert_sim e p up t \<longleftrightarrow>
     up e t = (case upsert e p t of
                 Inl c \<Rightarrow> Inl (mapStoredProcError c)
               | Inr (out, t') \<Rightarrow> Inr ((out_uid out, out_version out), t'))"

lemma execUpsert_sim:
  assumes "quiet h" "upsert_sim e p up t"
  shows "execUpsert w h NoFault e p up t =
           (case upsert e p t of
              Inl c \<Rightarrow> (Inl (mapStoredProcError c), t, [])
            | Inr (out, t') \<Rightarrow>
                (Inr \<lparr>res_Txid = te_txid e, res_ObjectVersion = out_version out,
                      res_UID = out_uid out, res_Changed = True\<rparr>, t', ring w (wp_gvk p)))"
  using assms by (auto simp: execUpsert_def quiet_def upsert_sim_def split: sum.splits prod.splits)

lemma execWriteInner_sim:
  assumes "quiet h" "upsert_sim e p up t"
    and chk: "\<And>ex. t (wp_key p) = Some ex \<Longrightarrow> row_matches p ex \<Longrightarrow> \<not> wp_forceWrite p \<Longrightarrow>
      chk ex \<longleftrightarrow> content_equal p ex"
  shows "execWriteInner w h NoFault e p chk up t = callStoredProc w LinkOk e p t"
proof (cases "suppression_check p t")
  case (Inl c)
  then show ?thesis using assms(1)
    by (auto simp: suppression_check_def execWriteInner_def callStoredProc_def pgctl_write_def
        readExisting_def req_matches_row_matches quiet_def mapStoredProcError_def
        split: if_splits option.splits)
next
  case (Inr s)
  show ?thesis
  proof (cases s)
    case None
    have "execWriteInner w h NoFault e p chk up t = execUpsert w h NoFault e p up t"
      using Inr None assms(1) chk
      by (auto simp: suppression_check_def execWriteInner_def readExisting_def quiet_def
          req_matches_row_matches Let_def split: if_splits option.splits)
    also have "\<dots> = callStoredProc w LinkOk e p t"
      using Inr None unfolding execUpsert_sim [OF assms(1,2)]
      by (auto simp: callStoredProc_def pgctl_write_def changed_result_def
          split: sum.splits elim!: upsert_shape)
    finally show ?thesis .
  next
    case (Some out)
    with Inr obtain r where r: "t (wp_key p) = Some r" "row_matches p r" "content_equal p r"
      "wp_expectedVersion p > 0" "\<not> wp_forceWrite p"
      "out = \<lparr>out_uid = r_uid r, out_version = r_version r, out_txid = 0, out_changed = False\<rparr>"
      by (auto elim: suppression_Some)
    then show ?thesis using Inr Some assms(1) chk [OF r(1,2,5)]
      by (auto simp: execWriteInner_def readExisting_def req_matches_row_matches quiet_def
          callStoredProc_def pgctl_write_def)
  qed
qed

lemma timeEqual_iff [simp]: "timeEqual a b \<longleftrightarrow> a = b"
  by (cases a; cases b) (auto simp: timeEqual_def)

lemma JSONEqual_row:
  assumes "jsonb a = a" "small_nums a" "small_nums b"
  shows "JSONEqual (Some a) (Some b) \<longleftrightarrow> a = jsonb b"
  using assms by (simp add: JSONEqual_jsonb)

lemma write_upsert_sim:
  assumes "wr_Spec req = Some sp" "wr_Status req = Some st" "wr_Metadata req = Some md"
  shows "upsert_sim e (write_params req) (write_upsert req) t"
  using assms
  by (auto simp: upsert_sim_def upsert_defs write_upsert_def write_params_def wp_key_def Let_def
      changed_result_def is_tombstone_def mapStoredProcError_def row_matches_def req_matches_def
      split: option.splits)

lemma write_upsert_sim_nil:
  assumes "wr_Spec req = Some sp" "wr_Status req = None" "wr_Metadata req = Some md" "wr_ExpectedVersion req \<noteq> 0"
  shows "upsert_sim e (write_params req) (write_upsert req) t"
  using assms
  by (auto simp: upsert_sim_def upsert_defs write_upsert_def write_params_def wp_key_def Let_def
      changed_result_def mapStoredProcError_def row_matches_def req_matches_def split: option.splits)

lemma status_upsert_sim:
  assumes "sr_Status req = Some st" "sr_ExpectedVersion req \<noteq> 0"
  shows "upsert_sim e (status_params req) (status_upsert req) t"
  using assms
  by (auto simp: upsert_sim_def upsert_defs status_upsert_def status_params_def wp_key_def Let_def
      changed_result_def mapStoredProcError_def row_matches_def req_matches_def split: option.splits)

lemma object_upsert_sim:
  assumes "or_Spec req = Some sp" "or_Metadata req = Some md" "or_ExpectedVersion req \<noteq> 0"
  shows "upsert_sim e (object_params req) (object_upsert req) t"
  using assms
  by (auto simp: upsert_sim_def upsert_defs object_upsert_def object_params_def wp_key_def Let_def
      changed_result_def mapStoredProcError_def row_matches_def req_matches_def split: option.splits)

definition comparable :: "table \<Rightarrow> key \<Rightarrow> bool" where
  "comparable t k \<longleftrightarrow> (case t k of None \<Rightarrow> True | Some r \<Rightarrow> row_normal r \<and> row_small r)"

text \<open>What makes the procedure suppress an update without status: all that it compares is stored already.\<close>

definition same_object :: "WriteRequest \<Rightarrow> row \<Rightarrow> bool" where
  "same_object req r \<longleftrightarrow>
     req_matches (wr_ExpectedVersion req) (wr_ExpectedUID req) r \<and> Some (r_spec r) = map_option jsonb (wr_Spec req) \<and>
     Some (r_metadata r) = map_option jsonb (wr_Metadata req) \<and> r_deletion r = wr_DeletionTimestamp req"

lemma nil_status_agrees:
  assumes "quiet h" "wr_Spec req = Some sp" "wr_Status req = None" "wr_Metadata req = Some md" "0 < wr_ExpectedVersion req"
    and "wr_ForceWrite req \<or> \<not> (\<exists>r. t (wr_GVK req, wr_Namespace req, wr_Name req) = Some r \<and> same_object req r)"
  shows "writeMultiStatement w h NoFault e req t = writeStoredProc w LinkOk e req t"
proof -
  let ?p = "write_params req"
  have "\<not> content_equal ?p ex" if "t (wp_key ?p) = Some ex" "row_matches ?p ex" "\<not> wp_forceWrite ?p" for ex
    using assms(6) that
    by (auto simp: content_equal_def same_object_def write_params_def wp_key_def req_matches_def row_matches_def
        split: option.splits)
  then show ?thesis
    unfolding writeMultiStatement_def writeStoredProc_def
    using assms(1) write_upsert_sim_nil [OF assms(2-4)] assms(5)
    by (intro execWriteInner_sim) (auto simp: write_checker_def JSONEqual_def assms(3))
qed

lemma nil_status_differs:
  assumes "quiet h" "wr_Spec req = Some sp" "wr_Status req = None" "wr_Metadata req = Some md" "0 < wr_ExpectedVersion req"
    and "\<not> wr_ForceWrite req" "t (wr_GVK req, wr_Namespace req, wr_Name req) = Some r" "same_object req r"
  shows "writeStoredProc w LinkOk e req t =
           (Inr \<lparr>res_Txid = 0, res_ObjectVersion = r_version r, res_UID = r_uid r, res_Changed = False\<rparr>, t, [])"
    and "\<exists>t'. writeMultiStatement w h NoFault e req t =
           (Inr \<lparr>res_Txid = te_txid e, res_ObjectVersion = r_version r + 1, res_UID = r_uid r, res_Changed = True\<rparr>, t',
            ring w (wr_GVK req))"
  using assms
  by (auto simp: writeStoredProc_def callStoredProc_def pgctl_write_def suppression_check_def content_equal_def
      same_object_def write_params_def wp_key_def req_matches_def row_matches_def writeMultiStatement_def
      execWriteInner_def readExisting_def execUpsert_def write_upsert_def write_checker_def JSONEqual_def quiet_def
      split: option.splits)

text \<open>C6: with hooks that do not interfere and no fault, the multi-statement write path returns the same result,
  leaves the same table and rings the same doorbells as the stored-procedure path, for full writes,
  status writes and object writes alike, if the documents written are not nil, status and object writes
  expect a version, and the integers in the documents compared are below \<open>2\<^sup>5\<^sup>3\<close>, where Go's float comparison is exact.
  A full write with a nil status is where the paths part.  As an update, they still agree, unless spec,
  metadata and deletion timestamp are the stored ones and the write is not forced: then the procedure
  leaves a nil status out of its comparison and suppresses the write, and the multi-statement path, which compares
  it, writes a new version.\<close>
theorem multi_statement_equals_stored_proc:
  assumes h: "quiet h"
    and wr: "wr_Spec wreq = Some sp" "wr_Status wreq = Some st" "wr_Metadata wreq = Some md"
    and wsmall: "small_nums sp" "small_nums st" "small_nums md"
    and wk: "comparable t (wr_GVK wreq, wr_Namespace wreq, wr_Name wreq)"
    and sr: "sr_Status sreq = Some st" "sr_ExpectedVersion sreq \<noteq> 0"
    and sk: "comparable t (sr_GVK sreq, sr_Namespace sreq, sr_Name sreq)"
    and or: "or_Spec oreq = Some sp" "or_Metadata oreq = Some md" "or_ExpectedVersion oreq \<noteq> 0"
    and ok: "comparable t (or_GVK oreq, or_Namespace oreq, or_Name oreq)"
  shows "writeMultiStatement w h NoFault e wreq t = writeStoredProc w LinkOk e wreq t \<and>
         writeStatusMultiStatement w h NoFault e sreq t = writeStatusStoredProc w LinkOk e sreq t \<and>
         writeObjectMultiStatement w h NoFault e oreq t = writeObjectStoredProc w LinkOk e oreq t \<and>
         (0 < wr_ExpectedVersion wreq \<and> nreq = wreq\<lparr>wr_Status := None\<rparr> \<longrightarrow>
            (writeMultiStatement w h NoFault e nreq t = writeStoredProc w LinkOk e nreq t \<longleftrightarrow>
               wr_ForceWrite wreq \<or>
               \<not> (\<exists>r. t (wr_GVK wreq, wr_Namespace wreq, wr_Name wreq) = Some r \<and> same_object wreq r)))"
proof (intro conjI impI)
  show "writeMultiStatement w h NoFault e wreq t = writeStoredProc w LinkOk e wreq t"
    unfolding writeMultiStatement_def writeStoredProc_def
    using h write_upsert_sim [OF wr] wk wr wsmall
    by (intro execWriteInner_sim)
      (auto simp: comparable_def write_checker_def content_equal_def write_params_def wp_key_def
        row_normal_def row_small_def JSONEqual_row)
  show "writeStatusMultiStatement w h NoFault e sreq t = writeStatusStoredProc w LinkOk e sreq t"
    unfolding writeStatusMultiStatement_def writeStatusStoredProc_def
    using h status_upsert_sim [OF sr] sk sr wsmall
    by (intro execWriteInner_sim)
      (auto simp: comparable_def status_checker_def content_equal_def status_params_def wp_key_def
        row_normal_def row_small_def JSONEqual_row)
  show "writeObjectMultiStatement w h NoFault e oreq t = writeObjectStoredProc w LinkOk e oreq t"
    unfolding writeObjectMultiStatement_def writeObjectStoredProc_def
    using h object_upsert_sim [OF or] ok or wsmall
    by (intro execWriteInner_sim)
      (auto simp: comparable_def object_checker_def content_equal_def object_params_def wp_key_def
        row_normal_def row_small_def JSONEqual_row)
next
  assume n: "0 < wr_ExpectedVersion wreq \<and> nreq = wreq\<lparr>wr_Status := None\<rparr>"
  then have q: "wr_Spec nreq = Some sp" "wr_Status nreq = None" "wr_Metadata nreq = Some md" "0 < wr_ExpectedVersion nreq"
    "same_object nreq = same_object wreq"
    using wr by (simp_all add: same_object_def fun_eq_iff)
  then have "writeMultiStatement w h NoFault e nreq t \<noteq> writeStoredProc w LinkOk e nreq t"
    if "\<not> wr_ForceWrite wreq" "t (wr_GVK wreq, wr_Namespace wreq, wr_Name wreq) = Some r" "same_object wreq r" for r
    using nil_status_differs [OF h q(1-4), of t r w e] that n by auto
  then show "writeMultiStatement w h NoFault e nreq t = writeStoredProc w LinkOk e nreq t \<longleftrightarrow>
      wr_ForceWrite wreq \<or>
      \<not> (\<exists>r. t (wr_GVK wreq, wr_Namespace wreq, wr_Name wreq) = Some r \<and> same_object wreq r)"
    using nil_status_agrees [OF h q(1-4), of t w e] n q(5) by auto
qed

text \<open>A table and requests to instantiate the properties on.\<close>

definition doc :: "string \<Rightarrow> json" where
  "doc s = JObj [(''f'', JStr s)]"

definition ex_row :: row where
  "ex_row = \<lparr>r_uid = 7, r_txid = 100, r_version = 3, r_spec = doc ''a'', r_status = doc ''s'',
             r_metadata = JObj [], r_deletion = None, r_created = 10, r_updated = 20\<rparr>"

definition ex_key :: key where
  "ex_key = (''g/v/K'', ''ns'', ''n'')"

definition ex_tab :: table where
  "ex_tab = [ex_key \<mapsto> ex_row]"

definition ex_env :: tx_env where
  "ex_env = \<lparr>te_txid = 105, te_uuid = 9, te_now = 30\<rparr>"

definition ex_writer :: Writer where
  "ex_writer = \<lparr>w_hooks = None, w_doorbell = True\<rparr>"

definition ex_wreq :: WriteRequest where
  "ex_wreq = \<lparr>wr_GVK = ''g/v/K'', wr_Namespace = ''ns'', wr_Name = ''n'', wr_Spec = Some (doc ''b''),
              wr_Status = Some (doc ''s''), wr_Metadata = Some (JObj []),
              wr_DeletionTimestamp = None, wr_ExpectedVersion = 3, wr_ExpectedUID = Some 7,
              wr_ForceWrite = False\<rparr>"

definition ex_sreq :: StatusWriteRequest where
  "ex_sreq = \<lparr>sr_GVK = ''g/v/K'', sr_Namespace = ''ns'', sr_Name = ''n'', sr_Status = Some (doc ''s''),
              sr_ExpectedVersion = 3, sr_ExpectedUID = Some 7, sr_ForceWrite = False\<rparr>"

definition ex_oreq :: ObjectWriteRequest where
  "ex_oreq = \<lparr>or_GVK = ''g/v/K'', or_Namespace = ''ns'', or_Name = ''n'', or_Spec = Some (doc ''b''),
              or_Metadata = Some (JObj []), or_DeletionTimestamp = None, or_ExpectedVersion = 3,
              or_ExpectedUID = Some 7, or_ForceWrite = False\<rparr>"

lemmas ex_defs = ex_row_def ex_key_def ex_tab_def ex_env_def ex_writer_def ex_wreq_def ex_sreq_def
  ex_oreq_def

lemma jsonb_doc [simp]: "jsonb (doc s) = doc s" "jsonb (JObj []) = JObj []"
  by (simp_all add: jsonb_def doc_def obj_norm_def)

lemma doc_eq [simp]: "doc s = doc s' \<longleftrightarrow> s = s'"
  by (simp add: doc_def)

lemma small_doc [simp]: "small_nums (doc s)" "small_nums (JObj [])"
  by (simp_all add: small_nums_def doc_def)

lemma comparable_ex: "comparable ex_tab ex_key"
  by (simp add: comparable_def row_normal_def row_small_def ex_defs)

theorem multi_statement_equals_stored_proc_witness:
  "writeMultiStatement ex_writer quiet_hooks NoFault ex_env ex_wreq ex_tab =
     writeStoredProc ex_writer LinkOk ex_env ex_wreq ex_tab \<and>
   writeStatusMultiStatement ex_writer quiet_hooks NoFault ex_env ex_sreq ex_tab =
     writeStatusStoredProc ex_writer LinkOk ex_env ex_sreq ex_tab \<and>
   writeObjectMultiStatement ex_writer quiet_hooks NoFault ex_env ex_oreq ex_tab =
     writeObjectStoredProc ex_writer LinkOk ex_env ex_oreq ex_tab \<and>
   writeMultiStatement ex_writer quiet_hooks NoFault ex_env (ex_wreq\<lparr>wr_Spec := Some (doc ''a''), wr_Status := None\<rparr>) ex_tab \<noteq>
     writeStoredProc ex_writer LinkOk ex_env (ex_wreq\<lparr>wr_Spec := Some (doc ''a''), wr_Status := None\<rparr>) ex_tab"
proof -
  let ?w = "ex_wreq\<lparr>wr_Spec := Some (doc ''a'')\<rparr>" and ?o = "ex_oreq\<lparr>or_Spec := Some (doc ''a'')\<rparr>"
  have k: "comparable ex_tab (''g/v/K'', ''ns'', ''n'')" using comparable_ex by (simp add: ex_key_def)
  have s: "ex_tab (''g/v/K'', ''ns'', ''n'') = Some ex_row" "same_object ?w ex_row" "\<not> wr_ForceWrite ?w"
    by (simp_all add: ex_defs same_object_def req_matches_def)
  have p: "wr_Spec ex_wreq = Some (doc ''b'')" "wr_Status ex_wreq = Some (doc ''s'')" "wr_Metadata ex_wreq = Some (JObj [])"
    "comparable ex_tab (wr_GVK ex_wreq, wr_Namespace ex_wreq, wr_Name ex_wreq)"
    "sr_Status ex_sreq = Some (doc ''s'')" "sr_ExpectedVersion ex_sreq \<noteq> 0"
    "comparable ex_tab (sr_GVK ex_sreq, sr_Namespace ex_sreq, sr_Name ex_sreq)"
    "or_Spec ex_oreq = Some (doc ''b'')" "or_Metadata ex_oreq = Some (JObj [])" "or_ExpectedVersion ex_oreq \<noteq> 0"
    "comparable ex_tab (or_GVK ex_oreq, or_Namespace ex_oreq, or_Name ex_oreq)"
    by (simp_all add: ex_wreq_def ex_sreq_def ex_oreq_def k)
  note 1 = multi_statement_equals_stored_proc [OF quiet_quiet_hooks p(1-3) small_doc(1) small_doc(1) small_doc(2) p(4-11),
      of ex_writer ex_env ex_wreq]
  have "writeMultiStatement ex_writer quiet_hooks NoFault ex_env (?w\<lparr>wr_Status := None\<rparr>) ex_tab =
        writeStoredProc ex_writer LinkOk ex_env (?w\<lparr>wr_Status := None\<rparr>) ex_tab \<longleftrightarrow>
      wr_ForceWrite ?w \<or> \<not> (\<exists>r. ex_tab (wr_GVK ?w, wr_Namespace ?w, wr_Name ?w) = Some r \<and> same_object ?w r)"
    by (rule multi_statement_equals_stored_proc [of _ ?w "doc ''a''" "doc ''s''" "JObj []" _ ex_sreq ?o,
          THEN conjunct2, THEN conjunct2, THEN conjunct2, rule_format])
       (simp_all add: ex_wreq_def ex_sreq_def ex_oreq_def k)
  then have "writeMultiStatement ex_writer quiet_hooks NoFault ex_env (?w\<lparr>wr_Status := None\<rparr>) ex_tab \<noteq>
      writeStoredProc ex_writer LinkOk ex_env (?w\<lparr>wr_Status := None\<rparr>) ex_tab"
    using s by (simp add: ex_wreq_def)
  then show ?thesis using 1 by simp
qed

section \<open>Optimistic concurrency\<close>

text \<open>An update whose payload columns are not \<open>NULL\<close>, which is what every caller sends.\<close>

definition update_payload :: "writeParams \<Rightarrow> bool" where
  "update_payload p \<longleftrightarrow> wp_expectedVersion p \<noteq> 0 \<and>
     (if wp_statusOnly p then wp_status p \<noteq> None else wp_spec p \<noteq> None \<and> wp_metadata p \<noteq> None)"

definition effective :: "writeParams \<Rightarrow> row \<Rightarrow> bool" where
  "effective p r \<longleftrightarrow> wp_forceWrite p \<or> wp_expectedVersion p < 0 \<or> \<not> content_equal p r"

lemma update_mismatch:
  assumes "update_payload p" "\<not> (\<exists>r. t (wp_key p) = Some r \<and> row_matches p r)"
  shows "pgctl_write e p t = Inl sql_conflict"
  using assms
  by (auto simp: pgctl_write_def suppression_check_def upsert_defs update_payload_def
      split: option.splits)

lemma update_match:
  assumes "update_payload p" "t (wp_key p) = Some r" "row_matches p r"
  shows "\<exists>out t'. pgctl_write e p t = Inr (out, t') \<and> out_changed out = effective p r \<and>
           (if effective p r
            then \<exists>r'. t' = t(wp_key p \<mapsto> r') \<and> r_version r' = r_version r + 1 \<and>
                   r_uid r' = r_uid r \<and> r_txid r' = te_txid e \<and> out_version out = r_version r'
            else t' = t \<and> out_version out = r_version r)"
proof (cases "effective p r")
  case False
  with assms show ?thesis
    by (auto simp: pgctl_write_def suppression_check_def update_payload_def effective_def)
next
  case True
  then have w: "pgctl_write e p t = upsert e p t"
    using assms by (auto simp: pgctl_write_def suppression_check_def effective_def update_payload_def)
  obtain out t' where u: "upsert e p t = Inr (out, t')"
    using assms by (auto simp: upsert_defs update_payload_def Let_def split: if_splits)
  have "wp_expectedVersion p \<noteq> 0" using assms(1) by (simp add: update_payload_def)
  from u this obtain r' where r': "t' = t(wp_key p \<mapsto> r')" "r_version r' = r_version r + 1"
    "r_uid r' = r_uid r"
    by (rule upsert_update_cases) (use assms(2) in simp)
  from u have "r_txid r' = te_txid e \<and> out = changed_result e r'"
    by (rule upsert_shape) (use r'(1) in \<open>auto dest: map_upd_eqD1\<close>)
  then show ?thesis using u w True r' by (auto simp: changed_result_def)
qed

text \<open>C7: an update succeeds exactly when the row exists at the version (and, if given, the UID) the
  caller read; otherwise it is a conflict and changes nothing.  On success the version grows by
  exactly one and the row is stamped with the writer's transaction, unless the content is equal and
  the write is not forced, in which case nothing changes and the current version is returned.\<close>
theorem update_is_compare_and_swap:
  assumes "update_payload p"
  shows "(case pgctl_write e p t of
            Inl c \<Rightarrow> c = sql_conflict \<and> \<not> (\<exists>r. t (wp_key p) = Some r \<and> row_matches p r)
          | Inr (out, t') \<Rightarrow>
              (\<exists>r. t (wp_key p) = Some r \<and> row_matches p r \<and> out_changed out = effective p r \<and>
                 (if effective p r
                  then \<exists>r'. t' = t(wp_key p \<mapsto> r') \<and> r_version r' = r_version r + 1 \<and>
                        r_uid r' = r_uid r \<and> r_txid r' = te_txid e \<and> out_version out = r_version r'
                  else t' = t \<and> out_version out = r_version r)))"
proof (cases "\<exists>r. t (wp_key p) = Some r \<and> row_matches p r")
  case True
  then obtain r where r: "t (wp_key p) = Some r" "row_matches p r" by blast
  from update_match [where e = e and t = t, OF assms r(1) r(2)] obtain out t' where
    w: "pgctl_write e p t = Inr (out, t')" "out_changed out = effective p r"
      "if effective p r
       then \<exists>r'. t' = t(wp_key p \<mapsto> r') \<and> r_version r' = r_version r + 1 \<and>
              r_uid r' = r_uid r \<and> r_txid r' = te_txid e \<and> out_version out = r_version r'
       else t' = t \<and> out_version out = r_version r"
    by blast
  show ?thesis unfolding w(1) sum.case prod.case using r w(2,3) by blast
next
  case False
  then show ?thesis using update_mismatch [where t = t, OF assms False] by simp
qed

theorem update_is_compare_and_swap_witness:
  "update_payload (write_params ex_wreq) \<and>
   (case pgctl_write ex_env (write_params ex_wreq) ex_tab of
      Inl c \<Rightarrow> False
    | Inr (out, t') \<Rightarrow> out_version out = 4)"
proof -
  have p: "update_payload (write_params ex_wreq)"
    by (simp add: update_payload_def write_params_def ex_wreq_def)
  have m: "ex_tab (wp_key (write_params ex_wreq)) = Some ex_row" "row_matches (write_params ex_wreq) ex_row"
    "effective (write_params ex_wreq) ex_row"
    by (simp_all add: ex_defs write_params_def wp_key_def row_matches_def effective_def content_equal_def)
  show ?thesis using p m update_is_compare_and_swap [OF p, where e = ex_env and t = ex_tab]
    by (auto simp: ex_row_def split: sum.splits)
qed

section \<open>Creation\<close>

text \<open>The objects a client can see: rows that are not tombstones.\<close>

definition visible :: "table \<Rightarrow> table" where
  "visible t k = (case t k of None \<Rightarrow> None | Some r \<Rightarrow> if is_tombstone r then None else Some r)"

definition new_row :: "tx_env \<Rightarrow> json \<Rightarrow> json \<Rightarrow> json \<Rightarrow> row" where
  "new_row e sp st md =
     \<lparr>r_uid = te_uuid e, r_txid = te_txid e, r_version = 1, r_spec = jsonb sp,
      r_status = jsonb st, r_metadata = jsonb md, r_deletion = None,
      r_created = te_now e, r_updated = te_now e\<rparr>"

text \<open>The abstract operation: put-if-absent over the visible objects.\<close>

definition put_if_absent :: "key \<Rightarrow> row \<Rightarrow> table \<Rightarrow> sqlstate + table" where
  "put_if_absent k r v = (case v k of Some _ \<Rightarrow> Inl sql_already_exists | None \<Rightarrow> Inr (v(k \<mapsto> r)))"

lemma visible_upd: "\<not> is_tombstone r \<Longrightarrow> visible (t(k \<mapsto> r)) = (visible t)(k \<mapsto> r)"
  by (auto simp: visible_def fun_eq_iff)

lemma row_update_all:
  "r\<lparr>r_uid := a, r_txid := b, r_version := c, r_spec := d, r_status := f, r_metadata := g,
     r_deletion := h, r_created := i, r_updated := j\<rparr> =
   \<lparr>r_uid = a, r_txid = b, r_version = c, r_spec = d, r_status = f, r_metadata = g,
    r_deletion = h, r_created = i, r_updated = j\<rparr>"
  by (cases r) simp

text \<open>C8: a create through the stored procedure refines put-if-absent on the visible objects: a live
  or dying object of that name is an \<open>already exists\<close> error, while an absent name and a tombstone
  alike give a new object with a new UID, version 1 and the caller's content, and no other visible
  object changes.\<close>
theorem create_refines_put_if_absent:
  assumes "wr_ExpectedVersion req = 0" "wr_DeletionTimestamp req = None"
    and "wr_Spec req = Some sp" "wr_Status req = Some st" "wr_Metadata req = Some md"
  shows "map_sum id (visible \<circ> snd) (pgctl_write e (write_params req) t) =
           put_if_absent (wr_GVK req, wr_Namespace req, wr_Name req) (new_row e sp st md) (visible t)"
proof -
  have nt: "\<not> is_tombstone (new_row e sp st md)" by (simp add: is_tombstone_def new_row_def)
  show ?thesis using assms
    by (auto simp: pgctl_write_def suppression_check_def upsert_def upsert_create_def
        write_params_def wp_key_def Let_def put_if_absent_def row_update_all
        new_row_def [symmetric] visible_upd [OF nt] visible_def [of t] split: option.splits)
qed

theorem create_refines_put_if_absent_witness:
  "map_sum id (visible \<circ> snd)
     (pgctl_write ex_env (write_params (ex_wreq\<lparr>wr_ExpectedVersion := 0\<rparr>)) ex_tab) =
   Inl sql_already_exists"
proof -
  have "map_sum id (visible \<circ> snd)
     (pgctl_write ex_env (write_params (ex_wreq\<lparr>wr_ExpectedVersion := 0\<rparr>)) ex_tab) =
     put_if_absent ex_key (new_row ex_env (doc ''b'') (doc ''s'') (JObj [])) (visible ex_tab)"
    using create_refines_put_if_absent [of "ex_wreq\<lparr>wr_ExpectedVersion := 0\<rparr>" "doc ''b''" "doc ''s''"
        "JObj []" ex_env ex_tab]
    by (simp add: ex_wreq_def ex_key_def)
  also have "\<dots> = Inl sql_already_exists"
    by (simp add: put_if_absent_def visible_def is_tombstone_def ex_tab_def ex_row_def)
  finally show ?thesis .
qed

section \<open>The table after any outcome\<close>

lemma callStoredProc_table:
  assumes "callStoredProc w l e p t = (res, t', rs)"
  shows "t' = t \<or> (\<exists>out. upsert e p t = Inr (out, t'))"
proof -
  have "t' = t \<or> (\<exists>out. pgctl_write e p t = Inr (out, t'))"
    using assms by (auto simp: callStoredProc_def split: link.splits sum.splits if_splits)
  then show ?thesis by (auto elim: pgctl_write_cases)
qed

lemma execUpsert_table:
  "execUpsert w h f e p up t = (res, t', rs) \<Longrightarrow> t' = t \<or> (\<exists>u. up e t = Inr (u, t'))"
  by (auto simp: execUpsert_def split: if_splits option.splits sum.splits fault.splits)

lemma execWriteInner_table:
  "execWriteInner w h f e p chk up t = (res, t', rs) \<Longrightarrow> t' = t \<or> (\<exists>u. up e t = Inr (u, t'))"
  by (auto simp: execWriteInner_def Let_def dest: execUpsert_table
      split: if_splits option.splits)

definition status_only_change :: "table \<Rightarrow> table \<Rightarrow> bool" where
  "status_only_change t t' \<longleftrightarrow> (\<forall>k. rel_option (\<lambda>r r'. r_spec r' = r_spec r \<and>
     r_metadata r' = r_metadata r \<and> r_deletion r' = r_deletion r \<and> r_uid r' = r_uid r \<and>
     r_created r' = r_created r) (t k) (t' k))"

definition object_only_change :: "table \<Rightarrow> table \<Rightarrow> bool" where
  "object_only_change t t' \<longleftrightarrow> (\<forall>k. rel_option (\<lambda>r r'. r_status r' = r_status r \<and>
     r_uid r' = r_uid r \<and> r_created r' = r_created r) (t k) (t' k))"

lemma status_only_change_refl [simp]: "status_only_change t t"
  by (simp add: status_only_change_def option.rel_refl)

lemma object_only_change_refl [simp]: "object_only_change t t"
  by (simp add: object_only_change_def option.rel_refl)

lemma status_only_change_upd:
  "t k = Some r \<Longrightarrow> r_spec r' = r_spec r \<and> r_metadata r' = r_metadata r \<and> r_deletion r' = r_deletion r \<and>
     r_uid r' = r_uid r \<and> r_created r' = r_created r \<Longrightarrow> status_only_change t (t(k \<mapsto> r'))"
  by (auto simp: status_only_change_def option.rel_refl)

lemma object_only_change_upd:
  "t k = Some r \<Longrightarrow> r_status r' = r_status r \<and> r_uid r' = r_uid r \<and> r_created r' = r_created r \<Longrightarrow>
     object_only_change t (t(k \<mapsto> r'))"
  by (auto simp: object_only_change_def option.rel_refl)

lemma status_upsert_columns:
  "status_upsert req e t = Inr (u, t') \<Longrightarrow> status_only_change t t'"
  by (auto simp: status_upsert_def Let_def split: option.splits if_splits
      intro!: status_only_change_upd)

lemma object_upsert_columns:
  "object_upsert req e t = Inr (u, t') \<Longrightarrow> object_only_change t t'"
  by (auto simp: object_upsert_def Let_def split: option.splits if_splits
      intro!: object_only_change_upd)

lemma upsert_status_columns:
  assumes "upsert e (status_params req) t = Inr (out, t')" "sr_ExpectedVersion req \<noteq> 0"
  shows "status_only_change t t'"
proof -
  have "wp_expectedVersion (status_params req) \<noteq> 0" using assms(2) by (simp add: status_params_def)
  from assms(1) this show ?thesis
    by (rule upsert_update_cases) (auto simp: status_params_def intro!: status_only_change_upd)
qed

lemma upsert_object_columns:
  assumes "upsert e (object_params req) t = Inr (out, t')" "or_ExpectedVersion req \<noteq> 0"
  shows "object_only_change t t'"
proof -
  have "wp_expectedVersion (object_params req) \<noteq> 0" using assms(2) by (simp add: object_params_def)
  from assms(1) this show ?thesis
    by (rule upsert_update_cases) (auto simp: object_params_def intro!: object_only_change_upd)
qed

text \<open>C9: on either write path and whatever fails, a status write creates no row, removes none and
  leaves spec, metadata, deletion timestamp and identity of every row alone; an object write leaves
  status and identity of every row alone.\<close>
theorem status_and_object_writes_are_disjoint:
  "status_only_change t (fst (snd (WriteStatus w l f e sreq t))) \<and>
   object_only_change t (fst (snd (WriteObject w l f e oreq t)))"
proof
  obtain res t' rs where s: "WriteStatus w l f e sreq t = (res, t', rs)" by (metis prod_cases3)
  then have "status_only_change t t'"
    by (auto simp: WriteStatus_def writeStatusMultiStatement_def writeStatusStoredProc_def
        dest!: execWriteInner_table callStoredProc_table
        intro: status_upsert_columns upsert_status_columns split: if_splits option.splits)
  then show "status_only_change t (fst (snd (WriteStatus w l f e sreq t)))" by (simp add: s)
  obtain res t' rs where o: "WriteObject w l f e oreq t = (res, t', rs)" by (metis prod_cases3)
  then have "object_only_change t t'"
    by (auto simp: WriteObject_def writeObjectMultiStatement_def writeObjectStoredProc_def
        dest!: execWriteInner_table callStoredProc_table
        intro: object_upsert_columns upsert_object_columns split: if_splits option.splits)
  then show "object_only_change t (fst (snd (WriteObject w l f e oreq t)))" by (simp add: o)
qed

end
