(* ===== verification/Sql.thy ===== *)
theory Sql
  imports Store
begin

text \<open>
  The SQL predicates that the client composes: the \<open>WHERE\<close> clauses of field selectors, label
  selectors, namespaces and shards, with numbered parameters, and their meaning on a row.

  A clause is the abstract syntax of the text the Go code concatenates; \<open>$n\<close> is the number \<open>n\<close>.
  \<open>eval\<close> gives SQL's three-valued result, \<open>None\<close> being \<open>NULL\<close>.  The server functions \<open>hashtext\<close> and the
  text form of a JSON container are the fields of \<open>pgfun\<close>.
\<close>

record pgfun =
  pf_hashtext :: "string \<Rightarrow> int"
  pf_jsonb_text :: "json \<Rightarrow> string"

datatype sql_val = VText string | VJson json | VInt int | VInts "int list"

datatype json_col = ColSpec | ColStatus | ColMetadata

datatype sql_col =
  ColName
| ColNamespace
| ColUidText \<comment> \<open>\<open>uid::text\<close>\<close>
| ColPath json_col "string list" \<comment> \<open>\<open>col->'a'->>'b'\<close>\<close>

datatype sql_cmp = SqlEq | SqlNe

datatype clause =
  ColCmp sql_col sql_cmp nat
| LabelIn "nat list" \<comment> \<open>\<open>(metadata->'labels' @> $n::jsonb) OR ...\<close>\<close>
| LabelNotIn "nat list" \<comment> \<open>\<open>NOT COALESCE((... OR ...), FALSE)\<close>\<close>
| ClauseTrue
| ClauseFalse
| LabelGreater nat nat
| LabelLess nat nat
| LabelExists nat
| LabelNotExists nat \<comment> \<open>\<open>NOT COALESCE(..., FALSE)\<close>\<close>
| ShardMember nat nat

section \<open>Values\<close>

definition hex_char :: "nat \<Rightarrow> char" where
  "hex_char d = (if d < 10 then digit_char d else char_of (87 + d))"

text \<open>\<open>n\<close> hexadecimal digits of a number, most significant first.\<close>

fun hex_digits :: "nat \<Rightarrow> nat \<Rightarrow> string" where
  "hex_digits 0 x = []"
| "hex_digits (Suc n) x = hex_digits n (x div 16) @ [hex_char (x mod 16)]"

definition uuid_text :: "uuid \<Rightarrow> string" where
  "uuid_text u =
     (let h = hex_digits 32 (unat u) in
      take 8 h @ ''-'' @ take 4 (drop 8 h) @ ''-'' @ take 4 (drop 12 h) @ ''-'' @
      take 4 (drop 16 h) @ ''-'' @ drop 20 h)"

definition json_as_text :: "pgfun \<Rightarrow> json \<Rightarrow> string option" where
  "json_as_text pg j =
     (case j of
        JNull \<Rightarrow> None
      | JBool b \<Rightarrow> Some (if b then ''true'' else ''false'')
      | JNum n \<Rightarrow> Some (format_int n)
      | JStr s \<Rightarrow> Some s
      | _ \<Rightarrow> Some (pf_jsonb_text pg j))"

fun json_path :: "string list \<Rightarrow> json \<Rightarrow> json option" where
  "json_path [] j = Some j"
| "json_path (p # ps) j = Option.bind (jget p j) (json_path ps)"

definition col_json :: "json_col \<Rightarrow> row \<Rightarrow> json" where
  "col_json c r =
     (case c of ColSpec \<Rightarrow> r_spec r | ColStatus \<Rightarrow> r_status r | ColMetadata \<Rightarrow> r_metadata r)"

definition col_text :: "pgfun \<Rightarrow> sql_col \<Rightarrow> key \<Rightarrow> row \<Rightarrow> string option" where
  "col_text pg c k r =
     (case c of
        ColName \<Rightarrow> Some (key_name k)
      | ColNamespace \<Rightarrow> Some (key_ns k)
      | ColUidText \<Rightarrow> Some (uuid_text (r_uid r))
      | ColPath jc ps \<Rightarrow> Option.bind (json_path ps (col_json jc r)) (json_as_text pg))"

text \<open>\<open>j @> b\<close> for an object \<open>b\<close> of scalars.\<close>

definition jsonb_contains :: "json \<Rightarrow> json \<Rightarrow> bool" where
  "jsonb_contains j b = (case b of JObj kvs \<Rightarrow> list_all (\<lambda>(k, v). jget k j = Some v) kvs | _ \<Rightarrow> j = b)"

text \<open>\<open>j ? key\<close>.\<close>

definition jsonb_has_key :: "json \<Rightarrow> string \<Rightarrow> bool" where
  "jsonb_has_key j k =
     (case j of
        JObj kvs \<Rightarrow> map_of kvs k \<noteq> None
      | JArr xs \<Rightarrow> JStr k \<in> set xs
      | JStr s \<Rightarrow> s = k
      | _ \<Rightarrow> False)"

text \<open>\<open>s ~ '^[+-]?[0-9]+$'\<close>, and the value of such a text, where it fits a \<open>bigint\<close>.\<close>

definition sign_body :: "string \<Rightarrow> bool \<times> string" where
  "sign_body s =
     (case s of
        [] \<Rightarrow> (False, [])
      | c # cs \<Rightarrow> if c = CHR ''-'' then (True, cs) else if c = CHR ''+'' then (False, cs) else (False, s))"

definition int_regex :: "string \<Rightarrow> bool" where
  "int_regex s = (let b = snd (sign_body s) in b \<noteq> [] \<and> list_all is_digit b)"

definition bigint_value :: "string \<Rightarrow> int" where
  "bigint_value s =
     (let (neg, b) = sign_body s; n = int (foldl (\<lambda>a c. 10 * a + (char_nat c - 48)) 0 b)
      in if neg then - n else n)"

definition input_is_bigint :: "string \<Rightarrow> bool" where
  "input_is_bigint s \<longleftrightarrow> int_regex s \<and> - (2 ^ 63) \<le> bigint_value s \<and> bigint_value s < 2 ^ 63"

section \<open>Clauses\<close>

definition arg :: "sql_val list \<Rightarrow> nat \<Rightarrow> sql_val option" where
  "arg as n = (if 1 \<le> n \<and> n \<le> length as then Some (as ! (n - 1)) else None)"

definition arg_text :: "sql_val list \<Rightarrow> nat \<Rightarrow> string option" where
  "arg_text as n = (case arg as n of Some (VText s) \<Rightarrow> Some s | _ \<Rightarrow> None)"

definition labels_of :: "row \<Rightarrow> json option" where
  "labels_of r = jget ''labels'' (r_metadata r)"

definition label_value_match :: "sql_val list \<Rightarrow> row \<Rightarrow> nat \<Rightarrow> bool option" where
  "label_value_match as r n =
     (case (labels_of r, arg as n) of
        (Some j, Some (VJson b)) \<Rightarrow> Some (jsonb_contains j b)
      | _ \<Rightarrow> None)"

fun or3 :: "bool option list \<Rightarrow> bool option" where
  "or3 [] = Some False"
| "or3 (x # xs) =
     (if x = Some True \<or> or3 xs = Some True then Some True
      else if x = None \<or> or3 xs = None then None else Some False)"

definition not_coalesce :: "bool option \<Rightarrow> bool option" where
  "not_coalesce x = Some (x \<noteq> Some True)"

definition label_exists :: "sql_val list \<Rightarrow> row \<Rightarrow> nat \<Rightarrow> bool option" where
  "label_exists as r n =
     (case (labels_of r, arg_text as n) of (Some j, Some k) \<Rightarrow> Some (jsonb_has_key j k) | _ \<Rightarrow> None)"

text \<open>The label's text compared with a parameter; \<open>CASE ... ELSE FALSE\<close> is never \<open>NULL\<close>, unless the
  parameter is.\<close>

definition label_numeric ::
  "pgfun \<Rightarrow> (int \<Rightarrow> int \<Rightarrow> bool) \<Rightarrow> sql_val list \<Rightarrow> row \<Rightarrow> nat \<Rightarrow> nat \<Rightarrow> bool option" where
  "label_numeric pg cmp as r nk nv =
     (case Option.bind (arg_text as nk)
             (\<lambda>k. Option.bind (labels_of r) (\<lambda>j. Option.bind (jget k j) (json_as_text pg))) of
        Some s \<Rightarrow>
          if int_regex s \<and> input_is_bigint s
          then map_option (\<lambda>v. cmp (bigint_value s) (bigint_value v)) (arg_text as nv)
          else Some False
      | None \<Rightarrow> Some False)"

definition shard_member :: "pgfun \<Rightarrow> sql_val list \<Rightarrow> key \<Rightarrow> nat \<Rightarrow> nat \<Rightarrow> bool option" where
  "shard_member pg as k nm no =
     (case (arg as nm, arg as no) of
        (Some (VInt m), Some (VInts owned)) \<Rightarrow> Some (\<bar>pf_hashtext pg (key_ns k)\<bar> mod m \<in> set owned)
      | _ \<Rightarrow> None)"

definition eval :: "pgfun \<Rightarrow> sql_val list \<Rightarrow> clause \<Rightarrow> key \<Rightarrow> row \<Rightarrow> bool option" where
  "eval pg as c k r =
     (case c of
        ColCmp col cmp n \<Rightarrow>
          (case (col_text pg col k r, arg_text as n) of
             (Some a, Some b) \<Rightarrow> Some (if cmp = SqlEq then a = b else a \<noteq> b)
           | _ \<Rightarrow> None)
      | LabelIn ns \<Rightarrow> or3 (map (label_value_match as r) ns)
      | LabelNotIn ns \<Rightarrow> not_coalesce (or3 (map (label_value_match as r) ns))
      | ClauseTrue \<Rightarrow> Some True
      | ClauseFalse \<Rightarrow> Some False
      | LabelGreater nk nv \<Rightarrow> label_numeric pg (>) as r nk nv
      | LabelLess nk nv \<Rightarrow> label_numeric pg (<) as r nk nv
      | LabelExists n \<Rightarrow> label_exists as r n
      | LabelNotExists n \<Rightarrow> not_coalesce (label_exists as r n)
      | ShardMember nm no \<Rightarrow> shard_member pg as k nm no)"

text \<open>A \<open>WHERE\<close> selects the rows on which every conjunct is true.\<close>

definition selects :: "pgfun \<Rightarrow> sql_val list \<Rightarrow> clause list \<Rightarrow> key \<Rightarrow> row \<Rightarrow> bool" where
  "selects pg as cs k r \<longleftrightarrow> list_all (\<lambda>c. eval pg as c k r = Some True) cs"

lemma selects_simps [simp]:
  "selects pg as [] k r"
  "selects pg as (c # cs) k r \<longleftrightarrow> eval pg as c k r = Some True \<and> selects pg as cs k r"
  "selects pg as (cs @ ds) k r \<longleftrightarrow> selects pg as cs k r \<and> selects pg as ds k r"
  by (simp_all add: selects_def)

lemma arg_append: "arg (pre @ as) (length pre + n) = (if n = 0 then arg pre (length pre) else arg as n)"
  by (auto simp: arg_def nth_append)

lemma arg_append_in [simp]: "arg (pre @ a # post) (Suc (length pre)) = Some a"
  by (simp add: arg_def nth_append)

lemma or3_True_iff: "or3 xs = Some True \<longleftrightarrow> Some True \<in> set xs"
  by (induction xs) auto

lemma foldl_digits: "list_all is_digit s \<Longrightarrow> parse_digits a s = Some (foldl (\<lambda>a c. 10 * a + (char_nat c - 48)) a s)"
  by (induction s arbitrary: a) auto

lemma parse_digits_all: "parse_digits a s \<noteq> None \<longleftrightarrow> list_all is_digit s"
  by (induction s arbitrary: a) auto

lemma parse_int64_sign:
  "parse_int64 s =
     (case parse_uint64 (snd (sign_body s)) of
        None \<Rightarrow> None
      | Some un \<Rightarrow>
          if \<not> fst (sign_body s) \<and> un \<ge> 2 ^ 63 then None
          else if fst (sign_body s) \<and> un > 2 ^ 63 then None
          else Some (if fst (sign_body s) then - int un else int un))"
proof (cases s)
  case (Cons c cs)
  consider "c = CHR ''-''" | "c = CHR ''+''" | "c \<noteq> CHR ''-''" "c \<noteq> CHR ''+''" by blast
  then show ?thesis unfolding Cons by cases (simp_all add: parse_int64_def sign_body_def split: option.split)
qed (simp add: parse_int64_def sign_body_def parse_uint64_def)

text \<open>PostgreSQL and Go accept the same decimal texts as 64-bit integers, with the same value.\<close>

lemma bigint_parse: "parse_int64 s = (if input_is_bigint s then Some (bigint_value s) else None)"
proof -
  obtain neg b where sb: "sign_body s = (neg, b)" by fastforce
  define n where "n = foldl (\<lambda>a c. 10 * a + (char_nat c - 48)) 0 b"
  have v: "bigint_value s = (if neg then - int n else int n)"
    by (simp add: bigint_value_def sb n_def)
  show ?thesis
  proof (cases "b \<noteq> [] \<and> list_all is_digit b")
    case True
    then have "parse_uint64 b = (if n < 2 ^ 64 then Some n else None)"
      using foldl_digits [of b 0] by (simp add: parse_uint64_def n_def)
    then show ?thesis using True v by (auto simp: parse_int64_sign sb input_is_bigint_def int_regex_def)
  next
    case False
    then have "parse_uint64 b = None"
      using parse_digits_all [of 0 b] by (auto simp: parse_uint64_def)
    then show ?thesis using False by (auto simp: parse_int64_sign input_is_bigint_def int_regex_def sb)
  qed
qed

end
