(* ===== verification/ResourceVersion.thy ===== *)
theory ResourceVersion
  imports GoLib
begin

text \<open>
  Resource versions: \<open>seaplane-db/internal/resourceversion/rv.go\<close> (the serialised watermark with its
  optional object-version prefix) and the two readers of an object's resource version in
  \<open>seaplane-db/convert.go\<close>.
\<close>

section \<open>rv.go\<close>

record rv =
  rv_ObjectVersion :: int
  rv_Watermark :: nat

definition zero_rv :: rv where
  "zero_rv = \<lparr>rv_ObjectVersion = 0, rv_Watermark = 0\<rparr>"

datatype rv_error =
    RVPrefixWithoutWatermark
  | RVBadObjectVersion
  | RVEmptyWatermark
  | RVOldBucketFormat
  | RVBadWatermark

definition rv_String :: "rv \<Rightarrow> string" where
  "rv_String r =
     (if rv_ObjectVersion r > 0
      then ''o'' @ format_int (rv_ObjectVersion r) @ '';'' @ format_uint (rv_Watermark r)
      else format_uint (rv_Watermark r))"

definition parse_watermark :: "int \<Rightarrow> string \<Rightarrow> rv_error + rv" where
  "parse_watermark ov s =
     (if has_prefix s ''b'' then Inl RVOldBucketFormat
      else case parse_uint64 s of
        None \<Rightarrow> Inl RVBadWatermark
      | Some wm \<Rightarrow> Inr \<lparr>rv_ObjectVersion = ov, rv_Watermark = wm\<rparr>)"

definition Parse :: "string \<Rightarrow> rv_error + rv" where
  "Parse s =
     (if s = '''' then Inr zero_rv
      else if has_prefix s ''o'' then
        (case split_first (CHR '';'') s of
           None \<Rightarrow> Inl RVPrefixWithoutWatermark
         | Some (pre, rest) \<Rightarrow>
             (case parse_int64 (drop 1 pre) of
                None \<Rightarrow> Inl RVBadObjectVersion
              | Some ov \<Rightarrow> if rest = '''' then Inl RVEmptyWatermark else parse_watermark ov rest))
      else parse_watermark 0 s)"

section \<open>convert.go: the version a write carries\<close>

datatype objrv_error = NoObjectVersion string | NonPositiveVersion | ObjectRequired

definition parseResourceVersion :: "string \<Rightarrow> objrv_error + int" where
  "parseResourceVersion s =
     (if s = '''' then Inr 0
      else case parse_int64 s of
        Some v \<Rightarrow> Inr v
      | None \<Rightarrow>
          (case Parse s of
             Inl _ \<Rightarrow> Inl (NoObjectVersion s)
           | Inr r \<Rightarrow>
               if rv_ObjectVersion r = 0 then Inl (NoObjectVersion s)
               else Inr (rv_ObjectVersion r)))"

definition ValidateObjectResourceVersion :: "string option \<Rightarrow> objrv_error + unit" where
  "ValidateObjectResourceVersion obj =
     (case obj of
        None \<Rightarrow> Inl ObjectRequired
      | Some s \<Rightarrow>
          sbind (parseResourceVersion s)
            (\<lambda>v. if v \<le> 0 then Inl NonPositiveVersion else Inr ()))"

section \<open>Well-formed versions and their serialisation\<close>

definition valid_rv :: "rv \<Rightarrow> bool" where
  "valid_rv r \<longleftrightarrow> 0 \<le> rv_ObjectVersion r \<and> rv_ObjectVersion r < 2 ^ 63 \<and> rv_Watermark r < 2 ^ 64"

lemma has_prefix_Cons [simp]: "has_prefix (c # s) [d] \<longleftrightarrow> c = d"
  by (simp add: has_prefix_def)

lemma has_prefix_format_uint [simp]: "has_prefix (format_uint n) [c] \<longleftrightarrow> hd (format_uint n) = c"
  by (cases "format_uint n") (simp_all add: has_prefix_def)

lemma hd_format_uint_digit: "is_digit (hd (format_uint n))"
  by (rule format_uint_hd [of n]) simp

lemma hd_format_uint_neq [simp]:
  "\<not> is_digit c \<Longrightarrow> hd (format_uint n) \<noteq> c"
  using hd_format_uint_digit by metis

lemma format_int_no_semi: "CHR '';'' \<notin> set (format_int i)"
  using format_uint_digits [of "CHR '';''"] by (auto simp: format_int_def)

lemma parse_watermark_format [simp]:
  "n < 2 ^ 64 \<Longrightarrow> parse_watermark ov (format_uint n) = Inr \<lparr>rv_ObjectVersion = ov, rv_Watermark = n\<rparr>"
  by (simp add: parse_watermark_def)

lemma Parse_plain [simp]:
  "n < 2 ^ 64 \<Longrightarrow> Parse (format_uint n) = Inr \<lparr>rv_ObjectVersion = 0, rv_Watermark = n\<rparr>"
  by (simp add: Parse_def)

lemma Parse_composite [simp]:
  assumes "- (2 ^ 63) \<le> ov" "ov < 2 ^ 63" "n < 2 ^ 64"
  shows "Parse (CHR ''o'' # format_int ov @ CHR '';'' # format_uint n) =
           Inr \<lparr>rv_ObjectVersion = ov, rv_Watermark = n\<rparr>"
proof -
  have "split_first (CHR '';'') ((CHR ''o'' # format_int ov) @ CHR '';'' # format_uint n) =
          Some (CHR ''o'' # format_int ov, format_uint n)"
    by (rule split_first_append) (simp add: format_int_no_semi)
  then show ?thesis using assms by (simp add: Parse_def)
qed

lemma parse_watermark_Inr:
  "parse_watermark ov s = Inr r \<Longrightarrow> rv_ObjectVersion r = ov \<and> rv_Watermark r < 2 ^ 64"
  by (auto simp: parse_watermark_def dest: parse_uint64_bound split: if_splits option.splits)

lemma parse_int64_not_o [simp]: "parse_int64 (CHR ''o'' # s) = None"
  by (simp add: parse_int64_def parse_uint64_def)

lemma Parse_String: "valid_rv r \<Longrightarrow> Parse (rv_String r) = Inr r"
  by (cases r) (auto simp: valid_rv_def rv_String_def)

lemma parseResourceVersion_String:
  "valid_rv r \<Longrightarrow> 0 < rv_ObjectVersion r \<Longrightarrow>
   parseResourceVersion (rv_String r) = Inr (rv_ObjectVersion r)"
  by (cases r) (auto simp: valid_rv_def parseResourceVersion_def rv_String_def)

lemma parseResourceVersion_plain:
  assumes "- (2 ^ 63) \<le> v" "v < 2 ^ 63"
  shows "parseResourceVersion (format_int v) = Inr v"
proof -
  have "format_int v \<noteq> ''''" by (simp add: format_int_def)
  then show ?thesis using assms by (simp add: parseResourceVersion_def)
qed

text \<open>Printing a resource version and parsing it back is the identity, for every version whose
  object version is not negative and whose fields fit their 64-bit types.\<close>
theorem rv_roundtrip: "valid_rv r \<Longrightarrow> Parse (rv_String r) = Inr r"
  by (rule Parse_String)

text \<open>A write carries the right object version whichever form of resource version its object
  holds: the plain decimal that the client stamps on objects it reads, and the composite
  \<open>o<version>;<watermark>\<close> that the watch relay stamps on delivered objects, both read back as
  the object version.\<close>
theorem parseResourceVersion_both_forms:
  assumes "0 < v" "v < 2 ^ 63" "w < 2 ^ 64"
  shows "parseResourceVersion (format_int v) = Inr v \<and>
         parseResourceVersion (rv_String \<lparr>rv_ObjectVersion = v, rv_Watermark = w\<rparr>) = Inr v"
proof
  show "parseResourceVersion (format_int v) = Inr v"
    using assms by (simp add: parseResourceVersion_plain)
  show "parseResourceVersion (rv_String \<lparr>rv_ObjectVersion = v, rv_Watermark = w\<rparr>) = Inr v"
    using assms by (simp add: parseResourceVersion_String valid_rv_def)
qed

lemma Parse_bounds:
  "Parse s = Inr r \<Longrightarrow>
     rv_Watermark r < 2 ^ 64 \<and> - (2 ^ 63) \<le> rv_ObjectVersion r \<and> rv_ObjectVersion r < 2 ^ 63"
  by (auto simp: Parse_def zero_rv_def dest!: parse_watermark_Inr parse_int64_bounds
           split: if_splits option.splits)

end
