(* ===== verification/Reader.thy ===== *)
theory Reader
  imports Sql ResourceVersion
begin

text \<open>
  The read side, \<open>seaplane-db/internal/reader\<close>: event types (\<open>event.go\<close>), shards (\<open>shard.go\<close>), the
  consistent list (\<open>list.go\<close>) and one poll of a watcher (\<open>watcher.go\<close>).

  Both list and poll run in a REPEATABLE READ transaction and therefore read one \<open>snapshot\<close>: the
  table, the compaction horizons and \<open>pg_snapshot_xmin\<close>.  A query's \<open>FROM kubernetes_resources\<close>
  visits the rows in the physical order of the heap, which SQL leaves open: \<open>scan\<close> takes that order
  as the list \<open>ks\<close> of keys, and \<open>heap\<close> says that \<open>ks\<close> lists every key of the table once.
  The server's functions are the argument \<open>pg\<close>.
\<close>

section \<open>Queries\<close>

definition scan :: "key list \<Rightarrow> (key \<Rightarrow> row \<Rightarrow> bool) \<Rightarrow> table \<Rightarrow> resource list" where
  "scan ks P t =
     concat (map (\<lambda>k. case t k of None \<Rightarrow> [] | Some r \<Rightarrow> if P k r then [(k, r)] else []) ks)"

definition heap :: "key list \<Rightarrow> table \<Rightarrow> bool" where
  "heap ks t \<longleftrightarrow> distinct ks \<and> dom t \<subseteq> set ks"

lemma set_scan: "set (scan ks P t) = {(k, r). k \<in> set ks \<and> t k = Some r \<and> P k r}"
  by (auto simp: scan_def split: option.splits if_splits)

lemma heap_set_scan: "heap ks t \<Longrightarrow> set (scan ks P t) = {(k, r). t k = Some r \<and> P k r}"
  by (auto simp: set_scan heap_def)

lemma map_fst_scan:
  "map fst (scan ks P t) = filter (\<lambda>k. case t k of None \<Rightarrow> False | Some r \<Rightarrow> P k r) ks"
  by (induction ks) (auto simp: scan_def split: option.splits)

lemma distinct_scan: "distinct ks \<Longrightarrow> distinct (map fst (scan ks P t))"
  by (simp add: map_fst_scan)

type_synonym horizons = "string \<rightharpoonup> nat"

record snapshot =
  sn_xmin :: nat
  sn_tbl :: table
  sn_horizon :: horizons

section \<open>Events\<close>

datatype EventType = EventAdded | EventModified | EventDeleted

fun EventType_String :: "EventType \<Rightarrow> string" where
  "EventType_String EventAdded = ''ADDED''"
| "EventType_String EventModified = ''MODIFIED''"
| "EventType_String EventDeleted = ''DELETED''"

record Event =
  ev_Type :: EventType
  ev_Resource :: resource

section \<open>Shards\<close>

record ShardSpec =
  sh_Mod :: int
  sh_Owned :: "int list"

datatype shard_error =
  ShardMod int
| ShardOwnedEmpty
| ShardOwnedRange int int
| ShardOwnedDuplicate int

fun validate_owned :: "int \<Rightarrow> int list \<Rightarrow> int list \<Rightarrow> shard_error + unit" where
  "validate_owned m seen [] = Inr ()"
| "validate_owned m seen (o' # os) =
     (if o' < 0 \<or> o' \<ge> m then Inl (ShardOwnedRange o' m)
      else if o' \<in> set seen then Inl (ShardOwnedDuplicate o')
      else validate_owned m (o' # seen) os)"

definition ShardSpec_Validate :: "ShardSpec \<Rightarrow> shard_error + unit" where
  "ShardSpec_Validate s =
     (if sh_Mod s \<le> 0 then Inl (ShardMod (sh_Mod s))
      else if sh_Owned s = [] then Inl ShardOwnedEmpty
      else validate_owned (sh_Mod s) [] (sh_Owned s))"

text \<open>\<open>abs(hashtext(namespace)::bigint) % $n = ANY($n+1::int[])\<close>: the result type of \<open>hashtext\<close> is a
  32-bit integer, so the absolute value is exact.\<close>

definition shardClause :: "ShardSpec \<Rightarrow> nat \<Rightarrow> clause \<times> sql_val list" where
  "shardClause s startParam =
     (ShardMember startParam (startParam + 1), [VInt (sh_Mod s), VInts (sh_Owned s)])"

text \<open>The test that a query performs on top of its own \<open>WHERE\<close>, whose arguments are \<open>as\<close>.\<close>

definition AppendQuery ::
  "pgfun \<Rightarrow> ShardSpec \<Rightarrow> (key \<Rightarrow> row \<Rightarrow> bool) \<Rightarrow> sql_val list \<Rightarrow> key \<Rightarrow> row \<Rightarrow> bool" where
  "AppendQuery pg s query as k r \<longleftrightarrow>
     query k r \<and>
     (let (c, shardArgs) = shardClause s (length as + 1) in eval pg (as @ shardArgs) c k r = Some True)"

text \<open>What belongs to a shard; \<open>None\<close> is no sharding.\<close>

definition shard_selects :: "pgfun \<Rightarrow> ShardSpec option \<Rightarrow> key \<Rightarrow> row \<Rightarrow> bool" where
  "shard_selects pg sh k r =
     (case sh of None \<Rightarrow> True | Some s \<Rightarrow> \<bar>pf_hashtext pg (key_ns k)\<bar> mod sh_Mod s \<in> set (sh_Owned s))"

section \<open>List\<close>

record ListFilter =
  lf_WhereClauses :: "clause list"
  lf_WhereArgs :: "sql_val list"
  lf_Limit :: int
  lf_Offset :: int

definition ToListFilter :: "ShardSpec \<Rightarrow> ListFilter" where
  "ToListFilter s =
     (let (c, as) = shardClause s 2 in
      \<lparr>lf_WhereClauses = [c], lf_WhereArgs = as, lf_Limit = 0, lf_Offset = 0\<rparr>)"

record ListResult =
  lr_Resources :: "resource list"
  lr_ResourceVersion :: rv

datatype list_stage = ListBegin | ListXmin | ListResources | ListScan | ListRows | ListCommit

definition watermark_of :: "nat \<Rightarrow> nat" where
  "watermark_of xmin = (if xmin > 0 then xmin - 1 else 0)"

definition list_args :: "string \<Rightarrow> ListFilter option \<Rightarrow> sql_val list" where
  "list_args gvk flt =
     VText gvk #
     (case flt of
        None \<Rightarrow> []
      | Some f \<Rightarrow>
          lf_WhereArgs f @
          (if lf_Limit f > 0
           then VInt (lf_Limit f) # (if lf_Offset f > 0 then [VInt (lf_Offset f)] else [])
           else []))"

definition list_where :: "pgfun \<Rightarrow> string \<Rightarrow> ListFilter option \<Rightarrow> key \<Rightarrow> row \<Rightarrow> bool" where
  "list_where pg gvk flt k r \<longleftrightarrow>
     key_gvk k = gvk \<and> (r_deletion r = None \<or> sql_has_finalizers (r_metadata r)) \<and>
     (case flt of None \<Rightarrow> True | Some f \<Rightarrow> selects pg (list_args gvk flt) (lf_WhereClauses f) k r)"

definition list_page :: "ListFilter option \<Rightarrow> resource list \<Rightarrow> resource list" where
  "list_page flt rs =
     (case flt of
        None \<Rightarrow> rs
      | Some f \<Rightarrow>
          if lf_Limit f > 0
          then take (nat (lf_Limit f)) (if lf_Offset f > 0 then drop (nat (lf_Offset f)) rs else rs)
          else rs)"

text \<open>\<open>fault\<close> is the database call that fails, if one does; \<open>ks\<close> the heap order.\<close>

definition List ::
  "pgfun \<Rightarrow> list_stage option \<Rightarrow> key list \<Rightarrow> snapshot \<Rightarrow> string \<Rightarrow> ListFilter option \<Rightarrow>
   list_stage + ListResult" where
  "List pg fault ks sn gvk flt =
     (case fault of
        Some stage \<Rightarrow> Inl stage
      | None \<Rightarrow>
          Inr \<lparr>lr_Resources =
                 list_page flt
                   (sort_key (\<lambda>(k, r). r_txid r) (scan ks (list_where pg gvk flt) (sn_tbl sn))),
               lr_ResourceVersion =
                 \<lparr>rv_ObjectVersion = 0, rv_Watermark = watermark_of (sn_xmin sn)\<rparr>\<rparr>)"

section \<open>The watcher\<close>

record WatcherConfig =
  wc_GVK :: string
  wc_StartRV :: rv
  wc_BaselineInterval :: int
  wc_DebounceFloor :: int
  wc_Shard :: "ShardSpec option"

record Watcher =
  wa_cfg :: WatcherConfig
  wa_hwm :: nat

definition NewWatcher :: "WatcherConfig \<Rightarrow> Watcher" where
  "NewWatcher cfg =
     (let cfg1 = (if wc_BaselineInterval cfg = 0
                  then cfg\<lparr>wc_BaselineInterval := 5 * 10 ^ 9\<rparr> else cfg);
          cfg2 = (if wc_DebounceFloor cfg1 = 0
                  then cfg1\<lparr>wc_DebounceFloor := 100 * 10 ^ 6\<rparr> else cfg1)
      in \<lparr>wa_cfg = cfg2, wa_hwm = rv_Watermark (wc_StartRV cfg2)\<rparr>)"

datatype poll_stage =
  PollBegin | PollXmin | PollHorizon | PollQuery | PollScan | PollRows | PollCommit

datatype poll_error =
  ErrGone nat nat \<comment> \<open>hwm, compacted\<close>
| PollFailed poll_stage
| PollCancelled \<comment> \<open>\<open>ctx.Err()\<close>\<close>

definition poll_type :: "row \<Rightarrow> EventType" where
  "poll_type r =
     (if r_deletion r \<noteq> None then EventDeleted
      else if r_version r = 1 then EventAdded else EventModified)"

definition poll_where :: "pgfun \<Rightarrow> Watcher \<Rightarrow> key \<Rightarrow> row \<Rightarrow> bool" where
  "poll_where pg w =
     (let gvk = wc_GVK (wa_cfg w); hwm = wa_hwm w;
          query = (\<lambda>k r. key_gvk k = gvk \<and> r_txid r > hwm);
          args = [VText gvk, VInt (int hwm)]
      in case wc_Shard (wa_cfg w) of None \<Rightarrow> query | Some s \<Rightarrow> AppendQuery pg s query args)"

definition poll_events ::
  "pgfun \<Rightarrow> key list \<Rightarrow> table \<Rightarrow> Watcher \<Rightarrow> Event list" where
  "poll_events pg ks t w =
     map (\<lambda>(k, r). \<lparr>ev_Type = poll_type r, ev_Resource = (k, r)\<rparr>)
       (sort_key (\<lambda>(k, r). r_txid r) (scan ks (poll_where pg w) t))"

definition advance_hwm :: "nat \<Rightarrow> Watcher \<Rightarrow> Watcher" where
  "advance_hwm xmin w = (if xmin > 0 \<and> xmin - 1 > wa_hwm w then w\<lparr>wa_hwm := xmin - 1\<rparr> else w)"

definition gone_horizon :: "snapshot \<Rightarrow> Watcher \<Rightarrow> nat option" where
  "gone_horizon sn w =
     (case sn_horizon sn (wc_GVK (wa_cfg w)) of
        None \<Rightarrow> None
      | Some c \<Rightarrow> if wa_hwm w < c then Some c else None)"

text \<open>The watcher is part of the result: its high-water mark moves before the transaction commits.\<close>

definition pollAll ::
  "pgfun \<Rightarrow> poll_stage option \<Rightarrow> key list \<Rightarrow> snapshot \<Rightarrow> Watcher \<Rightarrow>
   (poll_error + Event list) \<times> Watcher" where
  "pollAll pg fault ks sn w =
     (if fault = Some PollXmin then (Inl (PollFailed PollXmin), w)
      else if fault = Some PollHorizon then (Inl (PollFailed PollHorizon), w)
      else case gone_horizon sn w of
        Some c \<Rightarrow> (Inl (ErrGone (wa_hwm w) c), w)
      | None \<Rightarrow>
          if fault = Some PollQuery then (Inl (PollFailed PollQuery), w)
          else if fault = Some PollScan then (Inl (PollFailed PollScan), w)
          else if fault = Some PollRows then (Inl (PollFailed PollRows), w)
          else (Inr (poll_events pg ks (sn_tbl sn) w), advance_hwm (sn_xmin sn) w))"

text \<open>What interrupts the sends on the event channel, and after how many of them.\<close>

datatype delivery = Uninterrupted | CtxDone nat | StopClosed nat

text \<open>The result, the events sent on the channel, and the watcher.\<close>

definition poll ::
  "pgfun \<Rightarrow> poll_stage option \<Rightarrow> delivery \<Rightarrow> key list \<Rightarrow> snapshot \<Rightarrow> Watcher \<Rightarrow>
   (poll_error + nat) \<times> Event list \<times> Watcher" where
  "poll pg fault d ks sn w =
     (if fault = Some PollBegin then (Inl (PollFailed PollBegin), [], w)
      else case pollAll pg fault ks sn w of
        (Inl e, w') \<Rightarrow> (Inl e, [], w')
      | (Inr evs, w') \<Rightarrow>
          if fault = Some PollCommit then (Inl (PollFailed PollCommit), [], w')
          else (case d of
                  Uninterrupted \<Rightarrow> (Inr (length evs), evs, w')
                | CtxDone n \<Rightarrow>
                    if n < length evs then (Inl PollCancelled, take n evs, w')
                    else (Inr (length evs), evs, w')
                | StopClosed n \<Rightarrow>
                    if n < length evs then (Inr 0, take n evs, w')
                    else (Inr (length evs), evs, w')))"

section \<open>Replaying events\<close>

text \<open>The meaning of a watch stream: an object is replaced by the one an event carries, and removed by
  the deletion of an object that no finalizer holds.\<close>

definition apply_event :: "Event \<Rightarrow> table \<Rightarrow> table" where
  "apply_event ev c =
     (let (k, r) = ev_Resource ev in
      if ev_Type ev = EventDeleted \<and> sql_no_finalizers (r_metadata r)
      then c(k := None) else c(k \<mapsto> r))"

text \<open>The objects of a kind and shard that exist in a table: live and dying ones.\<close>

definition view :: "pgfun \<Rightarrow> string \<Rightarrow> ShardSpec option \<Rightarrow> table \<Rightarrow> table" where
  "view pg gvk sh t k =
     (case t k of
        None \<Rightarrow> None
      | Some r \<Rightarrow>
          if key_gvk k = gvk \<and> shard_selects pg sh k r \<and> \<not> is_tombstone r
          then Some r else None)"

lemma view_Some_iff:
  "view hf gvk sh t k = Some r \<longleftrightarrow>
     t k = Some r \<and> key_gvk k = gvk \<and> shard_selects hf sh k r \<and> \<not> is_tombstone r"
  by (auto simp: view_def split: option.splits)

text \<open>Membership of a shard is decided by the key alone.\<close>

lemma shard_selects_key: "shard_selects hf sh k r = shard_selects hf sh k r'"
  by (simp add: shard_selects_def split: option.splits)

lemma eval_shardClause:
  assumes "shardClause s (Suc (length pre)) = (c, as)"
  shows "eval pg (pre @ as @ post) c k r = Some True \<longleftrightarrow> shard_selects pg (Some s) k r"
  using assms by (auto simp: shardClause_def eval_def shard_member_def shard_selects_def arg_def nth_append)

lemma ToListFilter_simps [simp]:
  "lf_Limit (ToListFilter s) = 0"
  "selects pg (list_args gvk (Some (ToListFilter s))) (lf_WhereClauses (ToListFilter s)) k r \<longleftrightarrow>
   shard_selects pg (Some s) k r"
  using eval_shardClause [of s "[VText gvk]" _ _ pg "[]" k r]
  by (auto simp: ToListFilter_def list_args_def numeral_2_eq_2 split: prod.splits)

lemma AppendQuery_iff: "AppendQuery pg s query as k r \<longleftrightarrow> query k r \<and> shard_selects pg (Some s) k r"
  using eval_shardClause [of s "as" _ _ pg "[]" k r] by (auto simp: AppendQuery_def split: prod.splits)

lemma poll_where_iff:
  "poll_where pg w k r \<longleftrightarrow>
     key_gvk k = wc_GVK (wa_cfg w) \<and> r_txid r > wa_hwm w \<and>
     shard_selects pg (wc_Shard (wa_cfg w)) k r"
  by (cases "wc_Shard (wa_cfg w)") (auto simp: poll_where_def AppendQuery_iff shard_selects_def Let_def)

lemma apply_event_other: "fst (ev_Resource ev) \<noteq> k \<Longrightarrow> apply_event ev c k = c k"
  by (auto simp: apply_event_def Let_def split: prod.splits)

lemma fold_apply_event_notin:
  "k \<notin> set (map (fst \<circ> ev_Resource) evs) \<Longrightarrow> fold apply_event evs c k = c k"
  by (induction evs arbitrary: c) (auto simp: apply_event_other)

lemma fold_apply_event_in:
  assumes "distinct (map (fst \<circ> ev_Resource) evs)" "ev \<in> set evs" "ev_Resource ev = (k, r)"
  shows "fold apply_event evs c k = apply_event ev Map.empty k"
  using assms
proof (induction evs arbitrary: c)
  case (Cons e es)
  show ?case
  proof (cases "e = ev")
    case True
    then have "k \<notin> set (map (fst \<circ> ev_Resource) es)" using Cons.prems by force
    then have "fold apply_event (e # es) c k = apply_event ev c k"
      using True by (simp add: fold_apply_event_notin)
    also have "\<dots> = apply_event ev Map.empty k" using Cons.prems(3) by (simp add: apply_event_def)
    finally show ?thesis .
  next
    case False
    then show ?thesis using Cons by simp
  qed
qed simp

lemma sort_key_scan:
  "set (sort_key f (scan ks P t)) = set (scan ks P t)"
  "distinct ks \<Longrightarrow> distinct (map fst (sort_key f (scan ks P t)))"
proof -
  show "set (sort_key f (scan ks P t)) = set (scan ks P t)" by simp
  assume "distinct ks"
  then have "distinct (map fst (scan ks P t))" by (rule distinct_scan)
  then show "distinct (map fst (sort_key f (scan ks P t)))"
    by (metis distinct_map distinct_sort set_sort)
qed

lemma poll_events_keys:
  "map (fst \<circ> ev_Resource) (poll_events hf ks t w) =
   map fst (sort_key (\<lambda>(k, r). r_txid r) (scan ks (poll_where hf w) t))"
  by (simp add: poll_events_def case_prod_unfold)

lemma poll_events_distinct: "heap ks t \<Longrightarrow> distinct (map (fst \<circ> ev_Resource) (poll_events hf ks t w))"
  unfolding poll_events_keys heap_def by (intro sort_key_scan) simp

lemma set_poll_events:
  "heap ks t \<Longrightarrow>
   set (poll_events hf ks t w) =
     {\<lparr>ev_Type = poll_type r, ev_Resource = (k, r)\<rparr> | k r. t k = Some r \<and> poll_where hf w k r}"
  by (auto simp: poll_events_def heap_set_scan)

text \<open>After a poll, the delivered keys show the polled table; the others are untouched.\<close>

lemma fold_poll_events:
  assumes "heap ks t"
  shows "fold apply_event (poll_events hf ks t w) c k =
     (case t k of
        None \<Rightarrow> c k
      | Some r \<Rightarrow> if poll_where hf w k r then (if is_tombstone r then None else Some r) else c k)"
proof (cases "\<exists>r. t k = Some r \<and> poll_where hf w k r")
  case True
  then obtain r where r: "t k = Some r" "poll_where hf w k r" by blast
  let ?ev = "\<lparr>ev_Type = poll_type r, ev_Resource = (k, r)\<rparr>"
  have "?ev \<in> set (poll_events hf ks t w)" using r unfolding set_poll_events [OF assms] by blast
  then have "fold apply_event (poll_events hf ks t w) c k = apply_event ?ev Map.empty k"
    by (rule fold_apply_event_in [OF poll_events_distinct [OF assms]]) simp
  then show ?thesis using r by (auto simp: apply_event_def poll_type_def is_tombstone_def)
next
  case False
  then have "k \<notin> set (map (fst \<circ> ev_Resource) (poll_events hf ks t w))"
    by (auto simp: set_poll_events [OF assms])
  then show ?thesis using False by (auto simp: fold_apply_event_notin split: option.splits)
qed

section \<open>Shards partition the namespaces\<close>

lemma validate_owned_Inr:
  "validate_owned m seen os = Inr u \<longleftrightarrow> (\<forall>x \<in> set os. 0 \<le> x \<and> x < m \<and> x \<notin> set seen) \<and> distinct os"
  by (induction os arbitrary: seen) auto

lemma ShardSpec_Validate_Inr:
  "ShardSpec_Validate s = Inr u \<longleftrightarrow>
     0 < sh_Mod s \<and> sh_Owned s \<noteq> [] \<and> distinct (sh_Owned s) \<and> set (sh_Owned s) \<subseteq> {0..<sh_Mod s}"
  by (auto simp: ShardSpec_Validate_def validate_owned_Inr)

lemma distinct_concat_nth:
  assumes "distinct (concat xss)" "i < j" "j < length xss"
  shows "set (xss ! i) \<inter> set (xss ! j) = {}"
proof -
  have "xss = take j xss @ xss ! j # drop (Suc j) xss" using assms(3) by (simp add: id_take_nth_drop)
  then have "distinct (concat (take j xss) @ xss ! j @ concat (drop (Suc j) xss))"
    using assms(1) by (metis concat.simps(2) concat_append)
  moreover have "xss ! i \<in> set (take j xss)"
    using assms(2,3) by (metis in_set_conv_nth length_take min.absorb4 nth_take)
  ultimately show ?thesis by auto
qed

text \<open>C28: replicas whose shard configurations are valid, use the same modulus, own no residue twice and
  together own as many residues as the modulus, divide the rows among them, whatever the hash
  function.  For every row there is one replica that the generated SQL gives it to: among the
  replicas, its query alone, the watch query with the shard clause appended after any arguments, returns
  the row where the unsharded query does, and its list filter alone lists the row where the unsharded
  list does.\<close>
theorem shards_partition_rows:
  assumes "\<forall>s \<in> set shards. ShardSpec_Validate s = Inr () \<and> sh_Mod s = m" "shards \<noteq> []"
    and "distinct (concat (map sh_Owned shards))" "length (concat (map sh_Owned shards)) = nat m"
  shows "\<exists>i < length shards. \<forall>j < length shards.
           (\<forall>query as. AppendQuery pg (shards ! j) query as k r \<longleftrightarrow> query k r \<and> j = i) \<and>
           (\<forall>gvk. list_where pg gvk (Some (ToListFilter (shards ! j))) k r \<longleftrightarrow>
                    list_where pg gvk None k r \<and> j = i)"
proof -
  let ?os = "concat (map sh_Owned shards)" and ?x = "\<bar>pf_hashtext pg (key_ns k)\<bar> mod m"
  have m: "0 < m" using assms(1,2) by (auto simp: ShardSpec_Validate_Inr neq_Nil_conv)
  have "set ?os \<subseteq> {0..<m}" using assms(1) by (auto simp: ShardSpec_Validate_Inr)
  moreover have "card (set ?os) = card {0..<m}"
    using distinct_card [OF assms(3)] assms(4) by (simp del: set_concat)
  ultimately have "set ?os = {0..<m}" by (simp add: card_subset_eq)
  then have "?x \<in> set ?os" using m by simp
  then obtain s where "s \<in> set shards" "?x \<in> set (sh_Owned s)" by auto
  then obtain i where i: "i < length shards" "?x \<in> set (sh_Owned (shards ! i))"
    by (metis in_set_conv_nth)
  have u: "j = i" if "j < length shards" "?x \<in> set (sh_Owned (shards ! j))" for j
    using distinct_concat_nth [OF assms(3), of i j] distinct_concat_nth [OF assms(3), of j i] i that
    by (cases i j rule: linorder_cases) auto
  have sel: "shard_selects pg (Some (shards ! j)) k r \<longleftrightarrow> j = i" if "j < length shards" for j
  proof -
    have "shard_selects pg (Some (shards ! j)) k r \<longleftrightarrow> ?x \<in> set (sh_Owned (shards ! j))"
      using assms(1) that by (simp add: shard_selects_def)
    then show ?thesis using u [OF that] i(2) by blast
  qed
  have "AppendQuery pg (shards ! j) query as k r \<longleftrightarrow> query k r \<and> j = i" if "j < length shards" for j query "as"
    by (simp add: AppendQuery_iff sel [OF that])
  moreover have "list_where pg gvk (Some (ToListFilter (shards ! j))) k r \<longleftrightarrow> list_where pg gvk None k r \<and> j = i"
    if "j < length shards" for j gvk
    by (simp add: list_where_def sel [OF that])
  ultimately show ?thesis using i(1) by (intro exI [of _ i] conjI allI impI) simp_all
qed

definition ex_shards :: "ShardSpec list" where
  "ex_shards = [\<lparr>sh_Mod = 3, sh_Owned = [0, 2]\<rparr>, \<lparr>sh_Mod = 3, sh_Owned = [1]\<rparr>]"

definition ex_hash :: pgfun where
  "ex_hash = \<lparr>pf_hashtext = (\<lambda>s. - 4), pf_jsonb_text = (\<lambda>_. [])\<rparr>"

definition ex_shard_row :: row where
  "ex_shard_row = \<lparr>r_uid = 0, r_txid = 3, r_version = 1, r_spec = JNull, r_status = JNull, r_metadata = JNull,
                  r_deletion = None, r_created = 0, r_updated = 0\<rparr>"

theorem shards_partition_rows_witness:
  "\<exists>i < length ex_shards. \<forall>j < length ex_shards.
     AppendQuery ex_hash (ex_shards ! j) (\<lambda>k r. r_txid r > 2) [VText ''g/v/K'', VInt 2] (''g/v/K'', ''ns'', ''n'')
       ex_shard_row \<longleftrightarrow> j = i"
proof -
  have "\<forall>s \<in> set ex_shards. ShardSpec_Validate s = Inr () \<and> sh_Mod s = 3" "ex_shards \<noteq> []"
    "distinct (concat (map sh_Owned ex_shards))" "length (concat (map sh_Owned ex_shards)) = nat 3"
    by (simp_all add: ShardSpec_Validate_def ex_shards_def)
  from shards_partition_rows [OF this, of ex_hash "(''g/v/K'', ''ns'', ''n'')" ex_shard_row]
  obtain i where i: "i < length ex_shards" "\<And>j query as. j < length ex_shards \<Longrightarrow>
      AppendQuery ex_hash (ex_shards ! j) query as (''g/v/K'', ''ns'', ''n'') ex_shard_row \<longleftrightarrow>
      query (''g/v/K'', ''ns'', ''n'') ex_shard_row \<and> j = i" by metis
  show ?thesis by (rule exI [of _ i]) (simp add: i, simp add: ex_shard_row_def)
qed

end
