(* ===== verification/Database.thy ===== *)
theory Database
  imports WriterProps Reader
begin

text \<open>
  The database as its concurrent users drive it.  Write transactions take their transaction id when
  they start, run the suppression check and the upsert of \<open>pgctl_write\<close> on the tables they find at
  those two moments, and commit or disappear, interleaved in any order with each other and with the
  compactor (\<open>seaplane-db/compaction/compactor.go\<close>).  An upsert holds its row's lock up to the
  commit, so upsert and commit are one step.  A reader's snapshot is a state of this machine; its
  \<open>pg_snapshot_xmin\<close> is the lowest transaction id still running.
\<close>

section \<open>The compactor\<close>

record compaction_config =
  cc_Retention :: int \<comment> \<open>nanoseconds\<close>

definition default_retention :: int where
  "default_retention = 24 * 3600 * 10 ^ 9"

text \<open>\<open>int(cfg.Retention.Seconds())\<close>, truncating towards zero.\<close>

definition retention_seconds :: "compaction_config \<Rightarrow> int" where
  "retention_seconds cfg =
     (let ret = (if cc_Retention cfg = 0 then default_retention else cc_Retention cfg)
      in if ret < 0 then - ((- ret) div 10 ^ 9) else ret div 10 ^ 9)"

definition compactable :: "time \<Rightarrow> key \<Rightarrow> row \<Rightarrow> bool" where
  "compactable cutoff k r \<longleftrightarrow>
     (case r_deletion r of
        None \<Rightarrow> False
      | Some d \<Rightarrow> max d (r_updated r) < cutoff \<and> sql_no_finalizers (r_metadata r))"

definition advance_horizon :: "resource list \<Rightarrow> horizons \<Rightarrow> horizons" where
  "advance_horizon del h g =
     (let xs = map (r_txid \<circ> snd) (filter (\<lambda>(k, r). key_gvk k = g) del) in
      if xs = [] then h g
      else Some (case h g of None \<Rightarrow> fold max xs 0 | Some c \<Rightarrow> max c (fold max xs 0)))"

text \<open>One CTE statement at time \<open>now\<close> (microseconds): delete and horizon together, and the count.\<close>

definition Compact ::
  "compaction_config \<Rightarrow> time \<Rightarrow> key list \<Rightarrow> table \<times> horizons \<Rightarrow> nat \<times> table \<times> horizons" where
  "Compact cfg now ks th =
     (let (t, h) = th;
          cutoff = now - retention_seconds cfg * 10 ^ 6;
          del = scan ks (compactable cutoff) t
      in (length del, (\<lambda>k. if k \<in> set (map fst del) then None else t k), advance_horizon del h))"

section \<open>The transaction machine\<close>

datatype txphase = Started | Checked

record db =
  db_tbl :: table
  db_horizon :: horizons
  db_next :: nat
  db_running :: "(nat \<times> writeParams \<times> txphase) list"
  db_minted :: "uuid list" \<comment> \<open>UUIDs that \<open>gen_random_uuid\<close> has returned\<close>

definition db_xmin :: "db \<Rightarrow> nat" where
  "db_xmin s = fold min (map fst (db_running s)) (db_next s)"

definition db_init :: db where
  "db_init = \<lparr>db_tbl = Map.empty, db_horizon = Map.empty, db_next = 3, db_running = [],
              db_minted = []\<rparr>"

definition drop_tx :: "nat \<Rightarrow> (nat \<times> writeParams \<times> txphase) list \<Rightarrow> (nat \<times> writeParams \<times> txphase) list"
  where
  "drop_tx x rs = filter (\<lambda>(y, _). y \<noteq> x) rs"

text \<open>\<open>adm\<close> restricts the write requests that clients issue.  \<open>te_uuid e \<notin> set (db_minted s)\<close> states
  what the code relies on of \<open>gen_random_uuid\<close>: it never returns a value twice.\<close>

inductive db_step :: "(writeParams \<Rightarrow> bool) \<Rightarrow> db \<Rightarrow> db \<Rightarrow> bool" for adm where
  begin_tx:
    "adm p \<Longrightarrow>
     db_step adm s (s\<lparr>db_next := Suc (db_next s),
                       db_running := (db_next s, p, Started) # db_running s\<rparr>)"
| check_tx:
    "(x, p, Started) \<in> set (db_running s) \<Longrightarrow> suppression_check p (db_tbl s) = Inr None \<Longrightarrow>
     db_step adm s (s\<lparr>db_running := (x, p, Checked) # drop_tx x (db_running s)\<rparr>)"
| commit_tx:
    "(x, p, Checked) \<in> set (db_running s) \<Longrightarrow> te_txid e = x \<Longrightarrow>
     te_uuid e \<notin> set (db_minted s) \<Longrightarrow> upsert e p (db_tbl s) = Inr (out, t') \<Longrightarrow>
     db_step adm s (s\<lparr>db_tbl := t', db_running := drop_tx x (db_running s),
                       db_minted := te_uuid e # db_minted s\<rparr>)"
| end_tx:
    "(x, p, ph) \<in> set (db_running s) \<Longrightarrow>
     db_step adm s (s\<lparr>db_running := drop_tx x (db_running s)\<rparr>)"
| compact:
    "heap ks (db_tbl s) \<Longrightarrow> Compact cfg now ks (db_tbl s, db_horizon s) = (n, t', h') \<Longrightarrow>
     db_step adm s (s\<lparr>db_tbl := t', db_horizon := h'\<rparr>)"

abbreviation db_steps :: "(writeParams \<Rightarrow> bool) \<Rightarrow> db \<Rightarrow> db \<Rightarrow> bool" where
  "db_steps adm \<equiv> (db_step adm)\<^sup>*\<^sup>*"

definition reachable :: "(writeParams \<Rightarrow> bool) \<Rightarrow> db \<Rightarrow> bool" where
  "reachable adm s \<longleftrightarrow> db_steps adm db_init s"

section \<open>Compaction facts\<close>

lemma fold_max_ge: "(a::nat) \<le> fold max xs a"
proof (induction xs arbitrary: a)
  case (Cons y ys)
  then have "max y a \<le> fold max ys (max y a)" .
  then show ?case by simp
qed simp

lemma fold_max_ge_mem: "x \<in> set xs \<Longrightarrow> (x::nat) \<le> fold max xs a"
proof (induction xs arbitrary: a)
  case (Cons y ys)
  then show ?case using fold_max_ge [of "max y a" ys] by auto
qed simp

lemma fold_max_in: "fold max xs (a::nat) \<in> insert a (set xs)"
proof (induction xs arbitrary: a)
  case (Cons y ys)
  have "fold max ys (max y a) \<in> insert (max y a) (set ys)" by (rule Cons.IH)
  moreover have "max y a \<in> {y, a}" by (simp add: max_def)
  ultimately show ?case by auto
qed simp

lemma advance_horizon_mono: "h g = Some c \<Longrightarrow> \<exists>c' \<ge> c. advance_horizon del h g = Some c'"
  by (auto simp: advance_horizon_def Let_def)

lemma advance_horizon_covers:
  assumes "(k, r) \<in> set del"
  shows "\<exists>c \<ge> r_txid r. advance_horizon del h (key_gvk k) = Some c"
proof -
  let ?xs = "map (r_txid \<circ> snd) (filter (\<lambda>(k', r). key_gvk k' = key_gvk k) del)"
  have mem: "r_txid r \<in> set ?xs" using assms by force
  then have "?xs \<noteq> []" by force
  then show ?thesis using fold_max_ge_mem [OF mem, of 0]
    by (auto simp: advance_horizon_def Let_def split: option.splits)
qed

lemma compactable_tombstone: "compactable c k r \<Longrightarrow> is_tombstone r"
  by (auto simp: compactable_def is_tombstone_def split: option.splits)

lemma Compact_cases:
  assumes "Compact cfg now ks (t, h) = (n, t', h')"
  obtains (kept) "t' k = t k"
    | (removed) r where "t k = Some r" "t' k = None" "is_tombstone r"
        "\<exists>c \<ge> r_txid r. h' (key_gvk k) = Some c"
proof -
  let ?cut = "now - retention_seconds cfg * 10 ^ 6"
  let ?del = "scan ks (compactable ?cut) t"
  have eq: "t' = (\<lambda>k. if k \<in> set (map fst ?del) then None else t k)" "h' = advance_horizon ?del h"
    using assms by (simp_all add: Compact_def Let_def)
  show thesis
  proof (cases "k \<in> set (map fst ?del)")
    case True
    then obtain r where r: "(k, r) \<in> set ?del" by auto
    then have "t k = Some r" "is_tombstone r"
      by (auto simp: set_scan compactable_tombstone)
    then show thesis using removed True eq advance_horizon_covers [OF r] by simp
  qed (use eq kept in simp)
qed

lemma Compact_horizon_mono:
  assumes "Compact cfg now ks (t, h) = (n, t', h')" "h g = Some c"
  shows "\<exists>c' \<ge> c. h' g = Some c'"
proof -
  have "h' = advance_horizon (scan ks (compactable (now - retention_seconds cfg * 10 ^ 6)) t) h"
    using assms(1) by (simp add: Compact_def Let_def)
  then show ?thesis using advance_horizon_mono [of h g c] assms(2) by auto
qed

section \<open>Invariants of the machine\<close>

definition stamps_old :: "db \<Rightarrow> bool" where
  "stamps_old s \<longleftrightarrow>
     (\<forall>x p ph. (x, p, ph) \<in> set (db_running s) \<longrightarrow> 3 \<le> x \<and> x < db_next s) \<and>
     (\<forall>k r. db_tbl s k = Some r \<longrightarrow> 3 \<le> r_txid r \<and> r_txid r < db_next s) \<and>
     3 \<le> db_next s"

lemma stamps_old_row:
  "stamps_old s \<Longrightarrow> db_tbl s k = Some r \<Longrightarrow> 3 \<le> r_txid r \<and> r_txid r < db_next s"
  unfolding stamps_old_def by blast

lemma set_drop_tx: "set (drop_tx x rs) = {(y, p, ph). (y, p, ph) \<in> set rs \<and> y \<noteq> x}"
  by (auto simp: drop_tx_def)

lemma upsert_lookup:
  assumes "upsert e p t = Inr (out, t')"
  shows "t' k = t k \<or> (k = wp_key p \<and> (\<exists>r. t' k = Some r \<and> r_txid r = te_txid e))"
  by (rule upsert_shape [OF assms]) auto

lemma stamps_old_step: "db_step adm s s' \<Longrightarrow> stamps_old s \<Longrightarrow> stamps_old s'"
proof (induction rule: db_step.induct)
  case (commit_tx x p s e out t')
  then have x: "3 \<le> x" "x < db_next s" by (auto simp: stamps_old_def)
  have "3 \<le> r_txid r \<and> r_txid r < db_next s" if "t' k = Some r" for k r
    using upsert_lookup [OF commit_tx.hyps(4), of k] that x commit_tx.hyps(2)
      stamps_old_row [OF commit_tx.prems, of k r] by auto
  then show ?case using commit_tx.prems by (simp add: stamps_old_def set_drop_tx)
next
  case (compact ks s cfg now n t' h')
  have "3 \<le> r_txid r \<and> r_txid r < db_next s" if "t' k = Some r" for k r
    using that stamps_old_row [OF compact.prems, of k r]
    by (cases rule: Compact_cases [OF compact.hyps(2), of k]) auto
  then show ?case using compact.prems by (simp add: stamps_old_def)
next
  case (begin_tx p s)
  then show ?case by (auto simp: stamps_old_def intro: less_SucI)
next
  case (check_tx x p s)
  then show ?case by (auto simp: stamps_old_def set_drop_tx)
next
  case (end_tx x p ph s)
  then show ?case by (auto simp: stamps_old_def set_drop_tx)
qed

lemma stamps_old_init: "stamps_old db_init"
  by (simp add: stamps_old_def db_init_def)

lemma db_steps_invariant:
  assumes "\<And>s s'. db_step adm s s' \<Longrightarrow> I s \<Longrightarrow> I s'" "db_steps adm s s'" "I s"
  shows "I s'"
  using assms(2,3) by (induction rule: rtranclp_induct) (auto intro: assms(1))

lemma reachable_stamps_old: "reachable adm s \<Longrightarrow> stamps_old s"
  unfolding reachable_def
  by (rule db_steps_invariant [OF stamps_old_step]) (auto intro: stamps_old_init)

lemma xmin_le_running: "(x, p, ph) \<in> set (db_running s) \<Longrightarrow> db_xmin s \<le> x"
  unfolding db_xmin_def by (rule fold_min_le_mem) force

lemma xmin_le_next: "db_xmin s \<le> db_next s"
  unfolding db_xmin_def by (rule fold_min_le)

lemma xmin_ge:
  assumes "\<And>x p ph. (x, p, ph) \<in> set (db_running s) \<Longrightarrow> m \<le> x" "m \<le> db_next s"
  shows "m \<le> db_xmin s"
  using fold_min_in [of "map fst (db_running s)" "db_next s"] assms
  unfolding db_xmin_def by force

lemma xmin_step:
  assumes "db_step adm s s'"
  shows "db_xmin s \<le> db_xmin s'"
  using assms
  by induction
     (auto intro!: xmin_ge simp: set_drop_tx le_SucI [OF xmin_le_next]
           intro: xmin_le_running xmin_le_next)

lemma xmin_steps: "db_steps adm s s' \<Longrightarrow> db_xmin s \<le> db_xmin s'"
  by (induction rule: rtranclp_induct) (auto dest: xmin_step)

lemma xmin_pos: "stamps_old s \<Longrightarrow> 0 < db_xmin s"
  using xmin_ge [of s 3] by (fastforce simp: stamps_old_def)

section \<open>What a later snapshot says about an earlier one\<close>

lemma step_row_source:
  assumes "db_step adm s s'" "db_tbl s' k = Some r"
  shows "db_tbl s k = Some r \<or> db_xmin s \<le> r_txid r"
  using assms
proof induction
  case (commit_tx x p s e out t')
  then show ?case
    using upsert_lookup [OF commit_tx.hyps(4), of k] xmin_le_running [OF commit_tx.hyps(1)] by auto
next
  case (compact ks s cfg now n t' h')
  then show ?case by (cases rule: Compact_cases [OF compact.hyps(2), of k]) auto
qed auto

text \<open>A row stamped below the watermark of a snapshot was already there, unchanged.\<close>

lemma row_stable:
  assumes "db_steps adm s s'" "db_tbl s' k = Some r" "r_txid r < db_xmin s"
  shows "db_tbl s k = Some r"
  using assms
proof (induction rule: rtranclp_induct)
  case (step y z)
  have "db_xmin s \<le> db_xmin y" using step.hyps(1) by (rule xmin_steps)
  then show ?case using step step_row_source [OF step.hyps(2) step.prems(1)] by auto
qed simp

lemma horizon_step:
  assumes "db_step adm s s'" "db_horizon s g = Some c"
  shows "\<exists>c' \<ge> c. db_horizon s' g = Some c'"
  using assms by induction (auto intro: Compact_horizon_mono)

lemma horizon_steps:
  assumes "db_steps adm s s'" "db_horizon s g = Some c"
  shows "\<exists>c' \<ge> c. db_horizon s' g = Some c'"
  using assms
proof (induction rule: rtranclp_induct)
  case (step y z)
  then show ?case using horizon_step [OF step.hyps(2)] by (meson order_trans)
qed auto

lemma step_row_removed:
  assumes "db_step adm s s'" "db_tbl s k = Some r" "db_tbl s' k = None"
  shows "is_tombstone r \<and> (\<exists>c \<ge> r_txid r. db_horizon s' (key_gvk k) = Some c)"
  using assms
proof induction
  case (commit_tx x p s e out t')
  then show ?case using upsert_lookup [OF commit_tx.hyps(4), of k] by auto
next
  case (compact ks s cfg now n t' h')
  then show ?case by (cases rule: Compact_cases [OF compact.hyps(2), of k]) auto
qed auto

text \<open>A row that has gone was a tombstone, or its removal is announced by a horizon at or above the
  watermark.\<close>

lemma row_removed:
  assumes "db_steps adm s s'" "db_tbl s k = Some r" "db_tbl s' k = None"
  shows "is_tombstone r \<or> (\<exists>c \<ge> db_xmin s. db_horizon s' (key_gvk k) = Some c)"
  using assms
proof (induction rule: rtranclp_induct)
  case (step y z)
  show ?case
  proof (cases "db_tbl y k")
    case None
    with step show ?thesis using horizon_step [OF step.hyps(2)] by (meson order_trans)
  next
    case (Some r1)
    note gone = step_row_removed [OF step.hyps(2) Some step.prems(2)]
    show ?thesis
    proof (cases "r_txid r1 < db_xmin s")
      case True
      then show ?thesis using row_stable [OF step.hyps(1) Some] step.prems(1) gone by simp
    next
      case False
      then show ?thesis using gone by (meson not_less order_trans)
    qed
  qed
qed simp

section \<open>Incarnations\<close>

definition uids_minted :: "db \<Rightarrow> bool" where
  "uids_minted s \<longleftrightarrow> (\<forall>k r. db_tbl s k = Some r \<longrightarrow> r_uid r \<in> set (db_minted s))"

lemma uids_mintedD: "uids_minted s \<Longrightarrow> db_tbl s k = Some r \<Longrightarrow> r_uid r \<in> set (db_minted s)"
  unfolding uids_minted_def by blast

text \<open>A write leaves a key alone, advances the incarnation it finds there, or starts a new one.\<close>

lemma upsert_incarnation:
  assumes "upsert e p t = Inr (out, t')" "t' k = Some r'"
  obtains (same) "t k = Some r'"
    | (advanced) r where "t k = Some r" "r_uid r' = r_uid r" "r_version r' = r_version r + 1"
    | (created) "r_uid r' = te_uuid e"
proof (cases "k = wp_key p")
  case False
  then show thesis using same upsert_frame [OF assms(1)] assms(2) by simp
next
  case k: True
  show thesis
  proof (cases "wp_expectedVersion p = 0")
    case True
    then have "\<not> wp_statusOnly p" using assms(1) by (auto simp: upsert_defs)
    then show thesis using created upsert_create_cases [OF assms(1) True] assms(2) k by simp
  next
    case False
    show thesis
      by (rule upsert_update_cases [OF assms(1) False]) (use advanced assms(2) k in simp)
  qed
qed

lemma minted_step: "db_step adm s s' \<Longrightarrow> set (db_minted s) \<subseteq> set (db_minted s')"
  by (induction rule: db_step.induct) auto

lemma step_incarnation:
  assumes "db_step adm s s'" "uids_minted s" "db_tbl s' k = Some r'"
  shows "db_tbl s k = Some r' \<or>
         (\<exists>r. db_tbl s k = Some r \<and> r_uid r' = r_uid r \<and> r_version r' = r_version r + 1) \<or>
         r_uid r' \<notin> set (db_minted s) \<and> r_uid r' \<in> set (db_minted s')"
  using assms
proof induction
  case (commit_tx x p s e out t')
  then have "t' k = Some r'" by simp
  with commit_tx show ?case
    by (cases rule: upsert_incarnation [OF commit_tx.hyps(4), of k r']) auto
next
  case (compact ks s cfg now n t' h')
  then show ?case by (cases rule: Compact_cases [OF compact.hyps(2), of k]) auto
qed auto

lemma uids_minted_step:
  assumes "db_step adm s s'" "uids_minted s"
  shows "uids_minted s'"
  unfolding uids_minted_def
proof (intro allI impI)
  fix k r assume "db_tbl s' k = Some r"
  then show "r_uid r \<in> set (db_minted s')"
    using step_incarnation [OF assms] minted_step [OF assms(1)] uids_mintedD [OF assms(2)]
    by (metis subsetD)
qed

lemma reachable_uids_minted: "reachable adm s \<Longrightarrow> uids_minted s"
  unfolding reachable_def
  by (rule db_steps_invariant [OF uids_minted_step]) (auto simp: uids_minted_def db_init_def)

lemma minted_steps: "db_steps adm s s' \<Longrightarrow> set (db_minted s) \<subseteq> set (db_minted s')"
  by (induction rule: rtranclp_induct) (auto dest: minted_step)

lemma uids_minted_steps: "db_steps adm s s' \<Longrightarrow> uids_minted s \<Longrightarrow> uids_minted s'"
  by (rule db_steps_invariant [OF uids_minted_step])

text \<open>Within an incarnation the version number identifies the row.\<close>

lemma incarnation_versions:
  assumes "db_steps adm s s'" "uids_minted s" "db_tbl s k = Some r"
    "db_tbl s' k = Some r'" "r_uid r' = r_uid r"
  shows "r' = r \<or> r_version r < r_version r'"
  using assms(1,4,5)
proof (induction arbitrary: r' rule: rtranclp_induct)
  case base
  then show ?case using assms(3) by simp
next
  case (step y z)
  have old: "r_uid r \<in> set (db_minted y)"
    using minted_steps [OF step.hyps(1)] uids_mintedD [OF assms(2,3)] by blast
  from step_incarnation [OF step.hyps(2) uids_minted_steps [OF step.hyps(1) assms(2)] step.prems(1)]
  consider "db_tbl y k = Some r'"
    | r1 where "db_tbl y k = Some r1" "r_uid r' = r_uid r1" "r_version r' = r_version r1 + 1"
    | "r_uid r' \<notin> set (db_minted y)" by blast
  then show ?case
  proof cases
    case 1
    then show ?thesis using step.IH step.prems(2) by simp
  next
    case 2
    then show ?thesis using step.IH [of r1] step.prems(2) by auto
  next
    case 3
    then show ?thesis using old step.prems(2) by simp
  qed
qed

lemma upsert_update_row:
  assumes "upsert e p t = Inr (out, t')" "wp_expectedVersion p \<noteq> 0"
  shows "\<exists>r. t (wp_key p) = Some r \<and> row_matches p r"
  by (rule upsert_update_cases [OF assms]) blast

section \<open>Well-formed rows\<close>

text \<open>Versions count from 1 and the documents are in normal form.\<close>

definition row_ok :: "row \<Rightarrow> bool" where
  "row_ok r \<longleftrightarrow> 1 \<le> r_version r \<and> row_normal r"

definition rows_ok :: "db \<Rightarrow> bool" where
  "rows_ok s \<longleftrightarrow> (\<forall>k r. db_tbl s k = Some r \<longrightarrow> row_ok r)"

lemma rows_okD: "rows_ok s \<Longrightarrow> db_tbl s k = Some r \<Longrightarrow> row_ok r"
  unfolding rows_ok_def by blast

lemma upsert_row_ok:
  assumes "upsert e p t = Inr (out, t')" "t' k = Some r'" "\<And>r. t k = Some r \<Longrightarrow> row_ok r"
  shows "row_ok r'"
proof (cases "k = wp_key p")
  case True
  then show ?thesis using assms
    by (auto simp: upsert_defs Let_def row_ok_def row_normal_def jsonb_idem
             split: if_splits option.splits)
qed (use assms upsert_frame [OF assms(1)] in auto)

lemma rows_ok_step:
  assumes "db_step adm s s'" "rows_ok s"
  shows "rows_ok s'"
  unfolding rows_ok_def
proof (intro allI impI)
  fix k r assume "db_tbl s' k = Some r"
  with assms show "row_ok r"
  proof induction
    case (commit_tx x p s e out t')
    have "t' k = Some r" using commit_tx.prems(2) by simp
    then show ?case using upsert_row_ok [OF commit_tx.hyps(4)] rows_okD [OF commit_tx.prems(1)] by blast
  next
    case (compact ks s cfg now n t' h')
    then show ?case
      by (cases rule: Compact_cases [OF compact.hyps(2), of k]) (auto dest: rows_okD)
  qed (auto dest: rows_okD)
qed

lemma reachable_rows_ok: "reachable adm s \<Longrightarrow> rows_ok s"
  unfolding reachable_def
  by (rule db_steps_invariant [OF rows_ok_step]) (auto simp: rows_ok_def db_init_def)

section \<open>Metadata written by clients\<close>

text \<open>The metadata that the client sends is what \<open>extractMetadata\<close> made of an object.\<close>

definition client_params :: "writeParams \<Rightarrow> bool" where
  "client_params p \<longleftrightarrow> (case wp_metadata p of None \<Rightarrow> True | Some m \<Rightarrow> stored_meta (jsonb m))"

definition running_adm :: "(writeParams \<Rightarrow> bool) \<Rightarrow> db \<Rightarrow> bool" where
  "running_adm adm s \<longleftrightarrow> (\<forall>(x, p, ph) \<in> set (db_running s). adm p)"

lemma running_adm_step: "db_step adm s s' \<Longrightarrow> running_adm adm s \<Longrightarrow> running_adm adm s'"
  by (induction rule: db_step.induct) (auto simp: running_adm_def set_drop_tx)

lemma upsert_metadata:
  assumes "upsert e p t = Inr (out, t')" "t' k = Some r'"
  shows "(\<exists>r. t k = Some r \<and> r_metadata r' = r_metadata r) \<or>
         (\<exists>m. wp_metadata p = Some m \<and> r_metadata r' = jsonb m)"
proof (cases "k = wp_key p")
  case True
  then show ?thesis using assms
    by (auto simp: upsert_defs Let_def split: if_splits option.splits)
qed (use assms upsert_frame [OF assms(1)] in auto)

definition meta_stored :: "db \<Rightarrow> bool" where
  "meta_stored s \<longleftrightarrow> (\<forall>k r. db_tbl s k = Some r \<longrightarrow> stored_meta (r_metadata r))"

lemma meta_storedD: "meta_stored s \<Longrightarrow> db_tbl s k = Some r \<Longrightarrow> stored_meta (r_metadata r)"
  unfolding meta_stored_def by blast

lemma meta_stored_step:
  assumes "db_step client_params s s'" "running_adm client_params s" "meta_stored s"
  shows "meta_stored s'"
  unfolding meta_stored_def
proof (intro allI impI)
  fix k r assume "db_tbl s' k = Some r"
  with assms show "stored_meta (r_metadata r)"
  proof induction
    case (commit_tx x p s e out t')
    then have "client_params p" by (auto simp: running_adm_def)
    moreover have "t' k = Some r" using commit_tx.prems by simp
    ultimately show ?case
      using upsert_metadata [OF commit_tx.hyps(4)] meta_storedD [OF commit_tx.prems(2)]
      by (fastforce simp: client_params_def)
  next
    case (compact ks s cfg now n t' h')
    then show ?case
      by (cases rule: Compact_cases [OF compact.hyps(2), of k]) (auto dest: meta_storedD)
  qed (auto dest: meta_storedD)
qed

lemma reachable_meta_stored:
  assumes "reachable client_params s"
  shows "meta_stored s"
proof -
  have "running_adm client_params s \<and> meta_stored s"
  proof (rule db_steps_invariant [OF _ assms [unfolded reachable_def]])
    show "running_adm client_params db_init \<and> meta_stored db_init"
      by (simp add: running_adm_def meta_stored_def db_init_def)
  qed (blast intro: running_adm_step meta_stored_step)
  then show ?thesis ..
qed

section \<open>Compaction is invisible\<close>

lemma view_Compact:
  assumes "Compact cfg now ks (t, h) = (n, t', h')"
  shows "view pg gvk sh t' = view pg gvk sh t"
proof
  fix k
  show "view pg gvk sh t' k = view pg gvk sh t k"
    by (cases rule: Compact_cases [OF assms, of k]) (auto simp: view_def)
qed

text \<open>C13: a compaction changes nothing that readers can see: the live and dying objects of every kind and
  shard stay, horizons never move back, and a watcher that has not yet seen one of the removed
  tombstones is told to list again instead of missing the deletion.\<close>
theorem compaction_is_invisible:
  assumes "Compact cfg now ks (t, h) = (n, t', h')"
  shows "view pg gvk sh t' = view pg gvk sh t \<and>
         (\<forall>g c. h g = Some c \<longrightarrow> (\<exists>c' \<ge> c. h' g = Some c')) \<and>
         (\<forall>k r w sn. t k = Some r \<and> t' k = None \<and> wa_hwm w < r_txid r \<and>
            wc_GVK (wa_cfg w) = key_gvk k \<and> sn_horizon sn = h' \<longrightarrow>
            (\<exists>c. fst (pollAll pg None ks' sn w) = Inl (ErrGone (wa_hwm w) c)))"
proof (intro conjI allI impI)
  show "view pg gvk sh t' = view pg gvk sh t" by (rule view_Compact [OF assms])
  show "\<exists>c' \<ge> c. h' g = Some c'" if "h g = Some c" for g c
    by (rule Compact_horizon_mono [OF assms that])
  fix k :: key and r :: row and w :: Watcher and sn :: snapshot
  assume a: "t k = Some r \<and> t' k = None \<and> wa_hwm w < r_txid r \<and>
    wc_GVK (wa_cfg w) = key_gvk k \<and> sn_horizon sn = h'"
  then obtain c where "r_txid r \<le> c" "h' (key_gvk k) = Some c"
    using Compact_cases [OF assms, of k] by (metis option.distinct(1) option.sel)
  then show "\<exists>c. fst (pollAll pg None ks' sn w) = Inl (ErrGone (wa_hwm w) c)"
    using a by (simp add: pollAll_def gone_horizon_def)
qed

definition ex_tombstone :: row where
  "ex_tombstone = ex_row\<lparr>r_deletion := Some 40, r_updated := 40\<rparr>"

theorem compaction_is_invisible_witness:
  "Compact \<lparr>cc_Retention = 0\<rparr> (10 ^ 12) [ex_key] ([ex_key \<mapsto> ex_tombstone], Map.empty) =
     (1, Map.empty, [''g/v/K'' \<mapsto> 100]) \<and>
   view \<lparr>pf_hashtext = (\<lambda>_. 0), pf_jsonb_text = (\<lambda>_. [])\<rparr> ''g/v/K'' None Map.empty =
     view \<lparr>pf_hashtext = (\<lambda>_. 0), pf_jsonb_text = (\<lambda>_. [])\<rparr> ''g/v/K'' None
       [ex_key \<mapsto> ex_tombstone]"
proof -
  have c: "Compact \<lparr>cc_Retention = 0\<rparr> (10 ^ 12) [ex_key] ([ex_key \<mapsto> ex_tombstone], Map.empty) =
     (1, Map.empty, [''g/v/K'' \<mapsto> 100])"
    by (auto simp: Compact_def retention_seconds_def default_retention_def scan_def compactable_def
          ex_tombstone_def ex_defs sql_no_finalizers_def advance_horizon_def fun_eq_iff)
  show ?thesis using compaction_is_invisible [OF c] c by metis
qed

end
