(* ===== verification/Selectors.thy ===== *)
theory Selectors
  imports Sql
begin

text \<open>
  \<open>seaplane-db/fieldselector.go\<close> and \<open>labelselector.go\<close>: the translation of Kubernetes field and label
  selectors to SQL clauses with numbered parameters.  The selector types of apimachinery appear as
  the requirement lists they expose.

  The label theorem compares the SQL meaning of the clauses with the documented meaning of a label
  requirement (\<open>label_matches\<close>); the field theorem shows that a field path reaches the SQL text only
  as identifiers.
\<close>

datatype sel_op =
  OpEquals | OpDoubleEquals | OpIn | OpNotEquals | OpNotIn | OpGreaterThan | OpLessThan | OpExists
| OpDoesNotExist

datatype sel_error =
  UnsupportedFieldOperator sel_op
| InvalidField string
| UnsupportedRoot string
| InvalidSegment string
| RequiresValue string
| RequiresOneInteger string
| RequiresInt64 string

section \<open>Field selectors\<close>

record field_req =
  fr_Field :: string
  fr_Operator :: sel_op
  fr_Value :: string

definition is_alpha :: "char \<Rightarrow> bool" where
  "is_alpha c \<longleftrightarrow>
     (65 \<le> char_nat c \<and> char_nat c \<le> 90) \<or> (97 \<le> char_nat c \<and> char_nat c \<le> 122) \<or> c = CHR ''_''"

text \<open>\<open>^[a-zA-Z_][a-zA-Z0-9_]*$\<close>\<close>

definition validPathSegment :: "string \<Rightarrow> bool" where
  "validPathSegment s =
     (case s of [] \<Rightarrow> False | c # cs \<Rightarrow> is_alpha c \<and> list_all (\<lambda>d. is_alpha d \<or> is_digit d) cs)"

definition selectionOpToSQL :: "sel_op \<Rightarrow> sel_error + sql_cmp" where
  "selectionOpToSQL op =
     (case op of
        OpEquals \<Rightarrow> Inr SqlEq
      | OpDoubleEquals \<Rightarrow> Inr SqlEq
      | OpNotEquals \<Rightarrow> Inr SqlNe
      | _ \<Rightarrow> Inl (UnsupportedFieldOperator op))"

fun check_segments :: "string list \<Rightarrow> sel_error + unit" where
  "check_segments [] = Inr ()"
| "check_segments (s # ss) = (if validPathSegment s then check_segments ss else Inl (InvalidSegment s))"

definition jsonbPathToSQL :: "json_col \<Rightarrow> string \<Rightarrow> sel_error + sql_col" where
  "jsonbPathToSQL column path =
     (let segments = split_on (CHR ''.'') path in
      sbind (check_segments segments) (\<lambda>_. Inr (ColPath column segments)))"

definition metadataFieldToSQL :: "string \<Rightarrow> sel_error + sql_col" where
  "metadataFieldToSQL field =
     (if field = ''name'' then Inr ColName
      else if field = ''namespace'' then Inr ColNamespace
      else if field = ''uid'' then Inr ColUidText
      else jsonbPathToSQL ColMetadata field)"

definition fieldPathToSQL :: "string \<Rightarrow> sel_error + sql_col" where
  "fieldPathToSQL field =
     (case splitN 2 (CHR ''.'') field of
        [root, rest] \<Rightarrow>
          if root = ''metadata'' then metadataFieldToSQL rest
          else if root = ''spec'' then jsonbPathToSQL ColSpec rest
          else if root = ''status'' then jsonbPathToSQL ColStatus rest
          else Inl (UnsupportedRoot root)
      | _ \<Rightarrow> Inl (InvalidField field))"

definition fieldRequirementToSQL :: "string \<Rightarrow> sel_op \<Rightarrow> nat \<Rightarrow> sel_error + clause" where
  "fieldRequirementToSQL field op paramIdx =
     sbind (selectionOpToSQL op)
       (\<lambda>sqlOp. sbind (fieldPathToSQL field) (\<lambda>col. Inr (ColCmp col sqlOp paramIdx)))"

fun buildFieldSelectorFilter :: "field_req list \<Rightarrow> nat \<Rightarrow> sel_error + clause list \<times> sql_val list" where
  "buildFieldSelectorFilter [] paramIdx = Inr ([], [])"
| "buildFieldSelectorFilter (req # reqs) paramIdx =
     sbind (fieldRequirementToSQL (fr_Field req) (fr_Operator req) paramIdx)
       (\<lambda>c. sbind (buildFieldSelectorFilter reqs (Suc paramIdx))
              (\<lambda>(cs, as). Inr (c # cs, VText (fr_Value req) # as)))"

text \<open>The SQL text of a column expression, as the Go code prints it.\<close>

definition col_name :: "json_col \<Rightarrow> string" where
  "col_name c = (case c of ColSpec \<Rightarrow> ''spec'' | ColStatus \<Rightarrow> ''status'' | ColMetadata \<Rightarrow> ''metadata'')"

fun path_text :: "string list \<Rightarrow> string" where
  "path_text [] = []"
| "path_text [s] = ''->>'' @ [CHR 0x27] @ s @ [CHR 0x27]"
| "path_text (s # t # ss) = ''->'' @ [CHR 0x27] @ s @ [CHR 0x27] @ path_text (t # ss)"

definition col_sql :: "sql_col \<Rightarrow> string" where
  "col_sql c =
     (case c of
        ColName \<Rightarrow> ''name''
      | ColNamespace \<Rightarrow> ''namespace''
      | ColUidText \<Rightarrow> ''uid::text''
      | ColPath jc ps \<Rightarrow> col_name jc @ path_text ps)"

section \<open>Label selectors\<close>

record label_req =
  lq_Key :: string
  lq_Operator :: sel_op
  lq_Values :: "string list"

definition labelValueMatch :: "string \<Rightarrow> string \<Rightarrow> sql_val" where
  "labelValueMatch key value = VJson (JObj [(key, JStr value)])"

definition labelNumericMatch ::
  "string \<Rightarrow> sel_op \<Rightarrow> string \<Rightarrow> nat \<Rightarrow> clause \<times> sql_val list" where
  "labelNumericMatch key op value startParam =
     ((if op = OpLessThan then LabelLess else LabelGreater) startParam (startParam + 1),
      [VText key, VText value])"

text \<open>The parameter numbers that a loop over \<open>n\<close> values hands out.\<close>

definition param_range :: "nat \<Rightarrow> nat \<Rightarrow> nat list" where
  "param_range p n = [p ..< p + n]"

text \<open>One iteration of the loop over the requirements.\<close>

definition labelRequirement :: "label_req \<Rightarrow> nat \<Rightarrow> sel_error + clause \<times> sql_val list" where
  "labelRequirement req paramIdx =
     (let key = lq_Key req; values = lq_Values req; params = param_range paramIdx (length values) in
      case lq_Operator req of
        OpGreaterThan \<Rightarrow>
          (case values of
             [v] \<Rightarrow> if parse_int64 v = None then Inl (RequiresInt64 key)
                    else Inr (labelNumericMatch key OpGreaterThan v paramIdx)
           | _ \<Rightarrow> Inl (RequiresOneInteger key))
      | OpLessThan \<Rightarrow>
          (case values of
             [v] \<Rightarrow> if parse_int64 v = None then Inl (RequiresInt64 key)
                    else Inr (labelNumericMatch key OpLessThan v paramIdx)
           | _ \<Rightarrow> Inl (RequiresOneInteger key))
      | OpExists \<Rightarrow> Inr (LabelExists paramIdx, [VText key])
      | OpDoesNotExist \<Rightarrow> Inr (LabelNotExists paramIdx, [VText key])
      | op \<Rightarrow>
          if op \<in> {OpEquals, OpDoubleEquals, OpIn} then
            (if values = [] then Inl (RequiresValue key)
             else Inr (LabelIn params, map (labelValueMatch key) values))
          else
            (if values = [] then Inr (ClauseTrue, [])
             else Inr (LabelNotIn params, map (labelValueMatch key) values)))"

fun labelRequirements :: "label_req list \<Rightarrow> nat \<Rightarrow> sel_error + clause list \<times> sql_val list" where
  "labelRequirements [] paramIdx = Inr ([], [])"
| "labelRequirements (req # reqs) paramIdx =
     sbind (labelRequirement req paramIdx)
       (\<lambda>(c, as). sbind (labelRequirements reqs (paramIdx + length as))
                    (\<lambda>(cs, as'). Inr (c # cs, as @ as')))"

text \<open>\<open>None\<close> is the selector that selects nothing.\<close>

definition buildLabelSelectorFilter ::
  "label_req list option \<Rightarrow> nat \<Rightarrow> sel_error + clause list \<times> sql_val list" where
  "buildLabelSelectorFilter sel startParam =
     (case sel of
        None \<Rightarrow> Inr ([ClauseFalse], [])
      | Some reqs \<Rightarrow> labelRequirements reqs startParam)"

text \<open>When a label set satisfies a requirement, as Kubernetes defines it.\<close>

definition label_matches :: "(string \<times> string) list \<Rightarrow> label_req \<Rightarrow> bool" where
  "label_matches ls req =
     (let v = map_of ls (lq_Key req); num = Option.bind v parse_int64;
          bound = (case lq_Values req of [b] \<Rightarrow> parse_int64 b | _ \<Rightarrow> None);
          within = (case v of None \<Rightarrow> False | Some x \<Rightarrow> x \<in> set (lq_Values req)) in
      case lq_Operator req of
        OpExists \<Rightarrow> v \<noteq> None
      | OpDoesNotExist \<Rightarrow> v = None
      | OpGreaterThan \<Rightarrow> (case (num, bound) of (Some a, Some b) \<Rightarrow> a > b | _ \<Rightarrow> False)
      | OpLessThan \<Rightarrow> (case (num, bound) of (Some a, Some b) \<Rightarrow> a < b | _ \<Rightarrow> False)
      | op \<Rightarrow> if op \<in> {OpEquals, OpDoubleEquals, OpIn} then within else \<not> within)"

section \<open>Label selectors mean what Kubernetes says\<close>

lemma jget_str_obj: "jget k (str_obj ls) = map_option JStr (map_of ls k)"
  by (induction ls) (auto simp: str_obj_def jget_def)

lemma labels_of_stored:
  assumes "valid_sm sm" "r_metadata r = jsonb (extractMetadata sm)"
  shows "labels_of r = (if sm_Labels sm = [] then None else Some (str_obj (sm_Labels sm)))"
  using assms by (simp add: labels_of_def jget_extract meta_fields_lookup jsonb_str_obj valid_sm_def)

lemma arg_mid: "i < length as \<Longrightarrow> arg (pre @ as @ post) (Suc (length pre) + i) = Some (as ! i)"
  by (simp add: arg_def nth_append)

lemma label_value_match_iff:
  assumes "i < length vs" "labels_of r = (if ls = [] then None else Some (str_obj ls))"
  shows "label_value_match (pre @ map (labelValueMatch key) vs @ post) r (Suc (length pre) + i) = Some True
           \<longleftrightarrow> map_of ls key = Some (vs ! i)"
  using arg_mid [of i "map (labelValueMatch key) vs" pre post] assms
  by (auto simp: label_value_match_def labelValueMatch_def jsonb_contains_def jget_str_obj)

lemma label_in_iff:
  assumes "labels_of r = (if ls = [] then None else Some (str_obj ls))"
  shows "or3 (map (label_value_match (pre @ map (labelValueMatch key) vs @ post) r)
               (param_range (Suc (length pre)) (length vs))) = Some True
           \<longleftrightarrow> (\<exists>v \<in> set vs. map_of ls key = Some v)"
proof -
  let ?as = "pre @ map (labelValueMatch key) vs @ post"
  have "set (param_range (Suc (length pre)) (length vs)) = (\<lambda>i. Suc (length pre) + i) ` {..<length vs}"
    using image_add_atLeastLessThan [of "Suc (length pre)" 0 "length vs"]
    by (simp add: param_range_def lessThan_atLeast0 add.commute del: upt_Suc)
  then have "or3 (map (label_value_match ?as r) (param_range (Suc (length pre)) (length vs))) = Some True
      \<longleftrightarrow> (\<exists>i < length vs. label_value_match ?as r (Suc (length pre) + i) = Some True)"
    unfolding or3_True_iff set_map by (simp only: image_image image_iff Bex_def lessThan_iff) metis
  also have "\<dots> \<longleftrightarrow> (\<exists>i < length vs. map_of ls key = Some (vs ! i))"
    using label_value_match_iff [OF _ assms] by blast
  finally show ?thesis by (metis in_set_conv_nth)
qed

lemma label_numeric_iff:
  assumes "labels_of r = (if ls = [] then None else Some (str_obj ls))" "parse_int64 b = Some n"
  shows "label_numeric pg cmp (pre @ [VText key, VText b] @ post) r (Suc (length pre)) (Suc (length pre) + 1)
           = Some True
         \<longleftrightarrow> (case Option.bind (map_of ls key) parse_int64 of None \<Rightarrow> False | Some a \<Rightarrow> cmp a n)"
proof -
  let ?as = "pre @ [VText key, VText b] @ post"
  have a: "arg_text ?as (Suc (length pre)) = Some key" "arg_text ?as (Suc (length pre) + 1) = Some b"
    using arg_mid [of 0 "[VText key, VText b]" pre post] arg_mid [of 1 "[VText key, VText b]" pre post]
    by (simp_all add: arg_text_def)
  have "input_is_bigint b" "bigint_value b = n" using assms(2) by (auto simp: bigint_parse split: if_splits)
  moreover have "int_regex v \<and> input_is_bigint v \<longleftrightarrow> input_is_bigint v" for v
    by (auto simp: input_is_bigint_def)
  ultimately show ?thesis using assms(1) a
    by (cases "map_of ls key") (auto simp: label_numeric_def jget_str_obj json_as_text_def bigint_parse)
qed

lemma label_exists_iff:
  assumes "labels_of r = (if ls = [] then None else Some (str_obj ls))"
  shows "label_exists (pre @ [VText key] @ post) r (Suc (length pre)) = Some True \<longleftrightarrow> map_of ls key \<noteq> None"
proof -
  have "arg_text (pre @ [VText key] @ post) (Suc (length pre)) = Some key" by (simp add: arg_text_def)
  moreover have "jsonb_has_key (str_obj ls) key \<longleftrightarrow> map_of ls key \<noteq> None"
    using jget_str_obj [of key ls] by (simp add: jsonb_has_key_def str_obj_def jget_def)
  ultimately show ?thesis using assms by (auto simp: label_exists_def)
qed

lemma labelRequirement_correct:
  assumes "labelRequirement req (Suc (length pre)) = Inr (c, as)"
    and l: "labels_of r = (if ls = [] then None else Some (str_obj ls))"
  shows "eval pg (pre @ as @ post) c k r = Some True \<longleftrightarrow> label_matches ls req"
proof (cases "lq_Operator req")
  case OpExists
  then show ?thesis using assms(1) label_exists_iff [OF l]
    by (auto simp: labelRequirement_def label_matches_def eval_def Let_def)
next
  case OpDoesNotExist
  then show ?thesis using assms(1) label_exists_iff [OF l]
    by (auto simp: labelRequirement_def label_matches_def eval_def not_coalesce_def Let_def)
next
  case OpGreaterThan
  then obtain b n where b: "lq_Values req = [b]" "parse_int64 b = Some n"
    using assms(1) by (auto simp: labelRequirement_def Let_def split: list.splits if_splits)
  then show ?thesis using assms(1) OpGreaterThan label_numeric_iff [OF l b(2)]
    by (auto simp: labelRequirement_def label_matches_def eval_def labelNumericMatch_def Let_def
             split: option.splits)
next
  case OpLessThan
  then obtain b n where b: "lq_Values req = [b]" "parse_int64 b = Some n"
    using assms(1) by (auto simp: labelRequirement_def Let_def split: list.splits if_splits)
  then show ?thesis using assms(1) OpLessThan label_numeric_iff [OF l b(2)]
    by (auto simp: labelRequirement_def label_matches_def eval_def labelNumericMatch_def Let_def
             split: option.splits)
qed (use assms(1) label_in_iff [OF l] in
      \<open>auto simp: labelRequirement_def label_matches_def eval_def not_coalesce_def Let_def
            split: if_splits option.splits\<close>)

lemma labelRequirements_correct:
  assumes "labelRequirements reqs (Suc (length pre)) = Inr (cs, as)"
    and l: "labels_of r = (if ls = [] then None else Some (str_obj ls))"
  shows "selects pg (pre @ as @ post) cs k r \<longleftrightarrow> list_all (label_matches ls) reqs"
  using assms(1)
proof (induction reqs arbitrary: pre cs as)
  case (Cons req reqs)
  from Cons.prems obtain c as1 cs2 as2 where
    1: "labelRequirement req (Suc (length pre)) = Inr (c, as1)" and
    2: "labelRequirements reqs (Suc (length (pre @ as1))) = Inr (cs2, as2)" and
    eq: "cs = c # cs2" "as = as1 @ as2" by auto
  show ?case
    using labelRequirement_correct [OF 1 l, of pg "as2 @ post" k] Cons.IH [OF 2] by (simp add: eq)
qed simp

text \<open>C30: the SQL clauses built from a label selector, evaluated with the arguments at the parameter
  numbers they were built for, select a row exactly when the row's labels satisfy every requirement
  of the selector, for all nine operators; rows without labels included.\<close>
theorem label_selector_correct:
  assumes "buildLabelSelectorFilter (Some reqs) (Suc (length pre)) = Inr (cs, as)"
    and "valid_sm sm" "r_metadata r = jsonb (extractMetadata sm)"
  shows "selects pg (pre @ as @ post) cs k r \<longleftrightarrow> list_all (label_matches (sm_Labels sm)) reqs"
  using labelRequirements_correct [OF _ labels_of_stored [OF assms(2,3)]] assms(1)
  by (simp add: buildLabelSelectorFilter_def)

definition ex_pg :: pgfun where
  "ex_pg = \<lparr>pf_hashtext = (\<lambda>_. 0), pf_jsonb_text = (\<lambda>_. [])\<rparr>"

definition ex_labelled :: row where
  "ex_labelled = \<lparr>r_uid = 7, r_txid = 100, r_version = 3, r_spec = JObj [], r_status = JObj [],
     r_metadata = jsonb (extractMetadata (empty_metadata\<lparr>sm_Labels := [(''env'', ''a''), (''n'', ''5'')]\<rparr>)),
     r_deletion = None, r_created = 10, r_updated = 20\<rparr>"

definition ex_reqs :: "label_req list" where
  "ex_reqs = [\<lparr>lq_Key = ''env'', lq_Operator = OpIn, lq_Values = [''a'', ''b'']\<rparr>,
              \<lparr>lq_Key = ''n'', lq_Operator = OpGreaterThan, lq_Values = [''3'']\<rparr>,
              \<lparr>lq_Key = ''x'', lq_Operator = OpDoesNotExist, lq_Values = []\<rparr>]"

lemma ex_parse_int64: "parse_int64 ''3'' = Some 3" "parse_int64 ''5'' = Some 5"
  by (simp_all add: parse_int64_def parse_uint64_def is_digit_def char_nat_def)

theorem label_selector_correct_witness:
  "case buildLabelSelectorFilter (Some ex_reqs) 2 of
     Inl _ \<Rightarrow> False
   | Inr (cs, as) \<Rightarrow> selects ex_pg ([VText ''g/v/K''] @ as @ []) cs (''g/v/K'', ''ns'', ''n'') ex_labelled"
proof -
  let ?sm = "empty_metadata\<lparr>sm_Labels := [(''env'', ''a''), (''n'', ''5'')]\<rparr>"
  obtain cs as where b: "buildLabelSelectorFilter (Some ex_reqs) 2 = Inr (cs, as)"
    by (simp add: buildLabelSelectorFilter_def ex_reqs_def labelRequirement_def Let_def ex_parse_int64
          labelNumericMatch_def)
  have "valid_sm ?sm" by (simp add: valid_sm_def empty_metadata_def)
  moreover have "r_metadata ex_labelled = jsonb (extractMetadata ?sm)" by (simp add: ex_labelled_def)
  moreover have "list_all (label_matches (sm_Labels ?sm)) ex_reqs"
    by (simp add: ex_reqs_def label_matches_def empty_metadata_def ex_parse_int64)
  ultimately show ?thesis
    using label_selector_correct [of ex_reqs "[VText ''g/v/K'']" cs as ?sm ex_labelled ex_pg "[]"] b
    by (simp add: numeral_2_eq_2)
qed

section \<open>Field paths reach the SQL text as identifiers only\<close>

lemma check_segments_Inr: "check_segments ss = Inr u \<longleftrightarrow> (\<forall>s \<in> set ss. validPathSegment s)"
  by (induction ss) auto

lemma validPathSegment_chars:
  assumes "validPathSegment s" "c \<in> set s"
  shows "is_alpha c \<or> is_digit c"
  using assms by (auto simp: validPathSegment_def list_all_iff split: list.splits)

lemma not_quote: "is_alpha c \<or> is_digit c \<Longrightarrow> c \<noteq> CHR 0x27"
  by (auto simp: is_alpha_def is_digit_def char_nat_def)

lemma segment_no_quote: "validPathSegment s \<Longrightarrow> CHR 0x27 \<notin> set s"
  using validPathSegment_chars not_quote by blast

lemma jsonbPathToSQL_Inr:
  assumes "jsonbPathToSQL jc path = Inr c"
  shows "\<exists>ps. c = ColPath jc ps \<and> path = join ''.'' ps \<and> ps \<noteq> [] \<and> (\<forall>p \<in> set ps. validPathSegment p)"
  using assms join_split_on [of "CHR ''.''" path]
  by (auto simp: jsonbPathToSQL_def Let_def check_segments_Inr)

text \<open>C31: a field selector cannot inject SQL.  Where a field path is accepted and becomes a JSON path, the
  path is exactly the selector's field, cut at its dots; every piece is a non-empty identifier of
  letters, digits and underscores; and the printed expression contains two quotes for each piece and
  no others, so every piece stays inside its own SQL literal.\<close>
theorem field_path_is_quoted_identifiers:
  assumes "fieldPathToSQL field = Inr (ColPath jc ps)"
  shows "field = col_name jc @ ''.'' @ join ''.'' ps \<and> ps \<noteq> [] \<and>
         (\<forall>p \<in> set ps. p \<noteq> [] \<and> (\<forall>c \<in> set p. is_alpha c \<or> is_digit c)) \<and>
         count_list (col_sql (ColPath jc ps)) (CHR 0x27) = 2 * length ps"
proof -
  from assms obtain root rest where s: "splitN 2 (CHR ''.'') field = [root, rest]"
    by (auto simp: fieldPathToSQL_def split: list.splits)
  then have field: "field = root @ ''.'' @ rest"
    by (auto simp: numeral_2_eq_2 split: option.splits dest: split_first_Some)
  have "jsonbPathToSQL jc rest = Inr (ColPath jc ps) \<and> root = col_name jc"
    using assms s
    by (auto simp: fieldPathToSQL_def metadataFieldToSQL_def col_name_def
             dest: jsonbPathToSQL_Inr split: if_splits)
  then have 1: "rest = join ''.'' ps" "ps \<noteq> []" "\<forall>p \<in> set ps. validPathSegment p" "root = col_name jc"
    by (auto dest: jsonbPathToSQL_Inr)
  have "count_list (path_text ps) (CHR 0x27) = 2 * length ps" using 1(3)
  proof (induction ps rule: path_text.induct)
    case (2 s)
    then have "CHR 0x27 \<notin> set s" by (simp add: segment_no_quote)
    then show ?case by simp
  next
    case (3 s t ss)
    then have "CHR 0x27 \<notin> set s" by (simp add: segment_no_quote)
    then show ?case using 3 by simp
  qed simp
  moreover have "count_list (col_name jc) (CHR 0x27) = 0" by (cases jc) (simp_all add: col_name_def)
  moreover have "p \<noteq> []" if "p \<in> set ps" for p
    using 1(3) that by (auto simp: validPathSegment_def)
  ultimately show ?thesis
    using 1 field validPathSegment_chars by (auto simp: col_sql_def)
qed

theorem field_path_is_quoted_identifiers_witness:
  "fieldPathToSQL ''spec.platform.type'' = Inr (ColPath ColSpec [''platform'', ''type'']) \<and>
   count_list (col_sql (ColPath ColSpec [''platform'', ''type''])) (CHR 0x27) = 4"
proof -
  have p: "fieldPathToSQL ''spec.platform.type'' = Inr (ColPath ColSpec [''platform'', ''type''])"
    by (simp add: fieldPathToSQL_def numeral_2_eq_2 jsonbPathToSQL_def validPathSegment_def is_alpha_def
          char_nat_def)
  show ?thesis using field_path_is_quoted_identifiers [OF p] p by simp
qed

section \<open>Field selectors\<close>

text \<open>The value of a field of an object, as text, without SQL: name, namespace and UID are those of the
  object's identity; any other field is found by walking the object's document from its root.  A
  field that is absent or \<open>null\<close> has no value.\<close>

definition object_doc :: "row \<Rightarrow> json" where
  "object_doc r = JObj [(''metadata'', r_metadata r), (''spec'', r_spec r), (''status'', r_status r)]"

definition object_field :: "pgfun \<Rightarrow> key \<Rightarrow> row \<Rightarrow> string \<Rightarrow> string option" where
  "object_field pg k r field =
     (if field = ''metadata.name'' then Some (key_name k)
      else if field = ''metadata.namespace'' then Some (key_ns k)
      else if field = ''metadata.uid'' then Some (uuid_text (r_uid r))
      else Option.bind (json_path (split_on (CHR ''.'') field) (object_doc r)) (json_as_text pg))"

text \<open>What a requirement asks of an object.  A field without a value satisfies neither \<open>=\<close> nor \<open>!=\<close>; in
  Kubernetes such a field reads as the empty text and satisfies \<open>!=\<close>.\<close>

definition field_matches :: "pgfun \<Rightarrow> key \<Rightarrow> row \<Rightarrow> field_req \<Rightarrow> bool" where
  "field_matches pg k r req =
     (case (fr_Operator req, object_field pg k r (fr_Field req)) of
        (OpEquals, Some a) \<Rightarrow> a = fr_Value req
      | (OpDoubleEquals, Some a) \<Rightarrow> a = fr_Value req
      | (OpNotEquals, Some a) \<Rightarrow> a \<noteq> fr_Value req
      | _ \<Rightarrow> False)"

lemma fieldPathToSQL_value:
  assumes "fieldPathToSQL field = Inr col"
  shows "col_text pg col k r = object_field pg k r field"
proof -
  from assms obtain root rest where "splitN 2 (CHR ''.'') field = [root, rest]"
    by (auto simp: fieldPathToSQL_def split: list.splits)
  then have s: "split_first (CHR ''.'') field = Some (root, rest)"
    by (auto simp: numeral_2_eq_2 split: option.splits)
  then have field: "field = root @ CHR ''.'' # rest" "CHR ''.'' \<notin> set root"
    using split_first_Some by blast+
  have ident: "field = ''metadata.'' @ n \<longleftrightarrow> root = ''metadata'' \<and> rest = n" for n
    using split_first_append [of "CHR ''.''" "''metadata''" n] s by (auto simp: field(1))
  note ident = ident [of "''name''"] ident [of "''namespace''"] ident [of "''uid''"]
  have "json_path (split_on (CHR ''.'') field) (object_doc r) =
      Option.bind (jget root (object_doc r)) (json_path (split_on (CHR ''.'') rest))"
    using field by (simp add: split_on_append)
  then show ?thesis
    using assms ident s
    by (auto simp: fieldPathToSQL_def metadataFieldToSQL_def jsonbPathToSQL_def object_field_def col_text_def
        col_json_def object_doc_def jget_def numeral_2_eq_2 Let_def split: if_splits)
qed

lemma fieldRequirement_correct:
  assumes "fieldRequirementToSQL (fr_Field req) (fr_Operator req) (Suc (length pre)) = Inr c"
  shows "eval pg (pre @ VText (fr_Value req) # post) c k r = Some True \<longleftrightarrow> field_matches pg k r req"
proof -
  from assms obtain cmp col where c: "selectionOpToSQL (fr_Operator req) = Inr cmp"
    "fieldPathToSQL (fr_Field req) = Inr col" "c = ColCmp col cmp (Suc (length pre))"
    by (auto simp: fieldRequirementToSQL_def)
  then show ?thesis
    using fieldPathToSQL_value [OF c(2), of pg k r]
    by (auto simp: eval_def field_matches_def arg_text_def selectionOpToSQL_def
        split: option.splits sel_op.splits)
qed

lemma buildFieldSelectorFilter_correct:
  assumes "buildFieldSelectorFilter reqs (Suc (length pre)) = Inr (cs, as)"
  shows "selects pg (pre @ as @ post) cs k r \<longleftrightarrow> list_all (field_matches pg k r) reqs"
  using assms
proof (induction reqs arbitrary: pre cs as)
  case (Cons req reqs)
  let ?v = "VText (fr_Value req)"
  from Cons.prems obtain c cs2 as2 where
    1: "fieldRequirementToSQL (fr_Field req) (fr_Operator req) (Suc (length pre)) = Inr c" and
    2: "buildFieldSelectorFilter reqs (Suc (length (pre @ [?v]))) = Inr (cs2, as2)" and
    eq: "cs = c # cs2" "as = ?v # as2" by auto
  show ?case
    using fieldRequirement_correct [OF 1, of pg "as2 @ post" k r] Cons.IH [OF 2] by (simp add: eq)
qed simp

end
