(* ===== verification/Feed.thy ===== *)
theory Feed
  imports Database Selectors
begin

text \<open>
  Why a list followed by polls keeps a cache exact.  The locale \<open>snapshot_feed\<close> is the contract
  between the database and the readers: what a later snapshot may differ in from an earlier one, in
  terms of the earlier one's watermark.  Inside it, list and poll of \<open>internal/reader\<close> are shown to
  keep a replayed cache equal to the objects of the polled snapshot.  The interpretation \<open>db_feed\<close>
  discharges the contract for the transaction machine of \<open>Database\<close>, with concurrent writers and
  compaction.
\<close>

section \<open>Successive polls\<close>

text \<open>The polls of one \<open>Run\<close>: the first error ends it.  Every poll has its snapshot, the heap order and
  the failing database call, if any.\<close>

fun polls ::
  "pgfun \<Rightarrow> (snapshot \<times> key list \<times> poll_stage option) list \<Rightarrow> Watcher \<Rightarrow>
   poll_error + Event list \<times> Watcher" where
  "polls hf [] w = Inr ([], w)"
| "polls hf ((sn, ks, fault) # rest) w =
     (case poll hf fault Uninterrupted ks sn w of
        (Inl e, _, _) \<Rightarrow> Inl e
      | (Inr n, evs, w') \<Rightarrow> sbind (polls hf rest w') (\<lambda>(evs', w''). Inr (evs @ evs', w'')))"

lemma poll_Inr:
  assumes "poll hf fault Uninterrupted ks sn w = (Inr n, evs, w')"
  shows "gone_horizon sn w = None \<and> evs = poll_events hf ks (sn_tbl sn) w \<and>
         w' = advance_hwm (sn_xmin sn) w"
  using assms by (auto simp: poll_def pollAll_def split: if_splits option.splits sum.splits prod.splits)

lemma advance_hwm_simps [simp]:
  "wa_cfg (advance_hwm x w) = wa_cfg w" "wa_hwm (advance_hwm x w) = max (wa_hwm w) (x - 1)"
  by (auto simp: advance_hwm_def)

lemma polls_cfg: "polls hf xs w = Inr (evs, w') \<Longrightarrow> wa_cfg w' = wa_cfg w"
proof (induction xs arbitrary: w evs)
  case (Cons x xs)
  obtain sn ks f where x: "x = (sn, ks, f)" by (cases x)
  from Cons.prems obtain n evs1 w1 evs2 where
    "poll hf f Uninterrupted ks sn w = (Inr n, evs1, w1)" "polls hf xs w1 = Inr (evs2, w')"
    by (auto simp: x split: prod.splits sum.splits)
  then show ?case using poll_Inr Cons.IH by (metis advance_hwm_simps(1))
qed simp

lemma list_map_of:
  assumes "heap ks (sn_tbl sn)"
    "List hf fault ks sn gvk (map_option ToListFilter sh) = Inr lr"
  shows "map_of (lr_Resources lr) = view hf gvk sh (sn_tbl sn)"
proof
  fix k
  let ?P = "list_where hf gvk (map_option ToListFilter sh)"
  let ?rs = "sort_key (\<lambda>(k, r). r_txid r) (scan ks ?P (sn_tbl sn))"
  have "lr_Resources lr = ?rs"
    using assms(2) by (auto simp: List_def list_page_def split: option.splits)
  moreover have "distinct (map fst ?rs)"
    using assms(1) by (intro sort_key_scan) (simp add: heap_def)
  moreover have "set ?rs = {(k, r). sn_tbl sn k = Some r \<and> ?P k r}"
    by (simp add: heap_set_scan [OF assms(1)])
  ultimately have "map_of (lr_Resources lr) k = Some r \<longleftrightarrow> sn_tbl sn k = Some r \<and> ?P k r" for r
    by simp
  moreover have "?P k r \<longleftrightarrow> key_gvk k = gvk \<and> shard_selects hf sh k r \<and> \<not> is_tombstone r" for r
    by (cases sh) (auto simp: list_where_def shard_selects_def is_tombstone_def)
  ultimately show "map_of (lr_Resources lr) k = view hf gvk sh (sn_tbl sn) k"
    by (intro option_eqI) (simp add: view_Some_iff)
qed

section \<open>The contract between database and readers\<close>

locale snapshot_feed =
  fixes later :: "'s \<Rightarrow> 's \<Rightarrow> bool"
    and snap :: "'s \<Rightarrow> snapshot"
  assumes watermark_pos: "later s s' \<Longrightarrow> 0 < sn_xmin (snap s)"
    and watermark_mono: "later s s' \<Longrightarrow> sn_xmin (snap s) \<le> sn_xmin (snap s')"
    and stable:
      "later s s' \<Longrightarrow> sn_tbl (snap s') k = Some r \<Longrightarrow> r_txid r < sn_xmin (snap s) \<Longrightarrow>
       sn_tbl (snap s) k = Some r"
    and removed:
      "later s s' \<Longrightarrow> sn_tbl (snap s) k = Some r \<Longrightarrow> sn_tbl (snap s') k = None \<Longrightarrow>
       is_tombstone r \<or> (\<exists>c \<ge> sn_xmin (snap s). sn_horizon (snap s') (key_gvk k) = Some c)"
begin

text \<open>The cache shows the snapshot's objects and the watcher stands below its watermark.\<close>

definition synced :: "pgfun \<Rightarrow> 's \<Rightarrow> table \<Rightarrow> Watcher \<Rightarrow> bool" where
  "synced hf s c w \<longleftrightarrow>
     c = view hf (wc_GVK (wa_cfg w)) (wc_Shard (wa_cfg w)) (sn_tbl (snap s)) \<and>
     wa_hwm w \<le> sn_xmin (snap s) - 1"

lemma poll_keeps_synced:
  assumes l: "later s s'" and sync: "synced hf s c w" and h: "heap ks (sn_tbl (snap s'))"
    and p: "poll hf fault Uninterrupted ks (snap s') w = (Inr n, evs, w')"
  shows "synced hf s' (fold apply_event evs c) w'"
proof -
  let ?t = "sn_tbl (snap s)" and ?t' = "sn_tbl (snap s')"
  let ?v = "view hf (wc_GVK (wa_cfg w)) (wc_Shard (wa_cfg w))"
  note pos = watermark_pos [OF l] and p = poll_Inr [OF p]
  have c: "c = ?v ?t" and hwm: "wa_hwm w \<le> sn_xmin (snap s) - 1" using sync by (auto simp: synced_def)
  have "fold apply_event evs c k = ?v ?t' k" for k
  proof (cases "?t' k")
    case None
    have "c k = None"
    proof (cases "?t k")
      case (Some r)
      have "key_gvk k \<noteq> wc_GVK (wa_cfg w) \<or> is_tombstone r"
        using removed [OF l Some None] p pos hwm by (auto simp: gone_horizon_def split: if_splits)
      then show ?thesis using Some by (auto simp: c view_def)
    qed (simp add: c view_def)
    then show ?thesis using None p by (simp add: fold_poll_events [OF h] view_def)
  next
    case (Some r)
    show ?thesis
    proof (cases "r_txid r < sn_xmin (snap s)")
      case True
      show ?thesis
        using Some p stable [OF l Some True]
        by (auto simp: fold_poll_events [OF h] c view_def poll_where_iff)
    next
      case False
      then have "r_txid r > wa_hwm w" using hwm pos by simp
      then show ?thesis
        using Some p c shard_selects_key [of hf "wc_Shard (wa_cfg w)" k _ r]
        by (auto simp: fold_poll_events [OF h] view_def poll_where_iff split: option.splits)
    qed
  qed
  moreover have "wa_hwm w \<le> sn_xmin (snap s') - 1" using hwm watermark_mono [OF l] by linarith
  ultimately show ?thesis using p by (auto simp: synced_def)
qed

lemma polls_keep_synced:
  assumes "successively later (s # map fst xs)" "synced hf s c w"
    "\<forall>(s', ks, f) \<in> set xs. heap ks (sn_tbl (snap s'))"
    "polls hf (map (\<lambda>(s', ks, f). (snap s', ks, f)) xs) w = Inr (evs, w')"
  shows "synced hf (last (s # map fst xs)) (fold apply_event evs c) w'"
  using assms
proof (induction xs arbitrary: s c w evs)
  case (Cons x xs)
  obtain s1 ks f where x: "x = (s1, ks, f)" by (cases x)
  from Cons.prems(4) obtain n evs1 w1 evs2 where
    p1: "poll hf f Uninterrupted ks (snap s1) w = (Inr n, evs1, w1)" and
    p2: "polls hf (map (\<lambda>(s', ks, f). (snap s', ks, f)) xs) w1 = Inr (evs2, w')" and
    e: "evs = evs1 @ evs2"
    by (auto simp: x split: prod.splits sum.splits)
  have "synced hf s1 (fold apply_event evs1 c) w1"
    using poll_keeps_synced [OF _ Cons.prems(2) _ p1] Cons.prems(1,3) by (simp add: x)
  then have "synced hf (last (s1 # map fst xs)) (fold apply_event evs2 (fold apply_event evs1 c)) w'"
    using Cons.prems(1,3) p2 by (intro Cons.IH) (auto simp: x)
  then show ?case by (simp add: x e)
qed simp

lemma list_synced:
  assumes "heap ks (sn_tbl (snap s))"
    "List hf f ks (snap s) (wc_GVK cfg) (map_option ToListFilter (wc_Shard cfg)) = Inr lr"
    "wc_StartRV cfg = lr_ResourceVersion lr"
  shows "synced hf s (map_of (lr_Resources lr)) (NewWatcher cfg)"
proof -
  have "rv_Watermark (lr_ResourceVersion lr) = sn_xmin (snap s) - 1"
    using assms(2) by (auto simp: List_def watermark_of_def split: option.splits)
  then show ?thesis
    using list_map_of [OF assms(1,2)] assms(3) by (simp add: synced_def NewWatcher_def Let_def)
qed

lemmas list_then_polls = polls_keep_synced [OF _ list_synced]

end

section \<open>The transaction machine keeps the contract\<close>

definition db_snapshot :: "db \<Rightarrow> snapshot" where
  "db_snapshot s = \<lparr>sn_xmin = db_xmin s, sn_tbl = db_tbl s, sn_horizon = db_horizon s\<rparr>"

definition db_later :: "(writeParams \<Rightarrow> bool) \<Rightarrow> db \<Rightarrow> db \<Rightarrow> bool" where
  "db_later adm s s' \<longleftrightarrow> reachable adm s \<and> db_steps adm s s'"

lemma later_reachable:
  "successively (db_later adm) (s # ss) \<Longrightarrow> s' \<in> set ss \<Longrightarrow> reachable adm s'"
  by (induction ss arbitrary: s) (auto simp: db_later_def reachable_def intro: rtranclp_trans)

interpretation db_feed: snapshot_feed "db_later adm" db_snapshot for adm
proof unfold_locales
  fix s s' k r
  assume l: "db_later adm s s'"
  show "0 < sn_xmin (db_snapshot s)"
    using l by (auto simp: db_later_def db_snapshot_def intro: xmin_pos reachable_stamps_old)
  show "sn_xmin (db_snapshot s) \<le> sn_xmin (db_snapshot s')"
    using l by (auto simp: db_later_def db_snapshot_def intro: xmin_steps)
  show "sn_tbl (db_snapshot s) k = Some r"
    if "sn_tbl (db_snapshot s') k = Some r" "r_txid r < sn_xmin (db_snapshot s)"
    using l that by (auto simp: db_later_def db_snapshot_def intro: row_stable)
  show "is_tombstone r \<or>
        (\<exists>c \<ge> sn_xmin (db_snapshot s). sn_horizon (db_snapshot s') (key_gvk k) = Some c)"
    if "sn_tbl (db_snapshot s) k = Some r" "sn_tbl (db_snapshot s') k = None"
    using l that row_removed [of adm s s' k r] by (simp add: db_later_def db_snapshot_def)
qed

section \<open>A run\<close>

text \<open>Two creations overlap: \<open>B\<close> starts after \<open>A\<close> and commits before it.\<close>

definition ex_create :: "string \<Rightarrow> writeParams" where
  "ex_create n = \<lparr>wp_statusOnly = False, wp_gvk = ''g/v/K'', wp_namespace = ''ns'', wp_name = n,
     wp_expectedVersion = 0, wp_expectedUID = None, wp_forceWrite = False, wp_spec = Some (doc n),
     wp_status = Some (JObj []), wp_metadata = Some (JObj []), wp_deletionTimestamp = None\<rparr>"

definition ex_made :: "string \<Rightarrow> nat \<Rightarrow> uuid \<Rightarrow> row" where
  "ex_made n x u = \<lparr>r_uid = u, r_txid = x, r_version = 1, r_spec = doc n, r_status = JObj [],
     r_metadata = JObj [], r_deletion = None, r_created = 50, r_updated = 50\<rparr>"

definition ex_key_of :: "string \<Rightarrow> key" where
  "ex_key_of n = (''g/v/K'', ''ns'', n)"

definition ex_overlap :: db where
  "ex_overlap = \<lparr>db_tbl = Map.empty, db_horizon = Map.empty, db_next = 5,
     db_running = [(4, ex_create ''B'', Checked), (3, ex_create ''A'', Checked)], db_minted = []\<rparr>"

definition ex_B_done :: db where
  "ex_B_done = \<lparr>db_tbl = [ex_key_of ''B'' \<mapsto> ex_made ''B'' 4 1], db_horizon = Map.empty, db_next = 5,
     db_running = [(3, ex_create ''A'', Checked)], db_minted = [1]\<rparr>"

definition ex_both_done :: db where
  "ex_both_done =
     \<lparr>db_tbl = [ex_key_of ''B'' \<mapsto> ex_made ''B'' 4 1, ex_key_of ''A'' \<mapsto> ex_made ''A'' 3 2],
      db_horizon = Map.empty, db_next = 5, db_running = [], db_minted = [2, 1]\<rparr>"

definition any_params :: "writeParams \<Rightarrow> bool" where
  "any_params p = True"

lemmas ex_run_defs = ex_create_def ex_made_def ex_key_of_def ex_overlap_def ex_B_done_def
  ex_both_done_def db_init_def

lemma ex_upsert:
  assumes "t (ex_key_of n) = None"
  shows "upsert \<lparr>te_txid = x, te_uuid = u, te_now = 50\<rparr> (ex_create n) t =
     Inr (changed_result \<lparr>te_txid = x, te_uuid = u, te_now = 50\<rparr> (ex_made n x u),
          t(ex_key_of n \<mapsto> ex_made n x u))"
  using assms by (simp add: upsert_defs ex_create_def ex_made_def ex_key_of_def wp_key_def changed_result_def)

lemma ex_check: "suppression_check (ex_create n) t = Inr None"
  by (simp add: suppression_check_def ex_create_def)

lemma ex_reach_overlap:
  assumes "adm (ex_create ''A'')" "adm (ex_create ''B'')"
  shows "db_steps adm db_init ex_overlap"
proof -
  let ?s1 = "db_init\<lparr>db_next := 4, db_running := [(3, ex_create ''A'', Started)]\<rparr>"
  let ?s2 = "db_init\<lparr>db_next := 4, db_running := [(3, ex_create ''A'', Checked)]\<rparr>"
  let ?s3 = "?s2\<lparr>db_next := 5, db_running := [(4, ex_create ''B'', Started), (3, ex_create ''A'', Checked)]\<rparr>"
  have "db_step adm db_init ?s1"
    using db_step.begin_tx [of adm, OF assms(1), of db_init] by (simp add: db_init_def)
  moreover have "db_step adm ?s1 ?s2"
    using db_step.check_tx [of 3 "ex_create ''A''" ?s1 adm] by (simp add: ex_check drop_tx_def)
  moreover have "db_step adm ?s2 ?s3"
    using db_step.begin_tx [of adm, OF assms(2), of ?s2] by simp
  moreover have "db_step adm ?s3 ex_overlap"
    using db_step.check_tx [of 4 "ex_create ''B''" ?s3 adm]
    by (simp add: ex_check drop_tx_def ex_overlap_def db_init_def)
  ultimately show ?thesis by (meson converse_rtranclp_into_rtranclp rtranclp.rtrancl_refl)
qed

lemma ex_step_B: "db_step adm ex_overlap ex_B_done"
  using db_step.commit_tx [of 4 "ex_create ''B''" ex_overlap "\<lparr>te_txid = 4, te_uuid = 1, te_now = 50\<rparr>"]
  by (auto simp: ex_overlap_def ex_B_done_def ex_upsert drop_tx_def)

lemma ex_step_A: "db_step adm ex_B_done ex_both_done"
  using db_step.commit_tx [of 3 "ex_create ''A''" ex_B_done "\<lparr>te_txid = 3, te_uuid = 2, te_now = 50\<rparr>"]
  by (auto simp: ex_B_done_def ex_both_done_def ex_upsert drop_tx_def ex_key_of_def)

section \<open>Caches are exact\<close>

text \<open>C2: A reflector lists a kind (or a shard of it) from one snapshot and watches from the returned
  resource version.  Whatever writers and compactor do between the snapshots, as long as no poll
  returns an error the replayed cache equals, after every poll, the live and dying objects of the
  snapshot polled last, and the watcher stands below its watermark: no update is missed, no
  deletion is missed, no object is resurrected.\<close>
theorem list_then_watch_is_exact:
  assumes "heap ks (db_tbl s)"
    and "List hf fault ks (db_snapshot s) (wc_GVK cfg) (map_option ToListFilter (wc_Shard cfg)) = Inr lr"
    and "wc_StartRV cfg = lr_ResourceVersion lr"
    and "successively (db_later adm) (s # map fst xs)"
    and "\<forall>(s', ks', f) \<in> set xs. heap ks' (db_tbl s')"
    and "polls hf (map (\<lambda>(s', ks', f). (db_snapshot s', ks', f)) xs) (NewWatcher cfg) = Inr (evs, w)"
  shows "fold apply_event evs (map_of (lr_Resources lr)) =
           view hf (wc_GVK cfg) (wc_Shard cfg) (db_tbl (last (s # map fst xs))) \<and>
         wa_hwm w \<le> db_xmin (last (s # map fst xs)) - 1"
proof -
  have cfg: "wc_GVK (wa_cfg w) = wc_GVK cfg" "wc_Shard (wa_cfg w) = wc_Shard cfg"
    using polls_cfg [OF assms(6)] by (simp_all add: NewWatcher_def Let_def)
  have "db_feed.synced hf (last (s # map fst xs)) (fold apply_event evs (map_of (lr_Resources lr))) w"
    by (rule db_feed.list_then_polls [where adm = adm])
       (use assms in \<open>auto simp: db_snapshot_def\<close>)
  then show ?thesis by (simp add: db_feed.synced_def cfg db_snapshot_def)
qed

definition ex_cfg :: WatcherConfig where
  "ex_cfg = \<lparr>wc_GVK = ''g/v/K'', wc_StartRV = \<lparr>rv_ObjectVersion = 0, rv_Watermark = 2\<rparr>,
             wc_BaselineInterval = 0, wc_DebounceFloor = 0, wc_Shard = None\<rparr>"

definition ex_polls :: "(snapshot \<times> key list \<times> poll_stage option) list" where
  "ex_polls = [(db_snapshot ex_B_done, [ex_key_of ''B''], None),
               (db_snapshot ex_both_done, [ex_key_of ''A'', ex_key_of ''B''], None)]"

lemma ex_snapshots:
  "db_snapshot ex_overlap = \<lparr>sn_xmin = 3, sn_tbl = Map.empty, sn_horizon = Map.empty\<rparr>"
  "db_snapshot ex_B_done =
     \<lparr>sn_xmin = 3, sn_tbl = [ex_key_of ''B'' \<mapsto> ex_made ''B'' 4 1], sn_horizon = Map.empty\<rparr>"
  "db_snapshot ex_both_done =
     \<lparr>sn_xmin = 5, sn_tbl = [ex_key_of ''B'' \<mapsto> ex_made ''B'' 4 1, ex_key_of ''A'' \<mapsto> ex_made ''A'' 3 2],
      sn_horizon = Map.empty\<rparr>"
  by (simp_all add: db_snapshot_def db_xmin_def ex_overlap_def ex_B_done_def ex_both_done_def)

lemma ex_later_adm:
  assumes "adm (ex_create ''A'')" "adm (ex_create ''B'')"
  shows "db_later adm ex_overlap ex_B_done" "db_later adm ex_B_done ex_both_done"
  using ex_reach_overlap [OF assms] ex_step_B [of adm] ex_step_A [of adm]
  by (auto simp: db_later_def reachable_def)

lemma ex_later:
  "db_later any_params ex_overlap ex_B_done" "db_later any_params ex_B_done ex_both_done"
  by (simp_all add: ex_later_adm any_params_def)

lemma ex_heaps:
  "\<forall>(s', ks', f) \<in> set [(ex_B_done, [ex_key_of ''B''], None),
       (ex_both_done, [ex_key_of ''A'', ex_key_of ''B''], None)]. heap ks' (db_tbl s')"
  by (auto simp: heap_def ex_B_done_def ex_both_done_def ex_key_of_def)

lemma ex_polls_result:
  "polls ex_pg ex_polls (NewWatcher ex_cfg) =
     Inr ([\<lparr>ev_Type = EventAdded, ev_Resource = (ex_key_of ''B'', ex_made ''B'' 4 1)\<rparr>,
           \<lparr>ev_Type = EventAdded, ev_Resource = (ex_key_of ''A'', ex_made ''A'' 3 2)\<rparr>,
           \<lparr>ev_Type = EventAdded, ev_Resource = (ex_key_of ''B'', ex_made ''B'' 4 1)\<rparr>],
          (NewWatcher ex_cfg)\<lparr>wa_hwm := 4\<rparr>)"
  by (simp add: ex_polls_def ex_snapshots ex_cfg_def NewWatcher_def poll_def pollAll_def poll_events_def
        gone_horizon_def scan_def poll_where_iff shard_selects_def advance_hwm_def poll_type_def
        ex_key_of_def ex_made_def)

lemma ex_list:
  "List ex_pg None [] (db_snapshot ex_overlap) (wc_GVK ex_cfg) (map_option ToListFilter (wc_Shard ex_cfg)) =
     Inr \<lparr>lr_Resources = [], lr_ResourceVersion = wc_StartRV ex_cfg\<rparr>"
  by (simp add: List_def ex_cfg_def list_page_def scan_def ex_snapshots watermark_of_def)

theorem list_then_watch_is_exact_witness:
  "case polls ex_pg ex_polls (NewWatcher ex_cfg) of
     Inl _ \<Rightarrow> False
   | Inr (evs, w) \<Rightarrow>
       length evs = 3 \<and> wa_hwm w = 4 \<and>
       fold apply_event evs Map.empty = view ex_pg ''g/v/K'' None (db_tbl ex_both_done)"
proof -
  let ?xs = "[(ex_B_done, [ex_key_of ''B''], None), (ex_both_done, [ex_key_of ''A'', ex_key_of ''B''], None)]"
  let ?lr = "\<lparr>lr_Resources = [], lr_ResourceVersion = wc_StartRV ex_cfg\<rparr>"
  have "heap [] (db_tbl ex_overlap)" by (simp add: heap_def ex_overlap_def)
  moreover have "List ex_pg None [] (db_snapshot ex_overlap) (wc_GVK ex_cfg)
      (map_option ToListFilter (wc_Shard ex_cfg)) = Inr ?lr" by (rule ex_list)
  moreover have "successively (db_later any_params) (ex_overlap # map fst ?xs)" by (simp add: ex_later)
  moreover have "\<forall>(s', ks', f) \<in> set ?xs. heap ks' (db_tbl s')" by (rule ex_heaps)
  moreover have "polls ex_pg (map (\<lambda>(s', ks', f). (db_snapshot s', ks', f)) ?xs) (NewWatcher ex_cfg) =
      polls ex_pg ex_polls (NewWatcher ex_cfg)" by (simp add: ex_polls_def)
  ultimately have "fold apply_event evs Map.empty = view ex_pg ''g/v/K'' None (db_tbl ex_both_done)"
    if "polls ex_pg ex_polls (NewWatcher ex_cfg) = Inr (evs, w)" for evs w
    using list_then_watch_is_exact [of "[]" ex_overlap ex_pg None ex_cfg ?lr any_params ?xs evs w] that
    by (simp add: ex_cfg_def)
  then show ?thesis by (simp add: ex_polls_result)
qed

text \<open>A watch may be resumed from any watermark that is not above that of the snapshot its cache
  shows: rows it has seen are delivered again, and the replayed cache is exact.  A watermark below
  a compaction horizon ends the watch with an error instead.\<close>
theorem resumed_watch_is_exact:
  assumes "reachable adm s" "successively (db_later adm) (s # map fst xs)"
    and "rv_Watermark (wc_StartRV cfg) < db_xmin s"
    and "\<forall>(s', ks, f) \<in> set xs. heap ks (db_tbl s')"
    and "polls hf (map (\<lambda>(s', ks, f). (db_snapshot s', ks, f)) xs) (NewWatcher cfg) = Inr (evs, w)"
  shows "fold apply_event evs (view hf (wc_GVK cfg) (wc_Shard cfg) (db_tbl s)) =
           view hf (wc_GVK cfg) (wc_Shard cfg) (db_tbl (last (s # map fst xs)))"
proof -
  have cfg: "wc_GVK (wa_cfg w) = wc_GVK cfg" "wc_Shard (wa_cfg w) = wc_Shard cfg"
    using polls_cfg [OF assms(5)] by (simp_all add: NewWatcher_def Let_def)
  have "db_feed.synced hf s (view hf (wc_GVK cfg) (wc_Shard cfg) (db_tbl s)) (NewWatcher cfg)"
    using assms(3) by (simp add: db_feed.synced_def NewWatcher_def Let_def db_snapshot_def)
  then have "db_feed.synced hf (last (s # map fst xs))
      (fold apply_event evs (view hf (wc_GVK cfg) (wc_Shard cfg) (db_tbl s))) w"
    by (rule db_feed.polls_keep_synced [where adm = adm, OF assms(2)])
       (use assms in \<open>auto simp: db_snapshot_def\<close>)
  then show ?thesis by (simp add: db_feed.synced_def cfg db_snapshot_def)
qed

section \<open>No lost updates\<close>

text \<open>C4: a client that read a row in some snapshot and later updates the object with the row's version
  and UID as preconditions can only succeed if the row is still exactly the one it read.  Neither a
  concurrent update nor a deletion with re-creation of the object, which restarts the version
  numbers, nor a compaction in between goes unnoticed.\<close>
theorem no_lost_update:
  assumes "reachable adm s" "db_steps adm s s'"
    and "db_tbl s (wp_key p) = Some r"
    and "wp_expectedVersion p = r_version r" "wp_expectedUID p = Some (r_uid r)" "r_version r \<noteq> 0"
    and "upsert e p (db_tbl s') = Inr (out, t')"
  shows "db_tbl s' (wp_key p) = Some r"
proof -
  obtain r' where r': "db_tbl s' (wp_key p) = Some r'" "row_matches p r'"
    using upsert_update_row [OF assms(7)] assms(4,6) by auto
  then have "r_uid r' = r_uid r" "r_version r' = r_version r"
    using assms(4,5) by (simp_all add: row_matches_def)
  then show ?thesis
    using incarnation_versions [OF assms(2) reachable_uids_minted [OF assms(1)] assms(3) r'(1)] r'(1)
    by auto
qed

definition ex_update :: writeParams where
  "ex_update = (ex_create ''B'')\<lparr>wp_expectedVersion := 1, wp_expectedUID := Some 1,
                                 wp_spec := Some (doc ''b2'')\<rparr>"

theorem no_lost_update_witness:
  "db_tbl ex_both_done (ex_key_of ''B'') = Some (ex_made ''B'' 4 1)"
proof -
  have k: "wp_key ex_update = ex_key_of ''B''"
    by (simp add: wp_key_def ex_update_def ex_create_def ex_key_of_def)
  obtain out t' where u: "upsert \<lparr>te_txid = 5, te_uuid = 3, te_now = 60\<rparr> ex_update (db_tbl ex_both_done) =
      Inr (out, t')"
    by (simp add: upsert_defs wp_key_def Let_def ex_update_def ex_create_def ex_both_done_def
          ex_key_of_def ex_made_def row_matches_def)
  have "db_tbl ex_both_done (wp_key ex_update) = Some (ex_made ''B'' 4 1)"
    by (rule no_lost_update [where adm = any_params and s = ex_B_done and r = "ex_made ''B'' 4 1", OF _ _ _ _ _ _ u])
       (use ex_later in \<open>auto simp: db_later_def reachable_def ex_B_done_def ex_update_def wp_key_def
          ex_create_def ex_key_of_def ex_made_def intro: rtranclp_trans\<close>)
  then show ?thesis by (simp add: k)
qed

end
