(* ===== verification/PgWatch.thy ===== *)
theory PgWatch
  imports Feed
begin

text \<open>
  \<open>seaplane-db/pgwatch.go\<close>: the adapter between the polling watcher and the Kubernetes watch
  interface.  \<open>relay\<close> turns the events of a run, and the error that ended it, into watch events, and
  stamps each object with a composite resource version.  A consumer that stops the watch sees a
  prefix of this stream.  Whether \<open>resourceToObject\<close> can build the object depends on the scheme the
  program is configured with; it is the argument \<open>conv\<close>.
\<close>

datatype watch_type = WatchAdded | WatchModified | WatchDeleted

datatype watch_status = ResourceExpired | InternalError

datatype watch_event =
  WatchEvent watch_type resource string \<comment> \<open>the object and its resource version\<close>
| WatchError watch_status

text \<open>How the run ended: \<open>None\<close> is a \<open>nil\<close> error; a database call that fails because its context ended
  is \<open>PollCancelled\<close>.\<close>

fun sendError :: "poll_error option \<Rightarrow> watch_event list" where
  "sendError None = []"
| "sendError (Some PollCancelled) = []"
| "sendError (Some (ErrGone h c)) = [WatchError ResourceExpired]"
| "sendError (Some (PollFailed st)) = [WatchError InternalError]"

definition stamp_rv :: "row \<Rightarrow> rv \<Rightarrow> rv" where
  "stamp_rv r cur =
     \<lparr>rv_ObjectVersion = r_version r, rv_Watermark = max (rv_Watermark cur) (r_txid r)\<rparr>"

definition relay_type :: "Event \<Rightarrow> watch_type" where
  "relay_type ev =
     (case ev_Type ev of
        EventAdded \<Rightarrow> WatchAdded
      | EventModified \<Rightarrow> WatchModified
      | EventDeleted \<Rightarrow>
          if hasFinalizers (r_metadata (snd (ev_Resource ev))) then WatchModified else WatchDeleted)"

fun relay :: "(resource \<Rightarrow> bool) \<Rightarrow> rv \<Rightarrow> Event list \<Rightarrow> poll_error option \<Rightarrow> watch_event list" where
  "relay conv cur [] res = sendError res"
| "relay conv cur (ev # evs) res =
     (if \<not> conv (ev_Resource ev) then [WatchError InternalError]
      else let cur' = stamp_rv (snd (ev_Resource ev)) cur
           in WatchEvent (relay_type ev) (ev_Resource ev) (rv_String cur') # relay conv cur' evs res)"

definition newPgWatcher ::
  "(resource \<Rightarrow> bool) \<Rightarrow> rv \<Rightarrow> Event list \<Rightarrow> poll_error option \<Rightarrow> watch_event list" where
  "newPgWatcher conv startRV evs res =
     relay conv \<lparr>rv_ObjectVersion = 0, rv_Watermark = rv_Watermark startRV\<rparr> evs res"

section \<open>Replaying the watch stream\<close>

text \<open>What a Kubernetes watch event means for a store of objects.\<close>

fun apply_watch :: "watch_event \<Rightarrow> table \<Rightarrow> table" where
  "apply_watch (WatchEvent ty (k, r) v) c = (if ty = WatchDeleted then c(k := None) else c(k \<mapsto> r))"
| "apply_watch (WatchError st) c = c"

lemma apply_watch_event:
  assumes "stored_meta (r_metadata r)"
  shows "apply_watch (WatchEvent (relay_type \<lparr>ev_Type = ty, ev_Resource = (k, r)\<rparr>) (k, r) v) c =
         apply_event \<lparr>ev_Type = ty, ev_Resource = (k, r)\<rparr> c"
  using stored_meta_finalizers [OF assms]
  by (auto simp: relay_type_def apply_event_def split: EventType.splits)

lemma fold_sendError [simp]: "fold apply_watch (sendError res) c = c"
  by (cases res rule: sendError.cases) auto

lemma relay_replay:
  assumes "\<forall>ev \<in> set evs. conv (ev_Resource ev) \<and> stored_meta (r_metadata (snd (ev_Resource ev)))"
  shows "fold apply_watch (relay conv cur evs res) c = fold apply_event evs c"
  using assms
proof (induction evs arbitrary: cur c)
  case (Cons ev evs)
  obtain ty k r where "ev = \<lparr>ev_Type = ty, ev_Resource = (k, r)\<rparr>" by (metis Event.cases surj_pair)
  with Cons show ?case by (simp add: apply_watch_event Let_def del: apply_watch.simps(1))
qed simp

lemma poll_events_rows:
  "ev \<in> set (poll_events hf ks t w) \<Longrightarrow> t (fst (ev_Resource ev)) = Some (snd (ev_Resource ev))"
  by (auto simp: poll_events_def set_scan)

lemma polls_rows:
  assumes "polls hf xs w = Inr (evs, w')" "ev \<in> set evs"
  shows "\<exists>(sn, ks, f) \<in> set xs. sn_tbl sn (fst (ev_Resource ev)) = Some (snd (ev_Resource ev))"
  using assms
proof (induction xs arbitrary: w evs)
  case (Cons x xs)
  obtain sn ks f where x: "x = (sn, ks, f)" by (cases x)
  from Cons.prems(1) obtain n evs1 w1 evs2 where
    p: "poll hf f Uninterrupted ks sn w = (Inr n, evs1, w1)" "polls hf xs w1 = Inr (evs2, w')"
    and e: "evs = evs1 @ evs2"
    by (auto simp: x split: prod.splits sum.splits)
  show ?case
  proof (cases "ev \<in> set evs1")
    case True
    then show ?thesis using poll_Inr [OF p(1)] poll_events_rows by (fastforce simp: x)
  next
    case False
    then show ?thesis using Cons.IH [OF p(2)] Cons.prems(2) e by auto
  qed
qed simp

lemma relay_of_polls:
  assumes "successively (db_later client_params) (s # map fst xs)"
    and "polls hf (map (\<lambda>(s', ks, f). (db_snapshot s', ks, f)) xs) w = Inr (evs, w')"
    and "\<forall>ev \<in> set evs. conv (ev_Resource ev)"
  shows "fold apply_watch (relay conv cur evs res) c = fold apply_event evs c"
proof (rule relay_replay, intro ballI conjI)
  fix ev assume ev: "ev \<in> set evs"
  then obtain s' where s': "s' \<in> fst ` set xs"
      "db_tbl s' (fst (ev_Resource ev)) = Some (snd (ev_Resource ev))"
    using polls_rows [OF assms(2) ev] by (force simp: db_snapshot_def)
  have "reachable client_params s'"
    using later_reachable [OF assms(1)] s'(1) by auto
  then show "stored_meta (r_metadata (snd (ev_Resource ev)))"
    using s'(2) by (blast dest: reachable_meta_stored meta_storedD)
qed (use assms(3) in blast)

text \<open>C1: the Kubernetes watch stream that the adapter emits keeps an informer's store exact: applying
  the relayed \<open>ADDED\<close>, \<open>MODIFIED\<close> and \<open>DELETED\<close> events to the listed objects gives the live and dying
  objects of the snapshot polled last.  In particular an object that is being deleted stays in the
  store until its last finalizer is removed.  The metadata that clients write is that of
  \<open>extractMetadata\<close>, and every row converts to an object.\<close>
theorem informer_store_is_exact:
  assumes "heap ks (db_tbl s)"
    and "List hf fault ks (db_snapshot s) (wc_GVK cfg) (map_option ToListFilter (wc_Shard cfg)) = Inr lr"
    and "wc_StartRV cfg = lr_ResourceVersion lr"
    and "successively (db_later client_params) (s # map fst xs)"
    and "\<forall>(s', ks', f) \<in> set xs. heap ks' (db_tbl s')"
    and "polls hf (map (\<lambda>(s', ks', f). (db_snapshot s', ks', f)) xs) (NewWatcher cfg) = Inr (evs, w)"
    and "\<forall>ev \<in> set evs. conv (ev_Resource ev)"
  shows "fold apply_watch (newPgWatcher conv (wc_StartRV cfg) evs res) (map_of (lr_Resources lr)) =
           view hf (wc_GVK cfg) (wc_Shard cfg) (db_tbl (last (s # map fst xs)))"
proof -
  have "db_feed.synced hf (last (s # map fst xs)) (fold apply_event evs (map_of (lr_Resources lr))) w"
    by (rule db_feed.list_then_polls [where adm = client_params])
       (use assms in \<open>auto simp: db_snapshot_def\<close>)
  then show ?thesis
    using polls_cfg [OF assms(6)] relay_of_polls [OF assms(4,6,7)]
    by (simp add: newPgWatcher_def db_feed.synced_def db_snapshot_def NewWatcher_def Let_def)
qed

lemma ex_client_params: "client_params (ex_create n)"
  by (simp add: client_params_def ex_create_def stored_meta_empty)

theorem informer_store_is_exact_witness:
  "case polls ex_pg ex_polls (NewWatcher ex_cfg) of
     Inl _ \<Rightarrow> False
   | Inr (evs, w) \<Rightarrow>
       length evs = 3 \<and>
       fold apply_watch (newPgWatcher (\<lambda>_. True) (wc_StartRV ex_cfg) evs None) Map.empty =
         view ex_pg ''g/v/K'' None (db_tbl ex_both_done)"
proof -
  let ?xs = "[(ex_B_done, [ex_key_of ''B''], None), (ex_both_done, [ex_key_of ''A'', ex_key_of ''B''], None)]"
  let ?lr = "\<lparr>lr_Resources = [], lr_ResourceVersion = wc_StartRV ex_cfg\<rparr>"
  have "heap [] (db_tbl ex_overlap)" by (simp add: heap_def ex_overlap_def)
  moreover have "List ex_pg None [] (db_snapshot ex_overlap) (wc_GVK ex_cfg)
      (map_option ToListFilter (wc_Shard ex_cfg)) = Inr ?lr" by (rule ex_list)
  moreover have "successively (db_later client_params) (ex_overlap # map fst ?xs)"
    by (simp add: ex_later_adm ex_client_params)
  moreover have "\<forall>(s', ks', f) \<in> set ?xs. heap ks' (db_tbl s')" by (rule ex_heaps)
  moreover have "polls ex_pg (map (\<lambda>(s', ks', f). (db_snapshot s', ks', f)) ?xs) (NewWatcher ex_cfg) =
      polls ex_pg ex_polls (NewWatcher ex_cfg)" by (simp add: ex_polls_def)
  ultimately have "fold apply_watch (newPgWatcher (\<lambda>_. True) (wc_StartRV ex_cfg) evs None) Map.empty =
      view ex_pg ''g/v/K'' None (db_tbl ex_both_done)"
    if "polls ex_pg ex_polls (NewWatcher ex_cfg) = Inr (evs, w)" for evs w
    using informer_store_is_exact [of "[]" ex_overlap ex_pg None ex_cfg ?lr ?xs evs w "\<lambda>_. True" None] that
    by (simp add: ex_cfg_def)
  then show ?thesis by (simp add: ex_polls_result)
qed

section \<open>Resource versions on the stream\<close>

text \<open>Version numbers count from 1, in a \<open>BIGINT\<close> column.\<close>

definition fits64 :: "row \<Rightarrow> bool" where
  "fits64 r \<longleftrightarrow> 1 \<le> r_version r \<and> r_version r < 2 ^ 63 \<and> r_txid r < 2 ^ 64"

lemma stamp_rv_valid: "fits64 r \<Longrightarrow> rv_Watermark cur < 2 ^ 64 \<Longrightarrow> valid_rv (stamp_rv r cur)"
  by (auto simp: fits64_def stamp_rv_def valid_rv_def)

text \<open>Every object on the stream carries a resource version from which a later write recovers the
  object's own version number, so that optimistic concurrency works on objects that came from a
  watch; its watermark is at least the object's own stamp, and is the start watermark or the stamp
  of a relayed row.\<close>
theorem relayed_versions:
  assumes "\<forall>ev \<in> set evs. fits64 (snd (ev_Resource ev))" "rv_Watermark cur < 2 ^ 64"
    and "WatchEvent ty (k, r) v \<in> set (relay conv cur evs res)"
  shows "parseResourceVersion v = Inr (r_version r) \<and>
         (\<exists>pv. Parse v = Inr pv \<and> r_txid r \<le> rv_Watermark pv \<and>
               rv_Watermark pv \<in> insert (rv_Watermark cur) ((\<lambda>ev. r_txid (snd (ev_Resource ev))) ` set evs))"
  using assms
proof (induction evs arbitrary: cur)
  case Nil
  then show ?case by (cases res rule: sendError.cases) auto
next
  case (Cons ev evs)
  let ?r = "snd (ev_Resource ev)" and ?cur = "stamp_rv (snd (ev_Resource ev)) cur"
  have v: "fits64 ?r" "valid_rv ?cur" using Cons.prems(1,2) by (auto intro: stamp_rv_valid)
  have w: "rv_Watermark ?cur = rv_Watermark cur \<or> rv_Watermark ?cur = r_txid ?r"
    by (simp add: stamp_rv_def max_def)
  show ?case
  proof (cases "WatchEvent ty (k, r) v \<in> set (relay conv ?cur evs res)")
    case True
    moreover have "rv_Watermark ?cur < 2 ^ 64" using v(2) by (simp add: valid_rv_def)
    ultimately show ?thesis using Cons.IH [of ?cur] Cons.prems(1) w by auto
  next
    case False
    then have e: "ev_Resource ev = (k, r)" "v = rv_String ?cur"
      using Cons.prems(3) by (auto simp: Let_def split: if_splits)
    then have "r_txid r \<le> rv_Watermark ?cur" "rv_ObjectVersion ?cur = r_version r" "0 < r_version r"
      using v(1) by (auto simp: stamp_rv_def fits64_def)
    then show ?thesis
      using Parse_String [OF v(2)] parseResourceVersion_String [OF v(2)] e w by auto
  qed
qed

lemma ex_rv_string: "rv_String \<lparr>rv_ObjectVersion = 1, rv_Watermark = 4\<rparr> = ''o1;4''"
  by code_simp

lemma ex_relay_rv:
  "stamp_rv (ex_made n x u) cur = \<lparr>rv_ObjectVersion = 1, rv_Watermark = max (rv_Watermark cur) x\<rparr>"
  by (simp add: stamp_rv_def ex_made_def)

section \<open>Resuming from a relayed version\<close>

text \<open>C33: the watermark on a relayed object is not safe to resume from.  In the run where \<open>B\<close> commits
  while the older transaction \<open>A\<close> is still running, a first poll relays \<open>B\<close> with watermark 4, above
  the snapshot's safe watermark 2.  A watch started from the version on \<open>B\<close>, the way a Kubernetes
  client resumes from the last version it has seen, then polls after \<open>A\<close> has committed: it returns no
  error, delivers nothing, and advances past \<open>A\<close>, although \<open>A\<close> exists and is missing from the
  store.  A watch started from the listed version delivers it.\<close>
theorem relayed_version_skips_commit:
  "db_later client_params ex_overlap ex_B_done \<and> db_later client_params ex_B_done ex_both_done \<and>
   poll ex_pg None Uninterrupted [ex_key_of ''B''] (db_snapshot ex_B_done) (NewWatcher ex_cfg) =
     (Inr 1, [\<lparr>ev_Type = EventAdded, ev_Resource = (ex_key_of ''B'', ex_made ''B'' 4 1)\<rparr>],
      NewWatcher ex_cfg) \<and>
   newPgWatcher (\<lambda>_. True) (wc_StartRV ex_cfg)
       [\<lparr>ev_Type = EventAdded, ev_Resource = (ex_key_of ''B'', ex_made ''B'' 4 1)\<rparr>] None =
     [WatchEvent WatchAdded (ex_key_of ''B'', ex_made ''B'' 4 1) ''o1;4''] \<and>
   Parse ''o1;4'' = Inr \<lparr>rv_ObjectVersion = 1, rv_Watermark = 4\<rparr> \<and>
   (let w = NewWatcher (ex_cfg\<lparr>wc_StartRV := \<lparr>rv_ObjectVersion = 1, rv_Watermark = 4\<rparr>\<rparr>) in
    poll ex_pg None Uninterrupted [ex_key_of ''A'', ex_key_of ''B''] (db_snapshot ex_both_done) w =
      (Inr 0, [], w)) \<and>
   view ex_pg ''g/v/K'' None (db_tbl ex_both_done) (ex_key_of ''A'') = Some (ex_made ''A'' 3 2)"
proof (intro conjI)
  note pd = ex_snapshots ex_cfg_def NewWatcher_def poll_def pollAll_def poll_events_def
    gone_horizon_def scan_def poll_where_iff shard_selects_def advance_hwm_def poll_type_def
    ex_key_of_def ex_made_def Let_def
  show "db_later client_params ex_overlap ex_B_done" "db_later client_params ex_B_done ex_both_done"
    by (simp_all add: ex_later_adm ex_client_params)
  show "poll ex_pg None Uninterrupted [ex_key_of ''B''] (db_snapshot ex_B_done) (NewWatcher ex_cfg) =
     (Inr 1, [\<lparr>ev_Type = EventAdded, ev_Resource = (ex_key_of ''B'', ex_made ''B'' 4 1)\<rparr>],
      NewWatcher ex_cfg)" by (simp add: pd)
  show "newPgWatcher (\<lambda>_. True) (wc_StartRV ex_cfg)
       [\<lparr>ev_Type = EventAdded, ev_Resource = (ex_key_of ''B'', ex_made ''B'' 4 1)\<rparr>] None =
     [WatchEvent WatchAdded (ex_key_of ''B'', ex_made ''B'' 4 1) ''o1;4'']"
    by (simp add: newPgWatcher_def relay_type_def ex_relay_rv ex_cfg_def ex_rv_string)
  show "Parse ''o1;4'' = Inr \<lparr>rv_ObjectVersion = 1, rv_Watermark = 4\<rparr>"
    using Parse_String [of "\<lparr>rv_ObjectVersion = 1, rv_Watermark = 4\<rparr>"]
    by (simp add: ex_rv_string valid_rv_def)
  show "let w = NewWatcher (ex_cfg\<lparr>wc_StartRV := \<lparr>rv_ObjectVersion = 1, rv_Watermark = 4\<rparr>\<rparr>) in
    poll ex_pg None Uninterrupted [ex_key_of ''A'', ex_key_of ''B''] (db_snapshot ex_both_done) w =
      (Inr 0, [], w)" by (simp add: pd)
  show "view ex_pg ''g/v/K'' None (db_tbl ex_both_done) (ex_key_of ''A'') = Some (ex_made ''A'' 3 2)"
    by (simp add: view_def ex_both_done_def ex_key_of_def ex_made_def shard_selects_def is_tombstone_def)
qed

end
