(* ===== verification/Convert.thy ===== *)
theory Convert
  imports Writer Sql ResourceVersion
begin

text \<open>
  Objects and rows: \<open>seaplane-db/convert.go\<close>.  A Go object is a record of the accessors that the code
  uses; its \<open>Spec\<close> and \<open>Status\<close> fields are the JSON values they marshal to, \<open>None\<close> where the type has no
  such field.  What depends on the registered Go types and on other packages is the record
  \<open>client_env\<close>: \<open>scheme.New\<close>, decoding into a typed field, and the parser of \<open>google/uuid\<close>.
\<close>

record gvk =
  g_Group :: string
  g_Version :: string
  g_Kind :: string

record kobj =
  ko_kinds :: "gvk list option" \<comment> \<open>what \<open>scheme.ObjectKinds\<close> returns; \<open>None\<close> is its error\<close>
  ko_gvk :: "gvk option" \<comment> \<open>the kind set on the object\<close>
  ko_namespace :: string
  ko_name :: string
  ko_generateName :: string
  ko_uid :: string
  ko_rv :: string
  ko_creation :: "time option"
  ko_deletion :: "time option"
  ko_meta :: storedMetadata
  ko_spec :: "json option"
  ko_status :: "json option"

record client_env =
  cl_new :: "gvk \<Rightarrow> kobj option" \<comment> \<open>\<open>scheme.New\<close> as a \<open>client.Object\<close>\<close>
  cl_unmarshal :: "json \<Rightarrow> json \<Rightarrow> json option" \<comment> \<open>document and old field value\<close>
  cl_uuidParse :: "string \<Rightarrow> uuid option"
  cl_itemsFit :: "kobj list \<Rightarrow> bool" \<comment> \<open>\<open>setListItems\<close> accepts the items\<close>

datatype client_error =
  ApiNotFound "string \<times> string" string
| ApiAlreadyExists "string \<times> string" string
| ApiConflict "string \<times> string" string
| ApiBadRequest string
| ApiMethodNotSupported string
| ErrDryRunNotSupported
| ErrPropagationPolicyNotSupported
| ErrPreconditionsNotSupported
| ErrGracePeriodNotSupported
| ErrGenerateNameNotSupported
| ErrResolveGVK
| ErrNoGVK
| ErrInvalidGVK string
| ErrSchemeNew gvk
| ErrUnmarshal string
| ErrItems
| ErrAcquire
| ErrRead
| ErrParseVersion objrv_error
| ErrParseUID
| ErrReadBack
| ErrWriter writer_error

definition gvkToString :: "gvk \<Rightarrow> string" where
  "gvkToString g = g_Group g @ ''/'' @ g_Version g @ ''/'' @ g_Kind g"

definition stringToGVK :: "string \<Rightarrow> client_error + gvk" where
  "stringToGVK s =
     (case splitN 3 (CHR ''/'') s of
        [a, b, c] \<Rightarrow> Inr \<lparr>g_Group = a, g_Version = b, g_Kind = c\<rparr>
      | _ \<Rightarrow> Inl (ErrInvalidGVK s))"

definition resolveGVK :: "kobj \<Rightarrow> client_error + gvk" where
  "resolveGVK obj =
     (case ko_kinds obj of
        None \<Rightarrow> Inl ErrResolveGVK
      | Some [] \<Rightarrow> Inl ErrNoGVK
      | Some (g # _) \<Rightarrow> Inr g)"

definition itemGVKFromListGVK :: "gvk \<Rightarrow> gvk" where
  "itemGVKFromListGVK g = g\<lparr>g_Kind := trim_suffix (g_Kind g) ''List''\<rparr>"

definition field_or_empty :: "json option \<Rightarrow> json" where
  "field_or_empty f = (case f of None \<Rightarrow> JObj [] | Some j \<Rightarrow> j)"

definition extractSpec :: "kobj \<Rightarrow> json" where
  "extractSpec obj = field_or_empty (ko_spec obj)"

definition extractStatus :: "kobj \<Rightarrow> json" where
  "extractStatus obj = field_or_empty (ko_status obj)"

definition extractSpecStatus :: "kobj \<Rightarrow> json \<times> json" where
  "extractSpecStatus obj = (field_or_empty (ko_spec obj), field_or_empty (ko_status obj))"

definition isFullyDeleted :: "row \<Rightarrow> bool" where
  "isFullyDeleted r \<longleftrightarrow> r_deletion r \<noteq> None \<and> \<not> hasFinalizers (r_metadata r)"

text \<open>A deletion timestamp already on the object stays when the row has none.\<close>

definition populateObjectMeta :: "kobj \<Rightarrow> key \<Rightarrow> row \<Rightarrow> kobj" where
  "populateObjectMeta obj k r =
     obj\<lparr>ko_name := key_name k, ko_namespace := key_ns k, ko_uid := uuid_text (r_uid r),
         ko_rv := format_int (r_version r), ko_creation := Some (r_created r),
         ko_deletion := (case r_deletion r of None \<Rightarrow> ko_deletion obj | Some d \<Rightarrow> Some d),
         ko_meta := (case unmarshalMetadata (r_metadata r) of None \<Rightarrow> ko_meta obj | Some sm \<Rightarrow> sm)\<rparr>"

definition inject_field ::
  "client_env \<Rightarrow> string \<Rightarrow> json \<Rightarrow> json option \<Rightarrow> client_error + json option" where
  "inject_field cl what doc old =
     (if doc = JObj [] then Inr old
      else case old of
        None \<Rightarrow> Inr None
      | Some j \<Rightarrow> (case cl_unmarshal cl doc j of None \<Rightarrow> Inl (ErrUnmarshal what) | Some v \<Rightarrow> Inr (Some v)))"

definition injectSpecStatus :: "client_env \<Rightarrow> kobj \<Rightarrow> json \<Rightarrow> json \<Rightarrow> client_error + kobj" where
  "injectSpecStatus cl obj spec status =
     sbind (inject_field cl ''spec'' spec (ko_spec obj))
       (\<lambda>sp. sbind (inject_field cl ''status'' status (ko_status obj))
               (\<lambda>st. Inr (obj\<lparr>ko_spec := sp, ko_status := st\<rparr>)))"

definition populateObject :: "client_env \<Rightarrow> kobj \<Rightarrow> key \<Rightarrow> row \<Rightarrow> gvk \<Rightarrow> client_error + kobj" where
  "populateObject cl dst k r g =
     injectSpecStatus cl ((populateObjectMeta dst k r)\<lparr>ko_gvk := Some g\<rparr>) (r_spec r) (r_status r)"

definition resourceToObject :: "client_env \<Rightarrow> resource \<Rightarrow> client_error + kobj" where
  "resourceToObject cl kr =
     (let (k, r) = kr in
      sbind (stringToGVK (key_gvk k))
        (\<lambda>g. case cl_new cl g of
               None \<Rightarrow> Inl (ErrSchemeNew g)
             | Some obj \<Rightarrow>
                 injectSpecStatus cl ((populateObjectMeta obj k r)\<lparr>ko_gvk := Some g\<rparr>)
                   (r_spec r) (r_status r)))"

section \<open>Error mapping\<close>

record DeleteOptions =
  do_DryRun :: bool
  do_PropagationPolicy :: bool
  do_Preconditions :: bool
  do_GracePeriodSeconds :: bool

definition rejectDryRun :: "bool \<Rightarrow> client_error option" where
  "rejectDryRun dryRun = (if dryRun then Some ErrDryRunNotSupported else None)"

definition rejectUnsupportedDeleteOpts :: "DeleteOptions \<Rightarrow> client_error option" where
  "rejectUnsupportedDeleteOpts opts =
     (case rejectDryRun (do_DryRun opts) of
        Some e \<Rightarrow> Some e
      | None \<Rightarrow>
          if do_PropagationPolicy opts then Some ErrPropagationPolicyNotSupported
          else if do_Preconditions opts then Some ErrPreconditionsNotSupported
          else if do_GracePeriodSeconds opts then Some ErrGracePeriodNotSupported
          else None)"

definition groupResource :: "gvk \<Rightarrow> string \<times> string" where
  "groupResource g = (g_Group g, to_lower (g_Kind g))"

text \<open>\<open>t\<close> is the table that the read-back sees; \<open>fault\<close> says that the read-back fails.\<close>

definition mapWriteError ::
  "bool \<Rightarrow> table \<Rightarrow> writer_error \<Rightarrow> gvk \<Rightarrow> string \<Rightarrow> client_error + resource" where
  "mapWriteError fault t err g name =
     (case err of
        ErrAlreadyExists \<Rightarrow> Inl (ApiAlreadyExists (groupResource g) name)
      | ErrConflict \<Rightarrow> Inl (ApiConflict (groupResource g) name)
      | AmbiguousCommitError k txid \<Rightarrow>
          if fault then Inl ErrReadBack
          else (case ReadBack t k txid of
                  None \<Rightarrow> Inl (ApiConflict (groupResource g) name)
                | Some r \<Rightarrow> Inr (k, r))
      | _ \<Rightarrow> Inl (ErrWriter err))"

section \<open>Kinds as strings\<close>

lemma splitN_3: "CHR ''/'' \<notin> set a \<Longrightarrow> CHR ''/'' \<notin> set b \<Longrightarrow>
    splitN 3 (CHR ''/'') (a @ ''/'' @ b @ ''/'' @ c) = [a, b, c]"
  by (simp add: numeral_3_eq_3)

text \<open>The kind column is unambiguous: groups and versions contain no slash.\<close>

lemma stringToGVK_gvkToString:
  assumes "CHR ''/'' \<notin> set (g_Group g)" "CHR ''/'' \<notin> set (g_Version g)"
  shows "stringToGVK (gvkToString g) = Inr g"
  using splitN_3 [OF assms] by (simp add: stringToGVK_def gvkToString_def)

end
