(* ===== verification/PgClient.thy ===== *)
theory PgClient
  imports Convert Selectors Feed
begin

text \<open>
  The controller-runtime client, \<open>seaplane-db/pgclient.go\<close>: get, list, create, update, delete and
  status update, every branch, on top of the writer and the reader.

  An operation runs several statements on its connection, and other clients may commit between
  them.  \<open>ca_between\<close> is what they do to the table between the read of the current row and the write,
  \<open>ca_after\<close> what they do between the write and the read-back of an ambiguous commit; both are the
  identity in a sequential run.  An operation returns its error, if any, the caller's object as it
  leaves it, and the table.

  A continue token is a base64 text of a JSON document; \<open>ctoken\<close> tells apart the three ways in which
  \<open>decodeContinue\<close> treats a token.
\<close>

record call =
  ca_acquire :: bool \<comment> \<open>\<open>pool.Acquire\<close> succeeds\<close>
  ca_readFault :: bool
  ca_link :: link
  ca_tx :: tx_env
  ca_now :: time
  ca_between :: "table \<Rightarrow> table"
  ca_after :: "table \<Rightarrow> table"
  ca_readBackFault :: bool

type_synonym reply = "client_error option \<times> kobj \<times> table"

text \<open>\<open>writer.New(conn, nil)\<close>: no hooks, no doorbell.\<close>

definition client_writer :: Writer where
  "client_writer = \<lparr>w_hooks = None, w_doorbell = False\<rparr>"

section \<open>Get\<close>

definition mapGetError :: "bool \<Rightarrow> gvk \<Rightarrow> string \<Rightarrow> client_error" where
  "mapGetError noRows g name = (if noRows then ApiNotFound (groupResource g) name else ErrRead)"

definition Get ::
  "client_env \<Rightarrow> call \<Rightarrow> string \<times> string \<Rightarrow> kobj \<Rightarrow> table \<Rightarrow> client_error + kobj" where
  "Get cl ca key obj t =
     sbind (resolveGVK obj) (\<lambda>g.
       if \<not> ca_acquire ca then Inl ErrAcquire
       else if ca_readFault ca then Inl (mapGetError False g (snd key))
       else (let k = (gvkToString g, key) in
             case t k of
               None \<Rightarrow> Inl (mapGetError True g (snd key))
             | Some r \<Rightarrow>
                 if isFullyDeleted r then Inl (mapGetError True g (snd key))
                 else populateObject cl obj k r g))"

definition readCurrentResource :: "table \<Rightarrow> key \<Rightarrow> row option" where
  "readCurrentResource t k =
     (case t k of
        None \<Rightarrow> None
      | Some r \<Rightarrow>
          if r_deletion r = None \<or> (jget ''finalizers'' (r_metadata r) \<noteq> None \<and>
                                     sql_has_finalizers (r_metadata r))
          then Some r else None)"

definition parseObjectUID :: "client_env \<Rightarrow> kobj \<Rightarrow> client_error + uuid option" where
  "parseObjectUID cl obj =
     (if ko_uid obj = [] then Inr None
      else case cl_uuidParse cl (ko_uid obj) of None \<Rightarrow> Inl ErrParseUID | Some u \<Rightarrow> Inr (Some u))"

definition parseObjectVersion :: "kobj \<Rightarrow> client_error + int" where
  "parseObjectVersion obj =
     (case parseResourceVersion (ko_rv obj) of Inl e \<Rightarrow> Inl (ErrParseVersion e) | Inr v \<Rightarrow> Inr v)"

text \<open>The common end of a failed write: the mapped error, or the row that was read back.  The read-back uses
  the connection of the write, which the driver has closed if it broke.\<close>

definition readBack_fails :: "call \<Rightarrow> bool" where
  "readBack_fails ca = (case ca_link ca of LinkLost _ \<Rightarrow> True | _ \<Rightarrow> ca_readBackFault ca)"

definition write_failed ::
  "client_env \<Rightarrow> call \<Rightarrow> gvk \<Rightarrow> kobj \<Rightarrow> writer_error \<Rightarrow> table \<Rightarrow> reply" where
  "write_failed cl ca g obj err t =
     (case mapWriteError (readBack_fails ca) (ca_after ca t) err g (ko_name obj) of
        Inl e \<Rightarrow> (Some e, obj, ca_after ca t)
      | Inr (k, r) \<Rightarrow>
          (case populateObject cl obj k r g of
             Inl e \<Rightarrow> (Some e, obj, ca_after ca t)
           | Inr obj' \<Rightarrow> (None, obj', ca_after ca t)))"

definition obj_key :: "gvk \<Rightarrow> kobj \<Rightarrow> key" where
  "obj_key g obj = (gvkToString g, ko_namespace obj, ko_name obj)"

section \<open>Create\<close>

definition create_request :: "gvk \<Rightarrow> kobj \<Rightarrow> WriteRequest" where
  "create_request g obj =
     \<lparr>wr_GVK = gvkToString g, wr_Namespace = ko_namespace obj, wr_Name = ko_name obj,
      wr_Spec = Some (fst (extractSpecStatus obj)), wr_Status = Some (snd (extractSpecStatus obj)),
      wr_Metadata = Some (extractMetadata (ko_meta obj)), wr_DeletionTimestamp = None,
      wr_ExpectedVersion = 0, wr_ExpectedUID = None, wr_ForceWrite = False\<rparr>"

definition Create :: "client_env \<Rightarrow> call \<Rightarrow> bool \<Rightarrow> kobj \<Rightarrow> table \<Rightarrow> reply" where
  "Create cl ca dryRun obj t =
     (case rejectDryRun dryRun of
        Some e \<Rightarrow> (Some e, obj, t)
      | None \<Rightarrow>
          if ko_name obj = [] \<and> ko_generateName obj \<noteq> [] then (Some ErrGenerateNameNotSupported, obj, t)
          else (case resolveGVK obj of
            Inl e \<Rightarrow> (Some e, obj, t)
          | Inr g \<Rightarrow>
              let obj1 = obj\<lparr>ko_meta := (ko_meta obj)\<lparr>sm_Generation := 1\<rparr>\<rparr> in
              if \<not> ca_acquire ca then (Some ErrAcquire, obj1, t)
              else (case Write client_writer (ca_link ca) NoFault (ca_tx ca) (create_request g obj1) t of
                      (Inl err, t', _) \<Rightarrow> write_failed cl ca g obj1 err t'
                    | (Inr res, t', _) \<Rightarrow>
                        (None,
                         obj1\<lparr>ko_uid := uuid_text (res_UID res), ko_rv := format_int (res_ObjectVersion res),
                              ko_creation := Some (ca_now ca), ko_gvk := Some g\<rparr>, t'))))"

section \<open>Update\<close>

definition update_request :: "gvk \<Rightarrow> kobj \<Rightarrow> row \<Rightarrow> int \<Rightarrow> uuid option \<Rightarrow> ObjectWriteRequest" where
  "update_request g obj current expectedVersion expectedUID =
     \<lparr>or_GVK = gvkToString g, or_Namespace = ko_namespace obj, or_Name = ko_name obj,
      or_Spec = Some (extractSpec obj), or_Metadata = Some (extractMetadata (ko_meta obj)),
      or_DeletionTimestamp = r_deletion current, or_ExpectedVersion = expectedVersion,
      or_ExpectedUID = expectedUID, or_ForceWrite = False\<rparr>"

text \<open>The generation counts the changes of the spec.\<close>

definition bump_generation :: "row \<Rightarrow> kobj \<Rightarrow> kobj" where
  "bump_generation current obj =
     (if \<not> JSONEqual (Some (r_spec current)) (Some (extractSpec obj))
      then obj\<lparr>ko_meta := (ko_meta obj)\<lparr>sm_Generation := currentGeneration (r_metadata current) + 1\<rparr>\<rparr>
      else obj)"

definition update_write ::
  "client_env \<Rightarrow> call \<Rightarrow> gvk \<Rightarrow> kobj \<Rightarrow> row \<Rightarrow> int \<Rightarrow> uuid option \<Rightarrow> table \<Rightarrow> reply" where
  "update_write cl ca g obj current expectedVersion expectedUID t =
     (let obj1 = bump_generation current obj in
      case WriteObject client_writer (ca_link ca) NoFault (ca_tx ca)
             (update_request g obj1 current expectedVersion expectedUID) (ca_between ca t) of
        (Inl err, t', _) \<Rightarrow> write_failed cl ca g obj1 err t'
      | (Inr res, t', _) \<Rightarrow> (None, obj1\<lparr>ko_rv := format_int (res_ObjectVersion res)\<rparr>, t'))"

definition Update :: "client_env \<Rightarrow> call \<Rightarrow> bool \<Rightarrow> kobj \<Rightarrow> table \<Rightarrow> reply" where
  "Update cl ca dryRun obj t =
     (case sbind (case rejectDryRun dryRun of Some e \<Rightarrow> Inl e | None \<Rightarrow> resolveGVK obj) (\<lambda>g.
             sbind (parseObjectVersion obj) (\<lambda>v.
             sbind (parseObjectUID cl obj) (\<lambda>u.
             if v > 0 \<and> u = None then Inl (ApiBadRequest ''metadata.uid is required for updates'')
             else if \<not> ca_acquire ca then Inl ErrAcquire
             else if ca_readFault ca then Inl ErrRead
             else case readCurrentResource t (obj_key g obj) of
               None \<Rightarrow> Inl (ApiNotFound (groupResource g) (ko_name obj))
             | Some current \<Rightarrow>
                 if u \<noteq> None \<and> u \<noteq> Some (r_uid current)
                 then Inl (ApiConflict (groupResource g) (ko_name obj))
                 else Inr (g, v, u, current)))) of
        Inl e \<Rightarrow> (Some e, obj, t)
      | Inr (g, v, u, current) \<Rightarrow> update_write cl ca g obj current v u t)"

section \<open>Delete\<close>

text \<open>What a delete writes: the expected version and UID, the three documents and the deletion timestamp
  the object already has.\<close>

type_synonym delete_plan = "int \<times> uuid option \<times> json \<times> json \<times> json \<times> time option"

definition delete_plan ::
  "call \<Rightarrow> gvk \<Rightarrow> kobj \<Rightarrow> int \<Rightarrow> uuid option \<Rightarrow> table \<Rightarrow> client_error + delete_plan" where
  "delete_plan ca g obj v u t =
     (if v = 0 then
        (if ca_readFault ca then Inl ErrRead
         else case readCurrentResource t (obj_key g obj) of
           None \<Rightarrow> Inl (ApiNotFound (groupResource g) (ko_name obj))
         | Some current \<Rightarrow>
             if u \<noteq> None \<and> u \<noteq> Some (r_uid current)
             then Inl (ApiConflict (groupResource g) (ko_name obj))
             else Inr (r_version current, Some (r_uid current), r_spec current, r_status current,
                       r_metadata current, r_deletion current))
      else if u = None
      then Inl (ApiBadRequest ''metadata.uid is required when deleting with resourceVersion'')
      else Inr (v, u, fst (extractSpecStatus obj), snd (extractSpecStatus obj),
                extractMetadata (ko_meta obj), None))"

definition delete_request :: "call \<Rightarrow> gvk \<Rightarrow> kobj \<Rightarrow> delete_plan \<Rightarrow> WriteRequest" where
  "delete_request ca g obj plan =
     (let (v, u, spec, status, metadata, existing) = plan in
      \<lparr>wr_GVK = gvkToString g, wr_Namespace = ko_namespace obj, wr_Name = ko_name obj,
       wr_Spec = Some spec, wr_Status = Some status, wr_Metadata = Some metadata,
       wr_DeletionTimestamp = (case existing of None \<Rightarrow> Some (ca_now ca) | Some d \<Rightarrow> Some d),
       wr_ExpectedVersion = v, wr_ExpectedUID = u, wr_ForceWrite = False\<rparr>)"

definition Delete :: "client_env \<Rightarrow> call \<Rightarrow> DeleteOptions \<Rightarrow> kobj \<Rightarrow> table \<Rightarrow> reply" where
  "Delete cl ca opts obj t =
     (case sbind (case rejectUnsupportedDeleteOpts opts of Some e \<Rightarrow> Inl e | None \<Rightarrow> resolveGVK obj) (\<lambda>g.
             if \<not> ca_acquire ca then Inl ErrAcquire
             else sbind (parseObjectVersion obj) (\<lambda>v.
                  sbind (parseObjectUID cl obj) (\<lambda>u.
                  sbind (delete_plan ca g obj v u t) (\<lambda>plan. Inr (g, plan))))) of
        Inl e \<Rightarrow> (Some e, obj, t)
      | Inr (g, plan) \<Rightarrow>
          (case Write client_writer (ca_link ca) NoFault (ca_tx ca) (delete_request ca g obj plan)
                  (ca_between ca t) of
             (Inl err, t', _) \<Rightarrow>
               (case mapWriteError (readBack_fails ca) (ca_after ca t') err g (ko_name obj) of
                  Inl e \<Rightarrow> (Some e, obj, ca_after ca t')
                | Inr _ \<Rightarrow> (None, obj, ca_after ca t'))
           | (Inr res, t', _) \<Rightarrow> (None, obj, t')))"

section \<open>Status\<close>

definition status_request :: "gvk \<Rightarrow> kobj \<Rightarrow> int \<Rightarrow> uuid option \<Rightarrow> StatusWriteRequest" where
  "status_request g obj v u =
     \<lparr>sr_GVK = gvkToString g, sr_Namespace = ko_namespace obj, sr_Name = ko_name obj,
      sr_Status = Some (extractStatus obj), sr_ExpectedVersion = v, sr_ExpectedUID = u,
      sr_ForceWrite = False\<rparr>"

definition Status_Update :: "client_env \<Rightarrow> call \<Rightarrow> bool \<Rightarrow> kobj \<Rightarrow> table \<Rightarrow> reply" where
  "Status_Update cl ca dryRun obj t =
     (case sbind (case rejectDryRun dryRun of Some e \<Rightarrow> Inl e | None \<Rightarrow> resolveGVK obj) (\<lambda>g.
             sbind (parseObjectVersion obj) (\<lambda>v.
             sbind (parseObjectUID cl obj) (\<lambda>u.
             if u = None then Inl (ApiBadRequest ''metadata.uid is required for status updates'')
             else if \<not> ca_acquire ca then Inl ErrAcquire
             else Inr (g, v, u)))) of
        Inl e \<Rightarrow> (Some e, obj, t)
      | Inr (g, v, u) \<Rightarrow>
          (case WriteStatus client_writer (ca_link ca) NoFault (ca_tx ca) (status_request g obj v u) t of
             (Inl err, t', _) \<Rightarrow> write_failed cl ca g obj err t'
           | (Inr res, t', _) \<Rightarrow> (None, obj\<lparr>ko_rv := format_int (res_ObjectVersion res)\<rparr>, t')))"

text \<open>Subresource clients: status updates work, everything else is refused.\<close>

datatype sub_op = SubGet | SubCreate | SubUpdate | SubApply | SubPatch

definition sub_op_name :: "sub_op \<Rightarrow> string" where
  "sub_op_name op =
     (case op of SubGet \<Rightarrow> ''get'' | SubCreate \<Rightarrow> ''create'' | SubUpdate \<Rightarrow> ''update''
      | SubApply \<Rightarrow> ''apply'' | SubPatch \<Rightarrow> ''patch'')"

definition SubResource_call ::
  "client_env \<Rightarrow> call \<Rightarrow> bool \<Rightarrow> string \<Rightarrow> sub_op \<Rightarrow> kobj \<Rightarrow> table \<Rightarrow> reply" where
  "SubResource_call cl ca dryRun subResource op obj t =
     (if subResource = ''status'' \<and> op = SubUpdate then Status_Update cl ca dryRun obj t
      else if subResource = ''status'' \<and> op \<noteq> SubGet
      then (Some (ApiMethodNotSupported (''status '' @ sub_op_name op)), obj, t)
      else (Some (ApiMethodNotSupported (''subresource '' @ sub_op_name op)), obj, t))"

section \<open>List\<close>

datatype ctoken = NoToken | Token int | BadToken

record ListOptions =
  lo_Namespace :: string
  lo_Fields :: "field_req list" \<comment> \<open>\<open>[]\<close> is a nil or empty selector\<close>
  lo_Labels :: "label_req list option" \<comment> \<open>\<open>Some []\<close> is nil or empty, \<open>None\<close> selects nothing\<close>
  lo_Limit :: int
  lo_Continue :: ctoken

datatype list_error =
  ListSelector sel_error
| ListContinue
| ListFailed list_stage
| ListClient client_error

definition decodeContinue :: "ctoken \<Rightarrow> list_error + int" where
  "decodeContinue token =
     (case token of NoToken \<Rightarrow> Inr 0 | Token n \<Rightarrow> Inr n | BadToken \<Rightarrow> Inl ListContinue)"

definition encodeContinue :: "int \<Rightarrow> ctoken" where
  "encodeContinue offset = Token offset"

definition sel_result :: "sel_error + 'a \<Rightarrow> list_error + 'a" where
  "sel_result x = (case x of Inl e \<Rightarrow> Inl (ListSelector e) | Inr y \<Rightarrow> Inr y)"

text \<open>The clauses and arguments for namespace, field selector and label selector.\<close>

definition list_clauses :: "ListOptions \<Rightarrow> list_error + clause list \<times> sql_val list" where
  "list_clauses lo =
     (let ns = lo_Namespace lo;
          nsClauses = (if ns \<noteq> [] then [ColCmp ColNamespace SqlEq 2] else []);
          nsArgs = (if ns \<noteq> [] then [VText ns] else []);
          p1 = 2 + length nsArgs in
      sbind (if lo_Fields lo = [] then Inr ([], [])
             else sel_result (buildFieldSelectorFilter (lo_Fields lo) p1)) (\<lambda>(fc, fa).
      sbind (if lo_Labels lo = Some [] then Inr ([], [])
             else sel_result (buildLabelSelectorFilter (lo_Labels lo) (p1 + length fa))) (\<lambda>(lc, la).
      Inr (nsClauses @ fc @ lc, nsArgs @ fa @ la))))"

definition buildListFilter :: "ListOptions \<Rightarrow> list_error + ListFilter option" where
  "buildListFilter lo =
     sbind (list_clauses lo) (\<lambda>(cs, as).
     sbind (if lo_Limit lo > 0 then decodeContinue (lo_Continue lo) else Inr 0) (\<lambda>offset.
       let f = \<lparr>lf_WhereClauses = cs, lf_WhereArgs = as,
                lf_Limit = (if lo_Limit lo > 0 then lo_Limit lo else 0), lf_Offset = offset\<rparr>
       in Inr (if lf_Limit f = 0 \<and> lf_WhereClauses f = [] then None else Some f)))"

record ObjectList =
  ol_Items :: "kobj list"
  ol_ResourceVersion :: string
  ol_Continue :: ctoken

definition Client_List ::
  "client_env \<Rightarrow> pgfun \<Rightarrow> bool \<Rightarrow> list_stage option \<Rightarrow> key list \<Rightarrow> snapshot \<Rightarrow> gvk \<Rightarrow> ListOptions \<Rightarrow>
   list_error + ObjectList" where
  "Client_List cl pg acquire fault ks sn listGVK lo =
     (let gvkStr = gvkToString (itemGVKFromListGVK listGVK) in
      if \<not> acquire then Inl (ListClient ErrAcquire)
      else sbind (buildListFilter lo) (\<lambda>flt.
        case List pg fault ks sn gvkStr flt of
          Inl st \<Rightarrow> Inl (ListFailed st)
        | Inr result \<Rightarrow>
            (case mapE (resourceToObject cl) (lr_Resources result) of
               Inl e \<Rightarrow> Inl (ListClient e)
             | Inr items \<Rightarrow>
                 if \<not> cl_itemsFit cl items then Inl (ListClient ErrItems)
                 else Inr \<lparr>ol_Items = items, ol_ResourceVersion = rv_String (lr_ResourceVersion result),
                           ol_Continue =
                             (if lo_Limit lo > 0 \<and> int (length (lr_Resources result)) = lo_Limit lo
                              then encodeContinue
                                     ((case decodeContinue (lo_Continue lo) of Inl _ \<Rightarrow> 0 | Inr n \<Rightarrow> n)
                                      + lo_Limit lo)
                              else NoToken)\<rparr>)))"

end
