(* ===== verification/ClientProps.thy ===== *)
theory ClientProps
  imports PgClient
begin

text \<open>
  What the client operations promise their callers: the effect of create, update and delete on the
  stored object, the life cycle of an object with finalizers, ambiguous commits, filters and pages
  of a list.
\<close>

section \<open>Writes of the client\<close>

lemma object_write_row:
  assumes "pgctl_write e p t = Inr (out, t')" "wp_expectedVersion p \<noteq> 0" "\<not> wp_statusOnly p"
  shows "\<exists>r r'. t (wp_key p) = Some r \<and> row_matches p r \<and> t' = t(wp_key p \<mapsto> r') \<and>
     wp_spec p \<noteq> None \<and> wp_metadata p \<noteq> None \<and>
     map_option jsonb (wp_spec p) = Some (r_spec r') \<and>
     map_option jsonb (wp_metadata p) = Some (r_metadata r') \<and>
     r_deletion r' = wp_deletionTimestamp p \<and>
     r_status r' = (case wp_status p of None \<Rightarrow> r_status r | Some s \<Rightarrow> jsonb s) \<and>
     r_uid r' = r_uid r \<and> r_created r' = r_created r \<and> out_version out = r_version r' \<and>
     out_uid out = r_uid r' \<and> (r' = r \<or> r_version r' = r_version r + 1)"
  using assms(1)
proof (cases rule: pgctl_write_cases)
  case suppressed
  from suppressed(1) obtain r where r: "t (wp_key p) = Some r" "row_matches p r" "content_equal p r"
    "out = \<lparr>out_uid = r_uid r, out_version = r_version r, out_txid = 0, out_changed = False\<rparr>"
    by (rule suppression_Some)
  then have "t' = t(wp_key p \<mapsto> r)" using suppressed(2) by (simp add: fun_upd_idem)
  with r show ?thesis using assms(3)
    by (intro exI [of _ r]) (auto simp: content_equal_def split: option.splits)
next
  case written
  then show ?thesis using assms(2,3)
    by (auto simp: upsert_defs Let_def changed_result_def split: if_splits option.splits)
qed

lemma create_row:
  assumes "pgctl_write e (write_params (create_request g obj)) t = Inr (out, t')"
  shows "t' = t(obj_key g obj \<mapsto> new_row e (extractSpec obj) (extractStatus obj) (extractMetadata (ko_meta obj))) \<and>
         out_uid out = te_uuid e \<and> out_version out = 1"
  using assms
  by (auto simp: pgctl_write_def suppression_check_def write_params_def create_request_def upsert_def
      upsert_create_def Let_def wp_key_def obj_key_def changed_result_def new_row_def row_update_all
      extractSpecStatus_def extractSpec_def extractStatus_def split: option.splits if_splits)

lemma client_Write:
  "Write client_writer l f e req t = callStoredProc client_writer l e (write_params req) t"
  "or_ExpectedVersion oreq \<noteq> 0 \<Longrightarrow>
   WriteObject client_writer l f e oreq t = callStoredProc client_writer l e (object_params oreq) t"
  "sr_ExpectedVersion sreq \<noteq> 0 \<Longrightarrow>
   WriteStatus client_writer l f e sreq t = callStoredProc client_writer l e (status_params sreq) t"
  by (simp_all add: Write_def WriteObject_def WriteStatus_def client_writer_def writeStoredProc_def
      writeObjectStoredProc_def writeStatusStoredProc_def)

lemma callStoredProc_ok:
  "callStoredProc client_writer LinkOk e p t = (Inr res, t', rs) \<longleftrightarrow>
     rs = [] \<and> (\<exists>out. pgctl_write e p t = Inr (out, t') \<and>
       res = \<lparr>res_Txid = (if out_changed out then out_txid out else 0), res_ObjectVersion = out_version out,
              res_UID = out_uid out, res_Changed = out_changed out\<rparr>)"
  by (auto simp: callStoredProc_def client_writer_def ring_def split: sum.splits if_splits)

text \<open>On a healthy connection a write that fails is reported as an error.\<close>

lemma callStoredProc_failed:
  assumes "callStoredProc client_writer LinkOk e p t = (Inl err, t', rs)"
  shows "t' = t \<and> (\<exists>e'. mapWriteError f t'' err g name = Inl e')"
proof -
  from assms obtain c where "err = mapStoredProcError c" "t' = t"
    by (auto simp: callStoredProc_def split: sum.splits if_splits)
  then show ?thesis by (simp add: mapWriteError_def mapStoredProcError_def)
qed

lemma write_failed_error:
  assumes "callStoredProc client_writer LinkOk e p t = (Inl err, t', rs)"
  shows "fst (write_failed cl ca g obj err t') \<noteq> None"
  using callStoredProc_failed [OF assms, of "readBack_fails ca" "ca_after ca t'" g "ko_name obj"]
  by (auto simp: write_failed_def)

text \<open>A reply without error, on a healthy connection, comes from a successful procedure call.\<close>

lemma write_reply_ok:
  assumes "(case callStoredProc client_writer LinkOk e p t of
              (Inl err, tt, rs) \<Rightarrow> write_failed cl ca g obj err tt
            | (Inr v, tt, rs) \<Rightarrow> (None, F v, tt)) = (None, obj', t')"
  obtains out v where "pgctl_write e p t = Inr (out, t')" "obj' = F v"
    "res_UID v = out_uid out" "res_ObjectVersion v = out_version out"
proof -
  obtain res tt rs where w: "callStoredProc client_writer LinkOk e p t = (res, tt, rs)" by (metis prod_cases3)
  show thesis
  proof (cases res)
    case (Inl err)
    with w have w': "callStoredProc client_writer LinkOk e p t = (Inl err, tt, rs)" by simp
    show ?thesis using write_failed_error [OF w', of cl ca g obj] assms w' by simp
  next
    case (Inr v)
    with w have w': "callStoredProc client_writer LinkOk e p t = (Inr v, tt, rs)" by simp
    then have "t' = tt" "obj' = F v" using assms by auto
    with w' that show ?thesis by (auto simp: callStoredProc_ok)
  qed
qed

section \<open>Create, then get\<close>

lemma isFullyDeleted_live: "r_deletion r = None \<Longrightarrow> \<not> isFullyDeleted r"
  by (simp add: isFullyDeleted_def)

lemma Create_ok:
  assumes "Create cl ca dryRun obj t = (None, obj', t')" "ca_link ca = LinkOk"
  obtains g where "resolveGVK obj = Inr g"
    and "t' = t(obj_key g obj \<mapsto>
           new_row (ca_tx ca) (extractSpec obj) (extractStatus obj)
             (extractMetadata ((ko_meta obj)\<lparr>sm_Generation := 1\<rparr>)))"
    and "ko_uid obj' = uuid_text (te_uuid (ca_tx ca))" "ko_rv obj' = format_int 1"
proof -
  obtain g where g: "resolveGVK obj = Inr g"
    using assms(1) by (auto simp: Create_def split: option.splits if_splits sum.splits)
  let ?o = "obj\<lparr>ko_meta := (ko_meta obj)\<lparr>sm_Generation := 1\<rparr>\<rparr>"
  have "(case callStoredProc client_writer LinkOk (ca_tx ca) (write_params (create_request g ?o)) t of
            (Inl err, tt, rs) \<Rightarrow> write_failed cl ca g ?o err tt
          | (Inr v, tt, rs) \<Rightarrow>
              (None, ?o\<lparr>ko_uid := uuid_text (res_UID v), ko_rv := format_int (res_ObjectVersion v),
                 ko_creation := Some (ca_now ca), ko_gvk := Some g\<rparr>, tt)) = (None, obj', t')"
    using assms g by (auto simp: Create_def client_Write Let_def split: option.splits if_splits)
  then obtain out and v :: WriteResult where
    p: "pgctl_write (ca_tx ca) (write_params (create_request g ?o)) t = Inr (out, t')"
    and v: "obj' = ?o\<lparr>ko_uid := uuid_text (res_UID v), ko_rv := format_int (res_ObjectVersion v),
                 ko_creation := Some (ca_now ca), ko_gvk := Some g\<rparr>"
      "res_UID v = out_uid out" "res_ObjectVersion v = out_version out"
    by (rule write_reply_ok)
  show thesis
    by (rule that [OF g])
       (use create_row [OF p] v in \<open>simp_all add: obj_key_def extractSpec_def extractStatus_def\<close>)
qed

text \<open>\<open>restores cl what v old\<close>: decoding the stored form of \<open>v\<close> into a field that held \<open>old\<close> restores \<open>v\<close>, which is
  what \<open>encoding/json\<close> does on a freshly made object.\<close>

definition restores :: "client_env \<Rightarrow> string \<Rightarrow> json \<Rightarrow> json option \<Rightarrow> bool" where
  "restores cl what v old \<longleftrightarrow> inject_field cl what (jsonb v) old = Inr (Some v)"

text \<open>C12: what is created can be read: after a successful create, a get of the same name into a fresh
  object returns the spec, status, labels, annotations, owner references and finalizers that the
  caller passed, generation 1, resource version 1, and the UID that create put on the caller's
  object.\<close>
theorem create_then_get:
  assumes "Create cl ca dryRun obj t = (None, obj', t')" "ca_link ca = LinkOk"
    and "resolveGVK obj = resolveGVK fresh" "ko_deletion fresh = None"
    and "valid_sm ((ko_meta obj)\<lparr>sm_Generation := 1\<rparr>)"
    and "restores cl ''spec'' (extractSpec obj) (ko_spec fresh)"
    and "restores cl ''status'' (extractStatus obj) (ko_status fresh)"
    and "ca_acquire ca2" "\<not> ca_readFault ca2"
  shows "\<exists>got. Get cl ca2 (ko_namespace obj, ko_name obj) fresh t' = Inr got \<and>
     ko_spec got = Some (extractSpec obj) \<and> ko_status got = Some (extractStatus obj) \<and>
     ko_meta got = (ko_meta obj)\<lparr>sm_Generation := 1\<rparr> \<and> ko_deletion got = None \<and>
     ko_uid got = ko_uid obj' \<and> ko_rv got = format_int 1 \<and> ko_rv obj' = format_int 1"
proof -
  obtain g where g: "resolveGVK obj = Inr g" and
    t': "t' = t(obj_key g obj \<mapsto>
           new_row (ca_tx ca) (extractSpec obj) (extractStatus obj)
             (extractMetadata ((ko_meta obj)\<lparr>sm_Generation := 1\<rparr>)))" and
    o': "ko_uid obj' = uuid_text (te_uuid (ca_tx ca))" "ko_rv obj' = format_int 1"
    using assms(1,2) by (rule Create_ok)
  define r where "r = new_row (ca_tx ca) (extractSpec obj) (extractStatus obj)
             (extractMetadata ((ko_meta obj)\<lparr>sm_Generation := 1\<rparr>))"
  have r: "r_spec r = jsonb (extractSpec obj)" "r_status r = jsonb (extractStatus obj)" "r_version r = 1"
    "r_deletion r = None" "r_uid r = te_uuid (ca_tx ca)" "\<not> isFullyDeleted r"
    "unmarshalMetadata (r_metadata r) = Some ((ko_meta obj)\<lparr>sm_Generation := 1\<rparr>)"
    using unmarshal_extract [OF assms(5)] by (simp_all add: r_def new_row_def isFullyDeleted_def)
  have "t' (gvkToString g, ko_namespace obj, ko_name obj) = Some r" by (simp add: t' r_def obj_key_def)
  moreover have "resolveGVK fresh = Inr g" using assms(3) g by simp
  ultimately have "Get cl ca2 (ko_namespace obj, ko_name obj) fresh t' =
      populateObject cl fresh (gvkToString g, ko_namespace obj, ko_name obj) r g"
    using assms(8,9) r(6) by (simp add: Get_def)
  then show ?thesis
    using assms(4,6,7) r o'
    by (simp add: populateObject_def injectSpecStatus_def populateObjectMeta_def restores_def)
qed

section \<open>Update\<close>

lemma readCurrentResource_Some:
  "readCurrentResource t k = Some r \<longleftrightarrow> t k = Some r \<and> \<not> is_tombstone r"
  by (auto simp: readCurrentResource_def is_tombstone_def sql_no_finalizers_def
      split: option.splits if_splits)

lemma Update_ok:
  assumes "Update cl ca dryRun obj t = (None, obj', t')" "ca_link ca = LinkOk" "resolveGVK obj = Inr g"
    and "parseResourceVersion (ko_rv obj) = Inr v" "parseObjectUID cl obj = Inr (Some u)" "v \<noteq> 0"
  obtains current out where "t (obj_key g obj) = Some current" "\<not> is_tombstone current" "r_uid current = u"
    "pgctl_write (ca_tx ca) (object_params (update_request g (bump_generation current obj) current v (Some u)))
       (ca_between ca t) = Inr (out, t')"
    "ko_rv obj' = format_int (out_version out)"
proof -
  obtain current where c: "readCurrentResource t (obj_key g obj) = Some current" "r_uid current = u" and
    w: "update_write cl ca g obj current v (Some u) t = (None, obj', t')"
    using assms
    by (auto simp: Update_def parseObjectVersion_def sbind_def split: option.splits if_splits sum.splits)
  let ?o = "bump_generation current obj"
  have "or_ExpectedVersion (update_request g ?o current v (Some u)) \<noteq> 0"
    using assms(6) by (simp add: update_request_def)
  from w client_Write(2) [OF this]
  have "(case callStoredProc client_writer LinkOk (ca_tx ca)
             (object_params (update_request g ?o current v (Some u))) (ca_between ca t) of
            (Inl err, tt, rs) \<Rightarrow> write_failed cl ca g ?o err tt
          | (Inr v, tt, rs) \<Rightarrow> (None, ?o\<lparr>ko_rv := format_int (res_ObjectVersion v)\<rparr>, tt)) = (None, obj', t')"
    using assms(2) by (simp add: update_write_def Let_def)
  then obtain out and x :: WriteResult where
    "pgctl_write (ca_tx ca) (object_params (update_request g ?o current v (Some u))) (ca_between ca t) =
       Inr (out, t')" "obj' = ?o\<lparr>ko_rv := format_int (res_ObjectVersion x)\<rparr>"
    "res_ObjectVersion x = out_version out"
    by (rule write_reply_ok)
  then show thesis using that c by (auto simp: readCurrentResource_Some)
qed

text \<open>The row that a client read is the row its conditional write replaces, however many statements lie
  in between.\<close>

lemma unchanged_between:
  assumes "reachable adm s0" "db_steps adm s0 s1" "db_steps adm s1 s2"
    and "db_tbl s0 k = Some r0" "db_tbl s1 k = Some r1" "db_tbl s2 k = Some r2"
    and "r_uid r1 = r_uid r0" "r_uid r2 = r_uid r0" "r_version r2 = r_version r0"
  shows "r1 = r0 \<and> r2 = r0"
proof -
  note m = reachable_uids_minted [OF assms(1)]
  have "r2 = r0"
    using incarnation_versions [OF rtranclp_trans [OF assms(2,3)] m assms(4,6,8)] assms(9) by auto
  moreover have "r1 = r0 \<or> r_version r0 < r_version r1"
    by (rule incarnation_versions [OF assms(2) m assms(4,5,7)])
  moreover have "r2 = r1 \<or> r_version r1 < r_version r2"
    using incarnation_versions [OF assms(3) uids_minted_steps [OF assms(2) m] assms(5,6)] assms(7,8) by simp
  ultimately show ?thesis using assms(9) by auto
qed

text \<open>C10: an update is atomic.  A client read an object in some state; later its update first reads the
  current row and then writes, while other clients and the compactor run.  If it succeeds, the row
  was still the one the client read; the new row has the client's spec and metadata, and keeps
  status, UID and deletion timestamp; the stored generation is the old row's plus one if the
  spec changed (\<open>bump_generation\<close>); and the version on the client's object is that of the new row.\<close>
theorem update_is_atomic:
  assumes "reachable adm s0" "db_steps adm s0 s1" "db_steps adm s1 s2"
    and "resolveGVK obj = Inr g" "db_tbl s0 (obj_key g obj) = Some r0"
    and "parseResourceVersion (ko_rv obj) = Inr (r_version r0)"
    and "parseObjectUID cl obj = Inr (Some (r_uid r0))"
    and "ca_link ca = LinkOk" "ca_between ca (db_tbl s1) = db_tbl s2"
    and "Update cl ca dryRun obj (db_tbl s1) = (None, obj', t')"
  shows "db_tbl s2 (obj_key g obj) = Some r0 \<and>
     (\<exists>r'. t' = (db_tbl s2)(obj_key g obj \<mapsto> r') \<and>
        r_spec r' = jsonb (extractSpec obj) \<and>
        r_metadata r' = jsonb (extractMetadata (ko_meta (bump_generation r0 obj))) \<and>
        r_status r' = r_status r0 \<and> r_uid r' = r_uid r0 \<and> r_deletion r' = r_deletion r0 \<and>
        (r' = r0 \<or> r_version r' = r_version r0 + 1) \<and> ko_rv obj' = format_int (r_version r'))"
proof -
  have v: "r_version r0 \<noteq> 0"
    using rows_okD [OF reachable_rows_ok [OF assms(1)] assms(5)] by (simp add: row_ok_def)
  obtain current out where c: "db_tbl s1 (obj_key g obj) = Some current" "r_uid current = r_uid r0" and
    w: "pgctl_write (ca_tx ca) (object_params (update_request g (bump_generation current obj) current
           (r_version r0) (Some (r_uid r0)))) (db_tbl s2) = Inr (out, t')" and
    rv: "ko_rv obj' = format_int (out_version out)"
    using Update_ok [OF assms(10,8,4,6,7) v] assms(9) by metis
  let ?p = "object_params (update_request g (bump_generation current obj) current (r_version r0) (Some (r_uid r0)))"
  have k: "wp_key ?p = obj_key g obj"
    by (simp add: wp_key_def object_params_def update_request_def obj_key_def bump_generation_def)
  have "wp_expectedVersion ?p \<noteq> 0" "\<not> wp_statusOnly ?p"
    using v by (simp_all add: object_params_def update_request_def)
  from object_write_row [OF w this] obtain r2 r' where
    r: "db_tbl s2 (obj_key g obj) = Some r2" "row_matches ?p r2" "t' = (db_tbl s2)(obj_key g obj \<mapsto> r')"
      "map_option jsonb (wp_spec ?p) = Some (r_spec r')"
      "map_option jsonb (wp_metadata ?p) = Some (r_metadata r')"
      "r_deletion r' = wp_deletionTimestamp ?p"
      "r_status r' = (case wp_status ?p of None \<Rightarrow> r_status r2 | Some s \<Rightarrow> jsonb s)"
      "r_uid r' = r_uid r2" "out_version out = r_version r'" "r' = r2 \<or> r_version r' = r_version r2 + 1"
    unfolding k by blast
  have "r_uid r2 = r_uid r0" "r_version r2 = r_version r0"
    using r(2) by (simp_all add: row_matches_def object_params_def update_request_def)
  then have eq: "current = r0" "r2 = r0"
    using unchanged_between [OF assms(1,2,3,5) c(1) r(1) c(2)] by simp_all
  have "extractSpec (bump_generation r0 obj) = extractSpec obj"
    by (simp add: bump_generation_def extractSpec_def)
  then show ?thesis using r(1)
    by (intro conjI exI [of _ r'])
       (use r(3-10) rv in \<open>simp_all add: eq object_params_def update_request_def\<close>)
qed

section \<open>Ambiguous commits\<close>

text \<open>C35: the read-back never settles an ambiguous create.  If the connection breaks during a create,
  the read-back on the same connection fails, and the client gets the same error whether the row was written or
  not.  If the driver fails before sending, the read-back works but asks for transaction id 0, which no
  row has, and the client gets a conflict although nothing was written.\<close>
theorem ambiguous_create_is_not_resolved:
  assumes "resolveGVK obj = Inr g" "\<not> (ko_name obj = [] \<and> ko_generateName obj \<noteq> [])"
    and "ca_acquire ca" "t (obj_key g obj) = None" "\<not> ca_readBackFault ca"
    and "\<forall>r. ca_after ca t (obj_key g obj) = Some r \<longrightarrow> 0 < r_txid r"
  shows "case Create cl ca False obj t of (err, obj', t') \<Rightarrow>
           (case ca_link ca of
              LinkOk \<Rightarrow> True
            | LinkLost landed \<Rightarrow>
                err = Some ErrReadBack \<and>
                (if landed
                 then \<exists>r. t' = ca_after ca (t(obj_key g obj \<mapsto> r)) \<and> r_spec r = jsonb (extractSpec obj) \<and>
                          r_version r = 1 \<and> r_txid r = te_txid (ca_tx ca)
                 else t' = ca_after ca t)
            | LinkUnsent \<Rightarrow> err = Some (ApiConflict (groupResource g) (ko_name obj)) \<and> t' = ca_after ca t)"
proof -
  let ?o = "obj\<lparr>ko_meta := (ko_meta obj)\<lparr>sm_Generation := 1\<rparr>\<rparr>"
  let ?p = "write_params (create_request g ?o)"
  let ?r = "new_row (ca_tx ca) (extractSpec obj) (extractStatus obj)
      (extractMetadata ((ko_meta obj)\<lparr>sm_Generation := 1\<rparr>))"
  have k: "wp_key ?p = obj_key g obj"
    by (simp add: wp_key_def write_params_def create_request_def obj_key_def)
  obtain out t' where w: "pgctl_write (ca_tx ca) ?p t = Inr (out, t')"
    using assms(4) k
    by (auto simp: pgctl_write_def suppression_check_def upsert_def upsert_create_def Let_def
        write_params_def create_request_def)
  have t': "t' = t(obj_key g obj \<mapsto> ?r)"
    using create_row [OF w] by (simp add: obj_key_def extractSpec_def extractStatus_def)
  have c: "Create cl ca False obj t =
      (case callStoredProc client_writer (ca_link ca) (ca_tx ca) ?p t of
         (Inl err, t', _) \<Rightarrow> write_failed cl ca g ?o err t'
       | (Inr res, t', _) \<Rightarrow>
           (None, ?o\<lparr>ko_uid := uuid_text (res_UID res), ko_rv := format_int (res_ObjectVersion res),
                     ko_creation := Some (ca_now ca), ko_gvk := Some g\<rparr>, t'))"
    using assms(1-3) by (auto simp: Create_def rejectDryRun_def client_Write Let_def split: prod.split)
  have none: "ReadBack (ca_after ca t) (obj_key g obj) 0 = None"
    using assms(6) by (auto simp: ReadBack_def split: option.splits)
  show ?thesis
  proof (cases "ca_link ca")
    case (LinkLost landed)
    then show ?thesis
      using w k unfolding c
      by (auto simp: callStoredProc_def write_failed_def mapWriteError_def readBack_fails_def t' new_row_def)
  next
    case LinkUnsent
    then show ?thesis
      using none assms(5) k unfolding c
      by (simp add: callStoredProc_def write_failed_def mapWriteError_def readBack_fails_def)
  qed (simp split: prod.split)
qed

section \<open>Delete\<close>

lemma Delete_ok:
  assumes "Delete cl ca opts obj t = (None, obj', t')" "ca_link ca = LinkOk" "resolveGVK obj = Inr g"
    and "parseResourceVersion (ko_rv obj) = Inr v" "parseObjectUID cl obj = Inr u"
  obtains plan out where "delete_plan ca g obj v u t = Inr plan"
    "pgctl_write (ca_tx ca) (write_params (delete_request ca g obj plan)) (ca_between ca t) = Inr (out, t')"
proof -
  obtain plan where p: "delete_plan ca g obj v u t = Inr plan"
    using assms by (auto simp: Delete_def parseObjectVersion_def sbind_def split: option.splits if_splits sum.splits)
  let ?q = "write_params (delete_request ca g obj plan)"
  obtain res tt rs where w: "callStoredProc client_writer LinkOk (ca_tx ca) ?q (ca_between ca t) = (res, tt, rs)"
    by (metis prod_cases3)
  have ok: "rejectUnsupportedDeleteOpts opts = None" "ca_acquire ca"
    using assms by (auto simp: Delete_def split: option.splits if_splits)
  show thesis
  proof (cases res)
    case (Inl err)
    with w have w': "callStoredProc client_writer LinkOk (ca_tx ca) ?q (ca_between ca t) = (Inl err, tt, rs)" by simp
    show ?thesis
      using callStoredProc_failed [OF w', of "readBack_fails ca" "ca_after ca tt" g "ko_name obj"] assms ok p w'
      by (auto simp: Delete_def parseObjectVersion_def client_Write)
  next
    case (Inr x)
    with w have w': "callStoredProc client_writer LinkOk (ca_tx ca) ?q (ca_between ca t) = (Inr x, tt, rs)" by simp
    then have "tt = t'" using assms ok p by (auto simp: Delete_def parseObjectVersion_def client_Write)
    then show ?thesis using that [OF p] w' by (auto simp: callStoredProc_ok)
  qed
qed

lemma delete_write:
  assumes "pgctl_write e (write_params (delete_request ca g obj (v, u, sp, st, md, ex))) t = Inr (out, t')"
    and "v \<noteq> 0"
  obtains r r' where "t (obj_key g obj) = Some r" "r_version r = v" "u = None \<or> u = Some (r_uid r)"
    "t' = t(obj_key g obj \<mapsto> r')" "r_spec r' = jsonb sp" "r_status r' = jsonb st" "r_metadata r' = jsonb md"
    "r_deletion r' = Some (case ex of None \<Rightarrow> ca_now ca | Some d \<Rightarrow> d)" "r_uid r' = r_uid r"
proof -
  let ?p = "write_params (delete_request ca g obj (v, u, sp, st, md, ex))"
  have k: "wp_key ?p = obj_key g obj"
    by (simp add: wp_key_def write_params_def delete_request_def obj_key_def)
  have "wp_expectedVersion ?p \<noteq> 0" "\<not> wp_statusOnly ?p"
    using assms(2) by (simp_all add: write_params_def delete_request_def)
  from object_write_row [OF assms(1) this] obtain r r' where
    r: "t (obj_key g obj) = Some r" "row_matches ?p r" "t' = t(obj_key g obj \<mapsto> r')"
      "map_option jsonb (wp_spec ?p) = Some (r_spec r')"
      "map_option jsonb (wp_metadata ?p) = Some (r_metadata r')" "r_deletion r' = wp_deletionTimestamp ?p"
      "r_status r' = (case wp_status ?p of None \<Rightarrow> r_status r | Some s \<Rightarrow> jsonb s)" "r_uid r' = r_uid r"
    unfolding k by blast
  show thesis
  proof (rule that [of r r'])
    show "u = None \<or> u = Some (r_uid r)"
      using r(2) by (auto simp: write_params_def delete_request_def row_matches_def split: option.splits)
    show "r_version r = v" using r(2) by (simp add: write_params_def delete_request_def row_matches_def)
    show "r_deletion r' = Some (case ex of None \<Rightarrow> ca_now ca | Some d \<Rightarrow> d)"
      using r(6) by (simp add: write_params_def delete_request_def split: option.splits)
  qed (use r in \<open>simp_all add: write_params_def delete_request_def\<close>)
qed

text \<open>C11: a delete that names no version is atomic and honours finalizers.  If it succeeds against
  concurrent clients, the row it replaced is the one it had read; spec, status and metadata are
  unchanged; an object with finalizers stays visible with a deletion timestamp, one already set
  being kept, and an object without finalizers is gone for every reader.\<close>
theorem delete_is_atomic:
  assumes "reachable adm s1" "db_steps adm s1 s2"
    and "resolveGVK obj = Inr g" "ko_rv obj = []" "parseObjectUID cl obj = Inr u"
    and "ca_link ca = LinkOk" "ca_between ca (db_tbl s1) = db_tbl s2"
    and "Delete cl ca opts obj (db_tbl s1) = (None, obj', t')"
  shows "\<exists>r r'. db_tbl s1 (obj_key g obj) = Some r \<and> db_tbl s2 (obj_key g obj) = Some r \<and>
     t' = (db_tbl s2)(obj_key g obj \<mapsto> r') \<and>
     r_spec r' = r_spec r \<and> r_status r' = r_status r \<and> r_metadata r' = r_metadata r \<and>
     r_uid r' = r_uid r \<and>
     r_deletion r' = Some (case r_deletion r of None \<Rightarrow> ca_now ca | Some d \<Rightarrow> d) \<and>
     (visible t' (obj_key g obj) = (if sql_no_finalizers (r_metadata r) then None else Some r'))"
proof -
  have "parseResourceVersion (ko_rv obj) = Inr 0" by (simp add: assms(4) parseResourceVersion_def)
  from Delete_ok [OF assms(8,6,3) this assms(5)] obtain plan out where
    p: "delete_plan ca g obj 0 u (db_tbl s1) = Inr plan" and
    w: "pgctl_write (ca_tx ca) (write_params (delete_request ca g obj plan)) (db_tbl s2) = Inr (out, t')"
    unfolding assms(7) by blast
  from p obtain r where r: "db_tbl s1 (obj_key g obj) = Some r" and
    plan: "plan = (r_version r, Some (r_uid r), r_spec r, r_status r, r_metadata r, r_deletion r)"
    by (auto simp: delete_plan_def readCurrentResource_Some split: if_splits option.splits)
  have ok: "row_ok r" by (rule rows_okD [OF reachable_rows_ok [OF assms(1)] r])
  then have v: "r_version r \<noteq> 0" by (auto simp: row_ok_def)
  from delete_write [OF w [unfolded plan] v] obtain r2 r' where
    r2: "db_tbl s2 (obj_key g obj) = Some r2" "r_version r2 = r_version r"
      "Some (r_uid r) = None \<or> Some (r_uid r) = Some (r_uid r2)" and
    r': "t' = (db_tbl s2)(obj_key g obj \<mapsto> r')" "r_spec r' = jsonb (r_spec r)" "r_status r' = jsonb (r_status r)"
      "r_metadata r' = jsonb (r_metadata r)" "r_uid r' = r_uid r2"
      "r_deletion r' = Some (case r_deletion r of None \<Rightarrow> ca_now ca | Some d \<Rightarrow> d)"
    by blast
  have "r2 = r"
    using incarnation_versions [OF assms(2) reachable_uids_minted [OF assms(1)] r r2(1)] r2(2,3) by auto
  then show ?thesis
    using r r2 r' ok
    by (intro exI [of _ r] exI [of _ r'])
       (simp add: row_ok_def row_normal_def visible_def is_tombstone_def)
qed

lemma no_finalizers_extract: "sm_Finalizers sm = [] \<Longrightarrow> sql_no_finalizers (jsonb (extractMetadata sm))"
  by (simp add: sql_no_finalizers_def jget_extract meta_fields_lookup)

text \<open>C34: a delete that names a version bypasses finalizers.  It writes the spec, status and metadata of
  the object the caller passed over the stored ones.  When that object carries no finalizers, as the
  usual stub of name, version and UID does, a stored object that finalizers hold disappears at once,
  with its spec, and no controller gets to clean up.\<close>
theorem versioned_delete_discards_finalizers:
  assumes "resolveGVK obj = Inr g" "parseResourceVersion (ko_rv obj) = Inr v" "v \<noteq> 0"
    and "parseObjectUID cl obj = Inr (Some u)" "sm_Finalizers (ko_meta obj) = []"
    and "ca_link ca = LinkOk" "ca_between ca = (\<lambda>t. t)"
    and "t (obj_key g obj) = Some r" "r_deletion r = None" "\<not> sql_no_finalizers (r_metadata r)"
    and "Delete cl ca opts obj t = (None, obj', t')"
  shows "visible t (obj_key g obj) = Some r \<and> visible t' (obj_key g obj) = None \<and>
         (\<exists>r'. t' (obj_key g obj) = Some r' \<and> r_spec r' = jsonb (extractSpec obj))"
proof -
  from Delete_ok [OF assms(11,6,1,2,4)] obtain plan out where
    p: "delete_plan ca g obj v (Some u) t = Inr plan" and
    w: "pgctl_write (ca_tx ca) (write_params (delete_request ca g obj plan)) t = Inr (out, t')"
    unfolding assms(7) by blast
  have plan: "plan = (v, Some u, extractSpec obj, extractStatus obj, extractMetadata (ko_meta obj), None)"
    using p assms(3) by (simp add: delete_plan_def extractSpecStatus_def extractSpec_def extractStatus_def)
  from delete_write [OF w [unfolded plan] assms(3)] obtain r' where
    "t' = t(obj_key g obj \<mapsto> r')" "r_spec r' = jsonb (extractSpec obj)"
    "r_metadata r' = jsonb (extractMetadata (ko_meta obj))"
    "r_deletion r' = Some (case None of None \<Rightarrow> ca_now ca | Some d \<Rightarrow> d)"
    by blast
  then show ?thesis
    using assms(5,8,9) no_finalizers_extract [OF assms(5)] by (simp add: visible_def is_tombstone_def)
qed

section \<open>Examples\<close>

definition ex_gvk :: gvk where
  "ex_gvk = \<lparr>g_Group = ''g'', g_Version = ''v'', g_Kind = ''K''\<rparr>"

definition ex_obj :: "string \<Rightarrow> string \<Rightarrow> string \<Rightarrow> kobj" where
  "ex_obj n uid v = \<lparr>ko_kinds = Some [ex_gvk], ko_gvk = None, ko_namespace = ''ns'', ko_name = n,
     ko_generateName = [], ko_uid = uid, ko_rv = v, ko_creation = None, ko_deletion = None,
     ko_meta = empty_metadata, ko_spec = Some (doc ''new''), ko_status = Some (JObj [])\<rparr>"

definition ex_client :: client_env where
  "ex_client = \<lparr>cl_new = (\<lambda>_. Some (ex_obj [] [] [])), cl_unmarshal = (\<lambda>d old. Some d),
     cl_uuidParse = (\<lambda>s. if s = uuid_text 1 then Some 1 else None), cl_itemsFit = (\<lambda>_. True)\<rparr>"

definition ex_call :: "link \<Rightarrow> call" where
  "ex_call l = \<lparr>ca_acquire = True, ca_readFault = False, ca_link = l,
     ca_tx = \<lparr>te_txid = 9, te_uuid = 8, te_now = 60\<rparr>, ca_now = 60, ca_between = (\<lambda>t. t),
     ca_after = (\<lambda>t. t), ca_readBackFault = False\<rparr>"

definition ex_delete_opts :: DeleteOptions where
  "ex_delete_opts = \<lparr>do_DryRun = False, do_PropagationPolicy = False, do_Preconditions = False,
                     do_GracePeriodSeconds = False\<rparr>"

lemma ex_resolve [simp]: "resolveGVK (ex_obj n u v) = Inr ex_gvk"
  by (simp add: resolveGVK_def ex_obj_def)

lemma ex_obj_key [simp]: "obj_key ex_gvk (ex_obj n u v) = ex_key_of n"
  by (simp add: obj_key_def ex_gvk_def ex_obj_def gvkToString_def ex_key_of_def)

lemma ex_uid [simp]:
  "parseObjectUID ex_client (ex_obj n (uuid_text 1) v) = Inr (Some 1)"
  "parseObjectUID ex_client (ex_obj n [] v) = Inr None"
  by (simp_all add: parseObjectUID_def ex_obj_def ex_client_def uuid_text_def Let_def)

lemma ex_version [simp]: "parseResourceVersion (ko_rv (ex_obj n u (format_int 1))) = Inr 1"
  by (simp add: ex_obj_def parseResourceVersion_plain)

lemma ex_call_simps [simp]:
  "ca_acquire (ex_call l)" "\<not> ca_readFault (ex_call l)" "ca_link (ex_call l) = l"
  "ca_between (ex_call l) = (\<lambda>t. t)" "ca_after (ex_call l) = (\<lambda>t. t)" "\<not> ca_readBackFault (ex_call l)"
  "ca_tx (ex_call l) = \<lparr>te_txid = 9, te_uuid = 8, te_now = 60\<rparr>" "ca_now (ex_call l) = 60"
  by (simp_all add: ex_call_def)

lemma ex_meta: "valid_sm (empty_metadata\<lparr>sm_Generation := 1\<rparr>)"
  by (simp add: valid_sm_def empty_metadata_def)

lemma ex_create_ok:
  "\<exists>obj' t'. Create ex_client (ex_call LinkOk) False (ex_obj ''A'' [] []) Map.empty = (None, obj', t')"
  by (simp add: Create_def rejectDryRun_def client_Write callStoredProc_def pgctl_write_def
      suppression_check_def write_params_def create_request_def upsert_def upsert_create_def Let_def
      changed_result_def) (simp add: ex_obj_def)

theorem create_then_get_witness:
  "\<exists>obj' t' got. Create ex_client (ex_call LinkOk) False (ex_obj ''A'' [] []) Map.empty = (None, obj', t') \<and>
     Get ex_client (ex_call LinkOk) (''ns'', ''A'') (ex_obj [] [] []) t' = Inr got \<and>
     ko_spec got = Some (doc ''new'') \<and> ko_rv got = format_int 1"
proof -
  obtain obj' t' where c: "Create ex_client (ex_call LinkOk) False (ex_obj ''A'' [] []) Map.empty = (None, obj', t')"
    using ex_create_ok by blast
  have "restores ex_client ''spec'' (extractSpec (ex_obj ''A'' [] [])) (ko_spec (ex_obj [] [] []))"
    "restores ex_client ''status'' (extractStatus (ex_obj ''A'' [] [])) (ko_status (ex_obj [] [] []))"
    by (simp_all add: restores_def inject_field_def ex_client_def ex_obj_def extractSpec_def
        extractStatus_def field_or_empty_def)
  then show ?thesis
    using create_then_get [OF c, of "ex_obj [] [] []" "ex_call LinkOk"] c ex_meta
    by (auto simp: ex_obj_def extractSpec_def field_or_empty_def resolveGVK_def)
qed

lemma ex_tbl_B: "db_tbl ex_both_done (ex_key_of ''B'') = Some (ex_made ''B'' 4 1)"
  by (simp add: ex_both_done_def ex_key_of_def)

lemma ex_reachable: "reachable any_params ex_both_done"
  using ex_later by (auto simp: db_later_def reachable_def intro: rtranclp_trans)

lemma ex_made_simps [simp]:
  "r_uid (ex_made n x u) = u" "r_version (ex_made n x u) = 1" "r_deletion (ex_made n x u) = None"
  "r_spec (ex_made n x u) = doc n" "r_status (ex_made n x u) = JObj []" "r_metadata (ex_made n x u) = JObj []"
  by (simp_all add: ex_made_def)

lemma call_matching:
  assumes "update_payload p" "t (wp_key p) = Some r" "row_matches p r"
  shows "\<exists>res t'. callStoredProc client_writer LinkOk e p t = (Inr res, t', [])"
proof -
  obtain out t' where "pgctl_write e p t = Inr (out, t')"
    using update_match [where e = e and t = t, OF assms] by blast
  then show ?thesis by (simp add: callStoredProc_ok)
qed

lemma ex_update_ok:
  "\<exists>obj' t'. Update ex_client (ex_call LinkOk) False (ex_obj ''B'' (uuid_text 1) (format_int 1))
     (db_tbl ex_both_done) = (None, obj', t')"
proof -
  let ?o = "ex_obj ''B'' (uuid_text 1) (format_int 1)" and ?r = "ex_made ''B'' 4 1"
  let ?q = "update_request ex_gvk (bump_generation ?r ?o) ?r 1 (Some 1)"
  have "wp_key (object_params ?q) = ex_key_of ''B''"
    by (simp add: wp_key_def object_params_def update_request_def bump_generation_def ex_obj_def
        ex_gvk_def gvkToString_def ex_key_of_def)
  moreover have "update_payload (object_params ?q)" "row_matches (object_params ?q) ?r"
    by (simp_all add: update_payload_def row_matches_def object_params_def update_request_def)
  ultimately obtain res t' where c: "callStoredProc client_writer LinkOk (ca_tx (ex_call LinkOk))
      (object_params ?q) (db_tbl ex_both_done) = (Inr res, t', [])"
    using call_matching [of "object_params ?q" "db_tbl ex_both_done" ?r] ex_tbl_B by metis
  have "or_ExpectedVersion ?q \<noteq> 0" by (simp add: update_request_def)
  then have "WriteObject client_writer LinkOk NoFault (ca_tx (ex_call LinkOk)) ?q (db_tbl ex_both_done) =
      (Inr res, t', [])"
    using c client_Write(2) by simp
  moreover have "readCurrentResource (db_tbl ex_both_done) (ex_key_of ''B'') = Some ?r"
    by (simp add: readCurrentResource_Some ex_tbl_B is_tombstone_def)
  ultimately show ?thesis
    by (simp add: Update_def rejectDryRun_def parseObjectVersion_def update_write_def Let_def)
qed

theorem update_is_atomic_witness:
  "\<exists>obj' t'. Update ex_client (ex_call LinkOk) False (ex_obj ''B'' (uuid_text 1) (format_int 1))
       (db_tbl ex_both_done) = (None, obj', t') \<and>
     (\<exists>r'. t' (ex_key_of ''B'') = Some r' \<and> r_spec r' = doc ''new'' \<and> r_uid r' = 1)"
proof -
  let ?o = "ex_obj ''B'' (uuid_text 1) (format_int 1)"
  obtain obj' t' where u: "Update ex_client (ex_call LinkOk) False ?o (db_tbl ex_both_done) = (None, obj', t')"
    using ex_update_ok by blast
  have "extractSpec ?o = doc ''new''" by (simp add: ex_obj_def extractSpec_def field_or_empty_def)
  then show ?thesis
    using update_is_atomic [OF ex_reachable, of ex_both_done ex_both_done ?o ex_gvk "ex_made ''B'' 4 1"
        ex_client "ex_call LinkOk" False obj' t'] u
    by (auto simp: ex_tbl_B)
qed

lemma ex_delete_ok:
  assumes "t (ex_key_of ''B'') = Some r" "r_version r = 1" "r_uid r = 1" "\<not> is_tombstone r"
    "v = [] \<and> u = [] \<or> v = format_int 1 \<and> u = uuid_text 1"
  shows "\<exists>obj' t'. Delete ex_client (ex_call LinkOk) ex_delete_opts (ex_obj ''B'' u v) t = (None, obj', t')"
proof -
  let ?o = "ex_obj ''B'' u v" and ?ca = "ex_call LinkOk"
  obtain n w plan where
    n: "parseResourceVersion (ko_rv ?o) = Inr n" "parseObjectUID ex_client ?o = Inr w"
      "delete_plan ?ca ex_gvk ?o n w t = Inr plan" "fst plan = 1" "fst (snd plan) = Some 1"
  proof (cases "v = []")
    case True
    then have "readCurrentResource t (ex_key_of ''B'') = Some r" "u = []" "ko_rv ?o = []"
      using assms format_uint_ne [of 1]
      by (auto simp: readCurrentResource_Some ex_obj_def format_int_def simp del: format_uint_ne)
    then show ?thesis using that [of 0 None] assms
      by (simp add: delete_plan_def parseResourceVersion_def)
  next
    case False
    then have "v = format_int 1" "u = uuid_text 1" using assms(5) by auto
    then show ?thesis using that [of 1 "Some 1"] by (simp add: delete_plan_def)
  qed
  let ?p = "write_params (delete_request ?ca ex_gvk ?o plan)"
  obtain a b c d e f where pl: "plan = (a, b, c, d, e, f)" by (metis prod_cases6)
  have "wp_key ?p = ex_key_of ''B''"
    by (simp add: pl wp_key_def write_params_def delete_request_def ex_obj_def ex_gvk_def
        gvkToString_def ex_key_of_def)
  moreover have "update_payload ?p" "row_matches ?p r"
    using assms n(4,5) by (simp_all add: pl update_payload_def row_matches_def write_params_def delete_request_def)
  ultimately obtain res t' where
    "callStoredProc client_writer LinkOk (ca_tx ?ca) ?p t = (Inr res, t', [])"
    using call_matching [of ?p t r] assms(1) by metis
  then show ?thesis
    using n by (simp add: Delete_def rejectUnsupportedDeleteOpts_def rejectDryRun_def ex_delete_opts_def
        parseObjectVersion_def client_Write)
qed

theorem delete_is_atomic_witness:
  "\<exists>obj' t'. Delete ex_client (ex_call LinkOk) ex_delete_opts (ex_obj ''B'' [] []) (db_tbl ex_both_done) =
       (None, obj', t') \<and> visible t' (ex_key_of ''B'') = None"
proof -
  let ?o = "ex_obj ''B'' [] []"
  obtain obj' t' where d: "Delete ex_client (ex_call LinkOk) ex_delete_opts ?o (db_tbl ex_both_done) = (None, obj', t')"
    using ex_delete_ok [of "db_tbl ex_both_done" "ex_made ''B'' 4 1" "[]" "[]"]
    by (auto simp: ex_tbl_B is_tombstone_def)
  have "ko_rv ?o = []" by (simp add: ex_obj_def)
  then show ?thesis
    using delete_is_atomic [OF ex_reachable, of ex_both_done ?o ex_gvk ex_client None "ex_call LinkOk"
        ex_delete_opts obj' t'] d
    by (auto simp: ex_tbl_B sql_no_finalizers_def)
qed

definition ex_held :: row where
  "ex_held = (ex_made ''B'' 4 1)\<lparr>r_metadata := JObj [(''finalizers'', JArr [JStr ''cleanup''])]\<rparr>"

theorem versioned_delete_discards_finalizers_witness:
  "\<exists>obj' t'. Delete ex_client (ex_call LinkOk) ex_delete_opts (ex_obj ''B'' (uuid_text 1) (format_int 1))
       [ex_key_of ''B'' \<mapsto> ex_held] = (None, obj', t') \<and>
     visible [ex_key_of ''B'' \<mapsto> ex_held] (ex_key_of ''B'') = Some ex_held \<and>
     visible t' (ex_key_of ''B'') = None"
proof -
  let ?o = "ex_obj ''B'' (uuid_text 1) (format_int 1)" and ?t = "[ex_key_of ''B'' \<mapsto> ex_held]"
  have r: "r_deletion ex_held = None" "\<not> sql_no_finalizers (r_metadata ex_held)" "r_version ex_held = 1"
    "r_uid ex_held = 1"
    by (simp_all add: ex_held_def sql_no_finalizers_def)
  obtain obj' t' where d: "Delete ex_client (ex_call LinkOk) ex_delete_opts ?o ?t = (None, obj', t')"
    using ex_delete_ok [of ?t ex_held "format_int 1" "uuid_text 1"] r by (auto simp: is_tombstone_def)
  have "sm_Finalizers (ko_meta ?o) = []" by (simp add: ex_obj_def empty_metadata_def)
  then show ?thesis
    using versioned_delete_discards_finalizers [of ?o ex_gvk 1 ex_client 1 "ex_call LinkOk" ?t ex_held
        ex_delete_opts obj' t'] d r
    by auto
qed

theorem ambiguous_create_is_not_resolved_witness:
  "(case Create ex_client (ex_call (LinkLost True)) False (ex_obj ''A'' [] []) Map.empty of
      (err, obj', t') \<Rightarrow> err = Some ErrReadBack \<and> t' (ex_key_of ''A'') \<noteq> None) \<and>
   (case Create ex_client (ex_call (LinkLost False)) False (ex_obj ''A'' [] []) Map.empty of
      (err, obj', t') \<Rightarrow> err = Some ErrReadBack \<and> t' (ex_key_of ''A'') = None)"
proof -
  let ?o = "ex_obj ''A'' [] []"
  have "ko_name ?o = ''A''" by (simp add: ex_obj_def)
  then show ?thesis
    using ambiguous_create_is_not_resolved [of ?o ex_gvk "ex_call (LinkLost True)" Map.empty ex_client]
      ambiguous_create_is_not_resolved [of ?o ex_gvk "ex_call (LinkLost False)" Map.empty ex_client]
    by (auto split: prod.splits)
qed

end
