(* ===== verification/ListProps.thy ===== *)
theory ListProps
  imports ClientProps
begin

text \<open>
  The list operation of the client: its filter selects the rows that the options describe, with all
  parameters numbered correctly, and its pages add up to the whole list as long as the table does not
  change between them.
\<close>

section \<open>The filter\<close>

definition options_match :: "pgfun \<Rightarrow> ListOptions \<Rightarrow> storedMetadata \<Rightarrow> key \<Rightarrow> row \<Rightarrow> bool" where
  "options_match pg lo sm k r \<longleftrightarrow>
     (lo_Namespace lo = [] \<or> key_ns k = lo_Namespace lo) \<and>
     list_all (field_matches pg k r) (lo_Fields lo) \<and>
     (case lo_Labels lo of None \<Rightarrow> False | Some reqs \<Rightarrow> list_all (label_matches (sm_Labels sm)) reqs)"

lemma sel_result_Inr [simp]: "sel_result x = Inr y \<longleftrightarrow> x = Inr y"
  by (cases x) (auto simp: sel_result_def)

lemma list_clauses_correct:
  assumes "list_clauses lo = Inr (cs, as)" "valid_sm sm" "r_metadata r = jsonb (extractMetadata sm)"
  shows "selects pg (VText gvk # as @ rest) cs k r \<longleftrightarrow> options_match pg lo sm k r"
proof -
  define nsArgs where "nsArgs = (if lo_Namespace lo \<noteq> [] then [VText (lo_Namespace lo)] else [])"
  define nsC where "nsC = (if lo_Namespace lo \<noteq> [] then [ColCmp ColNamespace SqlEq 2] else [])"
  let ?g = "VText gvk"
  obtain fc fa lc la where
    f: "(if lo_Fields lo = [] then Inr ([], [])
         else sel_result (buildFieldSelectorFilter (lo_Fields lo) (2 + length nsArgs))) = Inr (fc, fa)" and
    l: "(if lo_Labels lo = Some [] then Inr ([], [])
         else sel_result (buildLabelSelectorFilter (lo_Labels lo) (2 + length nsArgs + length fa))) = Inr (lc, la)" and
    eq: "cs = nsC @ fc @ lc" "as = nsArgs @ fa @ la"
    using assms(1) unfolding list_clauses_def Let_def nsArgs_def [symmetric] nsC_def [symmetric]
    by (simp only: sbind_eq_Inr_iff split: prod.splits) (auto split: prod.splits)
  have ns: "selects pg ((?g # nsArgs) @ fa @ la @ rest) nsC k r \<longleftrightarrow>
      lo_Namespace lo = [] \<or> key_ns k = lo_Namespace lo"
    by (simp add: nsC_def nsArgs_def eval_def col_text_def arg_text_def arg_def)
  have fs: "selects pg ((?g # nsArgs) @ fa @ la @ rest) fc k r \<longleftrightarrow>
      list_all (field_matches pg k r) (lo_Fields lo)"
    using f buildFieldSelectorFilter_correct [of "lo_Fields lo" "?g # nsArgs" fc fa pg "la @ rest" k r]
    by (auto split: if_splits)
  have ls: "selects pg (((?g # nsArgs) @ fa) @ la @ rest) lc k r \<longleftrightarrow>
      (case lo_Labels lo of None \<Rightarrow> False | Some reqs \<Rightarrow> list_all (label_matches (sm_Labels sm)) reqs)"
    using l labelRequirements_correct [OF _ labels_of_stored [OF assms(2,3)],
        of "the (lo_Labels lo)" "(?g # nsArgs) @ fa" lc la pg rest k]
    by (auto simp: buildLabelSelectorFilter_def eval_def split: if_splits option.splits)
  show ?thesis using ns fs ls by (simp add: eq options_match_def)
qed

lemma buildListFilter_cases:
  assumes "buildListFilter lo = Inr flt"
  obtains cs as where "list_clauses lo = Inr (cs, as)"
    "flt = None \<and> cs = [] \<or>
     (\<exists>f. flt = Some f \<and> lf_WhereClauses f = cs \<and> lf_WhereArgs f = as)"
  using assms by (auto simp: buildListFilter_def Let_def split: if_splits)

lemma buildListFilter_parts:
  assumes "buildListFilter lo = Inr flt" "valid_sm sm" "r_metadata r = jsonb (extractMetadata sm)"
  shows "(case flt of None \<Rightarrow> True | Some f \<Rightarrow> selects pg (list_args gvk flt) (lf_WhereClauses f) k r) \<longleftrightarrow>
         options_match pg lo sm k r"
proof -
  from assms(1) obtain cs as where c: "list_clauses lo = Inr (cs, as)"
    "flt = None \<and> cs = [] \<or> (\<exists>f. flt = Some f \<and> lf_WhereClauses f = cs \<and> lf_WhereArgs f = as)"
    by (rule buildListFilter_cases)
  note sel = list_clauses_correct [OF c(1) assms(2,3), of pg gvk]
  from c(2) show ?thesis
  proof (elim disjE exE conjE)
    assume "flt = None" "cs = []"
    then show ?thesis using sel [of "[]" k] by simp
  next
    fix f assume "flt = Some f" "lf_WhereClauses f = cs" "lf_WhereArgs f = as"
    then show ?thesis using sel by (simp add: list_args_def)
  qed
qed

text \<open>C29: the filter that the client builds from list options, namespace, field selector and label
  selector together, selects exactly the objects the options describe: every clause finds its own
  arguments at its parameter numbers behind the kind, and before the limit and the offset.  What a
  field selector asks is stated on the object itself: its name, namespace and UID, and otherwise the value found by walking
  its document; a field without a value satisfies neither \<open>=\<close> nor \<open>!=\<close>.\<close>
theorem list_filter_correct:
  assumes "buildListFilter lo = Inr flt" "valid_sm sm" "r_metadata r = jsonb (extractMetadata sm)"
  shows "list_where pg gvk flt k r \<longleftrightarrow>
           key_gvk k = gvk \<and> \<not> is_tombstone r \<and> options_match pg lo sm k r"
  using buildListFilter_parts [OF assms, of pg gvk k]
  by (auto simp: list_where_def is_tombstone_def)

definition ex_options :: ListOptions where
  "ex_options = \<lparr>lo_Namespace = ''ns'',
     lo_Fields = [\<lparr>fr_Field = ''metadata.name'', fr_Operator = OpEquals, fr_Value = ''n''\<rparr>],
     lo_Labels = Some ex_reqs, lo_Limit = 10, lo_Continue = Token 20\<rparr>"

lemma ex_name_column: "fieldPathToSQL ''metadata.name'' = Inr ColName"
  by (simp add: fieldPathToSQL_def metadataFieldToSQL_def numeral_2_eq_2)

theorem list_filter_correct_witness:
  "case buildListFilter ex_options of
     Inl _ \<Rightarrow> False
   | Inr flt \<Rightarrow> list_where ex_pg ''g/v/K'' flt (''g/v/K'', ''ns'', ''n'') ex_labelled"
proof -
  let ?sm = "empty_metadata\<lparr>sm_Labels := [(''env'', ''a''), (''n'', ''5'')]\<rparr>"
  obtain flt where b: "buildListFilter ex_options = Inr flt"
    by (simp add: buildListFilter_def list_clauses_def ex_options_def fieldRequirementToSQL_def selectionOpToSQL_def
        ex_name_column sel_result_def buildLabelSelectorFilter_def ex_reqs_def labelRequirement_def
        labelNumericMatch_def ex_parse_int64 decodeContinue_def Let_def)
  have v: "valid_sm ?sm" by (simp add: valid_sm_def empty_metadata_def)
  have m: "r_metadata ex_labelled = jsonb (extractMetadata ?sm)" by (simp add: ex_labelled_def)
  have "options_match ex_pg ex_options ?sm (''g/v/K'', ''ns'', ''n'') ex_labelled"
    by (simp add: options_match_def ex_options_def field_matches_def object_field_def
        ex_reqs_def label_matches_def empty_metadata_def ex_parse_int64)
  moreover have "\<not> is_tombstone ex_labelled" by (simp add: is_tombstone_def ex_labelled_def)
  ultimately show ?thesis using list_filter_correct [OF b v m, of ex_pg "''g/v/K''" "(''g/v/K'', ''ns'', ''n'')"] b
    by simp
qed

section \<open>Pages\<close>

text \<open>Following the continue tokens; \<open>None\<close> is running out of fuel.\<close>

fun pages :: "nat \<Rightarrow> (ctoken \<Rightarrow> list_error + ObjectList) \<Rightarrow> ctoken \<Rightarrow> (list_error + kobj list) option" where
  "pages 0 page tok = None"
| "pages (Suc n) page tok =
     (case page tok of
        Inl e \<Rightarrow> Some (Inl e)
      | Inr ol \<Rightarrow>
          if ol_Continue ol = NoToken then Some (Inr (ol_Items ol))
          else map_option (\<lambda>r. sbind r (\<lambda>xs. Inr (ol_Items ol @ xs))) (pages n page (ol_Continue ol)))"

lemma scan_cong:
  "(\<And>k r. t k = Some r \<Longrightarrow> P k r = Q k r) \<Longrightarrow> scan ks P t = scan ks Q t"
  by (simp add: scan_def cong: option.case_cong)

lemma mapE_slice: "mapE f xs = Inr ys \<Longrightarrow> mapE f (take a (drop b xs)) = Inr (take a (drop b ys))"
  by (simp add: mapE_Inr_iff list_all2_takeI list_all2_dropI)

lemma pages_slices:
  assumes "0 < l"
    and page: "\<And>tok n. tok = Token (int n) \<or> tok = NoToken \<and> n = 0 \<Longrightarrow>
      \<exists>ol. page tok = Inr ol \<and> ol_Items ol = take l (drop n xs) \<and>
        ol_Continue ol = (if l \<le> length (drop n xs) then Token (int (n + l)) else NoToken)"
  shows "length (drop n xs) div l < fuel \<Longrightarrow> tok = Token (int n) \<or> tok = NoToken \<and> n = 0 \<Longrightarrow>
         pages fuel page tok = Some (Inr (drop n xs))"
proof (induction fuel arbitrary: n tok)
  case (Suc fuel)
  from page [OF Suc.prems(2)] obtain ol where ol: "page tok = Inr ol" "ol_Items ol = take l (drop n xs)"
    "ol_Continue ol = (if l \<le> length (drop n xs) then Token (int (n + l)) else NoToken)" by blast
  show ?case
  proof (cases "l \<le> length (drop n xs)")
    case True
    define m where "m = length (drop (n + l) xs)"
    have "length (drop n xs) = m + l" using True by (simp add: m_def)
    then have "(m + l) div l < Suc fuel" using Suc.prems(1) by (simp only:)
    moreover have "(m + l) div l = m div l + 1" using assms(1) by (simp add: div_add_self2)
    ultimately have "m div l < fuel" by linarith
    then have "pages fuel page (Token (int (n + l))) = Some (Inr (drop (n + l) xs))"
      unfolding m_def by (rule Suc.IH) simp
    moreover have "take l (drop n xs) @ drop (n + l) xs = drop n xs"
      using append_take_drop_id [of l "drop n xs"] by (simp add: add.commute)
    moreover have "ol_Continue ol = Token (int (n + l))" using ol(3) True by (simp only: if_True)
    ultimately show ?thesis using ol(1,2) by (simp del: of_nat_add)
  next
    case False
    then have "ol_Continue ol = NoToken" "take l (drop n xs) = drop n xs" using ol(3) by simp_all
    then show ?thesis using ol(1,2) by simp
  qed
qed simp

text \<open>The filter with a limit selects the same rows as the one without; it only adds the page.\<close>

lemma list_clauses_limit [simp]:
  "list_clauses (lo\<lparr>lo_Limit := l\<rparr>) = list_clauses lo"
  "list_clauses (lo\<lparr>lo_Limit := l, lo_Continue := tok\<rparr>) = list_clauses lo"
  by (simp_all add: list_clauses_def Let_def cong: if_cong)

lemma buildListFilter_page:
  assumes "buildListFilter (lo\<lparr>lo_Limit := 0\<rparr>) = Inr flt0" "0 < l" "decodeContinue tok = Inr off"
  shows "(\<exists>f. buildListFilter (lo\<lparr>lo_Limit := l, lo_Continue := tok\<rparr>) = Inr (Some f) \<and>
           lf_Limit f = l \<and> lf_Offset f = off) \<and> list_page flt0 rs = rs"
  using assms by (auto simp: buildListFilter_def Let_def list_page_def)

definition table_stored :: "table \<Rightarrow> bool" where
  "table_stored t \<longleftrightarrow> (\<forall>k r. t k = Some r \<longrightarrow> stored_meta (r_metadata r))"

lemma list_where_page:
  assumes "buildListFilter lo = Inr flt" "buildListFilter lo' = Inr flt'" "table_stored t" "t k = Some r"
    and "lo_Namespace lo' = lo_Namespace lo" "lo_Fields lo' = lo_Fields lo" "lo_Labels lo' = lo_Labels lo"
  shows "list_where pg gvk flt' k r = list_where pg gvk flt k r"
proof -
  obtain sm where sm: "valid_sm sm" "r_metadata r = jsonb (extractMetadata sm)"
    using assms(3,4) unfolding table_stored_def stored_meta_def by metis
  have "options_match pg lo' sm k r = options_match pg lo sm k r"
    using assms(5-7) by (simp add: options_match_def)
  then show ?thesis
    using buildListFilter_parts [OF assms(1) sm, of pg gvk k] buildListFilter_parts [OF assms(2) sm, of pg gvk k]
    by (auto simp: list_where_def)
qed

text \<open>C32: on a table that does not change, the pages of a list, fetched by following the continue tokens
  with any limit, add up to the list without a limit: no object is missing, none is repeated, the
  order is the same, and the last page is reached after at most one page more than the number of
  full pages.\<close>
theorem pages_add_up:
  assumes "Client_List cl pg True None ks sn g (lo\<lparr>lo_Limit := 0\<rparr>) = Inr whole"
    and "0 < l" "table_stored (sn_tbl sn)" "cl_itemsFit cl = (\<lambda>_. True)"
  shows "pages (Suc (length (ol_Items whole) div nat l))
           (\<lambda>tok. Client_List cl pg True None ks sn g (lo\<lparr>lo_Limit := l, lo_Continue := tok\<rparr>)) NoToken =
         Some (Inr (ol_Items whole))"
proof -
  let ?g = "gvkToString (itemGVKFromListGVK g)"
  let ?page = "\<lambda>tok. Client_List cl pg True None ks sn g (lo\<lparr>lo_Limit := l, lo_Continue := tok\<rparr>)"
  obtain flt0 where f0: "buildListFilter (lo\<lparr>lo_Limit := 0\<rparr>) = Inr flt0"
    using assms(1) by (auto simp: Client_List_def Let_def)
  define rs where "rs = sort_key (\<lambda>(k, r). r_txid r) (scan ks (list_where pg ?g flt0) (sn_tbl sn))"
  obtain items where items: "mapE (resourceToObject cl) rs = Inr items" "ol_Items whole = items"
  proof -
    have "list_page flt0 rs = rs" for rs
      using buildListFilter_page [OF f0 assms(2), of NoToken 0] by (simp add: decodeContinue_def)
    then show thesis using assms(1) f0 that
      by (auto simp: Client_List_def Let_def List_def rs_def split: sum.splits if_splits)
  qed
  have page: "\<exists>ol. ?page tok = Inr ol \<and> ol_Items ol = take (nat l) (drop n items) \<and>
      ol_Continue ol = (if nat l \<le> length (drop n items) then Token (int (n + nat l)) else NoToken)"
    if "tok = Token (int n) \<or> tok = NoToken \<and> n = 0" for tok n
  proof -
    have tok: "decodeContinue tok = Inr (int n)" using that by (auto simp: decodeContinue_def)
    obtain f where f: "buildListFilter (lo\<lparr>lo_Limit := l, lo_Continue := tok\<rparr>) = Inr (Some f)"
        "lf_Limit f = l" "lf_Offset f = int n"
      using buildListFilter_page [OF f0 assms(2) tok] by metis
    have "scan ks (list_where pg ?g (Some f)) (sn_tbl sn) = scan ks (list_where pg ?g flt0) (sn_tbl sn)"
      by (rule scan_cong, rule list_where_page [OF f0 f(1) assms(3)]) simp_all
    then have "List pg None ks sn ?g (Some f) = Inr \<lparr>lr_Resources = take (nat l) (drop n rs),
        lr_ResourceVersion = \<lparr>rv_ObjectVersion = 0, rv_Watermark = watermark_of (sn_xmin sn)\<rparr>\<rparr>"
      using f(2,3) assms(2) by (auto simp: List_def list_page_def rs_def)
    moreover have "length rs = length items" using items(1) by (simp add: mapE_Inr_iff list_all2_lengthD)
    ultimately show ?thesis
      using f(1) mapE_slice [OF items(1), of "nat l" n] tok assms(2,4)
      by (auto simp: Client_List_def Let_def encodeContinue_def)
  qed
  show ?thesis
    using pages_slices [where n = 0 and tok = NoToken and fuel = "Suc (length items div nat l)",
        OF _ page] assms(2) items(2) by simp
qed

definition ex_all :: ListOptions where
  "ex_all = \<lparr>lo_Namespace = [], lo_Fields = [], lo_Labels = Some [], lo_Limit = 0, lo_Continue = NoToken\<rparr>"

definition ex_keys :: "key list" where
  "ex_keys = [ex_key_of ''A'', ex_key_of ''B'']"

lemma ex_filter: "buildListFilter (ex_all\<lparr>lo_Limit := 0\<rparr>) = Inr None"
  by (simp add: buildListFilter_def list_clauses_def ex_all_def)

lemma ex_item_kind: "gvkToString (itemGVKFromListGVK (ex_gvk\<lparr>g_Kind := ''KList''\<rparr>)) = ''g/v/K''"
  by (simp add: gvkToString_def itemGVKFromListGVK_def ex_gvk_def trim_suffix_def has_suffix_def)

lemma ex_to_object: "\<exists>obj. resourceToObject ex_client (ex_key_of n, ex_made n x u) = Inr obj"
proof -
  have "stringToGVK ''g/v/K'' = Inr ex_gvk" by (simp add: stringToGVK_def ex_gvk_def numeral_3_eq_3)
  then show ?thesis
    by (simp add: resourceToObject_def ex_key_of_def injectSpecStatus_def inject_field_def ex_client_def
        populateObjectMeta_def ex_obj_def doc_def)
qed

lemma ex_whole:
  "\<exists>whole. Client_List ex_client ex_pg True None ex_keys (db_snapshot ex_both_done)
     (ex_gvk\<lparr>g_Kind := ''KList''\<rparr>) (ex_all\<lparr>lo_Limit := 0\<rparr>) = Inr whole \<and> length (ol_Items whole) = 2"
proof -
  obtain a b where "resourceToObject ex_client (ex_key_of ''A'', ex_made ''A'' 3 2) = Inr a"
    "resourceToObject ex_client (ex_key_of ''B'', ex_made ''B'' 4 1) = Inr b"
    using ex_to_object by blast
  moreover have "List ex_pg None ex_keys (db_snapshot ex_both_done) ''g/v/K'' None =
      Inr \<lparr>lr_Resources = [(ex_key_of ''A'', ex_made ''A'' 3 2), (ex_key_of ''B'', ex_made ''B'' 4 1)],
           lr_ResourceVersion = \<lparr>rv_ObjectVersion = 0, rv_Watermark = 4\<rparr>\<rparr>"
    by (simp add: List_def list_page_def scan_def ex_keys_def ex_snapshots list_where_def ex_key_of_def
        ex_made_def watermark_of_def)
  ultimately show ?thesis
    by (simp add: Client_List_def ex_filter ex_item_kind) (simp add: ex_client_def)
qed

theorem pages_add_up_witness:
  "\<exists>items. length items = 2 \<and>
     pages 3 (\<lambda>tok. Client_List ex_client ex_pg True None ex_keys (db_snapshot ex_both_done)
       (ex_gvk\<lparr>g_Kind := ''KList''\<rparr>) (ex_all\<lparr>lo_Limit := 1, lo_Continue := tok\<rparr>)) NoToken =
     Some (Inr items)"
proof -
  obtain whole where w: "Client_List ex_client ex_pg True None ex_keys (db_snapshot ex_both_done)
     (ex_gvk\<lparr>g_Kind := ''KList''\<rparr>) (ex_all\<lparr>lo_Limit := 0\<rparr>) = Inr whole" "length (ol_Items whole) = 2"
    using ex_whole by blast
  have "table_stored (sn_tbl (db_snapshot ex_both_done))"
    unfolding table_stored_def ex_snapshots by (auto simp: stored_meta_empty split: if_splits)
  moreover have "cl_itemsFit ex_client = (\<lambda>_. True)" by (simp add: ex_client_def)
  ultimately have "pages (Suc (length (ol_Items whole) div nat 1))
      (\<lambda>tok. Client_List ex_client ex_pg True None ex_keys (db_snapshot ex_both_done)
         (ex_gvk\<lparr>g_Kind := ''KList''\<rparr>) (ex_all\<lparr>lo_Limit := 1, lo_Continue := tok\<rparr>)) NoToken =
      Some (Inr (ol_Items whole))"
    by (intro pages_add_up [OF w(1)]) simp_all
  moreover have "Suc (length (ol_Items whole) div nat 1) = 3" by (simp add: w(2))
  ultimately show ?thesis using w(2) by (simp only:) blast
qed

section \<open>Pages of a changing table\<close>







end
