(* ===== verification/WatchLoop.thy ===== *)
theory WatchLoop
  imports Feed
begin

text \<open>
  The control loops of the watcher, \<open>Run\<close> and \<open>listenLoop\<close> of
  \<open>seaplane-db/internal/reader/watcher.go\<close>, as functions from a state and an input to a state.

  An input of \<open>Run\<close> is the branch its \<open>select\<close> takes, with the clock reading, the environment of the poll
  that the branch may perform, and the clock reading after that poll.  Durations and clock readings
  are nanoseconds.  Reading the clock and resetting the timer count as one moment.  Two ghost variables
  record the history: \<open>ru_log\<close> the polls that returned without error, and \<open>ru_cut\<close> the first delivery that
  a cancellation or a stop cut short, with the number of polls logged before it.
\<close>

section \<open>The poll loop\<close>

record WatchStats =
  ws_ListenErrors :: nat
  ws_Reconnects :: nat
  ws_DoorbellPolls :: nat
  ws_BaselinePolls :: nat
  ws_BaselineCatches :: nat

definition no_stats :: WatchStats where
  "no_stats = \<lparr>ws_ListenErrors = 0, ws_Reconnects = 0, ws_DoorbellPolls = 0, ws_BaselinePolls = 0,
               ws_BaselineCatches = 0\<rparr>"

record poll_env =
  pe_fault :: "poll_stage option"
  pe_delivery :: delivery
  pe_keys :: "key list"
  pe_snapshot :: snapshot
  pe_done :: int \<comment> \<open>clock after the poll\<close>

datatype run_input =
  CtxCancelled
| StopSignal
| DoorbellAt int poll_env
| TimerAt int poll_env

datatype run_end = Ended "poll_error option" \<comment> \<open>\<open>None\<close> is a \<open>nil\<close> error\<close>

record run =
  ru_watcher :: Watcher
  ru_lastPoll :: int
  ru_pending :: bool
  ru_timer :: int
  ru_stats :: WatchStats
  ru_events :: "Event list"
  ru_end :: "run_end option"
  ru_log :: "(snapshot \<times> key list \<times> poll_stage option) list"
  ru_cut :: "(nat \<times> delivery) option"

abbreviation ru_floor :: "run \<Rightarrow> int" where "ru_floor st \<equiv> wc_DebounceFloor (wa_cfg (ru_watcher st))"
abbreviation ru_baseline :: "run \<Rightarrow> int" where "ru_baseline st \<equiv> wc_BaselineInterval (wa_cfg (ru_watcher st))"

text \<open>Whether a poll that reaches its delivery sends only a part of its events.\<close>

definition cut_short :: "pgfun \<Rightarrow> poll_env \<Rightarrow> Watcher \<Rightarrow> bool" where
  "cut_short pg pe w =
     (let n = length (poll_events pg (pe_keys pe) (sn_tbl (pe_snapshot pe)) w) in
      case pe_delivery pe of Uninterrupted \<Rightarrow> False | CtxDone m \<Rightarrow> m < n | StopClosed m \<Rightarrow> m < n)"

definition note_cut :: "bool \<Rightarrow> poll_env \<Rightarrow> run \<Rightarrow> (nat \<times> delivery) option" where
  "note_cut c pe st =
     (if c \<and> ru_cut st = None then Some (length (ru_log st), pe_delivery pe) else ru_cut st)"

text \<open>A poll inside the loop: on error the loop ends with it; otherwise \<open>lastPoll\<close>, \<open>doorbellPending\<close> and the
  timer are reset.  \<open>count\<close> updates the counters with the number of events delivered.\<close>

definition run_poll ::
  "pgfun \<Rightarrow> poll_env \<Rightarrow> (nat \<Rightarrow> WatchStats \<Rightarrow> WatchStats) \<Rightarrow> run \<Rightarrow> run" where
  "run_poll pg pe count st =
     (case poll pg (pe_fault pe) (pe_delivery pe) (pe_keys pe) (pe_snapshot pe) (ru_watcher st) of
        (Inl e, evs, w) \<Rightarrow>
          st\<lparr>ru_watcher := w, ru_events := ru_events st @ evs, ru_end := Some (Ended (Some e)),
             ru_cut := note_cut (e = PollCancelled) pe st\<rparr>
      | (Inr n, evs, w) \<Rightarrow>
          st\<lparr>ru_watcher := w, ru_events := ru_events st @ evs, ru_lastPoll := pe_done pe,
             ru_pending := False, ru_timer := pe_done pe + ru_baseline st,
             ru_stats := count n (ru_stats st),
             ru_log := ru_log st @ [(pe_snapshot pe, pe_keys pe, pe_fault pe)],
             ru_cut := note_cut (cut_short pg pe (ru_watcher st)) pe st\<rparr>)"

definition count_doorbell :: "WatchStats \<Rightarrow> WatchStats" where
  "count_doorbell s = s\<lparr>ws_DoorbellPolls := ws_DoorbellPolls s + 1\<rparr>"

definition count_baseline :: "bool \<Rightarrow> nat \<Rightarrow> WatchStats \<Rightarrow> WatchStats" where
  "count_baseline listenConfigured n s =
     s\<lparr>ws_BaselinePolls := ws_BaselinePolls s + 1,
       ws_BaselineCatches := ws_BaselineCatches s + (if n > 0 \<and> listenConfigured then 1 else 0)\<rparr>"

text \<open>The first poll, before the loop.\<close>

definition run_start :: "pgfun \<Rightarrow> poll_env \<Rightarrow> Watcher \<Rightarrow> run" where
  "run_start pg pe w =
     run_poll pg pe (\<lambda>n s. s)
       \<lparr>ru_watcher = w, ru_lastPoll = 0, ru_pending = False, ru_timer = 0, ru_stats = no_stats,
        ru_events = [], ru_end = None, ru_log = [], ru_cut = None\<rparr>"

text \<open>One turn of the loop.  A doorbell poll counts before it runs, so it counts even if it fails.\<close>

definition run_step :: "pgfun \<Rightarrow> bool \<Rightarrow> run_input \<Rightarrow> run \<Rightarrow> run" where
  "run_step pg listenConfigured i st =
     (if ru_end st \<noteq> None then st
      else case i of
        CtxCancelled \<Rightarrow> st\<lparr>ru_end := Some (Ended (Some PollCancelled))\<rparr>
      | StopSignal \<Rightarrow> st\<lparr>ru_end := Some (Ended None)\<rparr>
      | DoorbellAt now pe \<Rightarrow>
          if now - ru_lastPoll st \<ge> ru_floor st
          then run_poll pg pe (\<lambda>n s. s) (st\<lparr>ru_stats := count_doorbell (ru_stats st)\<rparr>)
          else st\<lparr>ru_pending := True, ru_timer := now + (ru_floor st - (now - ru_lastPoll st))\<rparr>
      | TimerAt now pe \<Rightarrow>
          run_poll pg pe
            (if ru_pending st then (\<lambda>n. count_doorbell) else count_baseline listenConfigured) st)"

definition Run :: "pgfun \<Rightarrow> bool \<Rightarrow> poll_env \<Rightarrow> run_input list \<Rightarrow> Watcher \<Rightarrow> run" where
  "Run pg listenConfigured pe is w = fold (run_step pg listenConfigured) is (run_start pg pe w)"

section \<open>The listen loop\<close>

record listen =
  li_conn :: bool \<comment> \<open>a connection on which \<open>LISTEN\<close> succeeded\<close>
  li_backoff :: int
  li_notify :: bool \<comment> \<open>the one-slot channel to \<open>Run\<close> is full\<close>
  li_done :: bool
  li_stats :: WatchStats

definition min_backoff :: int where "min_backoff = 100 * 10 ^ 6"
definition max_backoff :: int where "max_backoff = 5 * 10 ^ 9"

datatype listen_input =
  FactoryFails
| FactoryListenFails
| FactoryConnects
| Notification
| WaitFails
| ListenCancelled

definition listen_error :: "listen \<Rightarrow> listen" where
  "listen_error l = l\<lparr>li_stats := (li_stats l)\<lparr>ws_ListenErrors := ws_ListenErrors (li_stats l) + 1\<rparr>\<rparr>"

definition grow_backoff :: "listen \<Rightarrow> listen" where
  "grow_backoff l =
     (if li_backoff l < max_backoff
      then l\<lparr>li_backoff := (if li_backoff l * 2 > max_backoff then max_backoff else li_backoff l * 2)\<rparr>
      else l)"

text \<open>\<open>initial\<close>: \<open>None\<close> without a connection, otherwise whether the first \<open>LISTEN\<close> succeeds.\<close>

definition listen_start :: "bool option \<Rightarrow> listen" where
  "listen_start initial =
     (let l = \<lparr>li_conn = False, li_backoff = min_backoff, li_notify = False, li_done = False,
               li_stats = no_stats\<rparr> in
      case initial of
        None \<Rightarrow> l
      | Some True \<Rightarrow> l\<lparr>li_conn := True\<rparr>
      | Some False \<Rightarrow> listen_error l)"

text \<open>One turn of the loop; an input that the current branch does not wait for has no effect.\<close>

definition listen_step :: "bool \<Rightarrow> listen_input \<Rightarrow> listen \<Rightarrow> listen" where
  "listen_step hasFactory i l =
     (if li_done l then l
      else if \<not> li_conn l then
        (if \<not> hasFactory then l\<lparr>li_done := True\<rparr>
         else case i of
           ListenCancelled \<Rightarrow> l\<lparr>li_done := True\<rparr>
         | FactoryFails \<Rightarrow> grow_backoff (listen_error l)
         | FactoryListenFails \<Rightarrow> grow_backoff (listen_error l)
         | FactoryConnects \<Rightarrow>
             l\<lparr>li_conn := True, li_backoff := min_backoff, li_notify := True,
               li_stats := (li_stats l)\<lparr>ws_Reconnects := ws_Reconnects (li_stats l) + 1\<rparr>\<rparr>
         | _ \<Rightarrow> l)
      else case i of
        ListenCancelled \<Rightarrow> l\<lparr>li_done := True\<rparr>
      | WaitFails \<Rightarrow> (listen_error l)\<lparr>li_conn := False\<rparr>
      | Notification \<Rightarrow> l\<lparr>li_backoff := min_backoff, li_notify := True\<rparr>
      | _ \<Rightarrow> l)"

section \<open>Deadlines of the poll loop\<close>

lemma poll_cfg: "poll pg f d ks sn w = (res, evs, w') \<Longrightarrow> wa_cfg w' = wa_cfg w"
  by (auto simp: poll_def pollAll_def split: if_splits option.splits prod.splits sum.splits delivery.splits)

text \<open>While the loop runs, the timer is set for the debounce floor if a doorbell waits, and for the
  baseline interval otherwise, counted from the last poll.\<close>

definition on_time :: "run \<Rightarrow> bool" where
  "on_time st \<longleftrightarrow>
     ru_end st \<noteq> None \<or>
     ru_timer st = ru_lastPoll st + (if ru_pending st then ru_floor st else ru_baseline st)"

lemma run_poll_on_time: "on_time (run_poll pg pe count st)"
proof -
  obtain res evs w where p: "poll pg (pe_fault pe) (pe_delivery pe) (pe_keys pe) (pe_snapshot pe)
      (ru_watcher st) = (res, evs, w)" by (metis prod_cases3)
  then show ?thesis using poll_cfg [OF p] by (auto simp: run_poll_def on_time_def split: sum.splits)
qed

lemma run_step_on_time: "on_time st \<Longrightarrow> on_time (run_step pg lc i st)"
  by (cases i; cases "ru_end st")
     (simp_all add: run_step_def run_poll_on_time, simp_all add: on_time_def)


lemma run_poll_config: "wa_cfg (ru_watcher (run_poll pg pe count st)) = wa_cfg (ru_watcher st)"
  by (auto simp: run_poll_def split: prod.splits sum.splits dest: poll_cfg)

lemma run_step_config: "wa_cfg (ru_watcher (run_step pg lc i st)) = wa_cfg (ru_watcher st)"
  by (cases i) (auto simp: run_step_def run_poll_config)


section \<open>The events of a run\<close>

text \<open>The environments of the polls that a run performs.\<close>

fun input_env :: "run_input \<Rightarrow> poll_env option" where
  "input_env (DoorbellAt now pe) = Some pe"
| "input_env (TimerAt now pe) = Some pe"
| "input_env i = None"

definition undisturbed :: "poll_env list \<Rightarrow> bool" where
  "undisturbed pes \<longleftrightarrow> (\<forall>pe \<in> set pes. pe_delivery pe = Uninterrupted)"

text \<open>The polls whose events were all sent, up to the first delivery that was cut short.\<close>

definition whole_polls :: "run \<Rightarrow> (snapshot \<times> key list \<times> poll_stage option) list" where
  "whole_polls st = (case ru_cut st of None \<Rightarrow> ru_log st | Some (m, d) \<Rightarrow> take m (ru_log st))"

text \<open>What may follow the events of the whole polls: nothing, without a cut; exactly the part of the
  cancelled delivery that was sent, and the loop is over; or, after \<open>Stop\<close>, at least the part that was sent, since
  the loop may take another branch of its \<open>select\<close> before that of the closed channel.\<close>

definition tail_after_cut :: "run \<Rightarrow> Event list \<Rightarrow> bool" where
  "tail_after_cut st rest \<longleftrightarrow>
     (case ru_cut st of
        None \<Rightarrow> rest = []
      | Some (m, Uninterrupted) \<Rightarrow> False
      | Some (m, CtxDone n) \<Rightarrow> length rest = n \<and> ru_end st = Some (Ended (Some PollCancelled))
      | Some (m, StopClosed n) \<Rightarrow> n \<le> length rest)"

text \<open>What was sent is what the whole polls return, whether the loop still runs or not, and the tail.\<close>

definition sent_polls :: "pgfun \<Rightarrow> Watcher \<Rightarrow> run \<Rightarrow> bool" where
  "sent_polls pg w st \<longleftrightarrow>
     (\<exists>w' evs rest. polls pg (whole_polls st) w = Inr (evs, w') \<and> ru_events st = evs @ rest \<and>
        tail_after_cut st rest \<and> (\<forall>m d. ru_cut st = Some (m, d) \<longrightarrow> m \<le> length (ru_log st)) \<and>
        (ru_end st = None \<and> ru_cut st = None \<longrightarrow> ru_watcher st = w'))"

lemma polls_snoc:
  assumes "polls pg xs w = Inr (evs, w1)" "poll pg f Uninterrupted ks sn w1 = (Inr n, evs', w2)"
  shows "polls pg (xs @ [(sn, ks, f)]) w = Inr (evs @ evs', w2)"
  using assms
proof (induction xs arbitrary: w evs)
  case (Cons x xs)
  obtain sn0 ks0 f0 where x: "x = (sn0, ks0, f0)" by (cases x)
  from Cons.prems(1) obtain n0 evs0 w0 evs1 where
    "poll pg f0 Uninterrupted ks0 sn0 w = (Inr n0, evs0, w0)" "polls pg xs w0 = Inr (evs1, w1)"
    "evs = evs0 @ evs1"
    by (auto simp: x split: prod.splits sum.splits)
  then show ?case using Cons.IH Cons.prems(2) by (simp add: x)
qed simp

lemma poll_uncut:
  assumes "poll pg (pe_fault pe) (pe_delivery pe) (pe_keys pe) (pe_snapshot pe) w = (Inr n, evs, w')"
    and "\<not> cut_short pg pe w"
  shows "poll pg (pe_fault pe) Uninterrupted (pe_keys pe) (pe_snapshot pe) w = (Inr n, evs, w')"
  using assms
  by (auto simp: poll_def pollAll_def cut_short_def Let_def split: if_splits option.splits delivery.splits)

lemma poll_cut:
  assumes "poll pg (pe_fault pe) (pe_delivery pe) (pe_keys pe) (pe_snapshot pe) w = (Inr n, evs, w')"
    and "cut_short pg pe w"
  shows "pe_delivery pe = StopClosed (length evs)"
  using assms
  by (auto simp: poll_def pollAll_def cut_short_def Let_def split: if_splits option.splits delivery.splits)

lemma poll_failed:
  assumes "poll pg f d ks sn w = (Inl e, evs, w')"
  shows "if e = PollCancelled then d = CtxDone (length evs) else evs = []"
  using assms
  by (auto simp: poll_def pollAll_def split: if_splits option.splits delivery.splits)

lemma run_poll_sent:
  assumes "sent_polls pg w st" "ru_end st = None"
  shows "sent_polls pg w (run_poll pg pe count st)"
proof -
  obtain res sent w1 where p: "poll pg (pe_fault pe) (pe_delivery pe) (pe_keys pe) (pe_snapshot pe)
      (ru_watcher st) = (res, sent, w1)" by (metis prod_cases3)
  obtain w' evs rest where l: "polls pg (whole_polls st) w = Inr (evs, w')" "ru_events st = evs @ rest"
    "tail_after_cut st rest" "\<And>m d. ru_cut st = Some (m, d) \<Longrightarrow> m \<le> length (ru_log st)"
    "ru_cut st = None \<Longrightarrow> ru_watcher st = w'"
    using assms by (auto simp: sent_polls_def)
  show ?thesis
  proof (cases res)
    case (Inl e)
    let ?st = "run_poll pg pe count st"
    have st: "?st = st\<lparr>ru_watcher := w1, ru_events := ru_events st @ sent, ru_end := Some (Ended (Some e)),
        ru_cut := note_cut (e = PollCancelled) pe st\<rparr>" using p by (simp add: Inl run_poll_def)
    have "whole_polls ?st = whole_polls st"
      by (auto simp: st whole_polls_def note_cut_def split: option.splits)
    moreover have "tail_after_cut ?st (rest @ sent)"
      using l(3) assms(2) poll_failed [OF p [unfolded Inl]]
      by (cases "e = PollCancelled")
         (auto simp: st note_cut_def tail_after_cut_def split: option.splits delivery.splits)
    moreover have "m \<le> length (ru_log ?st)" if "ru_cut ?st = Some (m, d)" for m d
      using l(4) that by (auto simp: st note_cut_def split: if_splits)
    ultimately show ?thesis using l(1,2) by (auto simp: sent_polls_def st)
  next
    case (Inr n)
    let ?st = "run_poll pg pe count st" and ?c = "cut_short pg pe (ru_watcher st)"
    have st: "ru_events ?st = ru_events st @ sent" "ru_end ?st = None" "ru_watcher ?st = w1"
      "ru_log ?st = ru_log st @ [(pe_snapshot pe, pe_keys pe, pe_fault pe)]"
      "ru_cut ?st = note_cut ?c pe st" using p assms(2) by (simp_all add: Inr run_poll_def)
    have m: "m \<le> length (ru_log ?st)" if "ru_cut ?st = Some (m, d)" for m d
      using l(4) that by (fastforce simp: st note_cut_def split: if_splits)
    show ?thesis
    proof (cases "ru_cut st = None \<and> \<not> ?c")
      case True
      then have "polls pg (whole_polls ?st) w = Inr (evs @ sent, w1)"
        using l(1,5) polls_snoc poll_uncut [OF p [unfolded Inr]]
        by (fastforce simp: whole_polls_def st note_cut_def)
      then show ?thesis
        using l(2,3) m True by (auto simp: sent_polls_def st note_cut_def tail_after_cut_def)
    next
      case False
      then have "whole_polls ?st = whole_polls st"
        using l(4) by (auto simp: whole_polls_def st note_cut_def split: option.splits)
      moreover have "tail_after_cut ?st (rest @ sent)"
        using l(3) False assms(2) poll_cut [OF p [unfolded Inr]]
        by (auto simp: st note_cut_def tail_after_cut_def split: option.splits delivery.splits)
      ultimately show ?thesis
        using l(1,2) m False by (auto simp: sent_polls_def st note_cut_def split: if_splits)
    qed
  qed
qed

lemma run_step_sent:
  assumes "sent_polls pg w st"
  shows "sent_polls pg w (run_step pg lc i st)"
proof (cases "ru_end st = None")
  case True
  have "whole_polls (st\<lparr>ru_stats := s\<rparr>) = whole_polls st"
    "tail_after_cut (st\<lparr>ru_stats := s\<rparr>) = tail_after_cut st" for s
    by (auto simp: whole_polls_def tail_after_cut_def fun_eq_iff split: option.splits delivery.splits)
  then have "sent_polls pg w (st\<lparr>ru_stats := s\<rparr>)" for s
    using assms by (simp add: sent_polls_def)
  then show ?thesis
    using assms True
    by (cases i) (auto simp: run_step_def intro!: run_poll_sent,
        auto simp: sent_polls_def whole_polls_def tail_after_cut_def split: option.splits delivery.splits)
qed (simp add: run_step_def assms(1))

lemma Run_sent: "sent_polls pg w (Run pg lc pe is w)"
proof -
  have "sent_polls pg w st \<Longrightarrow> sent_polls pg w (fold (run_step pg lc) is st)" for st
    by (induction "is" arbitrary: st) (auto intro: run_step_sent)
  moreover have "sent_polls pg w (run_start pg pe w)"
    unfolding run_start_def
    by (intro run_poll_sent) (simp_all add: sent_polls_def whole_polls_def tail_after_cut_def)
  ultimately show ?thesis by (simp add: Run_def)
qed

lemma run_poll_uncut:
  "pe_delivery pe = Uninterrupted \<Longrightarrow> ru_cut (run_poll pg pe count st) = ru_cut st"
  by (auto simp: run_poll_def note_cut_def cut_short_def dest: poll_failed split: prod.splits sum.splits)

lemma Run_uncut:
  assumes "undisturbed (pe # List.map_filter input_env is)"
  shows "ru_cut (Run pg lc pe is w) = None"
proof -
  have "undisturbed (List.map_filter input_env is) \<Longrightarrow>
      ru_cut (fold (run_step pg lc) is st) = ru_cut st" for st
  proof (induction "is" arbitrary: st)
    case (Cons i "is")
    then have "ru_cut (run_step pg lc i st) = ru_cut st"
      by (cases i) (auto simp: run_step_def undisturbed_def run_poll_uncut)
    then show ?case using Cons by (cases "input_env i") (auto simp: undisturbed_def)
  qed simp
  then show ?thesis using assms by (simp add: Run_def run_start_def undisturbed_def run_poll_uncut)
qed

text \<open>C3: the cache that a reflector replays from the channel of \<open>Run\<close> is exact.  The reflector lists from
  one snapshot and starts \<open>Run\<close> at the returned version; doorbells, timer, cancellation, stop and failing polls come in
  any order, and every poll sees the database as it is at a later moment.  What was sent is a sequence
  of events and a rest.  Replaying the first gives the objects of the kind and shard as they were in
  the snapshot of the last poll whose delivery was not cut short, also after \<open>Run\<close> has ended.  The rest is
  empty unless a cancellation or a stop came in the middle of a delivery, when the high-water mark has already
  advanced past the events that were not sent: after a cancellation it is the part of that delivery that was sent, and the
  loop has ended with the context's error; after a stop it may go on.  If no delivery is interrupted,
  there is no cut.\<close>
theorem run_keeps_cache_exact:
  assumes "heap ks (db_tbl s)"
    and "List pg fault ks (db_snapshot s) (wc_GVK cfg) (map_option ToListFilter (wc_Shard cfg)) = Inr lr"
    and "wc_StartRV cfg = lr_ResourceVersion lr"
    and "st = Run pg lc pe is (NewWatcher cfg)"
    and "whole_polls st = map (\<lambda>(s', ks', f). (db_snapshot s', ks', f)) xs"
    and "successively (db_later adm) (s # map fst xs)"
    and "\<forall>(s', ks', f) \<in> set xs. heap ks' (db_tbl s')"
  shows "(\<exists>evs rest. ru_events st = evs @ rest \<and> tail_after_cut st rest \<and>
            fold apply_event evs (map_of (lr_Resources lr)) =
              view pg (wc_GVK cfg) (wc_Shard cfg) (db_tbl (last (s # map fst xs)))) \<and>
         (undisturbed (pe # List.map_filter input_env is) \<longrightarrow> ru_cut st = None \<and> whole_polls st = ru_log st)"
proof -
  obtain w evs rest where w: "polls pg (map (\<lambda>(s', ks', f). (db_snapshot s', ks', f)) xs) (NewWatcher cfg) =
      Inr (evs, w)" "ru_events st = evs @ rest" "tail_after_cut st rest"
    using Run_sent [of pg "NewWatcher cfg" lc pe "is"] assms(4,5) unfolding sent_polls_def by metis
  have cfg: "wc_GVK (wa_cfg w) = wc_GVK cfg" "wc_Shard (wa_cfg w) = wc_Shard cfg"
    using polls_cfg [OF w(1)] by (simp_all add: NewWatcher_def Let_def)
  have "db_feed.synced pg (last (s # map fst xs)) (fold apply_event evs (map_of (lr_Resources lr))) w"
    by (rule db_feed.list_then_polls [where adm = adm])
       (use assms(1-3,6,7) w(1) in \<open>auto simp: db_snapshot_def\<close>)
  then have "fold apply_event evs (map_of (lr_Resources lr)) =
      view pg (wc_GVK cfg) (wc_Shard cfg) (db_tbl (last (s # map fst xs)))"
    by (simp add: db_feed.synced_def cfg db_snapshot_def)
  moreover have "ru_cut st = None \<and> whole_polls st = ru_log st"
    if "undisturbed (pe # List.map_filter input_env is)"
    using Run_uncut [OF that] by (simp add: assms(4) whole_polls_def)
  ultimately show ?thesis using w(2,3) by (intro conjI exI [of _ evs] exI [of _ rest] impI) auto
qed

definition ex_pe :: "int \<Rightarrow> poll_env" where
  "ex_pe t = \<lparr>pe_fault = None, pe_delivery = Uninterrupted, pe_keys = [ex_key_of ''B''],
              pe_snapshot = db_snapshot ex_B_done, pe_done = t\<rparr>"

definition ex_pe_both :: "int \<Rightarrow> poll_env" where
  "ex_pe_both t = \<lparr>pe_fault = None, pe_delivery = Uninterrupted, pe_keys = [ex_key_of ''A'', ex_key_of ''B''],
                   pe_snapshot = db_snapshot ex_both_done, pe_done = t\<rparr>"

definition ex_timed :: WatcherConfig where
  "ex_timed = ex_cfg\<lparr>wc_BaselineInterval := 1000, wc_DebounceFloor := 100\<rparr>"

lemma ex_first_poll:
  "poll ex_pg None Uninterrupted [ex_key_of ''B''] (db_snapshot ex_B_done) (NewWatcher ex_timed) =
     (Inr 1, [\<lparr>ev_Type = EventAdded, ev_Resource = (ex_key_of ''B'', ex_made ''B'' 4 1)\<rparr>],
      NewWatcher ex_timed)"
  by (simp add: ex_snapshots ex_timed_def ex_cfg_def NewWatcher_def poll_def pollAll_def poll_events_def
        gone_horizon_def scan_def poll_where_iff shard_selects_def advance_hwm_def poll_type_def
        ex_key_of_def ex_made_def)

lemma ex_second_poll:
  "poll ex_pg None Uninterrupted [ex_key_of ''A'', ex_key_of ''B''] (db_snapshot ex_both_done)
     (NewWatcher ex_timed) =
     (Inr 2, [\<lparr>ev_Type = EventAdded, ev_Resource = (ex_key_of ''A'', ex_made ''A'' 3 2)\<rparr>,
              \<lparr>ev_Type = EventAdded, ev_Resource = (ex_key_of ''B'', ex_made ''B'' 4 1)\<rparr>],
      (NewWatcher ex_timed)\<lparr>wa_hwm := 4\<rparr>)"
  by (simp add: ex_snapshots ex_timed_def ex_cfg_def NewWatcher_def poll_def pollAll_def poll_events_def
        gone_horizon_def scan_def poll_where_iff shard_selects_def advance_hwm_def poll_type_def
        ex_key_of_def ex_made_def)

lemma ex_started:
  "Run ex_pg True (ex_pe 0) [] (NewWatcher ex_timed) =
     \<lparr>ru_watcher = NewWatcher ex_timed, ru_lastPoll = 0, ru_pending = False, ru_timer = 1000,
      ru_stats = no_stats,
      ru_events = [\<lparr>ev_Type = EventAdded, ev_Resource = (ex_key_of ''B'', ex_made ''B'' 4 1)\<rparr>],
      ru_end = None, ru_log = [(db_snapshot ex_B_done, [ex_key_of ''B''], None)], ru_cut = None\<rparr>"
  by (simp add: Run_def run_start_def run_poll_def ex_pe_def ex_first_poll note_cut_def cut_short_def)
     (simp add: NewWatcher_def Let_def ex_timed_def)


lemma ex_both_polls:
  "Run ex_pg True (ex_pe 0) [DoorbellAt 30 (ex_pe_both 31), TimerAt 100 (ex_pe_both 101)] (NewWatcher ex_timed) =
     \<lparr>ru_watcher = (NewWatcher ex_timed)\<lparr>wa_hwm := 4\<rparr>, ru_lastPoll = 101, ru_pending = False,
      ru_timer = 1101, ru_stats = count_doorbell no_stats,
      ru_events = [\<lparr>ev_Type = EventAdded, ev_Resource = (ex_key_of ''B'', ex_made ''B'' 4 1)\<rparr>,
                   \<lparr>ev_Type = EventAdded, ev_Resource = (ex_key_of ''A'', ex_made ''A'' 3 2)\<rparr>,
                   \<lparr>ev_Type = EventAdded, ev_Resource = (ex_key_of ''B'', ex_made ''B'' 4 1)\<rparr>],
      ru_end = None, ru_log = ex_polls, ru_cut = None\<rparr>"
proof -
  have cfg: "wc_DebounceFloor (wa_cfg (NewWatcher ex_timed)) = 100"
    "wc_BaselineInterval (wa_cfg (NewWatcher ex_timed)) = 1000"
    by (simp_all add: NewWatcher_def Let_def ex_timed_def)
  have "Run ex_pg True (ex_pe 0) [DoorbellAt 30 (ex_pe_both 31), TimerAt 100 (ex_pe_both 101)] (NewWatcher ex_timed) =
      run_step ex_pg True (TimerAt 100 (ex_pe_both 101))
        (run_step ex_pg True (DoorbellAt 30 (ex_pe_both 31)) (Run ex_pg True (ex_pe 0) [] (NewWatcher ex_timed)))"
    by (simp add: Run_def)
  then show ?thesis
    by (simp add: ex_started run_step_def run_poll_def ex_pe_both_def ex_second_poll cfg ex_polls_def note_cut_def
          cut_short_def)
qed

theorem run_keeps_cache_exact_witness:
  "fold apply_event
     (ru_events (Run ex_pg True (ex_pe 0) [DoorbellAt 30 (ex_pe_both 31), TimerAt 100 (ex_pe_both 101)]
       (NewWatcher ex_timed))) Map.empty = view ex_pg ''g/v/K'' None (db_tbl ex_both_done) \<and>
   undisturbed [ex_pe 0, ex_pe_both 31, ex_pe_both 101]"
proof -
  let ?is = "[DoorbellAt 30 (ex_pe_both 31), TimerAt 100 (ex_pe_both 101)]"
  let ?xs = "[(ex_B_done, [ex_key_of ''B''], None), (ex_both_done, [ex_key_of ''A'', ex_key_of ''B''], None)]"
  let ?lr = "\<lparr>lr_Resources = [], lr_ResourceVersion = wc_StartRV ex_cfg\<rparr>"
  have h1: "heap [] (db_tbl ex_overlap)" by (simp add: heap_def ex_overlap_def)
  have h2: "List ex_pg None [] (db_snapshot ex_overlap) (wc_GVK ex_timed)
      (map_option ToListFilter (wc_Shard ex_timed)) = Inr ?lr" using ex_list by (simp add: ex_timed_def)
  let ?st = "Run ex_pg True (ex_pe 0) ?is (NewWatcher ex_timed)"
  have h3: "undisturbed [ex_pe 0, ex_pe_both 31, ex_pe_both 101]"
    by (simp add: undisturbed_def ex_pe_def ex_pe_both_def)
  have h4: "whole_polls ?st = map (\<lambda>(s', ks', f). (db_snapshot s', ks', f)) ?xs"
    by (simp add: ex_both_polls ex_polls_def whole_polls_def)
  have h5: "successively (db_later any_params) (ex_overlap # map fst ?xs)" by (simp add: ex_later)
  have h6: "\<forall>(s', ks', f) \<in> set ?xs. heap ks' (db_tbl s')" by (rule ex_heaps)
  have h7: "wc_StartRV ex_timed = lr_ResourceVersion ?lr" by (simp add: ex_timed_def)
  have c: "ru_cut ?st = None" by (simp add: ex_both_polls)
  show ?thesis
    using run_keeps_cache_exact [OF h1 h2 h7 refl h4 h5 h6] c h3
    by (auto simp: tail_after_cut_def ex_timed_def ex_cfg_def)
qed

section \<open>The rate of polls\<close>

text \<open>The timer does not fire early and the clock does not run backwards during a poll.\<close>

fun punctual :: "pgfun \<Rightarrow> bool \<Rightarrow> run_input list \<Rightarrow> run \<Rightarrow> bool" where
  "punctual pg lc [] st = True"
| "punctual pg lc (i # is) st =
     ((case i of
         DoorbellAt now pe \<Rightarrow> now \<le> pe_done pe
       | TimerAt now pe \<Rightarrow> ru_timer st \<le> now \<and> now \<le> pe_done pe
       | _ \<Rightarrow> True) \<and> punctual pg lc is (run_step pg lc i st))"

definition poll_gap :: "run \<Rightarrow> int" where
  "poll_gap st = min (ru_floor st) (ru_baseline st)"

lemma run_poll_gap: "poll_gap (run_poll pg pe count st) = poll_gap st"
  by (simp add: poll_gap_def run_poll_config)

lemma run_step_gap: "poll_gap (run_step pg lc i st) = poll_gap st"
  by (simp add: poll_gap_def run_step_config)

text \<open>How much later than required the last poll is, up to a constant.\<close>

definition poll_slack :: "run \<Rightarrow> int" where
  "poll_slack st = ru_lastPoll st - int (length (ru_log st)) * poll_gap st"

lemma run_poll_spaced:
  assumes "ru_lastPoll st + poll_gap st \<le> pe_done pe"
  shows "poll_slack st \<le> poll_slack (run_poll pg pe count st)"
proof -
  have "poll_gap (run_poll pg pe count st) = poll_gap st" by (rule run_poll_gap)
  then show ?thesis
    using assms unfolding poll_slack_def
    by (auto simp: run_poll_def algebra_simps split: prod.splits sum.splits)
qed

lemma run_step_spaced:
  assumes "on_time st" "punctual pg lc (i # is) st"
  shows "poll_slack st \<le> poll_slack (run_step pg lc i st)"
proof (cases "ru_end st = None")
  case True
  show ?thesis
  proof (cases i)
    case (DoorbellAt now pe)
    let ?st = "st\<lparr>ru_stats := count_doorbell (ru_stats st)\<rparr>"
    have "ru_lastPoll ?st + poll_gap ?st \<le> pe_done pe" if "ru_floor st \<le> now - ru_lastPoll st"
      using that assms(2) by (simp add: DoorbellAt poll_gap_def min_def)
    from run_poll_spaced [OF this] show ?thesis
      by (simp add: run_step_def True DoorbellAt poll_gap_def poll_slack_def)
  next
    case (TimerAt now pe)
    have "ru_lastPoll st + poll_gap st \<le> pe_done pe"
      using assms by (simp add: on_time_def poll_gap_def TimerAt True min_def split: if_splits)
    from run_poll_spaced [OF this] show ?thesis by (simp add: run_step_def True TimerAt)
  qed (simp_all add: run_step_def poll_slack_def poll_gap_def)
qed (simp add: run_step_def)

lemma run_steps_spaced:
  assumes "on_time st" "punctual pg lc is st"
  shows "poll_slack st \<le> poll_slack (fold (run_step pg lc) is st)"
  using assms
proof (induction "is" arbitrary: st)
  case (Cons i "is")
  have "poll_slack st \<le> poll_slack (run_step pg lc i st)"
    by (rule run_step_spaced [OF Cons.prems])
  also have "\<dots> \<le> poll_slack (fold (run_step pg lc) is (run_step pg lc i st))"
    using Cons.prems by (intro Cons.IH) (auto intro: run_step_on_time)
  finally show ?case by simp
qed simp

lemma run_steps_gap: "poll_gap (fold (run_step pg lc) is st) = poll_gap st"
  by (induction "is" arbitrary: st) (simp_all add: run_step_gap)

text \<open>Doorbells cannot flood the database.  Between the first and the last successful poll of a run
  lies at least the smaller of debounce floor and baseline interval for every poll after the first, whatever
  doorbells ring.\<close>
theorem polls_are_debounced:
  assumes "punctual pg lc is (run_start pg pe w)" "ru_end (run_start pg pe w) = None"
    and "st = Run pg lc pe is w"
  shows "ru_lastPoll (run_start pg pe w) +
           (int (length (ru_log st)) - 1) * min (wc_DebounceFloor (wa_cfg w)) (wc_BaselineInterval (wa_cfg w))
         \<le> ru_lastPoll st"
proof -
  let ?st0 = "run_start pg pe w"
  have "on_time ?st0" unfolding run_start_def by (rule run_poll_on_time)
  moreover have l: "length (ru_log ?st0) = 1"
    using assms(2) by (auto simp: run_start_def run_poll_def split: prod.splits sum.splits)
  moreover have "poll_gap ?st0 = min (wc_DebounceFloor (wa_cfg w)) (wc_BaselineInterval (wa_cfg w))"
    unfolding run_start_def run_poll_gap by (simp add: poll_gap_def)
  ultimately show ?thesis
    using run_steps_spaced [of ?st0 pg lc "is"] assms(1)
    by (simp add: assms(3) Run_def poll_slack_def run_steps_gap algebra_simps)
qed

section \<open>Reconnection\<close>

definition is_failure :: "listen_input \<Rightarrow> bool" where
  "is_failure i \<longleftrightarrow> i = FactoryFails \<or> i = FactoryListenFails"

lemma grow_backoff_min:
  "0 \<le> li_backoff l \<Longrightarrow> li_backoff (grow_backoff l) = max (li_backoff l) (min max_backoff (2 * li_backoff l))"
  by (auto simp: grow_backoff_def)

lemma failure_step:
  assumes "\<not> li_conn l" "\<not> li_done l" "is_failure i"
  shows "listen_step True i l = grow_backoff (listen_error l)"
  using assms by (auto simp: listen_step_def is_failure_def)

lemma failures_grow:
  assumes "\<not> li_conn l" "\<not> li_done l" "\<forall>i \<in> set fs. is_failure i" "0 < li_backoff l" "li_backoff l \<le> max_backoff"
  shows "\<not> li_conn (fold (listen_step True) fs l) \<and> \<not> li_done (fold (listen_step True) fs l) \<and>
         li_backoff (fold (listen_step True) fs l) = min max_backoff (li_backoff l * 2 ^ length fs)"
  using assms
proof (induction fs arbitrary: l)
  case (Cons i fs)
  let ?l = "listen_step True i l"
  have l: "?l = grow_backoff (listen_error l)" using Cons.prems by (intro failure_step) auto
  have b: "li_backoff ?l = min max_backoff (2 * li_backoff l)"
    using Cons.prems unfolding l by (simp add: grow_backoff_min listen_error_def)
  have c: "\<not> li_conn ?l" "\<not> li_done ?l" using Cons.prems by (auto simp: l grow_backoff_def listen_error_def)
  have p: "1 \<le> (2::int) ^ length fs" by simp
  have "min max_backoff (min max_backoff (2 * li_backoff l) * 2 ^ length fs) =
      min max_backoff (2 * li_backoff l * 2 ^ length fs)"
  proof (cases "2 * li_backoff l \<le> max_backoff")
    case False
    then have "max_backoff * 1 \<le> 2 * li_backoff l * 2 ^ length fs" "max_backoff * 1 \<le> max_backoff * 2 ^ length fs"
      using p Cons.prems(4,5) by (intro mult_mono; simp)+
    then show ?thesis using False by (simp add: min_def)
  qed (simp add: min_def)
  then show ?case using Cons.IH [of ?l] Cons.prems c b by (simp add: algebra_simps)
qed simp

definition backoff_ok :: "listen \<Rightarrow> bool" where
  "backoff_ok l \<longleftrightarrow> min_backoff \<le> li_backoff l \<and> li_backoff l \<le> max_backoff"

lemma listen_step_backoff: "backoff_ok l \<Longrightarrow> backoff_ok (listen_step hf i l)"
  by (auto simp: backoff_ok_def listen_step_def grow_backoff_def listen_error_def min_backoff_def max_backoff_def
      split: listen_input.splits)

lemma listen_backoff_ok: "backoff_ok (fold (listen_step hf) is (listen_start c))"
proof -
  have "backoff_ok l \<Longrightarrow> backoff_ok (fold (listen_step hf) is l)" for l
    by (induction "is" arbitrary: l) (auto intro: listen_step_backoff)
  then show ?thesis
    by (auto simp: backoff_ok_def listen_start_def listen_error_def min_backoff_def max_backoff_def Let_def
        split: option.split bool.split)
qed

text \<open>After a lost \<open>LISTEN\<close> connection the watcher waits between 100 milliseconds and 5 seconds before each
  attempt, doubling from 100 milliseconds with every consecutive failure; and as soon as an attempt
  succeeds the wait starts over and a catch-up poll is requested, so that what was written
  while nobody listened is not left to the baseline timer.\<close>
theorem listen_reconnects:
  assumes "l = fold (listen_step True) is (listen_start c)" "\<not> li_done l" "\<not> li_conn l"
    and "\<forall>i \<in> set fs. is_failure i"
  shows "min_backoff \<le> li_backoff l \<and> li_backoff l \<le> max_backoff \<and>
         li_backoff (fold (listen_step True) fs l) = min max_backoff (li_backoff l * 2 ^ length fs) \<and>
         (let l' = fold (listen_step True) (fs @ [FactoryConnects]) l in
          li_conn l' \<and> li_notify l' \<and> li_backoff l' = min_backoff)"
proof -
  have b: "min_backoff \<le> li_backoff l" "li_backoff l \<le> max_backoff"
    using listen_backoff_ok [of True "is" c] assms(1) by (simp_all add: backoff_ok_def)
  then have f: "\<not> li_conn (fold (listen_step True) fs l)" "\<not> li_done (fold (listen_step True) fs l)"
    "li_backoff (fold (listen_step True) fs l) = min max_backoff (li_backoff l * 2 ^ length fs)"
    using failures_grow [OF assms(3,2,4)] by (simp_all add: min_backoff_def)
  then show ?thesis using b by (simp add: Let_def listen_step_def [of _ FactoryConnects])
qed

end
