(* ===== verification/Doorbell.thy ===== *)
theory Doorbell
  imports Sql
begin

text \<open>
  The doorbell: the notification channel of a kind (\<open>DoorbellChannel\<close> in
  \<open>seaplane-db/internal/model/types.go\<close>) and the \<open>Debouncer\<close> of
  \<open>seaplane-db/internal/doorbell/doorbell.go\<close>, which coalesces the notifications of a time window.

  SHA-256 is the argument \<open>sha\<close>, from the bytes of a string to a list of bytes.
\<close>

section \<open>Channel names\<close>

type_synonym sha256 = "string \<Rightarrow> 8 word list"

definition hex_EncodeToString :: "8 word list \<Rightarrow> string" where
  "hex_EncodeToString bs = concat (map (\<lambda>b. hex_digits 2 (unat b)) bs)"

definition DoorbellChannel :: "sha256 \<Rightarrow> string \<Rightarrow> string" where
  "DoorbellChannel sha gvk =
     (let raw = ''resource_changes_'' @ gvk in
      if length raw \<le> 63 then raw
      else ''rc_'' @ hex_EncodeToString (take 12 (sha gvk)))"

section \<open>The debouncer\<close>

text \<open>\<open>de_sent\<close> records the channels notified so far.\<close>

record Debouncer =
  de_dirty :: "string set"
  de_sent :: "string list"
  de_closed :: bool

definition NewDebouncer :: Debouncer where
  "NewDebouncer = \<lparr>de_dirty = {}, de_sent = [], de_closed = False\<rparr>"

definition Ring :: "string \<Rightarrow> Debouncer \<Rightarrow> Debouncer" where
  "Ring gvk d = d\<lparr>de_dirty := insert gvk (de_dirty d)\<rparr>"

text \<open>\<open>gvks\<close> is the order in which the map is iterated, \<open>fails\<close> the kinds whose notification fails: the
  failure is logged and the others are still sent.\<close>

definition flush :: "sha256 \<Rightarrow> string list \<Rightarrow> string set \<Rightarrow> Debouncer \<Rightarrow> Debouncer" where
  "flush sha gvks fails d =
     (if de_dirty d = {} then d
      else d\<lparr>de_dirty := {},
             de_sent := de_sent d @ map (DoorbellChannel sha) (filter (\<lambda>g. g \<notin> fails) gvks)\<rparr>)"

datatype bell_input = BellRing string | BellTick "string list" "string set" | BellStop "string list" "string set"

text \<open>One event: a call of \<open>Ring\<close>, a tick of the background loop, or its end.  \<open>Ring\<close> still marks kinds after
  the loop has ended; nothing flushes them then.\<close>

fun bell_step :: "sha256 \<Rightarrow> bell_input \<Rightarrow> Debouncer \<Rightarrow> Debouncer" where
  "bell_step sha (BellRing gvk) d = Ring gvk d"
| "bell_step sha (BellTick gvks fails) d = (if de_closed d then d else flush sha gvks fails d)"
| "bell_step sha (BellStop gvks fails) d =
     (if de_closed d then d else (flush sha gvks fails d)\<lparr>de_closed := True\<rparr>)"

text \<open>An iteration order lists every key of the map once.\<close>

definition iteration_of :: "string set \<Rightarrow> string list \<Rightarrow> bool" where
  "iteration_of D gvks \<longleftrightarrow> distinct gvks \<and> set gvks = D"

section \<open>Properties\<close>

lemma length_hex_digits: "length (hex_digits n x) = n"
  by (induction n arbitrary: x) simp_all

lemma length_hex_EncodeToString: "length (hex_EncodeToString bs) = 2 * length bs"
  by (induction bs) (simp_all add: hex_EncodeToString_def length_hex_digits)

lemma hex_char_inj: "x < 16 \<Longrightarrow> y < 16 \<Longrightarrow> hex_char x = hex_char y \<Longrightarrow> x = y"
  by (auto simp: hex_char_def digit_char_def char_of_eq_iff of_char_of take_bit_eq_mod split: if_splits)

lemma hex_digits_inj:
  "x < 16 ^ n \<Longrightarrow> y < 16 ^ n \<Longrightarrow> hex_digits n x = hex_digits n y \<Longrightarrow> x = y"
proof (induction n arbitrary: x y)
  case (Suc n)
  have "x div 16 = y div 16" using Suc by (intro Suc.IH) (auto simp: less_mult_imp_div_less)
  moreover have "x mod 16 = y mod 16" using Suc.prems(3) by (intro hex_char_inj) auto
  ultimately show ?case by (metis div_mult_mod_eq)
qed simp

lemma hex_EncodeToString_inj:
  "hex_EncodeToString xs = hex_EncodeToString ys \<Longrightarrow> xs = ys"
proof (induction xs arbitrary: ys)
  case Nil
  then have "length (hex_EncodeToString ys) = 0" by (simp add: hex_EncodeToString_def)
  then show ?case by (simp add: length_hex_EncodeToString)
next
  case (Cons x xs)
  have "length (hex_EncodeToString ys) = 2 * length (x # xs)"
    unfolding Cons.prems [symmetric] by (rule length_hex_EncodeToString)
  then obtain y ys' where ys: "ys = y # ys'" by (cases ys) (auto simp: length_hex_EncodeToString)
  have "hex_digits 2 (unat x) = hex_digits 2 (unat y)" "hex_EncodeToString xs = hex_EncodeToString ys'"
    using Cons.prems by (simp_all add: ys hex_EncodeToString_def length_hex_digits append_eq_append_conv)
  moreover have "unat x < 16 ^ 2" "unat y < 16 ^ 2"
    using unsigned_less [of x] unsigned_less [of y] by simp_all
  ultimately have "unat x = unat y" "xs = ys'" using Cons.IH hex_digits_inj by blast+
  then show ?case by (simp add: ys unsigned_word_eqI)
qed

lemma DoorbellChannel_eqD:
  assumes "DoorbellChannel sha g = DoorbellChannel sha g'"
  shows "g = g' \<or> take 12 (sha g) = take 12 (sha g')"
  using assms hex_EncodeToString_inj
  by (auto simp: DoorbellChannel_def Let_def split: if_splits)

lemma length_DoorbellChannel: "length (DoorbellChannel sha gvk) \<le> 63"
  by (auto simp: DoorbellChannel_def Let_def length_hex_EncodeToString)

lemma rings_mark:
  "fold (bell_step sha) (map BellRing rs) d = d\<lparr>de_dirty := de_dirty d \<union> set rs\<rparr>"
  by (induction rs arbitrary: d) (simp_all add: Ring_def)

text \<open>The next tick after any number of rings sends one notification for every kind that was rung and
  whose notification does not fail, on a channel whose name is not cut off by the 63-byte
  limit of PostgreSQL.  It wakes the listeners of that kind, and those of another kind only
  if that kind was rung, or the two have equal hash prefixes.\<close>
theorem doorbell_reaches_its_kind:
  assumes "\<not> de_closed d" "iteration_of (de_dirty d \<union> set rs) gvks"
    and "d' = bell_step sha (BellTick gvks fails) (fold (bell_step sha) (map BellRing rs) d)"
    and "new = drop (length (de_sent d)) (de_sent d')"
  shows "de_dirty d' = {} \<and> length new = card (de_dirty d \<union> set rs - fails) \<and>
         (\<forall>g \<in> set rs - fails. DoorbellChannel sha g \<in> set new) \<and>
         (\<forall>c \<in> set new. length c \<le> 63) \<and>
         (\<forall>g. DoorbellChannel sha g \<in> set new \<longrightarrow>
            g \<in> de_dirty d \<union> set rs \<or>
            (\<exists>g' \<in> de_dirty d \<union> set rs. take 12 (sha g) = take 12 (sha g')))"
proof -
  let ?D = "de_dirty d \<union> set rs"
  let ?sent = "filter (\<lambda>g. g \<notin> fails) gvks"
  have g: "distinct gvks" "set gvks = ?D" using assms(2) by (auto simp: iteration_of_def)
  have new: "de_dirty d' = {}" "new = map (DoorbellChannel sha) ?sent"
    using assms(1,3,4) g by (auto simp: rings_mark flush_def)
  have "set ?sent = ?D - fails" using g by auto
  then have "length new = card (?D - fails)"
    using new(2) distinct_card [of ?sent] g(1) by simp
  then show ?thesis
    using new g DoorbellChannel_eqD [of sha] by (fastforce simp: length_DoorbellChannel)
qed

end
