(* ===== verification/GoNet.thy ===== *)
theory GoNet
  imports GoLib "HOL-Library.Word"
begin

unbundle bit_operations_syntax

text \<open>
  The part of Go's \<open>net\<close> and \<open>net/netip\<close> packages that the request validation uses: parsing of
  addresses and of CIDR notation, masking, and membership of an address in a network.

  An address is its 16-byte form; \<open>To4\<close> recognises the addresses that stand for an IPv4 address.
  An address with a zone is refused by \<open>ParseCIDR\<close>, so \<open>ParseAddr\<close> has no zone.
\<close>

section \<open>Addresses\<close>

type_synonym ip = "128 word"

definition ip4 :: "32 word \<Rightarrow> ip" where
  "ip4 a = push_bit 32 (mask 16) OR ucast a"

definition To4 :: "ip \<Rightarrow> 32 word option" where
  "To4 x = (if drop_bit 32 x = mask 16 then Some (ucast x) else None)"

text \<open>A mask with \<open>ones\<close> leading ones.\<close>

definition CIDRMask :: "nat \<Rightarrow> 'a::len word" where
  "CIDRMask ones = NOT (mask (LENGTH('a) - ones))"

text \<open>A network as \<open>ParseCIDR\<close> returns it: the masked address, the length of the mask in bits and its ones.\<close>

record IPNet =
  net_IP :: ip
  net_bits :: nat
  net_ones :: nat

text \<open>\<open>IP.Mask\<close>: a 4-byte mask applies to the IPv4 form, a 16-byte mask to the 16 bytes; \<open>nil\<close> otherwise.\<close>

definition IP_Mask :: "ip \<Rightarrow> nat \<Rightarrow> nat \<Rightarrow> ip option" where
  "IP_Mask x bits ones =
     (if bits = 32 then map_option (\<lambda>a. ip4 (a AND CIDRMask ones)) (To4 x)
      else if bits = 128 then Some (x AND CIDRMask ones)
      else None)"

text \<open>\<open>networkNumberAndMask\<close> and \<open>Contains\<close>: addresses of different families never match.\<close>

datatype netnum = Num4 "32 word" "32 word" | Num16 ip ip | NumNil

definition networkNumberAndMask :: "IPNet \<Rightarrow> netnum" where
  "networkNumberAndMask n =
     (case To4 (net_IP n) of
        Some a \<Rightarrow>
          if net_bits n = 32 then Num4 a (CIDRMask (net_ones n))
          else if net_bits n = 128 then Num4 a (CIDRMask (net_ones n - 96))
          else NumNil
      | None \<Rightarrow> if net_bits n = 128 then Num16 (net_IP n) (CIDRMask (net_ones n)) else NumNil)"

definition Contains :: "IPNet \<Rightarrow> ip \<Rightarrow> bool" where
  "Contains n x =
     (case networkNumberAndMask n of
        Num4 a m \<Rightarrow> (case To4 x of Some b \<Rightarrow> a AND m = b AND m | None \<Rightarrow> False)
      | Num16 a m \<Rightarrow> (case To4 x of Some b \<Rightarrow> False | None \<Rightarrow> a AND m = x AND m)
      | NumNil \<Rightarrow> False)"

section \<open>Parsing\<close>

fun parseIPv4Fields :: "string \<Rightarrow> nat \<Rightarrow> nat \<Rightarrow> nat list \<Rightarrow> nat list option" where
  "parseIPv4Fields [] val digLen fds = (if length fds < 3 then None else Some (fds @ [val]))"
| "parseIPv4Fields (c # s) val digLen fds =
     (if is_digit c then
        (if digLen = 1 \<and> val = 0 then None
         else let v = val * 10 + (char_nat c - 48) in
           if v > 255 then None else parseIPv4Fields s v (digLen + 1) fds)
      else if c = CHR ''.'' then
        (if digLen = 0 \<or> s = [] then None
         else if length fds = 3 then None
         else parseIPv4Fields s 0 0 (fds @ [val]))
      else None)"

definition word_of_fields :: "nat \<Rightarrow> nat list \<Rightarrow> 'a::len word" where
  "word_of_fields base fs = foldl (\<lambda>x f. x * of_nat base + of_nat f) 0 fs"

definition parseIPv4 :: "string \<Rightarrow> 32 word option" where
  "parseIPv4 s = map_option (word_of_fields 256) (parseIPv4Fields s 0 0 [])"

definition hex_value :: "char \<Rightarrow> nat option" where
  "hex_value c =
     (let n = char_nat c in
      if 48 \<le> n \<and> n \<le> 57 then Some (n - 48)
      else if 97 \<le> n \<and> n \<le> 102 then Some (n - 87)
      else if 65 \<le> n \<and> n \<le> 70 then Some (n - 55)
      else None)"

definition hex_number :: "string \<Rightarrow> nat" where
  "hex_number s = foldl (\<lambda>a c. a * 16 + the (hex_value c)) 0 s"

text \<open>The loop over the groups; the first argument counts the groups that still fit.  The result is the
  groups read, the position of the ellipsis and the text left over.\<close>

fun v6_groups ::
  "nat \<Rightarrow> string \<Rightarrow> nat list \<Rightarrow> nat option \<Rightarrow> (nat list \<times> nat option \<times> string) option" where
  "v6_groups 0 s gs ell = Some (gs, ell, s)"
| "v6_groups (Suc n) s gs ell =
     (let h = takeWhile (\<lambda>c. hex_value c \<noteq> None) s; rest = dropWhile (\<lambda>c. hex_value c \<noteq> None) s in
      if length h > 4 \<or> h = [] then None
      else if rest \<noteq> [] \<and> hd rest = CHR ''.'' then
        (if ell = None \<and> length gs \<noteq> 6 then None
         else if length gs + 2 > 8 then None
         else case parseIPv4Fields s 0 0 [] of
           Some [a, b, c, d] \<Rightarrow> Some (gs @ [a * 256 + b, c * 256 + d], ell, [])
         | _ \<Rightarrow> None)
      else let gs' = gs @ [hex_number h] in
        if rest = [] then Some (gs', ell, [])
        else if hd rest \<noteq> CHR '':'' then None
        else if tl rest = [] then None
        else let s' = tl rest in
          if hd s' = CHR '':'' then
            (if ell \<noteq> None then None
             else if tl s' = [] then Some (gs', Some (length gs'), [])
             else v6_groups n (tl s') gs' (Some (length gs')))
          else v6_groups n s' gs' ell)"

definition parseIPv6 :: "string \<Rightarrow> ip option" where
  "parseIPv6 s =
     (if CHR ''%'' \<in> set s then None
      else if s = ''::'' then Some 0
      else let (s1, ell) = (if take 2 s = ''::'' then (drop 2 s, Some 0) else (s, None)) in
        case v6_groups 8 s1 [] ell of
          None \<Rightarrow> None
        | Some (gs, ell', left) \<Rightarrow>
            if left \<noteq> [] then None
            else if length gs < 8 then
              (case ell' of
                 None \<Rightarrow> None
               | Some k \<Rightarrow>
                   Some (word_of_fields 65536 (take k gs @ replicate (8 - length gs) 0 @ drop k gs)))
            else if ell' \<noteq> None then None
            else Some (word_of_fields 65536 gs))"

text \<open>The address with the bit length of its family.\<close>

definition ParseAddr :: "string \<Rightarrow> (ip \<times> nat) option" where
  "ParseAddr s =
     (case dropWhile (\<lambda>c. c \<notin> {CHR ''.'', CHR '':'', CHR ''%''}) s of
        [] \<Rightarrow> None
      | c # _ \<Rightarrow>
          if c = CHR ''.'' then map_option (\<lambda>a. (ip4 a, 32)) (parseIPv4 s)
          else if c = CHR '':'' then map_option (\<lambda>a. (a, 128)) (parseIPv6 s)
          else None)"

text \<open>\<open>dtoi\<close> on a text that it must read completely.\<close>

definition dtoi :: "string \<Rightarrow> nat option" where
  "dtoi s =
     (if s = [] then None
      else case parse_digits 0 s of
        None \<Rightarrow> None
      | Some n \<Rightarrow> if n \<ge> 0xFFFFFF then None else Some n)"

definition ParseCIDR :: "string \<Rightarrow> (ip \<times> IPNet) option" where
  "ParseCIDR s =
     (case split_first (CHR ''/'') s of
        None \<Rightarrow> None
      | Some (addr, mk) \<Rightarrow>
          (case ParseAddr addr of
             None \<Rightarrow> None
           | Some (x, bits) \<Rightarrow>
               (case dtoi mk of
                  None \<Rightarrow> None
                | Some n \<Rightarrow>
                    if n > bits then None
                    else map_option (\<lambda>m. (x, \<lparr>net_IP = m, net_bits = bits, net_ones = n\<rparr>))
                           (IP_Mask x bits n))))"

section \<open>Prefixes\<close>

lemma CIDRMask_nest: "i \<le> j \<Longrightarrow> CIDRMask i AND CIDRMask j = (CIDRMask i :: 'a::len word)"
  by (intro bit_eqI) (auto simp: CIDRMask_def bit_simps)

lemma To4_ip4 [simp]: "To4 (ip4 a) = Some a"
proof -
  have "drop_bit 32 (ip4 a) = mask 16" "ucast (ip4 a) = a"
    unfolding ip4_def by (intro bit_eqI; auto simp: bit_simps dest: bit_imp_le_length)+
  then show ?thesis by (simp add: To4_def)
qed

end
