(* ===== verification/NetworkCIDR.thy ===== *)
theory NetworkCIDR
  imports Prelude GoNet
begin

text \<open>
  The validation of a cluster's networks, \<open>seaplane-api/pkg/validation/network_cidr_validator.go\<close>.

  A network entry is the text of its CIDR, as the \<open>String\<close> method of the HyperShift type gives it; a pod
  network entry also has its 32-bit host prefix.  The texts of error reasons are the values of \<open>reason\<close>, with the
  operands that the code formats.
\<close>

datatype CIDRType = MachineCIDR | ServiceCIDR | PodCIDR

datatype reason =
  ParseFailed CIDRType string
| FormatInvalid CIDRType string
| RangeTooSmall CIDRType string nat
| NotConsistent CIDRType string ip nat
| HostPrefixRange "32 word"
| NotEnoughNodes nat "32 word" int
| Overlap CIDRType IPNet CIDRType IPNet
| ReservedAddress CIDRType

record ValidationError =
  ve_Field :: string
  ve_Reason :: reason

record ClusterNetworkEntry =
  cn_CIDR :: string
  cn_HostPrefix :: "32 word"

record ClusterNetworking =
  nw_MachineNetwork :: "string list"
  nw_ServiceNetwork :: "string list"
  nw_ClusterNetwork :: "ClusterNetworkEntry list"

definition ServiceCIDRSubnetMax :: nat where "ServiceCIDRSubnetMax = 24"
definition PodCIDRSubnetMax :: nat where "PodCIDRSubnetMax = 21"
definition PodNodesMin :: int where "PodNodesMin = 32"
definition HostPrefixMin :: int where "HostPrefixMin = 23"
definition HostPrefixMax :: int where "HostPrefixMax = 26"

definition DefaultHypershiftAdvertiseAddress :: string where
  "DefaultHypershiftAdvertiseAddress = ''172.20.0.1''"

definition cidrTypeToFieldPath :: "CIDRType \<Rightarrow> string" where
  "cidrTypeToFieldPath t =
     (case t of
        MachineCIDR \<Rightarrow> ''spec.hostedCluster.networking.machineNetwork''
      | ServiceCIDR \<Rightarrow> ''spec.hostedCluster.networking.serviceNetwork''
      | PodCIDR \<Rightarrow> ''spec.hostedCluster.networking.clusterNetwork'')"

definition validateCIDRValue :: "string \<Rightarrow> CIDRType \<Rightarrow> reason option" where
  "validateCIDRValue cidr t =
     (let arr = split_on (CHR ''/'') cidr in
      if length arr \<noteq> 2 then Some (FormatInvalid t cidr)
      else case (case t of MachineCIDR \<Rightarrow> None | ServiceCIDR \<Rightarrow> Some ServiceCIDRSubnetMax
                         | PodCIDR \<Rightarrow> Some PodCIDRSubnetMax) of
        None \<Rightarrow> None
      | Some maxValue \<Rightarrow>
          (case parse_int64 (arr ! 1) of
             None \<Rightarrow> Some (FormatInvalid t cidr)
           | Some mCidr \<Rightarrow> if mCidr > int maxValue then Some (RangeTooSmall t cidr maxValue) else None))"

definition parseNetworkCIDR :: "string \<Rightarrow> CIDRType \<Rightarrow> ValidationError + IPNet" where
  "parseNetworkCIDR cidr t =
     (let fail = (\<lambda>r. Inl \<lparr>ve_Field = cidrTypeToFieldPath t, ve_Reason = r\<rparr>) in
      case ParseCIDR cidr of
        None \<Rightarrow> fail (ParseFailed t cidr)
      | Some (address, network) \<Rightarrow>
          (case validateCIDRValue cidr t of
             Some r \<Rightarrow> fail r
           | None \<Rightarrow>
               if IP_Mask address (net_bits network) (net_ones network) \<noteq> Some address
               then fail (NotConsistent t cidr address (net_ones network))
               else Inr network))"

text \<open>\<open>int64(math.Pow(2, float64(e)))\<close>: exact from 0 to 62, zero below, and \<open>conv e\<close> above, where the
  conversion depends on the machine.\<close>

definition pow2_int64 :: "(int \<Rightarrow> int) \<Rightarrow> int \<Rightarrow> int" where
  "pow2_int64 conv e = (if e < 0 then 0 else if e < 63 then 2 ^ nat e else conv e)"

definition validateHostPrefix :: "(int \<Rightarrow> int) \<Rightarrow> 32 word \<Rightarrow> IPNet \<Rightarrow> ValidationError list" where
  "validateHostPrefix conv hostPrefix podNet =
     (if hostPrefix = 0 then []
      else
        (if sint hostPrefix < HostPrefixMin \<or> sint hostPrefix > HostPrefixMax
         then [\<lparr>ve_Field = ''spec.hostedCluster.networking.clusterNetwork.hostPrefix'',
                ve_Reason = HostPrefixRange hostPrefix\<rparr>]
         else []) @
        (let podNodes = pow2_int64 conv (sint (hostPrefix - of_nat (net_ones podNet))) in
         if podNodes < PodNodesMin
         then [\<lparr>ve_Field = ''spec.hostedCluster.networking.clusterNetwork'',
                ve_Reason = NotEnoughNodes (net_ones podNet) hostPrefix podNodes\<rparr>]
         else []))"

text \<open>The loop over the entries of one kind; \<open>after\<close> gives the errors found once an entry has been parsed.\<close>

fun parse_entries ::
  "CIDRType \<Rightarrow> ('a \<Rightarrow> string) \<Rightarrow> ('a \<Rightarrow> IPNet \<Rightarrow> ValidationError list) \<Rightarrow> 'a list \<Rightarrow>
   ValidationError list \<times> IPNet list" where
  "parse_entries t text after [] = ([], [])"
| "parse_entries t text after (e # es) =
     (let (errs, nets) = parse_entries t text after es in
      if text e = [] then (errs, nets)
      else case parseNetworkCIDR (text e) t of
        Inl err \<Rightarrow> (err # errs, nets)
      | Inr n \<Rightarrow> (after e n @ errs, n # nets))"

definition parseNetworks ::
  "(int \<Rightarrow> int) \<Rightarrow> ClusterNetworking \<Rightarrow>
   ValidationError list \<times> IPNet list \<times> IPNet list \<times> IPNet list" where
  "parseNetworks conv nw =
     (let (e1, machineNets) = parse_entries MachineCIDR id (\<lambda>_ _. []) (nw_MachineNetwork nw);
          (e2, serviceNets) = parse_entries ServiceCIDR id (\<lambda>_ _. []) (nw_ServiceNetwork nw);
          (e3, podNets) = parse_entries PodCIDR cn_CIDR (\<lambda>e n. validateHostPrefix conv (cn_HostPrefix e) n)
                            (nw_ClusterNetwork nw)
      in (e1 @ e2 @ e3, machineNets, serviceNets, podNets))"

definition intersect :: "IPNet \<Rightarrow> IPNet \<Rightarrow> bool" where
  "intersect n1 n2 \<longleftrightarrow> Contains n2 (net_IP n1) \<or> Contains n1 (net_IP n2)"

definition cross_overlaps :: "CIDRType \<Rightarrow> IPNet list \<Rightarrow> CIDRType \<Rightarrow> IPNet list \<Rightarrow> ValidationError list" where
  "cross_overlaps t1 ns1 t2 ns2 =
     [\<lparr>ve_Field = ''spec.hostedCluster.networking'', ve_Reason = Overlap t1 n1 t2 n2\<rparr>.
        n1 \<leftarrow> ns1, n2 \<leftarrow> ns2, intersect n1 n2]"

definition self_overlaps :: "CIDRType \<Rightarrow> IPNet list \<Rightarrow> ValidationError list" where
  "self_overlaps t ns =
     [\<lparr>ve_Field = cidrTypeToFieldPath t, ve_Reason = Overlap t (ns ! i) t (ns ! j)\<rparr>.
        i \<leftarrow> [0..<length ns], j \<leftarrow> [0..<length ns], i < j \<and> intersect (ns ! i) (ns ! j)]"

definition validateNetworkOverlaps :: "IPNet list \<Rightarrow> IPNet list \<Rightarrow> IPNet list \<Rightarrow> ValidationError list" where
  "validateNetworkOverlaps machineNets serviceNets podNets =
     cross_overlaps MachineCIDR machineNets ServiceCIDR serviceNets @
     cross_overlaps MachineCIDR machineNets PodCIDR podNets @
     cross_overlaps ServiceCIDR serviceNets PodCIDR podNets @
     self_overlaps MachineCIDR machineNets @ self_overlaps ServiceCIDR serviceNets @
     self_overlaps PodCIDR podNets"

definition reserved_collisions :: "ip \<Rightarrow> CIDRType \<Rightarrow> IPNet list \<Rightarrow> ValidationError list" where
  "reserved_collisions x t ns =
     [\<lparr>ve_Field = cidrTypeToFieldPath t, ve_Reason = ReservedAddress t\<rparr>. n \<leftarrow> ns, Contains n x]"

definition validateHypershiftAPICollision ::
  "IPNet list \<Rightarrow> IPNet list \<Rightarrow> IPNet list \<Rightarrow> ValidationError list" where
  "validateHypershiftAPICollision machineNets serviceNets podNets =
     (case ParseAddr DefaultHypershiftAdvertiseAddress of
        None \<Rightarrow> []
      | Some (x, _) \<Rightarrow>
          reserved_collisions x MachineCIDR machineNets @ reserved_collisions x ServiceCIDR serviceNets @
          reserved_collisions x PodCIDR podNets)"

definition ValidateNetworkCIDRs :: "(int \<Rightarrow> int) \<Rightarrow> ClusterNetworking option \<Rightarrow> ValidationError list" where
  "ValidateNetworkCIDRs conv networking =
     (case networking of
        None \<Rightarrow> []
      | Some nw \<Rightarrow>
          let (errs, machineNets, serviceNets, podNets) = parseNetworks conv nw in
          errs @ validateNetworkOverlaps machineNets serviceNets podNets @
          validateHypershiftAPICollision machineNets serviceNets podNets)"

section \<open>Overlap is sharing an address\<close>

text \<open>Two networks overlap if they have an address in common.\<close>

definition share_address :: "IPNet \<Rightarrow> IPNet \<Rightarrow> bool" where
  "share_address n1 n2 \<longleftrightarrow> (\<exists>x. Contains n1 x \<and> Contains n2 x)"

definition is_cidr_net :: "IPNet \<Rightarrow> bool" where
  "is_cidr_net n \<longleftrightarrow> networkNumberAndMask n \<noteq> NumNil"

lemma prefix_in:
  fixes a b x :: "'a::len word"
  assumes "a AND CIDRMask i = x AND CIDRMask i" "b AND CIDRMask j = x AND CIDRMask j" "i \<le> j"
  shows "a AND CIDRMask i = b AND CIDRMask i"
proof -
  have m: "CIDRMask j AND CIDRMask i = (CIDRMask i :: 'a word)"
    using CIDRMask_nest [OF assms(3), where 'a = 'a] by (simp add: and.commute)
  have "b AND CIDRMask i = (b AND CIDRMask j) AND CIDRMask i" by (simp add: and.assoc m)
  also have "\<dots> = x AND CIDRMask i" unfolding assms(2) by (simp add: and.assoc m)
  finally show ?thesis using assms(1) by simp
qed

text \<open>A network that shares an address with another and has the shorter prefix contains its base.\<close>

lemma shorter_contains_base:
  assumes "Contains n1 x" "Contains n2 x"
  shows "Contains n1 (net_IP n2) \<or> Contains n2 (net_IP n1)"
proof (cases "networkNumberAndMask n1")
  case (Num4 a m)
  obtain i where a: "To4 (net_IP n1) = Some a" "m = CIDRMask i"
    using Num4 by (auto simp: networkNumberAndMask_def split: option.splits if_splits)
  obtain c where x: "To4 x = Some c" "a AND m = c AND m"
    using assms(1) Num4 by (auto simp: Contains_def split: option.splits)
  obtain b j where b: "networkNumberAndMask n2 = Num4 b (CIDRMask j)" "To4 (net_IP n2) = Some b"
      "b AND CIDRMask j = c AND CIDRMask j"
    using assms(2) x(1)
    by (auto simp: Contains_def networkNumberAndMask_def split: option.splits if_splits)
  show ?thesis
    using prefix_in [of a i c b j] prefix_in [of b j c a i] x(2) a b Num4
    by (cases "i \<le> j") (auto simp: Contains_def)
next
  case (Num16 a m)
  obtain i where a: "To4 (net_IP n1) = None" "net_IP n1 = a" "m = CIDRMask i"
    using Num16 by (auto simp: networkNumberAndMask_def split: option.splits if_splits)
  have x: "To4 x = None" "a AND m = x AND m"
    using assms(1) Num16 by (auto simp: Contains_def split: option.splits)
  obtain b j where b: "networkNumberAndMask n2 = Num16 b (CIDRMask j)" "To4 (net_IP n2) = None"
      "net_IP n2 = b" "b AND CIDRMask j = x AND CIDRMask j"
    using assms(2) x(1)
    by (auto simp: Contains_def networkNumberAndMask_def split: option.splits if_splits)
  show ?thesis
    using prefix_in [of a i x b j] prefix_in [of b j x a i] x(2) a b Num16
    by (cases "i \<le> j") (auto simp: Contains_def)
qed (use assms in \<open>simp add: Contains_def\<close>)

lemma Contains_base: "is_cidr_net n \<Longrightarrow> Contains n (net_IP n)"
  by (auto simp: is_cidr_net_def Contains_def networkNumberAndMask_def split: option.splits if_splits)

lemma intersect_iff:
  assumes "is_cidr_net n1" "is_cidr_net n2"
  shows "intersect n1 n2 \<longleftrightarrow> share_address n1 n2"
  using Contains_base [OF assms(1)] Contains_base [OF assms(2)] shorter_contains_base
  by (auto simp: intersect_def share_address_def)

section \<open>Accepted networks\<close>

lemma ParseCIDR_is_net: "ParseCIDR s = Some (x, n) \<Longrightarrow> is_cidr_net n"
  by (auto simp: ParseCIDR_def ParseAddr_def IP_Mask_def is_cidr_net_def networkNumberAndMask_def
      split: option.splits if_splits list.splits)

lemma parse_digits_digit: "parse_digits a s = Some n \<Longrightarrow> c \<in> set s \<Longrightarrow> is_digit c"
  by (induction a s rule: parse_digits.induct) (auto split: if_splits)

lemma dtoi_parse_int64:
  assumes "dtoi s = Some n"
  shows "parse_int64 s = Some (int n) \<and> CHR ''/'' \<notin> set s"
proof -
  have p: "parse_digits 0 s = Some n" "n < 0xFFFFFF" "s \<noteq> []"
    using assms by (auto simp: dtoi_def split: if_splits option.splits)
  obtain c cs where s: "s = c # cs" using p(3) by (cases s) auto
  have "is_digit c" using parse_digits_digit [OF p(1)] by (simp add: s)
  then have c: "c \<noteq> CHR ''-''" "c \<noteq> CHR ''+''" by auto
  have "\<not> is_digit (CHR ''/'')" by (simp add: is_digit_def char_nat_def)
  then have "CHR ''/'' \<notin> set s" using parse_digits_digit [OF p(1)] by blast
  moreover have "parse_int64 s = Some (int n)"
    using p c by (simp add: parse_int64_def s Let_def parse_uint64_def del: parse_digits.simps)
  ultimately show ?thesis by simp
qed

lemma ParseCIDR_split:
  assumes "ParseCIDR s = Some (x, n)"
  shows "\<exists>addr mk. split_on (CHR ''/'') s = [addr, mk] \<and> parse_int64 mk = Some (int (net_ones n)) \<and>
           IP_Mask x (net_bits n) (net_ones n) = Some (net_IP n)"
proof -
  obtain addr mk where s: "split_first (CHR ''/'') s = Some (addr, mk)" "dtoi mk = Some (net_ones n)"
    "IP_Mask x (net_bits n) (net_ones n) = Some (net_IP n)"
    using assms by (auto simp: ParseCIDR_def split: option.splits if_splits)
  have "s = addr @ CHR ''/'' # mk" "CHR ''/'' \<notin> set addr" using split_first_Some [OF s(1)] by auto
  then have "split_on (CHR ''/'') s = [addr, mk]"
    using dtoi_parse_int64 [OF s(2)] by (simp add: split_on_append split_on_no_sep)
  then show ?thesis using s(3) dtoi_parse_int64 [OF s(2)] by auto
qed

text \<open>What an accepted network of each kind is: CIDR notation whose address is the base of the network, with
  a prefix that leaves enough room.\<close>

definition prefix_limit :: "CIDRType \<Rightarrow> nat \<Rightarrow> bool" where
  "prefix_limit t ones \<longleftrightarrow>
     (case t of MachineCIDR \<Rightarrow> True | ServiceCIDR \<Rightarrow> ones \<le> ServiceCIDRSubnetMax | PodCIDR \<Rightarrow> ones \<le> PodCIDRSubnetMax)"

definition denotes :: "CIDRType \<Rightarrow> string \<Rightarrow> IPNet \<Rightarrow> bool" where
  "denotes t cidr n \<longleftrightarrow> ParseCIDR cidr = Some (net_IP n, n) \<and> prefix_limit t (net_ones n)"

lemma parseNetworkCIDR_iff: "parseNetworkCIDR cidr t = Inr n \<longleftrightarrow> denotes t cidr n"
proof (cases "ParseCIDR cidr")
  case (Some p)
  obtain x m where p: "p = (x, m)" by (cases p)
  obtain addr mk where s: "split_on (CHR ''/'') cidr = [addr, mk]" "parse_int64 mk = Some (int (net_ones m))"
    "IP_Mask x (net_bits m) (net_ones m) = Some (net_IP m)"
    using ParseCIDR_split [of cidr x m] Some p by auto
  have "validateCIDRValue cidr t = None \<longleftrightarrow> prefix_limit t (net_ones m)"
    by (cases t) (simp_all add: validateCIDRValue_def s Let_def prefix_limit_def)
  then show ?thesis
    using Some s(3) by (auto simp: parseNetworkCIDR_def denotes_def p Let_def split: option.splits)
qed (simp add: parseNetworkCIDR_def denotes_def Let_def)

definition networks_of :: "string list \<Rightarrow> IPNet list" where
  "networks_of ss = map (\<lambda>s. snd (the (ParseCIDR s))) (filter (\<lambda>s. s \<noteq> []) ss)"

lemma parse_entries_ok:
  "parse_entries t text after es = ([], ns) \<longleftrightarrow>
     (\<forall>e \<in> set es. text e \<noteq> [] \<longrightarrow> (\<exists>n. denotes t (text e) n \<and> after e n = [])) \<and>
     ns = networks_of (map text es)"
proof (induction es arbitrary: ns)
  case (Cons e es)
  obtain errs nets where r: "parse_entries t text after es = (errs, nets)" by fastforce
  show ?case
  proof (cases "text e = []")
    case True
    then show ?thesis using Cons.IH [of ns] r by (simp add: networks_of_def)
  next
    case False
    show ?thesis
    proof (cases "parseNetworkCIDR (text e) t")
      case (Inl err)
      then have "\<not> denotes t (text e) n" for n using parseNetworkCIDR_iff [of "text e" t n] by simp
      then show ?thesis using Inl False r by simp
    next
      case (Inr n)
      then have d: "denotes t (text e) n" using parseNetworkCIDR_iff by blast
      then have u: "denotes t (text e) m \<longleftrightarrow> m = n" for m by (auto simp: denotes_def)
      have n: "snd (the (ParseCIDR (text e))) = n" using d by (simp add: denotes_def)
      show ?thesis using Cons.IH [of "tl ns"] Inr False r u n by (auto simp: networks_of_def)
    qed
  qed
qed (auto simp: networks_of_def)

text \<open>The host prefix of a pod network: none, or between 23 and 26 and at least 5 bits longer than the prefix of
  the network, which leaves room for 32 nodes.\<close>

definition host_prefix_ok :: "32 word \<Rightarrow> IPNet \<Rightarrow> bool" where
  "host_prefix_ok hp n \<longleftrightarrow> hp = 0 \<or> 23 \<le> sint hp \<and> sint hp \<le> 26 \<and> int (net_ones n) + 5 \<le> sint hp"

lemma validateHostPrefix_ok:
  assumes "net_ones n \<le> 128"
  shows "validateHostPrefix conv hp n = [] \<longleftrightarrow> host_prefix_ok hp n"
proof (cases "hp = 0 \<or> sint hp < 23 \<or> 26 < sint hp")
  case False
  have "hp - of_nat (net_ones n) = (word_of_int (sint hp - int (net_ones n)) :: 32 word)" by simp
  then have d: "sint (hp - of_nat (net_ones n)) = sint hp - int (net_ones n)"
    using False assms by (simp only: signed_of_int) (simp add: signed_take_bit_int_eq_self)
  have "pow2_int64 conv (sint hp - int (net_ones n)) < 32 \<longleftrightarrow> sint hp < int (net_ones n) + 5"
  proof (cases "sint hp < int (net_ones n)")
    case nn: False
    define k where "k = nat (sint hp - int (net_ones n))"
    have "sint hp - int (net_ones n) = int k" "k < 63" using nn False by (auto simp: k_def)
    moreover have "(2 :: int) ^ k < 2 ^ 5 \<longleftrightarrow> k < 5" by (rule power_strict_increasing_iff) simp
    ultimately show ?thesis by (simp add: pow2_int64_def) linarith
  qed (simp add: pow2_int64_def)
  then show ?thesis
    using False by (auto simp: validateHostPrefix_def host_prefix_ok_def Let_def d PodNodesMin_def
        HostPrefixMin_def HostPrefixMax_def)
qed (auto simp: validateHostPrefix_def host_prefix_ok_def HostPrefixMin_def HostPrefixMax_def Let_def)

lemma ParseCIDR_ones: "ParseCIDR s = Some (x, n) \<Longrightarrow> net_ones n \<le> 128"
  by (auto simp: ParseCIDR_def ParseAddr_def split: option.splits if_splits list.splits)

lemma cross_overlaps_ok:
  "cross_overlaps t1 ns1 t2 ns2 = [] \<longleftrightarrow> (\<forall>m \<in> set ns1. \<forall>n \<in> set ns2. \<not> intersect m n)"
  by (auto simp: cross_overlaps_def split: if_splits)

lemma self_overlaps_ok: "self_overlaps t ns = [] \<longleftrightarrow> sorted_wrt (\<lambda>m n. \<not> intersect m n) ns"
proof -
  have "set (self_overlaps t ns) = {} \<longleftrightarrow>
      (\<forall>i j. i < j \<longrightarrow> j < length ns \<longrightarrow> \<not> intersect (ns ! i) (ns ! j))"
    by (force simp: self_overlaps_def)
  then show ?thesis by (simp add: sorted_wrt_iff_nth_less)
qed

lemma overlaps_ok:
  "validateNetworkOverlaps ms ss ps = [] \<longleftrightarrow> sorted_wrt (\<lambda>m n. \<not> intersect m n) (ms @ ss @ ps)"
  by (auto simp: validateNetworkOverlaps_def cross_overlaps_ok self_overlaps_ok sorted_wrt_append)

lemma reserved_ip: "ParseAddr DefaultHypershiftAdvertiseAddress = Some (ip4 0xAC140001, 32)"
  by (simp add: ParseAddr_def DefaultHypershiftAdvertiseAddress_def parseIPv4_def word_of_fields_def
      is_digit_def char_nat_def)

lemma reserved_collisions_ok: "reserved_collisions x t ns = [] \<longleftrightarrow> (\<forall>n \<in> set ns. \<not> Contains n x)"
  by (auto simp: reserved_collisions_def split: if_splits)

lemma collision_ok:
  "validateHypershiftAPICollision ms ss ps = [] \<longleftrightarrow> (\<forall>n \<in> set (ms @ ss @ ps). \<not> Contains n (ip4 0xAC140001))"
  unfolding validateHypershiftAPICollision_def reserved_ip
  by (simp add: reserved_collisions_ok ball_Un)

text \<open>The specification: every given text denotes a network of its kind, host prefixes fit, no two networks
  have an address in common, and none contains the address of the API server.\<close>

definition all_networks :: "ClusterNetworking \<Rightarrow> IPNet list" where
  "all_networks nw =
     networks_of (nw_MachineNetwork nw) @ networks_of (nw_ServiceNetwork nw) @
     networks_of (map cn_CIDR (nw_ClusterNetwork nw))"

definition networks_ok :: "ClusterNetworking \<Rightarrow> bool" where
  "networks_ok nw \<longleftrightarrow>
     (\<forall>s \<in> set (nw_MachineNetwork nw). s \<noteq> [] \<longrightarrow> (\<exists>n. denotes MachineCIDR s n)) \<and>
     (\<forall>s \<in> set (nw_ServiceNetwork nw). s \<noteq> [] \<longrightarrow> (\<exists>n. denotes ServiceCIDR s n)) \<and>
     (\<forall>e \<in> set (nw_ClusterNetwork nw). cn_CIDR e \<noteq> [] \<longrightarrow>
        (\<exists>n. denotes PodCIDR (cn_CIDR e) n \<and> host_prefix_ok (cn_HostPrefix e) n)) \<and>
     sorted_wrt (\<lambda>m n. \<not> share_address m n) (all_networks nw) \<and>
     (\<forall>n \<in> set (all_networks nw). \<not> Contains n (ip4 0xAC140001))"

lemma networks_of_are_nets:
  assumes "\<forall>s \<in> set ss. s \<noteq> [] \<longrightarrow> (\<exists>n. denotes t s n)" "n \<in> set (networks_of ss)"
  shows "is_cidr_net n"
  using assms ParseCIDR_is_net by (fastforce simp: networks_of_def denotes_def)

lemma networks_of_disjoint:
  assumes "\<forall>n \<in> set ns. is_cidr_net n"
  shows "sorted_wrt (\<lambda>m n. \<not> intersect m n) ns \<longleftrightarrow> sorted_wrt (\<lambda>m n. \<not> share_address m n) ns"
  using assms by (simp add: sorted_wrt_iff_nth_less) (metis intersect_iff nth_mem order.strict_trans)

definition texts_ok :: "ClusterNetworking \<Rightarrow> bool" where
  "texts_ok nw \<longleftrightarrow>
     (\<forall>s \<in> set (nw_MachineNetwork nw). s \<noteq> [] \<longrightarrow> (\<exists>n. denotes MachineCIDR s n)) \<and>
     (\<forall>s \<in> set (nw_ServiceNetwork nw). s \<noteq> [] \<longrightarrow> (\<exists>n. denotes ServiceCIDR s n)) \<and>
     (\<forall>e \<in> set (nw_ClusterNetwork nw). cn_CIDR e \<noteq> [] \<longrightarrow>
        (\<exists>n. denotes PodCIDR (cn_CIDR e) n \<and> host_prefix_ok (cn_HostPrefix e) n))"

lemma all_networks_are_nets: "texts_ok nw \<Longrightarrow> \<forall>n \<in> set (all_networks nw). is_cidr_net n"
  using networks_of_are_nets [of "nw_MachineNetwork nw" MachineCIDR]
    networks_of_are_nets [of "nw_ServiceNetwork nw" ServiceCIDR]
    networks_of_are_nets [of "map cn_CIDR (nw_ClusterNetwork nw)" PodCIDR]
  by (fastforce simp: texts_ok_def all_networks_def)

lemma host_prefix_checked:
  "denotes t s n \<and> validateHostPrefix conv p n = [] \<longleftrightarrow> denotes t s n \<and> host_prefix_ok p n"
  using ParseCIDR_ones validateHostPrefix_ok by (auto simp: denotes_def)

lemma parseNetworks_ok:
  "parseNetworks conv nw = ([], ms, ss, ps) \<longleftrightarrow>
     texts_ok nw \<and> ms = networks_of (nw_MachineNetwork nw) \<and> ss = networks_of (nw_ServiceNetwork nw) \<and>
     ps = networks_of (map cn_CIDR (nw_ClusterNetwork nw))"
proof -
  have "parseNetworks conv nw = ([], ms, ss, ps) \<longleftrightarrow>
      parse_entries MachineCIDR id (\<lambda>_ _. []) (nw_MachineNetwork nw) = ([], ms) \<and>
      parse_entries ServiceCIDR id (\<lambda>_ _. []) (nw_ServiceNetwork nw) = ([], ss) \<and>
      parse_entries PodCIDR cn_CIDR (\<lambda>e n. validateHostPrefix conv (cn_HostPrefix e) n) (nw_ClusterNetwork nw) =
        ([], ps)"
    by (auto simp: parseNetworks_def Let_def split: prod.splits)
  then show ?thesis
    unfolding parse_entries_ok by (auto simp: texts_ok_def host_prefix_checked)
qed

text \<open>C20: the network validation reports no error exactly for the network configurations that meet the
  specification: its pairwise check of base addresses finds every overlap of address ranges,
  in every list and between the lists, and reports nothing else.\<close>
theorem networks_validated_exactly:
  "ValidateNetworkCIDRs conv (Some nw) = [] \<longleftrightarrow> networks_ok nw"
proof -
  obtain errs ms ss ps where r: "parseNetworks conv nw = (errs, ms, ss, ps)" by (metis prod_cases4)
  have v: "ValidateNetworkCIDRs conv (Some nw) = [] \<longleftrightarrow>
      errs = [] \<and> sorted_wrt (\<lambda>m n. \<not> intersect m n) (ms @ ss @ ps) \<and>
      (\<forall>n \<in> set (ms @ ss @ ps). \<not> Contains n (ip4 0xAC140001))"
    by (simp add: ValidateNetworkCIDRs_def r overlaps_ok collision_ok)
  have ok: "networks_ok nw \<longleftrightarrow> texts_ok nw \<and> sorted_wrt (\<lambda>m n. \<not> share_address m n) (all_networks nw) \<and>
      (\<forall>n \<in> set (all_networks nw). \<not> Contains n (ip4 0xAC140001))"
    unfolding networks_ok_def texts_ok_def by blast
  show ?thesis
  proof (cases "errs = []")
    case True
    then have p: "texts_ok nw" "ms @ ss @ ps = all_networks nw"
      using parseNetworks_ok [of conv nw ms ss ps] r by (auto simp: all_networks_def)
    show ?thesis
      unfolding v ok p(2) networks_of_disjoint [OF all_networks_are_nets [OF p(1)]] using True p(1) by blast
  next
    case False
    then have "\<not> texts_ok nw" using parseNetworks_ok [of conv nw] r by auto
    then show ?thesis using v ok False by blast
  qed
qed

end
