(* ===== verification/RateLimit.thy ===== *)
theory RateLimit
  imports Prelude GoLib "HOL-Library.Signed_Division"
begin

text \<open>
  Rate limiting of the API, \<open>seaplane-api/pkg/ratelimit\<close>: the configuration with its defaults, the choice of
  a limit for a route, the in-memory limiter and the middleware.

  Clock readings and durations are nanoseconds.  Products of durations wrap around at 64 bits and
  differences of clock readings saturate, as in Go.  The text of the configuration file has been decoded, so \<open>LoadConfig\<close> starts
  from the decoded values.
\<close>

section \<open>Configuration\<close>

record RouteLimit =
  rl_Path :: string
  rl_Method :: string
  rl_Rate :: int
  rl_Burst :: int
  rl_Window :: int

record RateConfig =
  rc_Enabled :: bool
  rc_ExemptAccounts :: "string list"
  rc_RedisTimeout :: int
  rc_Default :: RouteLimit
  rc_Routes :: "RouteLimit list"

definition wrap64 :: "int \<Rightarrow> int" where
  "wrap64 x = (x + 2 ^ 63) mod 2 ^ 64 - 2 ^ 63"

datatype config_error =
  DefaultRateNegative int
| DefaultBurstNegative int
| DefaultWindowNegative int
| RouteRate nat string string
| RouteBurst nat string string
| RouteWindow nat string string

definition load_default :: "RouteLimit \<Rightarrow> config_error + RouteLimit" where
  "load_default d =
     (if rl_Rate d < 0 then Inl (DefaultRateNegative (rl_Rate d))
      else let rate = (if rl_Rate d = 0 then 100 else rl_Rate d) in
        if rl_Burst d < 0 then Inl (DefaultBurstNegative (rl_Burst d))
        else let burst = (if rl_Burst d = 0 then wrap64 (rate * 2) else rl_Burst d) in
          if rl_Window d < 0 then Inl (DefaultWindowNegative (rl_Window d))
          else Inr (d\<lparr>rl_Rate := rate, rl_Burst := burst,
                      rl_Window := (if rl_Window d = 0 then 1 else rl_Window d)\<rparr>))"

definition load_route :: "int \<Rightarrow> nat \<Rightarrow> RouteLimit \<Rightarrow> config_error + RouteLimit" where
  "load_route window i r =
     (if rl_Rate r \<le> 0 then Inl (RouteRate i (rl_Method r) (rl_Path r))
      else if rl_Burst r < 0 then Inl (RouteBurst i (rl_Method r) (rl_Path r))
      else if rl_Window r < 0 then Inl (RouteWindow i (rl_Method r) (rl_Path r))
      else Inr (r\<lparr>rl_Burst := (if rl_Burst r = 0 then wrap64 (rl_Rate r * 2) else rl_Burst r),
                  rl_Window := (if rl_Window r = 0 then window else rl_Window r)\<rparr>))"

fun load_routes :: "int \<Rightarrow> nat \<Rightarrow> RouteLimit list \<Rightarrow> config_error + RouteLimit list" where
  "load_routes window i [] = Inr []"
| "load_routes window i (r # rs) =
     sbind (load_route window i r) (\<lambda>r'. sbind (load_routes window (i + 1) rs) (\<lambda>rs'. Inr (r' # rs')))"

definition LoadConfig :: "RateConfig \<Rightarrow> config_error + RateConfig" where
  "LoadConfig c =
     sbind (load_default (rc_Default c)) (\<lambda>d.
     sbind (load_routes (rl_Window d) 0 (rc_Routes c)) (\<lambda>rs.
       Inr (c\<lparr>rc_Default := d, rc_Routes := rs,
              rc_RedisTimeout := (if rc_RedisTimeout c \<le> 0 then 20 else rc_RedisTimeout c)\<rparr>)))"

definition NewDefaultConfig :: "int \<Rightarrow> int \<Rightarrow> int \<Rightarrow> RateConfig" where
  "NewDefaultConfig rate burst window =
     (let rate = (if rate \<le> 0 then 100 else rate);
          burst = (if burst \<le> 0 then wrap64 (rate * 2) else burst);
          window = (if window \<le> 0 then 1 else window)
      in \<lparr>rc_Enabled = True, rc_ExemptAccounts = [], rc_RedisTimeout = 20,
          rc_Default = \<lparr>rl_Path = [], rl_Method = [], rl_Rate = rate, rl_Burst = burst, rl_Window = window\<rparr>,
          rc_Routes = []\<rparr>)"

definition isExempt :: "RateConfig \<Rightarrow> string \<Rightarrow> bool" where
  "isExempt c accountID \<longleftrightarrow> accountID \<in> set (rc_ExemptAccounts c)"

section \<open>Routes\<close>

definition trim_char :: "char \<Rightarrow> string \<Rightarrow> string" where
  "trim_char c s = rev (dropWhile (\<lambda>x. x = c) (rev (dropWhile (\<lambda>x. x = c) s)))"

fun match_parts :: "string list \<Rightarrow> string list \<Rightarrow> bool" where
  "match_parts (p # ps) (x # xs) =
     (if p = ''*'' then (if x = [] then False else match_parts ps xs)
      else if p \<noteq> x then False else match_parts ps xs)"
| "match_parts ps xs = True"

definition matchPath :: "string \<Rightarrow> string \<Rightarrow> bool" where
  "matchPath pat path =
     (let patternParts = split_on (CHR ''/'') (trim_char (CHR ''/'') pat);
          pathParts = split_on (CHR ''/'') (trim_char (CHR ''/'') path)
      in if length patternParts \<noteq> length pathParts then False else match_parts patternParts pathParts)"

definition findLimit :: "RateConfig \<Rightarrow> string \<Rightarrow> string \<Rightarrow> RouteLimit" where
  "findLimit c meth path =
     (case filter (\<lambda>r. to_lower (rl_Method r) = to_lower meth \<and> matchPath (rl_Path r) path) (rc_Routes c) of
        r # _ \<Rightarrow> r
      | [] \<Rightarrow> \<lparr>rl_Path = ''default'', rl_Method = [], rl_Rate = rl_Rate (rc_Default c),
              rl_Burst = rl_Burst (rc_Default c), rl_Window = rl_Window (rc_Default c)\<rparr>)"

section \<open>The in-memory limiter\<close>

record Limit =
  li_Rate :: int
  li_Burst :: int
  li_Period :: int

record Result =
  re_Allowed :: int
  re_Remaining :: int
  re_RetryAfter :: int
  re_ResetAfter :: int

datatype panic = DivideByZero

type_synonym tats = "string \<rightharpoonup> int"

definition sat64 :: "int \<Rightarrow> int" where
  "sat64 x = max (- (2 ^ 63)) (min (2 ^ 63 - 1) x)"

definition cleanup :: "int \<Rightarrow> tats \<Rightarrow> tats" where
  "cleanup now m = (\<lambda>k. case m k of None \<Rightarrow> None | Some tat \<Rightarrow> if tat < now then None else Some tat)"

text \<open>A division by zero panics; the second one after the entry has been written.\<close>

definition Allow :: "int \<Rightarrow> string \<Rightarrow> Limit \<Rightarrow> tats \<Rightarrow> (panic + Result) \<times> tats" where
  "Allow now key limit m =
     (if li_Rate limit = 0 then (Inl DivideByZero, m)
      else
        let emissionInterval = wrap64 (li_Period limit sdiv li_Rate limit);
            burstOffset = wrap64 (emissionInterval * li_Burst limit);
            tat = (case m key of None \<Rightarrow> now | Some t \<Rightarrow> if t < now then now else t);
            newTAT = tat + emissionInterval;
            allowAt = newTAT + wrap64 (- burstOffset);
            diff = sat64 (now - allowAt)
        in if diff < 0 then
             (Inr \<lparr>re_Allowed = 0, re_Remaining = 0, re_RetryAfter = sat64 (allowAt - now),
                   re_ResetAfter = max 0 (sat64 (tat - now))\<rparr>, m)
           else
             let m' = m(key \<mapsto> newTAT) in
             if emissionInterval = 0 then (Inl DivideByZero, m')
             else (Inr \<lparr>re_Allowed = 1,
                        re_Remaining = min (li_Burst limit) (wrap64 (diff sdiv emissionInterval)),
                        re_RetryAfter = - 1, re_ResetAfter = max 0 (sat64 (newTAT - now))\<rparr>,
                   cleanup now m'))"

section \<open>The middleware\<close>

text \<open>\<open>math.Ceil\<close> of a duration in seconds.\<close>

definition ceil_seconds :: "int \<Rightarrow> int" where
  "ceil_seconds d = - ((- d) div 10 ^ 9)"

datatype rl_outcome =
  Served "(string \<times> string) list" \<comment> \<open>the next handler runs, with these headers set\<close>
| TooManyRequests int "(string \<times> string) list"
| Panicked

definition rl_key :: "string \<Rightarrow> string \<Rightarrow> string \<Rightarrow> string" where
  "rl_key callerID meth path = ''rl:'' @ callerID @ '':'' @ meth @ '':'' @ path"

definition rl_Limit :: "RouteLimit \<Rightarrow> Limit" where
  "rl_Limit limit =
     \<lparr>li_Rate = rl_Rate limit, li_Burst = rl_Burst limit, li_Period = wrap64 (rl_Window limit * 10 ^ 9)\<rparr>"

text \<open>What the middleware does with the answer of the limiter; a failed call (\<open>None\<close>) lets the request pass.\<close>

definition rl_answer :: "RouteLimit \<Rightarrow> panic + Result option \<Rightarrow> rl_outcome" where
  "rl_answer limit res =
     (case res of
        Inl p \<Rightarrow> Panicked
      | Inr None \<Rightarrow> Served []
      | Inr (Some r) \<Rightarrow>
          let hs = [(''X-RateLimit-Limit'', format_int (rl_Rate limit)),
                    (''X-RateLimit-Remaining'', format_int (re_Remaining r)),
                    (''X-RateLimit-Reset'', format_int (ceil_seconds (re_ResetAfter r)))]
          in if re_Allowed r = 0 then
               let retryAfter = max (ceil_seconds (re_RetryAfter r)) 1 in
               TooManyRequests retryAfter (hs @ [(''Retry-After'', format_int retryAfter)])
             else Served hs)"

text \<open>The middleware over any backend: \<open>allow\<close> is the call of the limiter.\<close>

definition Middleware ::
  "RateConfig \<Rightarrow> (string \<Rightarrow> Limit \<Rightarrow> 'm \<Rightarrow> (panic + Result option) \<times> 'm) \<Rightarrow>
   string \<Rightarrow> string \<Rightarrow> string \<Rightarrow> 'm \<Rightarrow> rl_outcome \<times> 'm" where
  "Middleware c allow callerID meth path m =
     (if \<not> rc_Enabled c then (Served [], m)
      else if callerID = [] then (Served [], m)
      else if isExempt c callerID then (Served [], m)
      else
        let limit = findLimit c meth path;
            (res, m') = allow (rl_key callerID meth (rl_Path limit)) (rl_Limit limit) m
        in (rl_answer limit res, m'))"

definition local_allow :: "int \<Rightarrow> string \<Rightarrow> Limit \<Rightarrow> tats \<Rightarrow> (panic + Result option) \<times> tats" where
  "local_allow now key limit m = (case Allow now key limit m of (r, m') \<Rightarrow> (map_sum id Some r, m'))"

section \<open>Isolation of callers\<close>

text \<open>A request as the middleware sees it: the clock reading, the caller's account, the method and the path; and
  a sequence of requests.\<close>

type_synonym rl_request = "int \<times> string \<times> string \<times> string"

definition rl_caller :: "rl_request \<Rightarrow> string" where
  "rl_caller r = fst (snd r)"

definition request ::
  "RateConfig \<Rightarrow> (int \<Rightarrow> string \<Rightarrow> Limit \<Rightarrow> 'm \<Rightarrow> (panic + Result option) \<times> 'm) \<Rightarrow>
   rl_request \<Rightarrow> 'm \<Rightarrow> rl_outcome \<times> 'm" where
  "request c allow r m = (case r of (t, callerID, meth, path) \<Rightarrow> Middleware c (allow t) callerID meth path m)"

fun requests ::
  "RateConfig \<Rightarrow> (int \<Rightarrow> string \<Rightarrow> Limit \<Rightarrow> 'm \<Rightarrow> (panic + Result option) \<times> 'm) \<Rightarrow>
   rl_request list \<Rightarrow> 'm \<Rightarrow> (rl_request \<times> rl_outcome) list" where
  "requests c allow [] m = []"
| "requests c allow (r # rs) m = (case request c allow r m of (out, m') \<Rightarrow> (r, out) # requests c allow rs m')"

lemma rl_key_caller:
  assumes "rl_key a meth path = rl_key b meth' path'" "CHR '':'' \<notin> set a" "CHR '':'' \<notin> set b"
  shows "a = b"
proof -
  have "split_first (CHR '':'') (a @ CHR '':'' # meth @ '':'' @ path) =
      split_first (CHR '':'') (b @ CHR '':'' # meth' @ '':'' @ path')"
    using assms(1) by (simp add: rl_key_def)
  then show ?thesis using assms(2,3) by simp
qed

text \<open>What the middleware relies on in a limiter: the answer for a key depends on a budget of that key only, and a
  call for another key leaves that budget alone.\<close>

locale rate_limiter =
  fixes allow :: "int \<Rightarrow> string \<Rightarrow> Limit \<Rightarrow> 'm \<Rightarrow> (panic + Result option) \<times> 'm"
    and budget :: "'m \<Rightarrow> string \<Rightarrow> int \<Rightarrow> 'b"
  assumes answer: "budget m k t = budget m' k t \<Longrightarrow> fst (allow t k l m) = fst (allow t k l m')"
    and spend: "budget m k t = budget m' k t \<Longrightarrow>
      budget (snd (allow t k l m)) k t = budget (snd (allow t k l m')) k t"
    and frame: "k' \<noteq> k \<Longrightarrow> budget (snd (allow t k l m)) k' t = budget m k' t"
    and later: "budget m k t = budget m' k t \<Longrightarrow> t \<le> t' \<Longrightarrow> budget m k t' = budget m' k t'"
begin

text \<open>The budgets of all keys of one caller.\<close>

definition same_budgets :: "string \<Rightarrow> int \<Rightarrow> 'm \<Rightarrow> 'm \<Rightarrow> bool" where
  "same_budgets a t m m' \<longleftrightarrow> (\<forall>meth path. budget m (rl_key a meth path) t = budget m' (rl_key a meth path) t)"

lemma request_own:
  assumes "same_budgets a t m m'"
  shows "fst (request c allow (t, a, meth, path) m) = fst (request c allow (t, a, meth, path) m') \<and>
         same_budgets a t (snd (request c allow (t, a, meth, path) m)) (snd (request c allow (t, a, meth, path) m'))"
proof -
  let ?k = "rl_key a meth (rl_Path (findLimit c meth path))"
  let ?l = "rl_Limit (findLimit c meth path)"
  have b: "budget m ?k t = budget m' ?k t" using assms by (simp add: same_budgets_def)
  have s: "same_budgets a t (snd (allow t ?k ?l m)) (snd (allow t ?k ?l m'))"
    unfolding same_budgets_def
  proof (intro allI)
    fix meth' path'
    show "budget (snd (allow t ?k ?l m)) (rl_key a meth' path') t =
        budget (snd (allow t ?k ?l m')) (rl_key a meth' path') t"
      using spend [OF b] frame assms by (cases "rl_key a meth' path' = ?k") (auto simp: same_budgets_def)
  qed
  obtain res n where n: "allow t ?k ?l m = (res, n)" by fastforce
  obtain n' where n': "allow t ?k ?l m' = (res, n')"
    using answer [OF b, of ?l] n by (metis fst_conv prod.collapse)
  show ?thesis
    using s assms by (auto simp: request_def Middleware_def n n' Let_def)
qed

lemma request_other:
  assumes "\<And>meth path meth' path'. rl_key a meth path \<noteq> rl_key b meth' path'"
  shows "same_budgets a t (snd (request c allow (t, b, meth, path) m)) m"
  using assms frame [of "rl_key a _ _" "rl_key b meth (rl_Path (findLimit c meth path))"]
  by (simp add: same_budgets_def request_def Middleware_def Let_def split_beta)

lemma same_budgets_later: "same_budgets a t m m' \<Longrightarrow> t \<le> t' \<Longrightarrow> same_budgets a t' m m'"
  unfolding same_budgets_def by (blast intro: later)

lemma requests_isolated:
  assumes "sorted (t0 # map fst rs)" "same_budgets a t0 m m'"
    "\<forall>r \<in> set rs. CHR '':'' \<notin> set (rl_caller r)" "CHR '':'' \<notin> set a"
  shows "filter (\<lambda>(r, out). rl_caller r = a) (requests c allow rs m) =
         requests c allow (filter (\<lambda>r. rl_caller r = a) rs) m'"
  using assms
proof (induction rs arbitrary: t0 m m')
  case (Cons r rs)
  obtain t b meth path where r: "r = (t, b, meth, path)" by (cases r)
  have s: "same_budgets a t m m'"
    using Cons.prems(1) same_budgets_later [OF Cons.prems(2)] by (simp add: r)
  have rest: "sorted (t # map fst rs)" "\<forall>r \<in> set rs. CHR '':'' \<notin> set (rl_caller r)"
    using Cons.prems by (auto simp: r)
  obtain out n where n: "request c allow r m = (out, n)" by fastforce
  show ?case
  proof (cases "b = a")
    case True
    define n' where "n' = snd (request c allow r m')"
    have n': "request c allow r m' = (out, n')" "same_budgets a t n n'"
      using request_own [OF s, of c meth path] n by (simp_all add: n'_def r True prod_eq_iff)
    have "filter (\<lambda>(r, out). rl_caller r = a) (requests c allow rs n) =
        requests c allow (filter (\<lambda>r. rl_caller r = a) rs) n'"
      by (rule Cons.IH [OF rest(1) n'(2) rest(2) Cons.prems(4)])
    then show ?thesis using True n n'(1) by (simp add: r rl_caller_def)
  next
    case False
    have "CHR '':'' \<notin> set b" using Cons.prems(3) by (simp add: r rl_caller_def)
    then have "rl_key a meth path \<noteq> rl_key b meth' path'" for meth path meth' path'
      using rl_key_caller Cons.prems(4) False by blast
    from request_other [OF this, of t c meth path m] have "same_budgets a t n m'"
      using s n by (simp add: same_budgets_def r)
    then have "filter (\<lambda>(r, out). rl_caller r = a) (requests c allow rs n) =
        requests c allow (filter (\<lambda>r. rl_caller r = a) rs) m'"
      by (rule Cons.IH [OF rest(1) _ rest(2) Cons.prems(4)])
    then show ?thesis using False n by (simp add: r rl_caller_def)
  qed
qed simp

end

text \<open>For the in-memory limiter the budget of a key is its theoretical arrival time, not earlier than now.\<close>

definition eff :: "tats \<Rightarrow> string \<Rightarrow> int \<Rightarrow> int" where
  "eff m k t = (case m k of None \<Rightarrow> t | Some x \<Rightarrow> max x t)"

lemma eff_cleanup: "eff (cleanup t m) k t = eff m k t"
  by (auto simp: eff_def cleanup_def split: option.split)

lemma eff_upd: "eff (m(k \<mapsto> x)) k' t = (if k' = k then max x t else eff m k' t)"
  by (simp add: eff_def)

lemma eff_later: "t \<le> t' \<Longrightarrow> eff m k t' = max (eff m k t) t'"
  by (auto simp: eff_def split: option.split)

text \<open>The limiter in terms of the budget.\<close>

definition gcra :: "int \<Rightarrow> Limit \<Rightarrow> int \<Rightarrow> (panic + Result) \<times> int" where
  "gcra now l tat =
     (let (r, m) = Allow now [] l [[] \<mapsto> tat] in (r, eff m [] now))"

lemma Allow_gcra:
  "fst (Allow now k l m) = fst (gcra now l (eff m k now)) \<and>
   eff (snd (Allow now k l m)) k now = snd (gcra now l (eff m k now))"
proof -
  have t: "(case m k of None \<Rightarrow> now | Some t \<Rightarrow> if t < now then now else t) = eff m k now"
    by (auto simp: eff_def split: option.split)
  have e: "\<not> eff m k now < now" "max (eff m k now) now = eff m k now"
    by (auto simp: eff_def split: option.split)
  show ?thesis
    unfolding gcra_def Allow_def t
    by (simp add: Let_def e eff_cleanup eff_upd split_beta)
qed

lemma Allow_frame: "k' \<noteq> k \<Longrightarrow> eff (snd (Allow now k l m)) k' now = eff m k' now"
  unfolding Allow_def by (simp add: Let_def eff_cleanup eff_upd)

interpretation local_limiter: rate_limiter local_allow eff
proof unfold_locales
  fix m m' :: tats and k k' t t' l
  show "fst (local_allow t k l m) = fst (local_allow t k l m')" if "eff m k t = eff m' k t"
    using Allow_gcra [of t k l m] Allow_gcra [of t k l m'] that by (simp add: local_allow_def split_beta)
  show "eff (snd (local_allow t k l m)) k t = eff (snd (local_allow t k l m')) k t" if "eff m k t = eff m' k t"
    using Allow_gcra [of t k l m] Allow_gcra [of t k l m'] that by (simp add: local_allow_def split_beta)
  show "eff (snd (local_allow t k l m)) k' t = eff m k' t" if "k' \<noteq> k"
    using Allow_frame [OF that] by (simp add: local_allow_def split_beta)
  show "eff m k t' = eff m' k t'" if "eff m k t = eff m' k t" "t \<le> t'"
    using that by (simp add: eff_later)
qed

section \<open>Conformance\<close>

text \<open>Limits that the arithmetic of the limiter is made for: a rate of at most one request per nanosecond, and a burst
  whose duration fits 64 bits.\<close>

definition interval :: "Limit \<Rightarrow> int" where
  "interval l = li_Period l div li_Rate l"

definition limit_ok :: "Limit \<Rightarrow> bool" where
  "limit_ok l \<longleftrightarrow> 0 < li_Rate l \<and> li_Rate l \<le> li_Period l \<and> li_Period l < 2 ^ 63 \<and> 1 \<le> li_Burst l \<and>
     interval l * li_Burst l < 2 ^ 63"

lemma wrap64_id: "- (2 ^ 63) \<le> x \<Longrightarrow> x < 2 ^ 63 \<Longrightarrow> wrap64 x = x"
  unfolding wrap64_def by (subst mod_pos_pos_trivial) auto

lemma sat64_neg: "sat64 x < 0 \<longleftrightarrow> x < 0"
  by (auto simp: sat64_def)

lemma interval_bounds:
  assumes "limit_ok l"
  shows "1 \<le> interval l" "interval l < 2 ^ 63"
proof -
  have r: "0 < li_Rate l" "li_Rate l \<le> li_Period l" "li_Period l < 2 ^ 63"
    using assms by (auto simp: limit_ok_def)
  show "1 \<le> interval l" using r by (simp add: interval_def pos_imp_zdiv_pos_iff int_one_le_iff_zero_less)
  have "interval l \<le> li_Period l" using r zdiv_mono2 [of "li_Period l" 1 "li_Rate l"] by (simp add: interval_def)
  then show "interval l < 2 ^ 63" using r(3) by simp
qed

text \<open>The limiter on such limits: a request is admitted if the arrival time that it would leave behind is at most a burst
  ahead of the clock.\<close>

lemma Allow_cases:
  assumes "limit_ok l" and T: "T = interval l" and tat: "tat = eff m k now"
  shows "now < tat + T - T * li_Burst l \<Longrightarrow>
      (\<exists>reset. Allow now k l m =
        (Inr \<lparr>re_Allowed = 0, re_Remaining = 0, re_RetryAfter = sat64 (tat + T - T * li_Burst l - now),
              re_ResetAfter = reset\<rparr>, m))"
    and "tat + T - T * li_Burst l \<le> now \<Longrightarrow>
      (\<exists>left reset. Allow now k l m =
        (Inr \<lparr>re_Allowed = 1, re_Remaining = left, re_RetryAfter = - 1, re_ResetAfter = reset\<rparr>,
         cleanup now (m(k \<mapsto> tat + T))))"
proof -
  have r: "0 < li_Rate l" "0 < li_Period l" "1 \<le> li_Burst l" "T * li_Burst l < 2 ^ 63" "1 \<le> T" "T < 2 ^ 63"
    using assms interval_bounds [OF assms(1)] by (auto simp: limit_ok_def)
  have p: "- (2 ^ 63) \<le> T * li_Burst l" "- (2 ^ 63) \<le> - (T * li_Burst l)" "- (T * li_Burst l) < 2 ^ 63"
    using r(4) mult_nonneg_nonneg [of T "li_Burst l"] r(3,5) by linarith+
  have q: "li_Period l sdiv li_Rate l = T"
    using r(1,2) by (simp add: T interval_def signed_divide_int_def)
  have e: "wrap64 (li_Period l sdiv li_Rate l) = T" unfolding q using r by (intro wrap64_id) auto
  have b: "wrap64 (T * li_Burst l) = T * li_Burst l" using r(4) p by (intro wrap64_id)
  have n: "wrap64 (- (T * li_Burst l)) = - (T * li_Burst l)" using p by (intro wrap64_id)
  have t: "(case m k of None \<Rightarrow> now | Some t \<Rightarrow> if t < now then now else t) = tat"
    by (auto simp: eff_def tat split: option.split)
  have nz: "li_Rate l \<noteq> 0" "T \<noteq> 0" using r by auto
  note u = Allow_def e b n t Let_def sat64_neg nz
  show "\<exists>reset. Allow now k l m =
      (Inr \<lparr>re_Allowed = 0, re_Remaining = 0, re_RetryAfter = sat64 (tat + T - T * li_Burst l - now),
            re_ResetAfter = reset\<rparr>, m)" if "now < tat + T - T * li_Burst l"
    using that by (simp add: u)
  show "\<exists>left reset. Allow now k l m =
      (Inr \<lparr>re_Allowed = 1, re_Remaining = left, re_RetryAfter = - 1, re_ResetAfter = reset\<rparr>,
       cleanup now (m(k \<mapsto> tat + T)))" if "tat + T - T * li_Burst l \<le> now"
    using that by (simp add: u)
qed

type_synonym rl_call = "int \<times> string \<times> Limit"

fun calls :: "rl_call list \<Rightarrow> tats \<Rightarrow> (rl_call \<times> (panic + Result)) list \<times> tats" where
  "calls [] m = ([], m)"
| "calls ((t, k, l) # cs) m =
     (let (r, m') = Allow t k l m; (rs, m'') = calls cs m' in (((t, k, l), r) # rs, m''))"

definition admitted :: "string \<Rightarrow> rl_call \<times> (panic + Result) \<Rightarrow> bool" where
  "admitted k c = (case c of ((t, k', l), Inr r) \<Rightarrow> k' = k \<and> re_Allowed r = 1 | _ \<Rightarrow> False)"

lemma calls_bound:
  assumes "limit_ok l" "\<forall>(t, k', l') \<in> set cs. k' = k \<longrightarrow> l' = l"
    "sorted (t # map fst cs)" "\<forall>c \<in> set cs. fst c \<le> t1" "base \<le> eff m k t"
    "n = length (filter (admitted k) (fst (calls cs m)))" "0 < n"
  shows "base + int n * interval l \<le> t1 + interval l * li_Burst l"
  using assms(2-)
proof (induction cs arbitrary: t base m n)
  case (Cons c cs)
  obtain t' k' l' where c: "c = (t', k', l')" by (cases c)
  obtain r m' where a: "Allow t' k' l' m = (r, m')" by fastforce
  let ?n = "length (filter (admitted k) (fst (calls cs m')))"
  have t': "t \<le> t'" "t' \<le> t1" "sorted (t' # map fst cs)" using Cons.prems(2,3) by (auto simp: c)
  have base: "base \<le> eff m k t'" using Cons.prems(4) t'(1) by (simp add: eff_later)
  have rest: "\<forall>(t, k', l') \<in> set cs. k' = k \<longrightarrow> l' = l" "\<forall>c \<in> set cs. fst c \<le> t1" using Cons.prems(1,3) by auto
  have n: "n = (if admitted k ((t', k', l'), r) then Suc ?n else ?n)"
    using Cons.prems(5) by (simp add: c a Let_def split_beta)
  note IH = Cons.IH [OF rest(1) t'(3) rest(2) _ refl]
  show ?case
  proof (cases "k' = k \<and> eff m k t' + interval l - interval l * li_Burst l \<le> t'")
    case True
    then have l: "l' = l" using Cons.prems(1) by (simp add: c)
    obtain left reset where ok: "r = Inr \<lparr>re_Allowed = 1, re_Remaining = left, re_RetryAfter = - 1,
        re_ResetAfter = reset\<rparr>" "m' = cleanup t' (m(k \<mapsto> eff m k t' + interval l))"
      using Allow_cases(2) [OF assms(1) refl refl, where m = m and k = k and now = t'] a True l by auto
    have e: "base + interval l \<le> eff m' k t'" using base by (simp add: ok eff_cleanup eff_upd)
    have "n = Suc ?n" using n True by (simp add: ok admitted_def)
    then show ?thesis
      using IH [OF e] True base t'(2) by (cases "?n = 0") (auto simp: algebra_simps)
  next
    case False
    have "\<not> admitted k ((t', k', l'), r) \<and> eff m' k t' = eff m k t'"
    proof (cases "k' = k")
      case True
      then show ?thesis
        using Allow_cases(1) [OF assms(1) refl refl, where m = m and k = k and now = t'] a False Cons.prems(1)
        by (auto simp: c admitted_def)
    next
      case False
      then show ?thesis using Allow_frame [of k k' t' l' m] a by (auto simp: admitted_def split: sum.split)
    qed
    then show ?thesis using IH [of base] base n Cons.prems(6) by auto
  qed
qed simp

text \<open>C24: the in-memory limiter enforces its rate.  Of the calls for one key that arrive in a time span, however
  they are interleaved with calls for other keys, it admits at most a burst plus one call per
  emission interval of the span; and this holds whatever the limiter had recorded before.\<close>
theorem rate_is_bounded:
  assumes "limit_ok l" "\<forall>(t, k', l') \<in> set cs. k' = k \<longrightarrow> l' = l"
    and "sorted (map fst cs)" "\<forall>c \<in> set cs. t0 \<le> fst c \<and> fst c \<le> t1" "t0 \<le> t1"
    and "n = length (filter (admitted k) (fst (calls cs m)))"
  shows "int n \<le> li_Burst l + (t1 - t0) div interval l"
proof (cases "n = 0")
  case True
  then show ?thesis
    using assms(1,5) interval_bounds(1) [OF assms(1)]
    by (simp add: limit_ok_def pos_imp_zdiv_nonneg_iff)
next
  case False
  have T: "0 < interval l" using interval_bounds(1) [OF assms(1)] by simp
  have "t0 \<le> eff m k t0" by (simp add: eff_def split: option.split)
  then have "t0 + int n * interval l \<le> t1 + interval l * li_Burst l"
    using calls_bound [OF assms(1,2), of t0 t1 t0 m n] assms(3,4,6) False by auto
  then have "(int n - li_Burst l) * interval l \<le> t1 - t0" by (simp add: algebra_simps)
  then have "int n - li_Burst l \<le> (t1 - t0) div interval l"
    using T zdiv_mono1 [of "(int n - li_Burst l) * interval l" "t1 - t0" "interval l"] by simp
  then show ?thesis by simp
qed

definition ex_limit :: Limit where
  "ex_limit = \<lparr>li_Rate = 2, li_Burst = 2, li_Period = 1000\<rparr>"

theorem rate_is_bounded_witness:
  "length (filter (admitted ''a'') (fst (calls [(0, ''a'', ex_limit), (1, ''b'', ex_limit), (2, ''a'', ex_limit),
     (3, ''a'', ex_limit), (999, ''a'', ex_limit)] Map.empty))) \<le> 3"
proof -
  let ?cs = "[(0, ''a'', ex_limit), (1, ''b'', ex_limit), (2, ''a'', ex_limit), (3, ''a'', ex_limit),
    (999, ''a'', ex_limit)]"
  have "limit_ok ex_limit" by (simp add: limit_ok_def ex_limit_def interval_def)
  then have "int (length (filter (admitted ''a'') (fst (calls ?cs Map.empty)))) \<le> li_Burst ex_limit + 999 div interval ex_limit"
    using rate_is_bounded [of ex_limit ?cs "''a''" 0 999 _ Map.empty] by simp
  then show ?thesis by (simp add: ex_limit_def interval_def)
qed

text \<open>C25: one caller's traffic cannot use up another caller's budget.  In any sequence of requests over time, every
  caller gets the same responses, with the same headers, as if nobody else had called: the keys of
  different accounts are different, and the clean-up of expired entries is never noticed.\<close>
theorem callers_are_isolated:
  assumes "sorted (map fst rs)" "\<forall>r \<in> set rs. CHR '':'' \<notin> set (rl_caller r)" "CHR '':'' \<notin> set a"
  shows "filter (\<lambda>(r, out). rl_caller r = a) (requests c local_allow rs m) =
         requests c local_allow (filter (\<lambda>r. rl_caller r = a) rs) m"
proof (cases rs)
  case (Cons r rs')
  have "sorted (fst r # map fst rs)" using assms(1) by (simp add: Cons)
  then show ?thesis
    using local_limiter.requests_isolated [of "fst r" rs a m m c] assms(2,3)
    by (simp add: local_limiter.same_budgets_def)
qed simp

theorem callers_are_isolated_witness:
  "let rs = [(0, ''111111111111'', ''GET'', ''/c''), (1, ''222222222222'', ''GET'', ''/c''),
             (2, ''111111111111'', ''GET'', ''/c'')] in
   filter (\<lambda>(r, out). rl_caller r = ''222222222222'')
     (requests (NewDefaultConfig 1 1 1) local_allow rs Map.empty) =
   requests (NewDefaultConfig 1 1 1) local_allow [(1, ''222222222222'', ''GET'', ''/c'')] Map.empty"
proof -
  let ?rs = "[(0, ''111111111111'', ''GET'', ''/c''), (1, ''222222222222'', ''GET'', ''/c''),
              (2, ''111111111111'', ''GET'', ''/c'')] :: rl_request list"
  have "\<forall>r \<in> set ?rs. CHR '':'' \<notin> set (rl_caller r)" "sorted (map fst ?rs)" by (simp_all add: rl_caller_def)
  from callers_are_isolated [OF this(2,1), of "''222222222222''" "NewDefaultConfig 1 1 1" Map.empty]
  show ?thesis unfolding Let_def by (simp add: rl_caller_def del: requests.simps)
qed

lemma calls_ahead:
  assumes "limit_ok l" "\<forall>(t, k', l') \<in> set cs. k' = k \<longrightarrow> l' = l" "sorted (t # map fst cs)"
    "eff m k t \<le> t + interval l * li_Burst l" "\<forall>c \<in> set cs. fst c \<le> t1" "t \<le> t1"
  shows "eff (snd (calls cs m)) k t1 \<le> t1 + interval l * li_Burst l"
  using assms(2-)
proof (induction cs arbitrary: t m)
  case Nil
  then show ?case using interval_bounds(1) [OF assms(1)] assms(1) by (simp add: eff_later limit_ok_def)
next
  case (Cons c cs)
  obtain t' k' l' where c: "c = (t', k', l')" by (cases c)
  let ?m = "snd (Allow t' k' l' m)" and ?B = "interval l * li_Burst l"
  have B: "0 \<le> ?B" using interval_bounds(1) [OF assms(1)] assms(1) by (simp add: limit_ok_def)
  have old: "eff m k t' \<le> t' + ?B" using Cons.prems(2,3) B eff_later [of t t'] by (simp add: c)
  have "eff ?m k t' \<le> t' + ?B"
  proof (cases "k' = k")
    case True
    then have l: "l' = l" using Cons.prems(1) by (simp add: c)
    consider "t' < eff m k t' + interval l - ?B" | "eff m k t' + interval l - ?B \<le> t'" by linarith
    then show ?thesis
    proof cases
      case 1
      then show ?thesis
        using Allow_cases(1) [OF assms(1) refl refl, where m = m and k = k and now = t'] old by (auto simp: True l)
    next
      case 2
      then show ?thesis
        using Allow_cases(2) [OF assms(1) refl refl, where m = m and k = k and now = t'] B
        by (auto simp: True l eff_cleanup eff_upd)
    qed
  next
    case False
    then show ?thesis using Allow_frame [of k k' t' l' m] old by simp
  qed
  then have "eff (snd (calls cs ?m)) k t1 \<le> t1 + ?B"
    using Cons.prems by (intro Cons.IH [of t']) (auto simp: c)
  then show ?case by (simp add: c Let_def split_beta)
qed

text \<open>A refused call, repeated with nothing in between.\<close>

lemma Allow_repeated:
  assumes "limit_ok l" "now < eff m k now + interval l - interval l * li_Burst l" "now \<le> later"
  shows "\<exists>r' m''. Allow later k l m = (Inr r', m'') \<and>
    re_Allowed r' = (if eff m k now + interval l - interval l * li_Burst l \<le> later then 1 else 0)"
proof -
  let ?T = "interval l" and ?B = "interval l * li_Burst l"
  have e: "eff m k later = max (eff m k now) later" using assms(3) by (rule eff_later)
  show ?thesis
  proof (cases "eff m k now + ?T - ?B \<le> later")
    case True
    have "?T * 1 \<le> ?B"
      using interval_bounds(1) [OF assms(1)] assms(1) by (intro mult_left_mono) (auto simp: limit_ok_def)
    then have "eff m k later + ?T - ?B \<le> later" using e True by simp
    then show ?thesis
      using Allow_cases(2) [OF assms(1) refl refl, where m = m and k = k and now = later] True by auto
  next
    case False
    then have "later < eff m k later + ?T - ?B" using e by simp
    then show ?thesis
      using Allow_cases(1) [OF assms(1) refl refl, where m = m and k = k and now = later] False by auto
  qed
qed

text \<open>C26: the limiter's advice on when to retry is exact.  After any history, a refused call changes nothing and is given a
  positive waiting time of at most one emission interval; the same call is refused until that time has
  passed and admitted from then on, unless the key was used in between.  The
  \<open>Retry-After\<close> header, in whole seconds, is never too early.\<close>
theorem retry_after_is_exact:
  assumes "limit_ok l" "\<forall>(t, k', l') \<in> set cs. k' = k \<longrightarrow> l' = l" "sorted (map fst cs @ [now])"
    and "m = snd (calls cs Map.empty)" "Allow now k l m = (Inr r, m')" "re_Allowed r = 0"
  shows "m' = m \<and> 0 < re_RetryAfter r \<and> re_RetryAfter r \<le> interval l \<and>
         re_RetryAfter r \<le> max (ceil_seconds (re_RetryAfter r)) 1 * 10 ^ 9 \<and>
         (\<forall>later \<ge> now. (\<exists>r' m''. Allow later k l m = (Inr r', m'') \<and>
            re_Allowed r' = (if now + re_RetryAfter r \<le> later then 1 else 0)))"
proof -
  let ?T = "interval l" and ?B = "interval l * li_Burst l"
  have T: "1 \<le> ?T" "?T < 2 ^ 63" using interval_bounds [OF assms(1)] by auto
  have B: "0 \<le> ?B" using T assms(1) by (simp add: limit_ok_def)
  have times: "sorted (map fst cs)" "\<forall>c \<in> set cs. fst c \<le> now" using assms(3) by (auto simp: sorted_append)
  have ahead: "eff m k now \<le> now + ?B"
  proof (cases cs)
    case (Cons c cs')
    then show ?thesis
      using calls_ahead [OF assms(1,2), of "fst c" Map.empty now] times assms(4) B by (simp add: eff_def)
  qed (use B assms(4) in \<open>simp add: eff_def\<close>)
  have refused: "now < eff m k now + ?T - ?B"
  proof (rule ccontr)
    assume "\<not> now < eff m k now + ?T - ?B"
    then show False
      using Allow_cases(2) [OF assms(1) refl refl, where m = m and k = k and now = now] assms(5,6) by auto
  qed
  define d where "d = eff m k now + ?T - ?B - now"
  have d: "0 < d" "d \<le> ?T" using ahead refused by (auto simp: d_def)
  then have "sat64 d = d" using T(2) by (simp add: sat64_def)
  then have r: "m' = m" "re_RetryAfter r = d"
    using Allow_cases(1) [OF assms(1) refl refl refused] assms(5) by (auto simp: d_def)
  have "d \<le> ceil_seconds d * 10 ^ 9" by (simp add: ceil_seconds_def)
  then have secs: "d \<le> max (ceil_seconds d) 1 * 10 ^ 9" by (simp add: max_def)
  show ?thesis
    using r d secs Allow_repeated [OF assms(1) refused] by (auto simp: d_def)
qed

theorem retry_after_is_exact_witness:
  "\<exists>r m'. Allow 3 ''a'' ex_limit (snd (calls [(0, ''a'', ex_limit), (2, ''a'', ex_limit)] Map.empty)) = (Inr r, m') \<and>
     re_RetryAfter r = 497 \<and> 0 < re_RetryAfter r \<and> re_RetryAfter r \<le> interval ex_limit"
proof -
  let ?cs = "[(0, ''a'', ex_limit), (2, ''a'', ex_limit)]"
  have ok: "limit_ok ex_limit" by (simp add: limit_ok_def ex_limit_def interval_def)
  obtain r m' where r: "Allow 3 ''a'' ex_limit (snd (calls ?cs Map.empty)) = (Inr r, m')"
    "re_Allowed r = 0" "re_RetryAfter r = 497"
    by (simp add: Allow_def ex_limit_def wrap64_def sat64_def signed_divide_int_def cleanup_def Let_def)
  show ?thesis
    using retry_after_is_exact [of ex_limit ?cs "''a''" 3, OF ok _ _ refl r(1,2)] r by auto
qed

section \<open>Loaded configurations\<close>

definition route_ok :: "RouteLimit \<Rightarrow> bool" where
  "route_ok r \<longleftrightarrow> 0 < rl_Rate r \<and> 0 < rl_Burst r \<and> 0 < rl_Window r"

definition decoded :: "RouteLimit \<Rightarrow> bool" where
  "decoded r \<longleftrightarrow> rl_Rate r < 2 ^ 62 \<and> rl_Burst r < 2 ^ 63"

lemma wrap64_double: "0 < r \<Longrightarrow> r < 2 ^ 62 \<Longrightarrow> 0 < wrap64 (r * 2)"
  by (subst wrap64_id) auto

lemma load_default_ok: "load_default d = Inr d' \<Longrightarrow> decoded d \<Longrightarrow> route_ok d'"
  using wrap64_double [of "rl_Rate d"] wrap64_double [of 100]
  by (auto simp: load_default_def route_ok_def decoded_def Let_def split: if_splits)

lemma load_routes_ok:
  "load_routes w i rs = Inr rs' \<Longrightarrow> 0 < w \<Longrightarrow> \<forall>r \<in> set rs. decoded r \<Longrightarrow> \<forall>r \<in> set rs'. route_ok r"
proof (induction w i rs arbitrary: rs' rule: load_routes.induct)
  case (2 w i r rs)
  from 2(2) obtain r' rs'' where r: "load_route w i r = Inr r'" "load_routes w (i + 1) rs = Inr rs''" "rs' = r' # rs''"
    by (auto simp: sbind_def split: sum.splits)
  have "route_ok r'"
    using r(1) 2(3,4) wrap64_double [of "rl_Rate r"]
    by (auto simp: load_route_def route_ok_def decoded_def split: if_splits)
  then show ?case using 2 r by auto
qed simp

lemma findLimit_ok:
  assumes "LoadConfig c = Inr c'" "decoded (rc_Default c)" "\<forall>r \<in> set (rc_Routes c). decoded r"
  shows "route_ok (findLimit c' meth path)"
proof -
  obtain d rs where d: "load_default (rc_Default c) = Inr d" "load_routes (rl_Window d) 0 (rc_Routes c) = Inr rs"
    "rc_Default c' = d" "rc_Routes c' = rs"
    using assms(1) by (auto simp: LoadConfig_def sbind_def split: sum.splits)
  have ok: "route_ok d" "\<forall>r \<in> set rs. route_ok r"
    using load_default_ok [OF d(1) assms(2)] load_routes_ok [OF d(2) _ assms(3)] by (auto simp: route_ok_def)
  show ?thesis
  proof (cases "filter (\<lambda>r. to_lower (rl_Method r) = to_lower meth \<and> matchPath (rl_Path r) path) rs")
    case (Cons r rest)
    then have "r \<in> set rs" by (metis filter_is_subset list.set_intros(1) subsetD)
    then show ?thesis using Cons ok d by (simp add: findLimit_def)
  qed (use ok d in \<open>simp add: findLimit_def route_ok_def\<close>)
qed

end
