(* ===== verification/Authz.thy ===== *)
theory Authz
  imports Prelude GoLib "HOL-Library.List_Lexorder" "HOL-Library.Char_ord"
begin

text \<open>
  Authorization of API requests, \<open>seaplane-api/pkg/authz\<close>: principal names (\<open>arn.go\<close>), the bundle of policies and
  attachments loaded at start (\<open>config.go\<close>), and the decision on a request (\<open>authorizer.go\<close>).

  The AWS SDK's splitting of a name into its parts is the argument \<open>arnp\<close>.  The Cedar library is the argument
  \<open>ce\<close>: the parser and the validator of policies, the validators of entities and requests, and the evaluator.
  A policy is a value of the type variable \<open>'p\<close>.
\<close>

section \<open>Principals\<close>

record arn =
  ar_Partition :: string
  ar_Service :: string
  ar_Region :: string
  ar_AccountID :: string
  ar_Resource :: string

record principalARN =
  pa_partition :: string
  pa_account :: string
  pa_kind :: string
  pa_roleName :: string
  pa_original :: string

definition is_lower :: "char \<Rightarrow> bool" where
  "is_lower c \<longleftrightarrow> 97 \<le> char_nat c \<and> char_nat c \<le> 122"

definition is_alnum :: "char \<Rightarrow> bool" where
  "is_alnum c \<longleftrightarrow> is_digit c \<or> is_lower c \<or> 65 \<le> char_nat c \<and> char_nat c \<le> 90"

definition accountPattern :: "string \<Rightarrow> bool" where
  "accountPattern s \<longleftrightarrow> length s = 12 \<and> list_all is_digit s"

definition regionPattern :: "string \<Rightarrow> bool" where
  "regionPattern s =
     (case split_on (CHR ''-'') s of
        lang # rest \<Rightarrow>
          length lang = 2 \<and> list_all is_lower lang \<and> 2 \<le> length rest \<and>
          list_all (\<lambda>p. p \<noteq> [] \<and> list_all (\<lambda>c. is_lower c \<or> is_digit c) p) (butlast rest) \<and>
          last rest \<noteq> [] \<and> list_all is_digit (last rest)
      | [] \<Rightarrow> False)"

definition namePattern :: "string \<Rightarrow> bool" where
  "namePattern s \<longleftrightarrow> s \<noteq> [] \<and> length s \<le> 64 \<and> list_all (\<lambda>c. is_alnum c \<or> c \<in> set ''+=,.@_-'') s"

definition idPattern :: "string \<Rightarrow> bool" where
  "idPattern s =
     (case s of
        [] \<Rightarrow> False
      | c # cs \<Rightarrow> is_alnum c \<and> list_all (\<lambda>x. is_alnum x \<or> x \<in> set ''._-'') cs)"

datatype principal_error =
  NotAnARN
| UnsupportedPartition string
| AccountOrRegion
| UnsupportedResource
| PathTooLong
| InvalidPath
| InvalidAssumedRole
| UnsupportedServiceOrKind
| CallerNotInAccount

definition parsePrincipal :: "(string \<Rightarrow> arn option) \<Rightarrow> string \<Rightarrow> principal_error + principalARN" where
  "parsePrincipal arnp value =
     (case arnp value of
        None \<Rightarrow> Inl NotAnARN
      | Some a \<Rightarrow>
          if ar_Partition a \<noteq> ''aws'' then Inl (UnsupportedPartition (ar_Partition a))
          else if ar_Region a \<noteq> [] \<or> \<not> accountPattern (ar_AccountID a) then Inl AccountOrRegion
          else let parts = split_on (CHR ''/'') (ar_Resource a) in
            if length parts < 2 then Inl UnsupportedResource
            else let p = \<lparr>pa_partition = ar_Partition a, pa_account = ar_AccountID a, pa_kind = parts ! 0,
                          pa_roleName = [], pa_original = value\<rparr> in
              if ar_Service a = ''iam'' \<and> (pa_kind p = ''user'' \<or> pa_kind p = ''role'') then
                (if length (ar_Resource a) > 512 then Inl PathTooLong
                 else if list_ex (\<lambda>q. \<not> namePattern q \<or> q = ''.'' \<or> q = ''..'') (tl parts) then Inl InvalidPath
                 else if pa_kind p = ''role'' then Inr (p\<lparr>pa_roleName := last parts\<rparr>)
                 else Inr p)
              else if ar_Service a = ''sts'' \<and> pa_kind p = ''assumed-role'' then
                (if length parts \<noteq> 3 \<or> \<not> namePattern (parts ! 1) \<or> \<not> namePattern (parts ! 2)
                 then Inl InvalidAssumedRole
                 else Inr (p\<lparr>pa_roleName := parts ! 1\<rparr>))
              else Inl UnsupportedServiceOrKind)"

record Identity =
  id_AccountID :: string
  id_CallerARN :: string
  id_IsAllowlisted :: bool

definition checkedIdentity :: "(string \<Rightarrow> arn option) \<Rightarrow> Identity \<Rightarrow> principal_error + principalARN" where
  "checkedIdentity arnp i =
     sbind (parsePrincipal arnp (id_CallerARN i)) (\<lambda>p.
       if pa_account p \<noteq> id_AccountID i \<or> pa_kind p = ''role'' then Inl CallerNotInAccount else Inr p)"

definition roleAlias :: "principalARN \<Rightarrow> string" where
  "roleAlias p = pa_partition p @ ''/'' @ pa_account p @ ''/'' @ pa_roleName p"

definition addRoleAlias :: "(string \<rightharpoonup> string) \<Rightarrow> string \<Rightarrow> string \<Rightarrow> (string \<rightharpoonup> string) option" where
  "addRoleAlias aliases al role =
     (case aliases al of
        Some previous \<Rightarrow> if previous \<noteq> role then None else Some (aliases(al \<mapsto> role))
      | None \<Rightarrow> Some (aliases(al \<mapsto> role)))"

definition matchesPrincipal :: "principalARN \<Rightarrow> principalARN \<Rightarrow> bool" where
  "matchesPrincipal target caller \<longleftrightarrow>
     pa_original target = pa_original caller \<or>
     pa_kind target = ''role'' \<and> pa_kind caller = ''assumed-role'' \<and> roleAlias target = roleAlias caller"

definition checkedScope :: "string \<Rightarrow> string \<Rightarrow> bool" where
  "checkedScope scope region \<longleftrightarrow>
     scope = ''global'' \<and> region = [] \<or> scope = ''regional'' \<and> regionPattern region"

definition appliesInRegion :: "string \<Rightarrow> string \<Rightarrow> string \<Rightarrow> bool" where
  "appliesInRegion scope attachmentRegion requestRegion \<longleftrightarrow>
     scope = ''global'' \<or> scope = ''regional'' \<and> attachmentRegion = requestRegion"

section \<open>Entities, requests and the Cedar library\<close>

type_synonym uid = "string \<times> string"

definition entityUID :: "string \<Rightarrow> string \<Rightarrow> uid" where
  "entityUID kind i = (''Seaplane::'' @ kind, i)"

type_synonym labels = "string \<rightharpoonup> string"

record entity =
  en_Parents :: "uid list"
  en_Attributes :: "(string \<times> string) list"
  en_Tags :: labels

type_synonym entities = "uid \<rightharpoonup> entity"

record cedar_context =
  cx_region :: string
  cx_accountId :: string
  cx_principalArn :: string
  cx_sourceIp :: string
  cx_userAgent :: string
  cx_unixSeconds :: int
  cx_dayOfWeek :: int
  cx_hour :: int
  cx_requestLabels :: uid

record cedar_request =
  cq_Principal :: uid
  cq_Action :: uid
  cq_Resource :: uid
  cq_Context :: cedar_context

text \<open>A verdict: whether the request is allowed, the policies that determined it and the policies that failed.\<close>

record verdict =
  vd_Allow :: bool
  vd_Reasons :: "string list"
  vd_Errors :: "string list"

record 'p cedar =
  ce_parse :: "string \<Rightarrow> string \<Rightarrow> 'p list option"
  ce_valid_policy :: "string \<Rightarrow> 'p \<Rightarrow> bool"
  ce_valid_entities :: "entities \<Rightarrow> bool"
  ce_valid_request :: "cedar_request \<Rightarrow> bool"
  ce_evaluate :: "(string \<rightharpoonup> 'p) \<Rightarrow> entities \<Rightarrow> cedar_request \<Rightarrow> verdict option"

definition checkedPolicy :: "'p cedar \<Rightarrow> string \<Rightarrow> string \<Rightarrow> 'p option" where
  "checkedPolicy ce content i =
     (case ce_parse ce i content of
        Some [p] \<Rightarrow> if ce_valid_policy ce i p then Some p else None
      | _ \<Rightarrow> None)"

section \<open>The bundle\<close>

text \<open>Where a decision comes from; the revisions, which only policies from the policy store have, are left out.\<close>

record Provenance =
  pv_DiagnosticID :: string
  pv_PolicyID :: string
  pv_BundleHash :: string
  pv_AttachmentID :: string

record policyRecord =
  pr_ID :: string
  pr_OwnerAccountID :: string
  pr_Content :: string

record attachmentRecord =
  at_ID :: string
  at_PolicyID :: string
  at_PrincipalARN :: string
  at_Scope :: string
  at_Region :: string

record configBundle =
  cb_RegisteredAccounts :: "string list"
  cb_Policies :: "policyRecord list"
  cb_Attachments :: "attachmentRecord list"

record 'p policyAttachment =
  pt_Provenance :: Provenance
  pt_policy :: 'p
  pt_principal :: principalARN
  pt_scope :: string
  pt_region :: string

record 'p Authorizer =
  au_bundleHash :: string
  au_customer :: "'p policyAttachment list"
  au_allowlist :: 'p
  au_region :: string
  au_accounts :: "string set"
  au_actions :: entities

datatype Stage = StageNone | StageResolution | StageParsing | StageBinding | StageEntityValidation | StageEvaluation
  | StageResourceLoading

datatype authz_cause =
  CtxErr
| BadPrincipal principal_error
| RequestTimeRequired
| InvalidEntities
| InvalidRequest
| InvalidServiceRegion
| InvalidAccount string
| DuplicateAccount string
| InvalidPolicyRecord
| DuplicatePolicy string
| PolicyRejected
| InvalidAttachmentID
| DuplicateAttachment
| DanglingPolicy
| CrossAccount
| InvalidScope
| AmbiguousAlias
| UnsupportedAction
| OwnershipMismatch
| LabelContradicts
| UnexpectedParent
| InvalidCollection
| IncompatibleResource
| ParentRequired
| ParentLabelContradicts
| EvaluatorFailed
| EvaluationDiagnostics
| UnknownPolicyIDs "string list"

record Failure =
  fa_Stage :: Stage
  fa_Action :: string
  fa_Provenance :: "Provenance list"
  fa_Diagnostics :: "string list"
  fa_Err :: "authz_cause list" \<comment> \<open>the joined causes\<close>

definition newFailure :: "Stage \<Rightarrow> authz_cause \<Rightarrow> Provenance list \<Rightarrow> Failure" where
  "newFailure stage err prov =
     \<lparr>fa_Stage = stage, fa_Action = [], fa_Provenance = prov, fa_Diagnostics = [], fa_Err = [err]\<rparr>"

fun add_accounts :: "string list \<Rightarrow> string set \<Rightarrow> Failure + string set" where
  "add_accounts [] known = Inr known"
| "add_accounts (a # as) known =
     (if \<not> accountPattern a then Inl (newFailure StageParsing (InvalidAccount a) [])
      else if a \<in> known then Inl (newFailure StageParsing (DuplicateAccount a) [])
      else add_accounts as (insert a known))"

text \<open>The compiled policies with their owners.\<close>

fun add_policies ::
  "'p cedar \<Rightarrow> string \<Rightarrow> policyRecord list \<Rightarrow> (string \<rightharpoonup> string \<times> 'p) \<Rightarrow> Failure + (string \<rightharpoonup> string \<times> 'p)" where
  "add_policies ce bh [] ps = Inr ps"
| "add_policies ce bh (r # rs) ps =
     (let pv = [\<lparr>pv_DiagnosticID = [], pv_PolicyID = pr_ID r, pv_BundleHash = bh, pv_AttachmentID = []\<rparr>] in
      if \<not> idPattern (pr_ID r) \<or> \<not> accountPattern (pr_OwnerAccountID r)
      then Inl (newFailure StageParsing InvalidPolicyRecord pv)
      else if ps (pr_ID r) \<noteq> None then Inl (newFailure StageParsing (DuplicatePolicy (pr_ID r)) pv)
      else case checkedPolicy ce (pr_Content r) (pr_ID r) of
        None \<Rightarrow> Inl (newFailure StageParsing PolicyRejected pv)
      | Some p \<Rightarrow> add_policies ce bh rs (ps(pr_ID r \<mapsto> (pr_OwnerAccountID r, p))))"

definition attachment_provenance :: "string \<Rightarrow> attachmentRecord \<Rightarrow> Provenance" where
  "attachment_provenance bh r =
     \<lparr>pv_DiagnosticID = ''attachment/'' @ at_ID r, pv_PolicyID = at_PolicyID r, pv_BundleHash = bh,
      pv_AttachmentID = at_ID r\<rparr>"

fun add_attachments ::
  "(string \<Rightarrow> arn option) \<Rightarrow> string \<Rightarrow> (string \<rightharpoonup> string \<times> 'p) \<Rightarrow> attachmentRecord list \<Rightarrow> string set \<Rightarrow>
   (string \<rightharpoonup> string) \<Rightarrow> Failure + 'p policyAttachment list" where
  "add_attachments arnp bh ps [] ids aliases = Inr []"
| "add_attachments arnp bh ps (r # rs) ids aliases =
     (let pv = attachment_provenance bh r; fail = (\<lambda>e. Inl (newFailure StageBinding e [pv])) in
      if \<not> idPattern (at_ID r) then fail InvalidAttachmentID
      else if at_ID r \<in> ids then fail DuplicateAttachment
      else case ps (at_PolicyID r) of
        None \<Rightarrow> fail DanglingPolicy
      | Some (owner, pol) \<Rightarrow>
          (case parsePrincipal arnp (at_PrincipalARN r) of
             Inl e \<Rightarrow> fail (BadPrincipal e)
           | Inr p \<Rightarrow>
               if pa_account p \<noteq> owner then fail CrossAccount
               else if \<not> checkedScope (at_Scope r) (at_Region r) then fail InvalidScope
               else case (if pa_kind p = ''role'' then addRoleAlias aliases (roleAlias p) (pa_original p)
                          else Some aliases) of
                 None \<Rightarrow> fail AmbiguousAlias
               | Some aliases' \<Rightarrow>
                   sbind (add_attachments arnp bh ps rs (insert (at_ID r) ids) aliases') (\<lambda>ats.
                     Inr (\<lparr>pt_Provenance = pv, pt_policy = pol, pt_principal = p, pt_scope = at_Scope r,
                           pt_region = at_Region r\<rparr> # ats))))"

text \<open>\<open>LoadConfig\<close> after the file has been read and decoded; \<open>actions\<close> are the action entities of the schema.\<close>

definition LoadBundle ::
  "'p cedar \<Rightarrow> (string \<Rightarrow> arn option) \<Rightarrow> entities \<Rightarrow> string \<Rightarrow> string \<Rightarrow> configBundle \<Rightarrow> Failure + 'p Authorizer" where
  "LoadBundle ce arnp actions serviceRegion bh b =
     (if \<not> regionPattern serviceRegion then Inl (newFailure StageParsing InvalidServiceRegion [])
      else case checkedPolicy ce ''permit(principal, action, resource);'' ''allowlist'' of
        None \<Rightarrow> Inl (newFailure StageParsing PolicyRejected [])
      | Some al \<Rightarrow>
          sbind (add_accounts (cb_RegisteredAccounts b) {}) (\<lambda>accts.
          sbind (add_policies ce bh (cb_Policies b) Map.empty) (\<lambda>ps.
          sbind (add_attachments arnp bh ps (cb_Attachments b) {} Map.empty) (\<lambda>ats.
            Inr \<lparr>au_bundleHash = bh, au_customer = ats, au_allowlist = al, au_region = serviceRegion,
                 au_accounts = accts, au_actions = actions\<rparr>))))"

section \<open>Preparing a request\<close>

record RequestContext =
  rx_SourceIP :: string
  rx_UserAgent :: string
  rx_RequestTime :: "int option" \<comment> \<open>Unix seconds; \<open>None\<close> for the zero time\<close>
  rx_RequestLabels :: labels

record 'p Prepared =
  pp_identity :: Identity
  pp_region :: string
  pp_principal :: uid
  pp_entities :: entities
  pp_policies :: "string \<rightharpoonup> 'p"
  pp_requestContext :: cedar_context
  pp_provenance :: "string \<rightharpoonup> Provenance"

text \<open>Monday is 1 and Sunday 7; the first day of the epoch was a Thursday.\<close>

definition weekday :: "int \<Rightarrow> int" where
  "weekday secs = (let day = (secs div 86400 + 4) mod 7 in if day = 0 then 7 else day)"

definition hour_of :: "int \<Rightarrow> int" where
  "hour_of secs = secs mod 86400 div 3600"

definition selected :: "principalARN \<Rightarrow> string \<Rightarrow> 'p policyAttachment \<Rightarrow> bool" where
  "selected caller region b \<longleftrightarrow>
     matchesPrincipal (pt_principal b) caller \<and> appliesInRegion (pt_scope b) (pt_region b) region"

text \<open>One turn of the loop over the attachments: the selected ones are added, a role also as an entity and as a parent
  of the caller.\<close>

definition bind_attachment ::
  "principalARN \<Rightarrow> (string \<times> string) list \<Rightarrow> 'p policyAttachment \<Rightarrow>
   'p Prepared \<times> uid list \<Rightarrow> 'p Prepared \<times> uid list" where
  "bind_attachment caller attrs b st =
     (let (p, parents) = st; did = pv_DiagnosticID (pt_Provenance b) in
      if \<not> selected caller (pp_region p) b then st
      else let p = p\<lparr>pp_policies := (pp_policies p)(did \<mapsto> pt_policy b),
                     pp_provenance := (pp_provenance p)(did \<mapsto> pt_Provenance b)\<rparr> in
        if pa_kind (pt_principal b) = ''role'' then
          let role = entityUID ''Role'' (pa_original (pt_principal b)) in
          (p\<lparr>pp_entities := (pp_entities p)(role \<mapsto> \<lparr>en_Parents = [], en_Attributes = attrs, en_Tags = Map.empty\<rparr>)\<rparr>,
           parents @ [role])
        else (p, parents))"

definition allowlist_id :: "Identity \<Rightarrow> string" where
  "allowlist_id i = ''allowlist/'' @ id_AccountID i"

definition add_allowlist :: "'p Authorizer \<Rightarrow> Identity \<Rightarrow> 'p Prepared \<Rightarrow> 'p Prepared" where
  "add_allowlist a i p =
     (if id_IsAllowlisted i then
        p\<lparr>pp_policies := (pp_policies p)(allowlist_id i \<mapsto> au_allowlist a),
          pp_provenance := (pp_provenance p)(allowlist_id i \<mapsto>
            \<lparr>pv_DiagnosticID = allowlist_id i, pv_PolicyID = ''allowlist'', pv_BundleHash = au_bundleHash a,
             pv_AttachmentID = []\<rparr>)\<rparr>
      else p)"

definition initial_prepared :: "'p Authorizer \<Rightarrow> Identity \<Rightarrow> RequestContext \<Rightarrow> int \<Rightarrow> 'p Prepared" where
  "initial_prepared a i req secs =
     (let requestLabels = entityUID ''RequestLabels'' ''request'' in
      \<lparr>pp_identity = i, pp_region = au_region a, pp_principal = entityUID ''Principal'' (id_CallerARN i),
       pp_entities = [requestLabels \<mapsto>
                       \<lparr>en_Parents = [], en_Attributes = [], en_Tags = rx_RequestLabels req\<rparr>] ++ au_actions a,
       pp_policies = Map.empty,
       pp_requestContext =
         \<lparr>cx_region = au_region a, cx_accountId = id_AccountID i, cx_principalArn = id_CallerARN i,
          cx_sourceIp = rx_SourceIP req, cx_userAgent = rx_UserAgent req, cx_unixSeconds = secs,
          cx_dayOfWeek = weekday secs, cx_hour = hour_of secs, cx_requestLabels = requestLabels\<rparr>,
       pp_provenance = Map.empty\<rparr>)"

text \<open>\<open>c1\<close> and \<open>c2\<close> tell whether the request's context has an error at the two points where it is asked.\<close>

definition Prepare ::
  "'p cedar \<Rightarrow> (string \<Rightarrow> arn option) \<Rightarrow> bool \<Rightarrow> bool \<Rightarrow> 'p Authorizer \<Rightarrow> Identity \<Rightarrow> RequestContext \<Rightarrow>
   Failure + 'p Prepared" where
  "Prepare ce arnp c1 c2 a i req =
     (if c1 then Inl (newFailure StageResolution CtxErr [])
      else case checkedIdentity arnp i of
        Inl e \<Rightarrow> Inl (newFailure StageResolution (BadPrincipal e) [])
      | Inr caller \<Rightarrow>
          (case rx_RequestTime req of
             None \<Rightarrow> Inl (newFailure StageResolution RequestTimeRequired [])
           | Some secs \<Rightarrow>
               let attrs = [(''account'', id_AccountID i)];
                   (p, parents) = fold (bind_attachment caller attrs) (au_customer a)
                                    (initial_prepared a i req secs, []);
                   p = add_allowlist a i p;
                   p = p\<lparr>pp_entities := (pp_entities p)(pp_principal p \<mapsto>
                          \<lparr>en_Parents = parents, en_Attributes = attrs, en_Tags = Map.empty\<rparr>)\<rparr>
               in if \<not> ce_valid_entities ce (pp_entities p) then
                    Inl (newFailure StageEntityValidation InvalidEntities [])
                  else if c2 then Inl (newFailure StageResolution CtxErr [])
                  else Inr p))"

definition IsAccountRegistered :: "'p Authorizer \<Rightarrow> bool \<Rightarrow> string \<Rightarrow> bool" where
  "IsAccountRegistered a ctx_err account \<longleftrightarrow> \<not> ctx_err \<and> account \<in> au_accounts a"

section \<open>Checking an action on a resource\<close>

record ParentCluster =
  pc_ID :: string
  pc_AccountID :: string
  pc_Labels :: labels

record Resource =
  rs_Kind :: string
  rs_ID :: string
  rs_AccountID :: string
  rs_Labels :: labels
  rs_CollectionKind :: string
  rs_ParentCluster :: "ParentCluster option"

definition AccountIDLabel :: string where
  "AccountIDLabel = ''seaplane.io/account-id''"

definition actionResourceKind :: "string \<Rightarrow> string" where
  "actionResourceKind action =
     (if action \<in> set [''CreatePolicy'', ''ListPolicies'', ''DescribePolicy'', ''UpdatePolicy'', ''DeletePolicy'']
      then ''Policy''
      else if action \<in> set [''CreateAttachment'', ''ListAttachments'', ''DeleteAttachment''] then ''Attachment''
      else if action \<in> set [''CreateAttachmentRegional'', ''ListAttachmentsRegional'', ''DeleteAttachmentRegional'']
      then ''RegionalAttachment''
      else if action \<in> set [''ListClusters'', ''DescribeCluster'', ''CreateCluster'', ''UpdateCluster'',
                            ''UpdateClusterConfig'', ''UpdateClusterVersion'', ''DeleteCluster'']
      then ''Cluster''
      else if action \<in> set [''ListNodePools'', ''DescribeNodePool'', ''CreateNodePool'', ''UpdateNodePool'',
                            ''ScaleNodePool'', ''UpdateNodePoolVersion'', ''DeleteNodePool'']
      then ''NodePool''
      else if action \<in> set [''ListOIDCConfigs'', ''DescribeOIDCConfig'', ''CreateOIDCConfig'', ''DeleteOIDCConfig'']
      then ''OIDCConfig''
      else if action \<in> set [''ListDNSReservations'', ''DescribeDNSReservation'', ''CreateDNSReservation'',
                            ''DeleteDNSReservation'']
      then ''DNSReservation''
      else [])"

definition listAction :: "string \<Rightarrow> bool" where
  "listAction action \<longleftrightarrow>
     action \<in> set [''ListClusters'', ''ListNodePools'', ''ListOIDCConfigs'', ''ListDNSReservations'',
                   ''CreatePolicy'', ''ListPolicies'', ''CreateAttachment'', ''ListAttachments'',
                   ''CreateAttachmentRegional'', ''ListAttachmentsRegional'']"

definition collectionName :: "string \<Rightarrow> string" where
  "collectionName kind =
     (if kind = ''Policy'' then ''policies''
      else if kind = ''Attachment'' then ''attachments''
      else if kind = ''RegionalAttachment'' then ''regional_attachments''
      else if kind = ''Cluster'' then ''clusters''
      else if kind = ''NodePool'' then ''nodepools''
      else if kind = ''OIDCConfig'' then ''oidc_configs''
      else if kind = ''DNSReservation'' then ''dns_reservations''
      else [])"

definition label_contradicts :: "labels \<Rightarrow> string \<Rightarrow> bool" where
  "label_contradicts ls account = (case ls AccountIDLabel of None \<Rightarrow> False | Some owner \<Rightarrow> owner \<noteq> account)"

definition validateResourceIdentity :: "'p Prepared \<Rightarrow> string \<Rightarrow> Resource \<Rightarrow> authz_cause + string" where
  "validateResourceIdentity p action r =
     (let kind = (if action \<in> set [''ListLabelsForResource'', ''LabelResource'', ''UnlabelResource''] \<and>
                     rs_Kind r \<in> set [''Cluster'', ''NodePool'', ''OIDCConfig'', ''DNSReservation'']
                  then rs_Kind r else actionResourceKind action) in
      if kind = [] then Inl UnsupportedAction
      else if rs_AccountID r \<noteq> id_AccountID (pp_identity p) then Inl OwnershipMismatch
      else if label_contradicts (rs_Labels r) (rs_AccountID r) then Inl LabelContradicts
      else if rs_Kind r \<noteq> ''NodePool'' \<and> rs_ParentCluster r \<noteq> None then Inl UnexpectedParent
      else if listAction action then
        (if rs_Kind r \<noteq> ''Collection'' \<or> rs_ID r \<noteq> [] \<or> rs_Labels r \<noteq> Map.empty \<or>
            rs_ParentCluster r \<noteq> None \<or> rs_CollectionKind r \<noteq> kind
         then Inl InvalidCollection else Inr kind)
      else if rs_Kind r \<noteq> kind \<or> \<not> idPattern (rs_ID r) \<or> rs_CollectionKind r \<noteq> []
      then Inl IncompatibleResource
      else Inr kind)"

definition resourceEntities :: "'p Prepared \<Rightarrow> string \<Rightarrow> Resource \<Rightarrow> authz_cause + entities \<times> uid" where
  "resourceEntities p action r =
     sbind (validateResourceIdentity p action r) (\<lambda>kind.
       let attrs = [(''account'', rs_AccountID r), (''region'', pp_region p)];
           base = rs_AccountID r @ ''/'' @ pp_region p @ ''/'';
           collection = entityUID ''Collection'' (base @ collectionName kind);
           ents = (pp_entities p)(collection \<mapsto> \<lparr>en_Parents = [], en_Attributes = attrs, en_Tags = Map.empty\<rparr>);
           finish = (\<lambda>ents parents i.
             let u = entityUID kind i in
             Inr (ents(u \<mapsto> \<lparr>en_Parents = parents, en_Attributes = attrs, en_Tags = rs_Labels r\<rparr>), u))
       in if listAction action then Inr (ents, collection)
          else if kind = ''NodePool'' then
            (case rs_ParentCluster r of
               None \<Rightarrow> Inl ParentRequired
             | Some c \<Rightarrow>
                 if \<not> idPattern (pc_ID c) \<or> pc_AccountID c \<noteq> rs_AccountID r then Inl ParentRequired
                 else if label_contradicts (pc_Labels c) (pc_AccountID c) then Inl ParentLabelContradicts
                 else
                   let pbase = pc_AccountID c @ ''/'' @ pp_region p @ ''/'';
                       clusters = entityUID ''Collection'' (pbase @ ''clusters'');
                       cluster = entityUID ''Cluster'' (pbase @ pc_ID c);
                       ents = ents(clusters \<mapsto> \<lparr>en_Parents = [], en_Attributes = attrs, en_Tags = Map.empty\<rparr>,
                                   cluster \<mapsto> \<lparr>en_Parents = [clusters], en_Attributes = attrs,
                                                en_Tags = pc_Labels c\<rparr>)
                   in finish ents [collection, cluster] (base @ pc_ID c @ ''/'' @ rs_ID r))
          else finish ents [collection] (base @ rs_ID r))"

record Decision =
  de_Allowed :: bool
  de_Provenance :: "Provenance list"

text \<open>The provenance of the known policies, and the identifiers that are not known.\<close>

definition mapProvenance :: "'p Prepared \<Rightarrow> string list \<Rightarrow> Provenance list \<times> string list" where
  "mapProvenance p ids =
     (let ids = remdups_adj (sort ids) in
      (List.map_filter (pp_provenance p) ids, filter (\<lambda>i. pp_provenance p i = None) ids))"

definition Check ::
  "'p cedar \<Rightarrow> bool \<Rightarrow> bool \<Rightarrow> 'p Prepared \<Rightarrow> string \<Rightarrow> Resource \<Rightarrow> Failure + Decision" where
  "Check ce c1 c2 p action r =
     (let fail = (\<lambda>stage e. Inl ((newFailure stage e [])\<lparr>fa_Action := action\<rparr>)) in
      if c1 then fail StageEvaluation CtxErr
      else case resourceEntities p action r of
        Inl e \<Rightarrow> fail StageEntityValidation e
      | Inr (ents, u) \<Rightarrow>
          let req = \<lparr>cq_Principal = pp_principal p, cq_Action = entityUID ''Action'' action, cq_Resource = u,
                     cq_Context = pp_requestContext p\<rparr>
          in if \<not> ce_valid_entities ce ents then fail StageEntityValidation InvalidEntities
             else if \<not> ce_valid_request ce req then fail StageEntityValidation InvalidRequest
             else case ce_evaluate ce (pp_policies p) ents req of
               None \<Rightarrow> fail StageEvaluation EvaluatorFailed
             | Some v \<Rightarrow>
                 if vd_Errors v \<noteq> [] then
                   let (prov, unknown) = mapProvenance p (vd_Errors v) in
                   Inl \<lparr>fa_Stage = StageEvaluation, fa_Action = action, fa_Provenance = prov,
                        fa_Diagnostics = vd_Errors v,
                        fa_Err = EvaluationDiagnostics # (if unknown = [] then [] else [UnknownPolicyIDs unknown])\<rparr>
                 else if c2 then fail StageEvaluation CtxErr
                 else let (prov, unknown) = mapProvenance p (vd_Reasons v) in
                   if unknown \<noteq> [] then fail StageEvaluation (UnknownPolicyIDs unknown)
                   else Inr \<lparr>de_Allowed = vd_Allow v, de_Provenance = prov\<rparr>)"

section \<open>Principals are told apart\<close>

lemma parsePrincipal_fields:
  assumes "parsePrincipal arnp v = Inr p"
  shows "pa_partition p = ''aws''" "accountPattern (pa_account p)" "pa_original p = v"
  using assms by (auto simp: parsePrincipal_def Let_def split: option.splits if_splits)

lemma checkedIdentity_fields:
  assumes "checkedIdentity arnp i = Inr p"
  shows "parsePrincipal arnp (id_CallerARN i) = Inr p" "pa_account p = id_AccountID i" "pa_kind p \<noteq> ''role''"
  using assms by (auto simp: checkedIdentity_def sbind_def split: sum.splits if_splits)

lemma account_no_slash: "accountPattern s \<Longrightarrow> CHR ''/'' \<notin> set s"
  by (auto simp: accountPattern_def list_all_iff is_digit_def char_nat_def)

lemma roleAlias_inj:
  assumes "parsePrincipal arnp v = Inr p" "parsePrincipal arnp w = Inr q" "roleAlias p = roleAlias q"
  shows "pa_account p = pa_account q \<and> pa_roleName p = pa_roleName q"
proof -
  have "split_first (CHR ''/'') (pa_account p @ CHR ''/'' # pa_roleName p) =
      split_first (CHR ''/'') (pa_account q @ CHR ''/'' # pa_roleName q)"
    using assms(3) by (simp add: roleAlias_def parsePrincipal_fields [OF assms(1)] parsePrincipal_fields [OF assms(2)])
  then show ?thesis
    using account_no_slash parsePrincipal_fields(2) assms(1,2) by fastforce
qed

lemma matchesPrincipal_account:
  assumes "parsePrincipal arnp v = Inr target" "parsePrincipal arnp w = Inr caller" "matchesPrincipal target caller"
  shows "pa_account target = pa_account caller"
proof (cases "pa_original target = pa_original caller")
  case True
  then have "v = w" using parsePrincipal_fields(3) [OF assms(1)] parsePrincipal_fields(3) [OF assms(2)] by simp
  then show ?thesis using assms(1,2) by simp
next
  case False
  then show ?thesis using assms(3) roleAlias_inj [OF assms(1,2)] by (simp add: matchesPrincipal_def)
qed

section \<open>What a bundle loads\<close>

lemma add_policies_sound:
  assumes "add_policies ce bh rs ps = Inr ps'" "ps' k = Some (owner, pol)"
  shows "ps k = Some (owner, pol) \<or> (\<exists>r \<in> set rs. pr_ID r = k \<and> pr_OwnerAccountID r = owner)"
  using assms(1)
proof (induction rs arbitrary: ps)
  case (Cons r rs)
  then obtain p where "add_policies ce bh rs (ps(pr_ID r \<mapsto> (pr_OwnerAccountID r, p))) = Inr ps'"
    by (auto simp: Let_def split: if_splits option.splits)
  from Cons.IH [OF this] show ?case by (auto split: if_splits)
qed (use assms(2) in simp)

text \<open>An attachment of the loaded list comes from a record of the bundle.\<close>

definition loaded_from ::
  "(string \<Rightarrow> arn option) \<Rightarrow> string \<Rightarrow> (string \<rightharpoonup> string \<times> 'p) \<Rightarrow> attachmentRecord \<Rightarrow> 'p policyAttachment \<Rightarrow> bool" where
  "loaded_from arnp bh ps r b \<longleftrightarrow>
     pt_Provenance b = attachment_provenance bh r \<and> pt_scope b = at_Scope r \<and> pt_region b = at_Region r \<and>
     parsePrincipal arnp (at_PrincipalARN r) = Inr (pt_principal b) \<and>
     ps (at_PolicyID r) = Some (pa_account (pt_principal b), pt_policy b)"

lemma add_attachments_Cons:
  assumes "add_attachments arnp bh ps (r # rs) ids aliases = Inr ats"
  obtains b ats' aliases' where "ats = b # ats'" "loaded_from arnp bh ps r b" "at_ID r \<notin> ids"
    "add_attachments arnp bh ps rs (insert (at_ID r) ids) aliases' = Inr ats'"
    "if pa_kind (pt_principal b) = ''role''
     then addRoleAlias aliases (roleAlias (pt_principal b)) (pa_original (pt_principal b)) = Some aliases'
     else aliases' = aliases"
proof -
  obtain owner pol p aliases' ats' where a: "ps (at_PolicyID r) = Some (owner, pol)"
    "parsePrincipal arnp (at_PrincipalARN r) = Inr p" "pa_account p = owner" "at_ID r \<notin> ids"
    "(if pa_kind p = ''role'' then addRoleAlias aliases (roleAlias p) (pa_original p) else Some aliases) =
       Some aliases'"
    "add_attachments arnp bh ps rs (insert (at_ID r) ids) aliases' = Inr ats'"
    "ats = \<lparr>pt_Provenance = attachment_provenance bh r, pt_policy = pol, pt_principal = p,
             pt_scope = at_Scope r, pt_region = at_Region r\<rparr> # ats'"
    using assms unfolding add_attachments.simps Let_def sbind_def
    by (clarsimp split: if_split_asm option.split_asm sum.split_asm)
  show ?thesis
    by (rule that [OF a(7) _ a(4,6)]) (use a in \<open>auto simp: loaded_from_def split: if_splits\<close>)
qed

lemma add_attachments_sound:
  assumes "add_attachments arnp bh ps rs ids aliases = Inr ats" "b \<in> set ats"
  shows "\<exists>r \<in> set rs. loaded_from arnp bh ps r b"
  using assms
proof (induction rs arbitrary: ids aliases ats)
  case (Cons r rs)
  obtain b' ats' aliases' where a: "ats = b' # ats'" "loaded_from arnp bh ps r b'"
    "add_attachments arnp bh ps rs (insert (at_ID r) ids) aliases' = Inr ats'"
    using Cons.prems(1) by (rule add_attachments_Cons)
  then show ?case using Cons.IH [OF a(3)] Cons.prems(2) by auto
qed simp

lemma add_attachments_distinct:
  assumes "add_attachments arnp bh ps rs ids aliases = Inr ats"
  shows "distinct (map (\<lambda>b. pv_DiagnosticID (pt_Provenance b)) ats) \<and>
         (\<forall>b \<in> set ats. pv_AttachmentID (pt_Provenance b) \<notin> ids \<and>
            pv_DiagnosticID (pt_Provenance b) = ''attachment/'' @ pv_AttachmentID (pt_Provenance b))"
  using assms
proof (induction rs arbitrary: ids aliases ats)
  case (Cons r rs)
  obtain b ats' aliases' where a: "ats = b # ats'" "loaded_from arnp bh ps r b" "at_ID r \<notin> ids"
    "add_attachments arnp bh ps rs (insert (at_ID r) ids) aliases' = Inr ats'"
    using Cons.prems(1) by (rule add_attachments_Cons)
  have pv: "pt_Provenance b = attachment_provenance bh r" using a(2) by (simp add: loaded_from_def)
  show ?case using Cons.IH [OF a(4)] a(1,3) pv by (auto simp: attachment_provenance_def)
qed simp

text \<open>The alias of every loaded role leads to that role.\<close>

lemma add_attachments_aliases:
  assumes "add_attachments arnp bh ps rs ids aliases = Inr ats"
  shows "\<exists>final. (\<forall>al role. aliases al = Some role \<longrightarrow> final al = Some role) \<and>
    (\<forall>b \<in> set ats. pa_kind (pt_principal b) = ''role'' \<longrightarrow>
       final (roleAlias (pt_principal b)) = Some (pa_original (pt_principal b)))"
  using assms
proof (induction rs arbitrary: ids aliases ats)
  case Nil
  then show ?case by auto
next
  case (Cons r rs)
  obtain b ats' aliases' where a: "ats = b # ats'"
    "add_attachments arnp bh ps rs (insert (at_ID r) ids) aliases' = Inr ats'"
    "if pa_kind (pt_principal b) = ''role''
     then addRoleAlias aliases (roleAlias (pt_principal b)) (pa_original (pt_principal b)) = Some aliases'
     else aliases' = aliases"
    using Cons.prems(1) by (rule add_attachments_Cons)
  obtain final where f: "\<forall>al role. aliases' al = Some role \<longrightarrow> final al = Some role"
    "\<forall>b \<in> set ats'. pa_kind (pt_principal b) = ''role'' \<longrightarrow>
       final (roleAlias (pt_principal b)) = Some (pa_original (pt_principal b))"
    using Cons.IH [OF a(2)] by blast
  have "\<forall>al role. aliases al = Some role \<longrightarrow> aliases' al = Some role"
    using a(3) by (auto simp: addRoleAlias_def split: if_splits option.splits)
  moreover have "pa_kind (pt_principal b) = ''role'' \<longrightarrow>
      aliases' (roleAlias (pt_principal b)) = Some (pa_original (pt_principal b))"
    using a(3) by (auto simp: addRoleAlias_def split: if_splits option.splits)
  ultimately show ?case using f a(1) by (intro exI [of _ final]) auto
qed

lemma LoadBundle_parts:
  assumes "LoadBundle ce arnp actions region bh b = Inr a"
  obtains ps where "add_policies ce bh (cb_Policies b) Map.empty = Inr ps"
    "add_attachments arnp bh ps (cb_Attachments b) {} Map.empty = Inr (au_customer a)"
    "au_region a = region" "au_bundleHash a = bh"
  using assms by (auto simp: LoadBundle_def sbind_def split: if_splits option.splits sum.splits)

section \<open>What a prepared request holds\<close>

abbreviation diag :: "'p policyAttachment \<Rightarrow> string" where
  "diag b \<equiv> pv_DiagnosticID (pt_Provenance b)"

lemma bind_attachment_fields:
  "pp_region (fst (bind_attachment caller attrs b st)) = pp_region (fst st)"
  "pp_identity (fst (bind_attachment caller attrs b st)) = pp_identity (fst st)"
  "pp_policies (fst (bind_attachment caller attrs b st)) =
     (if selected caller (pp_region (fst st)) b then (pp_policies (fst st))(diag b \<mapsto> pt_policy b)
      else pp_policies (fst st))"
  "pp_provenance (fst (bind_attachment caller attrs b st)) =
     (if selected caller (pp_region (fst st)) b then (pp_provenance (fst st))(diag b \<mapsto> pt_Provenance b)
      else pp_provenance (fst st))"
  by (auto simp: bind_attachment_def Let_def split: prod.split)

definition bound :: "principalARN \<Rightarrow> string \<Rightarrow> 'p policyAttachment list \<Rightarrow> string \<rightharpoonup> 'p policyAttachment" where
  "bound caller region bs = map_of (rev (map (\<lambda>b. (diag b, b)) (filter (selected caller region) bs)))"

lemma bound_Cons:
  "bound caller region (b # bs) =
     (if selected caller region b then [diag b \<mapsto> b] ++ bound caller region bs else bound caller region bs)"
  by (auto simp: bound_def map_of_append map_add_def fun_eq_iff split: option.split)

lemma fold_bind:
  "pp_region (fst (fold (bind_attachment caller attrs) bs st)) = pp_region (fst st) \<and>
   pp_identity (fst (fold (bind_attachment caller attrs) bs st)) = pp_identity (fst st) \<and>
   pp_policies (fst (fold (bind_attachment caller attrs) bs st)) =
     pp_policies (fst st) ++ (map_option pt_policy \<circ> bound caller (pp_region (fst st)) bs) \<and>
   pp_provenance (fst (fold (bind_attachment caller attrs) bs st)) =
     pp_provenance (fst st) ++ (map_option pt_Provenance \<circ> bound caller (pp_region (fst st)) bs)"
proof (induction bs arbitrary: st)
  case (Cons b bs)
  show ?case
    using Cons.IH [of "bind_attachment caller attrs b st"]
    by (auto simp: bind_attachment_fields bound_Cons fun_eq_iff map_add_def split: option.split)
qed (auto simp: bound_def)

lemma bound_Some:
  "bound caller region bs d = Some b \<Longrightarrow> b \<in> set bs \<and> selected caller region b \<and> diag b = d"
  by (auto simp: bound_def dest!: map_of_SomeD)

lemma bound_distinct:
  assumes "distinct (map diag bs)"
  shows "bound caller region bs d = Some b \<longleftrightarrow> b \<in> set bs \<and> selected caller region b \<and> diag b = d"
proof -
  have "distinct (map diag (filter (selected caller region) bs))"
    using assms by (simp add: distinct_map_filter)
  then have "distinct (map fst (rev (map (\<lambda>b. (diag b, b)) (filter (selected caller region) bs))))"
    by (simp add: rev_map [symmetric] comp_def)
  then show ?thesis unfolding bound_def by (auto simp: map_of_eq_Some_iff)
qed

lemma Prepare_parts:
  assumes "Prepare ce arnp c1 c2 a i req = Inr p"
  obtains caller where "checkedIdentity arnp i = Inr caller" "pp_identity p = i" "pp_region p = au_region a"
    "pp_policies p = (let m = map_option pt_policy \<circ> bound caller (au_region a) (au_customer a) in
       if id_IsAllowlisted i then m(allowlist_id i \<mapsto> au_allowlist a) else m)"
    "pp_provenance p = (let m = map_option pt_Provenance \<circ> bound caller (au_region a) (au_customer a) in
       if id_IsAllowlisted i then m(allowlist_id i \<mapsto>
            \<lparr>pv_DiagnosticID = allowlist_id i, pv_PolicyID = ''allowlist'', pv_BundleHash = au_bundleHash a,
             pv_AttachmentID = []\<rparr>) else m)"
proof -
  obtain caller secs where c: "checkedIdentity arnp i = Inr caller" "rx_RequestTime req = Some secs"
    using assms by (auto simp: Prepare_def split: if_splits sum.splits option.splits)
  let ?st = "fold (bind_attachment caller [(''account'', id_AccountID i)]) (au_customer a)
    (initial_prepared a i req secs, [])"
  have "\<exists>ents. p = (add_allowlist a i (fst ?st))\<lparr>pp_entities := ents\<rparr>"
    using assms c by (auto simp: Prepare_def Let_def split_beta split: if_splits)
  then obtain ents where p: "p = (add_allowlist a i (fst ?st))\<lparr>pp_entities := ents\<rparr>" by blast
  note f = fold_bind [of caller "[(''account'', id_AccountID i)]" "au_customer a" "(initial_prepared a i req secs, [])"]
  show ?thesis
    by (rule that [OF c(1)])
       (use f in \<open>simp_all add: p add_allowlist_def initial_prepared_def Let_def\<close>)
qed

lemma loaded_ids:
  assumes "LoadBundle ce arnp actions region bh bundle = Inr a"
  shows "distinct (map diag (au_customer a))" "b \<in> set (au_customer a) \<Longrightarrow> diag b \<noteq> allowlist_id i"
proof -
  obtain ps where "add_attachments arnp bh ps (cb_Attachments bundle) {} Map.empty = Inr (au_customer a)"
    using assms by (rule LoadBundle_parts)
  from add_attachments_distinct [OF this] show "distinct (map diag (au_customer a))"
    and "b \<in> set (au_customer a) \<Longrightarrow> diag b \<noteq> allowlist_id i"
    by (auto simp: allowlist_id_def)
qed

lemma role_match_alias:
  assumes "LoadBundle ce arnp actions region bh bundle = Inr a" "checkedIdentity arnp i = Inr caller"
    "b \<in> set (au_customer a)" "pa_kind (pt_principal b) = ''role''" "matchesPrincipal (pt_principal b) caller"
  shows "roleAlias (pt_principal b) = roleAlias caller"
proof -
  obtain ps where l: "add_attachments arnp bh ps (cb_Attachments bundle) {} Map.empty = Inr (au_customer a)"
    using assms(1) by (rule LoadBundle_parts)
  obtain r :: attachmentRecord where r: "parsePrincipal arnp (at_PrincipalARN r) = Inr (pt_principal b)"
    using add_attachments_sound [OF l assms(3)] by (auto simp: loaded_from_def)
  have c: "parsePrincipal arnp (id_CallerARN i) = Inr caller" "pa_kind caller \<noteq> ''role''"
    using checkedIdentity_fields [OF assms(2)] by auto
  have "pa_original (pt_principal b) \<noteq> pa_original caller"
    using r c assms(4) parsePrincipal_fields(3) [OF r] parsePrincipal_fields(3) [OF c(1)] by auto
  then show ?thesis using assms(5) by (simp add: matchesPrincipal_def)
qed

text \<open>C15: a request is decided on exactly the policies that concern its caller.  For a loaded bundle, the policies of a
  prepared request are those attached to the caller itself, or to the role of the caller's session, globally or in the
  service's region, and the allowlist policy if the caller is allowlisted; none is missing, none is
  added, and none is replaced by another.  All roles that match the session are the same role.\<close>
theorem policies_selected_exactly:
  assumes "LoadBundle ce arnp actions region bh bundle = Inr a" "Prepare ce arnp c1 c2 a i req = Inr p"
    and "checkedIdentity arnp i = Inr caller"
  shows "(pp_policies p d = Some pol \<longleftrightarrow>
            (\<exists>b \<in> set (au_customer a). diag b = d \<and> pt_policy b = pol \<and>
               matchesPrincipal (pt_principal b) caller \<and> appliesInRegion (pt_scope b) (pt_region b) region) \<or>
            id_IsAllowlisted i \<and> d = allowlist_id i \<and> pol = au_allowlist a) \<and>
         (\<forall>b \<in> set (au_customer a). \<forall>b' \<in> set (au_customer a).
            pa_kind (pt_principal b) = ''role'' \<and> pa_kind (pt_principal b') = ''role'' \<and>
            matchesPrincipal (pt_principal b) caller \<and> matchesPrincipal (pt_principal b') caller \<longrightarrow>
            pa_original (pt_principal b) = pa_original (pt_principal b'))"
proof -
  obtain ps where l: "add_attachments arnp bh ps (cb_Attachments bundle) {} Map.empty = Inr (au_customer a)"
    "au_region a = region"
    using assms(1) by (rule LoadBundle_parts)
  have p: "pp_policies p = (let m = map_option pt_policy \<circ> bound caller region (au_customer a) in
      if id_IsAllowlisted i then m(allowlist_id i \<mapsto> au_allowlist a) else m)"
    using assms(2,3) l(2) by (auto elim!: Prepare_parts)
  have no: "bound caller region (au_customer a) (allowlist_id i) \<noteq> Some b" for b
    using bound_Some loaded_ids(2) [OF assms(1)] by metis
  obtain final where final: "\<forall>b \<in> set (au_customer a). pa_kind (pt_principal b) = ''role'' \<longrightarrow>
      final (roleAlias (pt_principal b)) = Some (pa_original (pt_principal b))"
    using add_attachments_aliases [OF l(1)] by blast
  show ?thesis
  proof (intro conjI ballI impI)
    show "pp_policies p d = Some pol \<longleftrightarrow>
        (\<exists>b \<in> set (au_customer a). diag b = d \<and> pt_policy b = pol \<and>
           matchesPrincipal (pt_principal b) caller \<and> appliesInRegion (pt_scope b) (pt_region b) region) \<or>
        id_IsAllowlisted i \<and> d = allowlist_id i \<and> pol = au_allowlist a"
      using bound_distinct [OF loaded_ids(1) [OF assms(1)], of caller region d] no loaded_ids(2) [OF assms(1)]
      by (auto simp: p Let_def selected_def)
  qed (use role_match_alias [OF assms(1,3)] final in \<open>metis option.inject\<close>)
qed

section \<open>Access\<close>

lemma Check_allowed:
  assumes "Check ce c1 c2 p action r = Inr d" "de_Allowed d"
  obtains ents u v where "resourceEntities p action r = Inr (ents, u)"
    "ce_evaluate ce (pp_policies p) ents
       \<lparr>cq_Principal = pp_principal p, cq_Action = entityUID ''Action'' action, cq_Resource = u,
        cq_Context = pp_requestContext p\<rparr> = Some v"
    "vd_Errors v = []" "vd_Allow v" "mapProvenance p (vd_Reasons v) = (de_Provenance d, [])"
  using assms
  by (auto simp: Check_def Let_def split: if_splits sum.splits option.splits prod.splits)

lemma resourceEntities_account:
  "resourceEntities p action r = Inr (ents, u) \<Longrightarrow> rs_AccountID r = id_AccountID (pp_identity p)"
  by (auto simp: resourceEntities_def validateResourceIdentity_def sbind_def Let_def split: if_splits)

lemma mapProvenance_ok:
  assumes "mapProvenance p ids = (prov, [])"
  shows "set prov = {pv. \<exists>i \<in> set ids. pp_provenance p i = Some pv} \<and> (ids \<noteq> [] \<longrightarrow> prov \<noteq> [])"
proof -
  have "\<forall>i \<in> set ids. pp_provenance p i \<noteq> None"
    using assms by (auto simp: mapProvenance_def Let_def filter_empty_conv)
  moreover have "set prov = {pv. \<exists>i \<in> set ids. pp_provenance p i = Some pv}"
    using assms by (force simp: mapProvenance_def Let_def List.map_filter_def)
  ultimately show ?thesis by (cases ids) auto
qed

text \<open>A record of the bundle that gives the caller the right to be considered by its policy, which the caller's own account owns.\<close>

definition grants ::
  "(string \<Rightarrow> arn option) \<Rightarrow> string \<Rightarrow> configBundle \<Rightarrow> Identity \<Rightarrow> attachmentRecord \<Rightarrow> bool" where
  "grants arnp region bundle i at \<longleftrightarrow>
     (\<exists>target caller. parsePrincipal arnp (at_PrincipalARN at) = Inr target \<and> checkedIdentity arnp i = Inr caller \<and>
        matchesPrincipal target caller) \<and>
     appliesInRegion (at_Scope at) (at_Region at) region \<and>
     (\<exists>pol \<in> set (cb_Policies bundle). pr_ID pol = at_PolicyID at \<and> pr_OwnerAccountID pol = id_AccountID i)"

lemma selected_grants:
  assumes "LoadBundle ce arnp actions region bh bundle = Inr a" "checkedIdentity arnp i = Inr caller"
    "b \<in> set (au_customer a)" "selected caller region b"
  shows "\<exists>at \<in> set (cb_Attachments bundle). pt_Provenance b = attachment_provenance bh at \<and>
    grants arnp region bundle i at"
proof -
  obtain ps where l: "add_policies ce bh (cb_Policies bundle) Map.empty = Inr ps"
    "add_attachments arnp bh ps (cb_Attachments bundle) {} Map.empty = Inr (au_customer a)"
    using assms(1) by (rule LoadBundle_parts)
  obtain at where at: "at \<in> set (cb_Attachments bundle)" "loaded_from arnp bh ps at b"
    using add_attachments_sound [OF l(2) assms(3)] by blast
  have t: "parsePrincipal arnp (at_PrincipalARN at) = Inr (pt_principal b)"
    "matchesPrincipal (pt_principal b) caller" "appliesInRegion (at_Scope at) (at_Region at) region"
    "ps (at_PolicyID at) = Some (pa_account (pt_principal b), pt_policy b)"
    using at(2) assms(4) by (simp_all add: loaded_from_def selected_def)
  have "pa_account (pt_principal b) = id_AccountID i"
    using matchesPrincipal_account [OF t(1) checkedIdentity_fields(1) [OF assms(2)] t(2)]
      checkedIdentity_fields(2) [OF assms(2)] by simp
  then have "\<exists>pol \<in> set (cb_Policies bundle). pr_ID pol = at_PolicyID at \<and> pr_OwnerAccountID pol = id_AccountID i"
    using add_policies_sound [OF l(1) t(4)] by auto
  then have "grants arnp region bundle i at" using t(1-3) assms(2) by (auto simp: grants_def)
  then show ?thesis using at by (auto simp: loaded_from_def)
qed

text \<open>C14: access needs a grant, and stays within the account.  If Cedar denies by default (a request is allowed only for
  named policies of the given set), then whenever a check of a prepared request allows an action, the resource belongs to the
  caller's account, no policy failed to evaluate, and the decision names its reasons, each of which is the allowlist policy of an allowlisted
  caller or an attachment of the bundle to this caller, in force in this region, of a policy
  that the caller's own account owns.\<close>
theorem access_needs_a_grant:
  assumes default_deny: "\<And>ps ents q v. ce_evaluate ce ps ents q = Some v \<Longrightarrow> vd_Allow v \<Longrightarrow>
      vd_Reasons v \<noteq> [] \<and> set (vd_Reasons v) \<subseteq> dom ps"
    and "LoadBundle ce arnp actions region bh bundle = Inr a" "Prepare ce arnp c1 c2 a i req = Inr p"
    and "Check ce c3 c4 p action r = Inr d" "de_Allowed d"
  shows "rs_AccountID r = id_AccountID i \<and> de_Provenance d \<noteq> [] \<and>
         (\<forall>pv \<in> set (de_Provenance d).
            id_IsAllowlisted i \<and> pv_PolicyID pv = ''allowlist'' \<and> pv_DiagnosticID pv = allowlist_id i \<or>
            (\<exists>at \<in> set (cb_Attachments bundle). pv = attachment_provenance bh at \<and> grants arnp region bundle i at))"
proof -
  obtain caller where c: "checkedIdentity arnp i = Inr caller" "pp_identity p = i"
    "pp_provenance p = (let m = map_option pt_Provenance \<circ> bound caller (au_region a) (au_customer a) in
       if id_IsAllowlisted i then m(allowlist_id i \<mapsto>
            \<lparr>pv_DiagnosticID = allowlist_id i, pv_PolicyID = ''allowlist'', pv_BundleHash = au_bundleHash a,
             pv_AttachmentID = []\<rparr>) else m)"
    using assms(3) by (rule Prepare_parts)
  obtain ents u and v :: verdict where k: "resourceEntities p action r = Inr (ents, u)" "vd_Reasons v \<noteq> []"
    "mapProvenance p (vd_Reasons v) = (de_Provenance d, [])"
    using assms(4,5) by (rule Check_allowed) (use default_deny in blast)
  have "au_region a = region" using assms(2) by (rule LoadBundle_parts)
  then have pv: "id_IsAllowlisted i \<and> pv_PolicyID pv = ''allowlist'' \<and> pv_DiagnosticID pv = allowlist_id i \<or>
      (\<exists>at \<in> set (cb_Attachments bundle). pv = attachment_provenance bh at \<and> grants arnp region bundle i at)"
    if "pp_provenance p x = Some pv" for x pv
    using that c(3) bound_Some [of caller region "au_customer a" x] selected_grants [OF assms(2) c(1)]
    by (auto simp: Let_def split: if_splits)
  show ?thesis
    using resourceEntities_account [OF k(1)] c(2) mapProvenance_ok [OF k(3)] k(2) pv by auto
qed

section \<open>An example\<close>

text \<open>A policy of account \<open>111111111111\<close>, attached to the role \<open>admin\<close>, and a session of that role.  The evaluator
  of the example allows a request if that attachment is among the policies.\<close>

definition ex_role :: string where "ex_role = ''arn:aws:iam::111111111111:role/ops/admin''"
definition ex_session :: string where "ex_session = ''arn:aws:sts::111111111111:assumed-role/admin/s1''"

definition ex_arnp :: "string \<Rightarrow> arn option" where
  "ex_arnp v =
     (if v = ex_role then
        Some \<lparr>ar_Partition = ''aws'', ar_Service = ''iam'', ar_Region = [], ar_AccountID = ''111111111111'',
              ar_Resource = ''role/ops/admin''\<rparr>
      else if v = ex_session then
        Some \<lparr>ar_Partition = ''aws'', ar_Service = ''sts'', ar_Region = [], ar_AccountID = ''111111111111'',
              ar_Resource = ''assumed-role/admin/s1''\<rparr>
      else None)"

definition ex_cedar :: "unit cedar" where
  "ex_cedar =
     \<lparr>ce_parse = (\<lambda>_ _. Some [()]), ce_valid_policy = (\<lambda>_ _. True), ce_valid_entities = (\<lambda>_. True),
      ce_valid_request = (\<lambda>_. True),
      ce_evaluate = (\<lambda>ps ents q. Some
        (if ps ''attachment/at1'' = None then \<lparr>vd_Allow = False, vd_Reasons = [], vd_Errors = []\<rparr>
         else \<lparr>vd_Allow = True, vd_Reasons = [''attachment/at1''], vd_Errors = []\<rparr>))\<rparr>"

definition ex_bundle :: configBundle where
  "ex_bundle =
     \<lparr>cb_RegisteredAccounts = [''111111111111''],
      cb_Policies = [\<lparr>pr_ID = ''p1'', pr_OwnerAccountID = ''111111111111'', pr_Content = ''permit(principal,action,resource);''\<rparr>],
      cb_Attachments = [\<lparr>at_ID = ''at1'', at_PolicyID = ''p1'', at_PrincipalARN = ex_role, at_Scope = ''regional'',
                         at_Region = ''us-east-1''\<rparr>]\<rparr>"

definition ex_identity :: Identity where
  "ex_identity = \<lparr>id_AccountID = ''111111111111'', id_CallerARN = ex_session, id_IsAllowlisted = False\<rparr>"

definition ex_target :: principalARN where
  "ex_target = \<lparr>pa_partition = ''aws'', pa_account = ''111111111111'', pa_kind = ''role'', pa_roleName = ''admin'',
                pa_original = ex_role\<rparr>"

definition ex_caller :: principalARN where
  "ex_caller = \<lparr>pa_partition = ''aws'', pa_account = ''111111111111'', pa_kind = ''assumed-role'',
                pa_roleName = ''admin'', pa_original = ex_session\<rparr>"

definition ex_attachment :: "unit policyAttachment" where
  "ex_attachment = \<lparr>pt_Provenance = attachment_provenance ''h'' (hd (cb_Attachments ex_bundle)), pt_policy = (),
                    pt_principal = ex_target, pt_scope = ''regional'', pt_region = ''us-east-1''\<rparr>"

definition ex_authorizer :: "unit Authorizer" where
  "ex_authorizer = \<lparr>au_bundleHash = ''h'', au_customer = [ex_attachment], au_allowlist = (),
                    au_region = ''us-east-1'', au_accounts = {''111111111111''}, au_actions = Map.empty\<rparr>"

definition ex_request :: RequestContext where
  "ex_request = \<lparr>rx_SourceIP = [], rx_UserAgent = [], rx_RequestTime = Some 0, rx_RequestLabels = Map.empty\<rparr>"

definition ex_cluster :: Resource where
  "ex_cluster = \<lparr>rs_Kind = ''Cluster'', rs_ID = ''c1'', rs_AccountID = ''111111111111'', rs_Labels = Map.empty,
                 rs_CollectionKind = [], rs_ParentCluster = None\<rparr>"

lemma ex_patterns: "accountPattern ''111111111111''" "regionPattern ''us-east-1''" "idPattern ''at1''" "idPattern ''p1''"
  "idPattern ''c1''"
  by code_simp+

lemma ex_parse: "parsePrincipal ex_arnp ex_role = Inr ex_target" "parsePrincipal ex_arnp ex_session = Inr ex_caller"
  by code_simp+

lemma ex_loaded: "LoadBundle ex_cedar ex_arnp Map.empty ''us-east-1'' ''h'' ex_bundle = Inr ex_authorizer"
  by (simp add: LoadBundle_def ex_patterns checkedPolicy_def ex_cedar_def sbind_def ex_bundle_def Let_def ex_parse
      checkedScope_def addRoleAlias_def ex_authorizer_def ex_attachment_def ex_target_def)

lemma ex_checked: "checkedIdentity ex_arnp ex_identity = Inr ex_caller"
  by (simp add: checkedIdentity_def sbind_def ex_identity_def ex_parse ex_caller_def)

lemma ex_selected: "selected ex_caller ''us-east-1'' ex_attachment"
  by (simp add: selected_def ex_attachment_def matchesPrincipal_def ex_target_def ex_caller_def roleAlias_def
      appliesInRegion_def)

lemma ex_prepared:
  obtains p where "Prepare ex_cedar ex_arnp False False ex_authorizer ex_identity ex_request = Inr p"
proof -
  have "\<exists>p. Prepare ex_cedar ex_arnp False False ex_authorizer ex_identity ex_request = Inr p"
    by (simp add: Prepare_def ex_checked ex_request_def ex_cedar_def Let_def split_beta)
  then show ?thesis using that by blast
qed

lemma ex_default_deny:
  "ce_evaluate ex_cedar ps ents q = Some v \<Longrightarrow> vd_Allow v \<Longrightarrow>
     vd_Reasons v \<noteq> [] \<and> set (vd_Reasons v) \<subseteq> dom ps"
  by (auto simp: ex_cedar_def split: if_splits)

lemma ex_diag: "diag ex_attachment = ''attachment/at1''"
  by (simp add: ex_attachment_def attachment_provenance_def ex_bundle_def)

theorem policies_selected_exactly_witness:
  "\<exists>p. Prepare ex_cedar ex_arnp False False ex_authorizer ex_identity ex_request = Inr p \<and>
     pp_policies p ''attachment/at1'' = Some () \<and> pp_policies p ''attachment/at2'' \<noteq> Some ()"
proof -
  obtain p where p: "Prepare ex_cedar ex_arnp False False ex_authorizer ex_identity ex_request = Inr p"
    by (rule ex_prepared)
  note sel = policies_selected_exactly [OF ex_loaded p ex_checked, THEN conjunct1]
  have "pp_policies p ''attachment/at1'' = Some ()"
    unfolding sel using ex_selected by (simp add: ex_authorizer_def selected_def ex_diag)
  moreover have "pp_policies p ''attachment/at2'' \<noteq> Some ()"
    unfolding sel by (simp add: ex_authorizer_def ex_diag ex_identity_def)
  ultimately show ?thesis using p by auto
qed

lemma ex_prepared_parts:
  assumes "Prepare ex_cedar ex_arnp False False ex_authorizer ex_identity ex_request = Inr p"
  shows "pp_identity p = ex_identity" "pp_policies p = [''attachment/at1'' \<mapsto> ()]"
    "pp_provenance p = [''attachment/at1'' \<mapsto> pt_Provenance ex_attachment]"
proof -
  have b: "bound ex_caller ''us-east-1'' [ex_attachment] = [''attachment/at1'' \<mapsto> ex_attachment]"
    by (simp add: bound_def ex_selected ex_diag)
  have al: "id_IsAllowlisted ex_identity = False" by (simp add: ex_identity_def)
  obtain caller where c: "checkedIdentity ex_arnp ex_identity = Inr caller" and r: "pp_identity p = ex_identity"
    "pp_policies p = (let m = map_option pt_policy \<circ> bound caller (au_region ex_authorizer) (au_customer ex_authorizer) in
       if id_IsAllowlisted ex_identity then m(allowlist_id ex_identity \<mapsto> au_allowlist ex_authorizer) else m)"
    "pp_provenance p = (let m = map_option pt_Provenance \<circ> bound caller (au_region ex_authorizer) (au_customer ex_authorizer) in
       if id_IsAllowlisted ex_identity then m(allowlist_id ex_identity \<mapsto>
            \<lparr>pv_DiagnosticID = allowlist_id ex_identity, pv_PolicyID = ''allowlist'',
             pv_BundleHash = au_bundleHash ex_authorizer, pv_AttachmentID = []\<rparr>) else m)"
    using assms by (rule Prepare_parts)
  have caller: "caller = ex_caller" using c ex_checked by simp
  show "pp_identity p = ex_identity" "pp_policies p = [''attachment/at1'' \<mapsto> ()]"
    "pp_provenance p = [''attachment/at1'' \<mapsto> pt_Provenance ex_attachment]"
    using r unfolding caller al by (simp_all add: ex_authorizer_def b Let_def fun_eq_iff)
qed

lemma ex_permitted:
  assumes "Prepare ex_cedar ex_arnp False False ex_authorizer ex_identity ex_request = Inr p"
    "resourceEntities p action rsc = Inr e"
  shows "Check ex_cedar False False p action rsc = Inr \<lparr>de_Allowed = True, de_Provenance = [pt_Provenance ex_attachment]\<rparr>"
  using assms(2)
  by (cases e) (simp add: Check_def Let_def ex_cedar_def ex_prepared_parts [OF assms(1)] mapProvenance_def List.map_filter_simps)

lemma ex_allowed:
  assumes "Prepare ex_cedar ex_arnp False False ex_authorizer ex_identity ex_request = Inr p"
  shows "Check ex_cedar False False p ''DescribeCluster'' ex_cluster =
    Inr \<lparr>de_Allowed = True, de_Provenance = [pt_Provenance ex_attachment]\<rparr>"
proof -
  have "\<exists>e. resourceEntities p ''DescribeCluster'' ex_cluster = Inr e"
    by (simp add: resourceEntities_def validateResourceIdentity_def sbind_def ex_cluster_def ex_prepared_parts [OF assms]
        ex_identity_def Let_def actionResourceKind_def listAction_def label_contradicts_def ex_patterns)
  then show ?thesis using ex_permitted [OF assms] by blast
qed

theorem access_needs_a_grant_witness:
  "grants ex_arnp ''us-east-1'' ex_bundle ex_identity (hd (cb_Attachments ex_bundle))"
proof -
  obtain p where p: "Prepare ex_cedar ex_arnp False False ex_authorizer ex_identity ex_request = Inr p"
    by (rule ex_prepared)
  show ?thesis
    using access_needs_a_grant [OF ex_default_deny ex_loaded p ex_allowed [OF p]]
    by (auto simp: ex_identity_def ex_bundle_def)
qed

end
