(* ===== verification/Programs.thy ===== *)
theory Programs
  imports Prelude
begin

text \<open>
  Controllers as programs.  A reconciler calls the object client many times, and between two calls other
  reconcilers, other replicas and the API server act on the same objects.  A program is a function on a
  world: the shared state, a script of what happens before and at each of the coming calls, and a log of
  the calls' effects.  A step of the script says what others do to the state before the call
  (\<open>st_others\<close>) and whether the call fails, before or after the database has performed it.  When the script
  ends, calls run undisturbed.

  Errors keep their kind under \<open>fmt.Errorf("...: %w", err)\<close>, which is what \<open>apierrors.IsNotFound\<close> and its
  likes look at; the texts are left out.

  \<open>contract R G P m Q\<close> is the contract of a program in the style of rely and guarantee: if the others keep to
  \<open>R\<close> and \<open>P\<close> holds at the start, then \<open>Q\<close> holds of result and state at the end, and each effect of the
  program is in \<open>G\<close>.
\<close>

section \<open>Programs\<close>

datatype api_error = NotFound | AlreadyExists | Conflict | OtherError string

text \<open>What the client reports for a call whose outcome it does not know: a conflict, or any other error.\<close>

datatype lost = LostConflict | LostOther string

definition lost_error :: "lost \<Rightarrow> api_error" where
  "lost_error f = (case f of LostConflict \<Rightarrow> Conflict | LostOther m \<Rightarrow> OtherError m)"

datatype call_fault = NoCallFault | FailBefore lost | FailAfter lost

record 's step =
  st_others :: "'s \<Rightarrow> 's"
  st_fault :: call_fault

record 's world =
  w_state :: 's
  w_script :: "'s step list"
  w_log :: "('s \<times> 's) list"

type_synonym ('s, 'a) prog = "'s world \<Rightarrow> (api_error + 'a) \<times> 's world"

definition ret :: "'a \<Rightarrow> ('s, 'a) prog" where
  "ret x w = (Inr x, w)"

definition fail :: "api_error \<Rightarrow> ('s, 'a) prog" where
  "fail e w = (Inl e, w)"

text \<open>Run \<open>m\<close>, then go on with its result, error or not.\<close>

definition attempt :: "('s, 'a) prog \<Rightarrow> (api_error + 'a \<Rightarrow> ('s, 'b) prog) \<Rightarrow> ('s, 'b) prog" where
  "attempt m k w = (case m w of (r, w') \<Rightarrow> k r w')"

text \<open>Run \<open>m\<close> and return its error, if any: \<open>x, err := m(); if err != nil { return err }\<close>.\<close>

definition andThen :: "('s, 'a) prog \<Rightarrow> ('a \<Rightarrow> ('s, 'b) prog) \<Rightarrow> ('s, 'b) prog" where
  "andThen m k = attempt m (\<lambda>r. case r of Inl e \<Rightarrow> fail e | Inr x \<Rightarrow> k x)"

fun forEach :: "'a list \<Rightarrow> ('a \<Rightarrow> ('s, unit) prog) \<Rightarrow> ('s, unit) prog" where
  "forEach [] f = ret ()"
| "forEach (x # xs) f = andThen (f x) (\<lambda>_. forEach xs f)"

definition call_effect :: "('s \<Rightarrow> (api_error + 'a) \<times> 's) \<Rightarrow> 's step option \<Rightarrow> 's \<Rightarrow> (api_error + 'a) \<times> 's \<times> 's" where
  "call_effect f st s =
     (case st of
        None \<Rightarrow> (case f s of (r, s') \<Rightarrow> (r, s, s'))
      | Some x \<Rightarrow>
          let s1 = st_others x s in
          (case st_fault x of
             NoCallFault \<Rightarrow> (case f s1 of (r, s') \<Rightarrow> (r, s1, s'))
           | FailBefore m \<Rightarrow> (Inl (lost_error m), s1, s1)
           | FailAfter m \<Rightarrow> (case f s1 of (r, s') \<Rightarrow> (Inl (lost_error m), s1, s'))))"

text \<open>A call of the object client.\<close>

definition api_call :: "('s \<Rightarrow> (api_error + 'a) \<times> 's) \<Rightarrow> ('s, 'a) prog" where
  "api_call f w =
     (let st = (case w_script w of [] \<Rightarrow> None | x # xs \<Rightarrow> Some x) in
      case call_effect f st (w_state w) of
        (r, s, s') \<Rightarrow> (r, \<lparr>w_state = s', w_script = tl (w_script w), w_log = w_log w @ [(s, s')]\<rparr>))"

text \<open>\<open>retry.RetryOnConflict\<close> with the five steps of \<open>retry.DefaultRetry\<close>.\<close>

fun retrying :: "nat \<Rightarrow> ('s, 'a) prog \<Rightarrow> ('s, 'a) prog" where
  "retrying 0 m = m"
| "retrying (Suc n) m = attempt m (\<lambda>r. if r = Inl Conflict then retrying n m else (\<lambda>w. (r, w)))"

definition RetryOnConflict :: "('s, 'a) prog \<Rightarrow> ('s, 'a) prog" where
  "RetryOnConflict m = retrying 4 m"

lemma lost_error_simps [simp]: "lost_error f \<noteq> NotFound" "lost_error f \<noteq> AlreadyExists"
  by (simp_all add: lost_error_def split: lost.split)

section \<open>Contracts\<close>

definition relies :: "('s \<Rightarrow> 's \<Rightarrow> bool) \<Rightarrow> 's world \<Rightarrow> bool" where
  "relies R w \<longleftrightarrow> (\<forall>x \<in> set (w_script w). \<forall>s. R s (st_others x s))"

definition contract ::
  "('s \<Rightarrow> 's \<Rightarrow> bool) \<Rightarrow> ('s \<Rightarrow> 's \<Rightarrow> bool) \<Rightarrow> ('s \<Rightarrow> bool) \<Rightarrow> ('s, 'a) prog \<Rightarrow>
   (api_error + 'a \<Rightarrow> 's \<Rightarrow> bool) \<Rightarrow> bool" where
  "contract R G P m Q \<longleftrightarrow>
     (\<forall>w r w'. relies R w \<longrightarrow> P (w_state w) \<longrightarrow> m w = (r, w') \<longrightarrow>
        relies R w' \<and> Q r (w_state w') \<and>
        (\<exists>l. w_log w' = w_log w @ l \<and> (\<forall>(s, s') \<in> set l. G s s')))"

definition stable :: "('s \<Rightarrow> 's \<Rightarrow> bool) \<Rightarrow> ('s \<Rightarrow> bool) \<Rightarrow> bool" where
  "stable R P \<longleftrightarrow> (\<forall>s s'. R s s' \<longrightarrow> P s \<longrightarrow> P s')"

lemma stableI: "(\<And>s s'. R s s' \<Longrightarrow> P s \<Longrightarrow> P s') \<Longrightarrow> stable R P"
  by (simp add: stable_def)

lemma contractD:
  assumes "contract R G P m Q" "relies R w" "P (w_state w)" "m w = (r, w')"
  shows "relies R w'" "Q r (w_state w')"
    "\<exists>l. w_log w' = w_log w @ l \<and> (\<forall>(s, s') \<in> set l. G s s')"
  using assms unfolding contract_def by blast+

lemma contract_ret [intro!]: "(\<And>s. P s \<Longrightarrow> Q (Inr x) s) \<Longrightarrow> contract R G P (ret x) Q"
  by (auto simp: contract_def ret_def)

lemma contract_fail [intro!]: "(\<And>s. P s \<Longrightarrow> Q (Inl e) s) \<Longrightarrow> contract R G P (fail e) Q"
  by (auto simp: contract_def fail_def)

lemma contract_same: "(\<And>s. P s \<Longrightarrow> Q r s) \<Longrightarrow> contract R G P (\<lambda>w. (r, w)) Q"
  by (auto simp: contract_def)

lemma contract_conseq:
  assumes "contract R G P' m Q'" "\<And>s. P s \<Longrightarrow> P' s" "\<And>r s. Q' r s \<Longrightarrow> Q r s"
  shows "contract R G P m Q"
  using assms unfolding contract_def by meson

lemma contract_attempt:
  assumes m: "contract R G P m Q'" and k: "\<And>r. contract R G (Q' r) (k r) Q"
  shows "contract R G P (attempt m k) Q"
  unfolding contract_def
proof (intro allI impI)
  fix w r w'
  assume w: "relies R w" "P (w_state w)" "attempt m k w = (r, w')"
  obtain r1 w1 where 1: "m w = (r1, w1)" by fastforce
  then have 2: "k r1 w1 = (r, w')" using w(3) by (simp add: attempt_def)
  note m1 = contractD [OF m w(1,2) 1]
  note k1 = contractD [OF k m1(1) m1(2) 2]
  show "relies R w' \<and> Q r (w_state w') \<and> (\<exists>l. w_log w' = w_log w @ l \<and> (\<forall>(s, s') \<in> set l. G s s'))"
    using m1(3) k1 by (metis Un_iff append.assoc set_append)
qed

lemma contract_andThen:
  assumes "contract R G P m Q'" "\<And>x. contract R G (Q' (Inr x)) (k x) Q" "\<And>e s. Q' (Inl e) s \<Longrightarrow> Q (Inl e) s"
  shows "contract R G P (andThen m k) Q"
  unfolding andThen_def
proof (rule contract_attempt [OF assms(1)])
  fix r show "contract R G (Q' r) (case r of Inl e \<Rightarrow> fail e | Inr x \<Rightarrow> k x) Q"
    using assms(2,3) by (cases r) auto
qed

lemma contract_if:
  assumes "c \<Longrightarrow> contract R G P m Q" "\<not> c \<Longrightarrow> contract R G P n Q"
  shows "contract R G P (if c then m else n) Q"
  using assms by simp

text \<open>A fact that does not depend on the state can be taken out of a precondition.\<close>

lemma contract_pure: "(c \<Longrightarrow> contract R G P m Q) \<Longrightarrow> contract R G (\<lambda>s. c \<and> P s) m Q"
  unfolding contract_def by blast

lemma contract_ex: "(\<And>x. contract R G (P x) m Q) \<Longrightarrow> contract R G (\<lambda>s. \<exists>x. P x s) m Q"
  unfolding contract_def by blast

lemma contract_false: "(\<And>s. \<not> P s) \<Longrightarrow> contract R G P m Q"
  by (simp add: contract_def)

lemma contract_forEach:
  assumes "\<And>x. x \<in> set xs \<Longrightarrow> contract R G I (f x) (\<lambda>r s. case r of Inl e \<Rightarrow> Q (Inl e) s | Inr _ \<Rightarrow> I s)"
    and "\<And>s. I s \<Longrightarrow> Q (Inr ()) s"
  shows "contract R G I (forEach xs f) Q"
  using assms
proof (induction xs)
  case (Cons x xs)
  show ?case unfolding forEach.simps
  proof (rule contract_andThen)
    show "contract R G I (f x) (\<lambda>r s. case r of Inl e \<Rightarrow> Q (Inl e) s | Inr _ \<Rightarrow> I s)"
      by (rule Cons.prems(1)) simp
  qed (use Cons in auto)
qed auto

lemma contract_retrying:
  assumes "contract R G P m (\<lambda>r s. if r = Inl Conflict then P s \<and> Q r s else Q r s)"
  shows "contract R G P (retrying n m) Q"
proof (induction n)
  case 0
  show ?case using assms unfolding retrying.simps by (rule contract_conseq) (auto split: if_splits)
next
  case (Suc n)
  show ?case unfolding retrying.simps
  proof (rule contract_attempt [OF assms])
    fix r :: "api_error + 'b"
    show "contract R G (\<lambda>s. if r = Inl Conflict then P s \<and> Q r s else Q r s)
        (if r = Inl Conflict then retrying n m else (\<lambda>w. (r, w))) Q"
    proof (cases "r = Inl Conflict")
      case True
      have "contract R G (\<lambda>s. P s \<and> Q r s) (retrying n m) Q" by (rule contract_conseq [OF Suc.IH]) auto
      with True show ?thesis by simp
    qed (simp add: contract_same)
  qed
qed

lemma contract_RetryOnConflict:
  assumes "contract R G P m (\<lambda>r s. if r = Inl Conflict then P s \<and> Q r s else Q r s)"
  shows "contract R G P (RetryOnConflict m) Q"
  unfolding RetryOnConflict_def using assms by (rule contract_retrying)

text \<open>A call: its precondition survives what others do, its effect is in the guarantee, and its
  postcondition holds whether it answers, fails without effect or fails after it.\<close>

lemma contract_call:
  assumes stable: "stable R P"
    and effect: "\<And>s r s'. P s \<Longrightarrow> f s = (r, s') \<Longrightarrow> G s s' \<and> Q r s' \<and> (\<forall>m. Q (Inl (lost_error m)) s')"
    and idle: "\<And>s m. P s \<Longrightarrow> G s s \<and> Q (Inl (lost_error m)) s"
  shows "contract R G P (api_call f) Q"
  unfolding contract_def
proof (intro allI impI)
  fix w r w'
  assume w: "relies R w" "P (w_state w)" "api_call f w = (r, w')"
  define st where "st = (case w_script w of [] \<Rightarrow> None | x # xs \<Rightarrow> Some x)"
  obtain s s' where e: "call_effect f st (w_state w) = (r, s, s')"
    "w' = \<lparr>w_state = s', w_script = tl (w_script w), w_log = w_log w @ [(s, s')]\<rparr>"
    using w(3) unfolding api_call_def st_def Let_def by (auto split: prod.splits)
  have "relies R w'" using w(1) e(2) by (cases "w_script w") (auto simp: relies_def)
  moreover have "P s"
    using w(1,2) e(1) stable
    by (cases "w_script w")
       (auto simp: st_def call_effect_def relies_def stable_def Let_def split: call_fault.splits prod.splits)
  moreover have "G s s' \<and> Q r s'"
  proof (cases "\<exists>m. r = Inl (lost_error m) \<and> s' = s")
    case True
    then show ?thesis using idle [OF \<open>P s\<close>] by blast
  next
    case False
    then obtain r' where r': "f s = (r', s')" "r = r' \<or> (\<exists>m. r = Inl (lost_error m))"
      using e(1)
      by (cases st) (auto simp: call_effect_def Let_def split: call_fault.splits prod.splits)
    then show ?thesis using effect [OF \<open>P s\<close> r'(1)] by blast
  qed
  ultimately show "relies R w' \<and> Q r (w_state w') \<and>
      (\<exists>l. w_log w' = w_log w @ l \<and> (\<forall>(s, s') \<in> set l. G s s'))"
    using e(2) by auto
qed

text \<open>A call that only reads.\<close>

lemma contract_read:
  assumes "stable R P" "\<And>s. G s s" "\<And>s. P s \<Longrightarrow> Q (g s) s" "\<And>s m. P s \<Longrightarrow> Q (Inl (lost_error m)) s"
  shows "contract R G P (api_call (\<lambda>s. (g s, s))) Q"
  by (rule contract_call) (use assms in auto)

section \<open>Programs that run at once\<close>

text \<open>A family of programs, one for each key, that share a state: each can rely on what the others
  guarantee.  \<open>others k\<close> is everything the programs of other keys can do between two calls of the program of
  \<open>k\<close>, in any number and any order.\<close>

locale concurrent =
  fixes inv :: "'s \<Rightarrow> bool"
    and rely guar :: "'k \<Rightarrow> 's \<Rightarrow> 's \<Rightarrow> bool"
    and main :: "'k \<Rightarrow> ('s, 'a) prog"
  assumes guar_rely: "k' \<noteq> k \<Longrightarrow> guar k s s' \<Longrightarrow> rely k' s s'"
    and rely_refl: "rely k s s"
    and rely_trans: "rely k s s' \<Longrightarrow> rely k s' s'' \<Longrightarrow> rely k s s''"
    and main_contract: "contract (rely k) (guar k) inv (main k) (\<lambda>_. inv)"
begin

definition others :: "'k \<Rightarrow> 's \<Rightarrow> 's \<Rightarrow> bool" where
  "others k = (\<lambda>s s'. \<exists>k'. k' \<noteq> k \<and> guar k' s s')\<^sup>*\<^sup>*"

lemma others_rely: "others k s s' \<Longrightarrow> rely k s s'"
  unfolding others_def
  by (induction rule: rtranclp_induct) (metis rely_refl guar_rely rely_trans)+

lemma relies_others:
  assumes "\<And>x s. x \<in> set (w_script w) \<Longrightarrow> others k s (st_others x s)"
  shows "relies (rely k) w"
  using assms others_rely by (auto simp: relies_def)

lemma main_keeps_inv:
  assumes "inv (w_state w)" "relies (rely k) w" "main k w = (r, w')"
  shows "inv (w_state w')"
    and "\<exists>l. w_log w' = w_log w @ l \<and> (\<forall>(s, s') \<in> set l. guar k s s' \<and> (\<forall>k'. k' \<noteq> k \<longrightarrow> rely k' s s'))"
  using contractD [OF main_contract assms(2,1,3)] guar_rely by (blast, fast)

end

section \<open>Undisturbed runs\<close>

text \<open>\<open>runs m s r s'\<close>: without faults and interference, \<open>m\<close> started in \<open>s\<close> returns \<open>r\<close> and leaves \<open>s'\<close>.\<close>

definition runs :: "('s, 'a) prog \<Rightarrow> 's \<Rightarrow> api_error + 'a \<Rightarrow> 's \<Rightarrow> bool" where
  "runs m s r s' \<longleftrightarrow>
     (\<forall>w. w_script w = [] \<longrightarrow> w_state w = s \<longrightarrow>
        (\<exists>l. m w = (r, \<lparr>w_state = s', w_script = [], w_log = w_log w @ l\<rparr>)))"

lemma runsD:
  assumes "runs m s r s'" "w_script w = []" "w_state w = s"
  shows "fst (m w) = r" "w_state (snd (m w)) = s'"
  using assms unfolding runs_def by fastforce+

lemma runs_ret: "runs (ret x) s (Inr x) s"
  by (auto simp: runs_def ret_def intro: exI [of _ "[]"])

lemma runs_fail: "runs (fail e) s (Inl e) s"
  by (auto simp: runs_def fail_def intro: exI [of _ "[]"])

lemma runs_call: "f s = (r, s') \<Longrightarrow> runs (api_call f) s r s'"
  by (auto simp: runs_def api_call_def call_effect_def)

lemma runs_attempt:
  assumes "runs m s r s1" "runs (k r) s1 r' s2"
  shows "runs (attempt m k) s r' s2"
  unfolding runs_def
proof (intro allI impI)
  fix w :: "'a world" assume w: "w_script w = []" "w_state w = s"
  obtain l where 1: "m w = (r, \<lparr>w_state = s1, w_script = [], w_log = w_log w @ l\<rparr>)"
    using assms(1) w unfolding runs_def by blast
  let ?w1 = "\<lparr>w_state = s1, w_script = [], w_log = w_log w @ l\<rparr>"
  obtain l' where "k r ?w1 = (r', \<lparr>w_state = s2, w_script = [], w_log = w_log ?w1 @ l'\<rparr>)"
    using assms(2) [unfolded runs_def, rule_format, of ?w1] by auto
  with 1 show "\<exists>l. attempt m k w = (r', \<lparr>w_state = s2, w_script = [], w_log = w_log w @ l\<rparr>)"
    by (auto simp: attempt_def)
qed

lemma runs_andThen:
  assumes "runs m s (Inr x) s1" "runs (k x) s1 r' s2"
  shows "runs (andThen m k) s r' s2"
  unfolding andThen_def by (rule runs_attempt [OF assms(1)]) (use assms(2) in simp)

lemma runs_retry:
  assumes "runs m s r s'" "r \<noteq> Inl Conflict"
  shows "runs (RetryOnConflict m) s r s'"
proof -
  have "RetryOnConflict m = retrying (Suc 3) m" by (simp add: RetryOnConflict_def)
  moreover have "runs (retrying (Suc 3) m) s r s'" unfolding retrying.simps
    by (rule runs_attempt [OF assms(1)]) (use assms(2) in \<open>auto simp: runs_def intro: exI [of _ "[]"]\<close>)
  ultimately show ?thesis by simp
qed

end
