(* ===== verification/Objects.thy ===== *)
theory Objects
  imports Programs GoLib "HOL-Library.AList"
begin

text \<open>
  Typed objects and the object client as the controllers see it.  An object kind is a record that
  extends \<open>obj\<close>, the part of \<open>metav1.ObjectMeta\<close> that controllers use; a store maps namespace and name to
  objects.  The operations are those of \<open>seaplane-db/pgclient.go\<close> on objects that were read from the
  database: create is put-if-absent, update and status update are compare-and-swap on UID and resource
  version, a write that changes nothing leaves the version alone, and an object goes away once it is
  deleted and has no finalizers.  The theories of the database prove these laws of the real client
  (put-if-absent, compare-and-swap, deletion); here they are what the controllers rely on.
\<close>

section \<open>Objects\<close>

type_synonym nsname = "string \<times> string"

record obj =
  ob_uid :: string
  ob_rv :: nat
  ob_generation :: int
  ob_labels :: "(string \<times> string) list"
  ob_annotations :: "(string \<times> string) list"
  ob_finalizers :: "string list"
  ob_deleting :: bool \<comment> \<open>the deletion timestamp is set\<close>

definition label :: "string \<Rightarrow> 'a obj_scheme \<Rightarrow> string" where
  "label l x = (case map_of (ob_labels x) l of None \<Rightarrow> [] | Some v \<Rightarrow> v)"

definition set_label :: "string \<Rightarrow> string \<Rightarrow> 'a obj_scheme \<Rightarrow> 'a obj_scheme" where
  "set_label l v x = x\<lparr>ob_labels := AList.update l v (ob_labels x)\<rparr>"

definition remove_label :: "string \<Rightarrow> 'a obj_scheme \<Rightarrow> 'a obj_scheme" where
  "remove_label l x = x\<lparr>ob_labels := AList.delete l (ob_labels x)\<rparr>"

definition annotation :: "string \<Rightarrow> 'a obj_scheme \<Rightarrow> string" where
  "annotation l x = (case map_of (ob_annotations x) l of None \<Rightarrow> [] | Some v \<Rightarrow> v)"

definition set_annotation :: "string \<Rightarrow> string \<Rightarrow> 'a obj_scheme \<Rightarrow> 'a obj_scheme" where
  "set_annotation l v x = x\<lparr>ob_annotations := AList.update l v (ob_annotations x)\<rparr>"

definition AddFinalizer :: "string \<Rightarrow> 'a obj_scheme \<Rightarrow> 'a obj_scheme" where
  "AddFinalizer f x = x\<lparr>ob_finalizers := (if f \<in> set (ob_finalizers x) then ob_finalizers x
                                          else ob_finalizers x @ [f])\<rparr>"

definition RemoveFinalizer :: "string \<Rightarrow> 'a obj_scheme \<Rightarrow> 'a obj_scheme" where
  "RemoveFinalizer f x = x\<lparr>ob_finalizers := filter (\<lambda>g. g \<noteq> f) (ob_finalizers x)\<rparr>"

definition ContainsFinalizer :: "'a obj_scheme \<Rightarrow> string \<Rightarrow> bool" where
  "ContainsFinalizer x f \<longleftrightarrow> f \<in> set (ob_finalizers x)"

record Condition =
  cd_Type :: string
  cd_Status :: string
  cd_Reason :: string
  cd_Message :: string
  cd_ObservedGeneration :: int

definition FindStatusCondition :: "Condition list \<Rightarrow> string \<Rightarrow> Condition option" where
  "FindStatusCondition cs t = find (\<lambda>c. cd_Type c = t) cs"

definition SetStatusCondition :: "Condition list \<Rightarrow> Condition \<Rightarrow> Condition list" where
  "SetStatusCondition cs c =
     (if FindStatusCondition cs (cd_Type c) = None then cs @ [c]
      else map (\<lambda>x. if cd_Type x = cd_Type c then c else x) cs)"

definition RemoveStatusCondition :: "Condition list \<Rightarrow> string \<Rightarrow> Condition list" where
  "RemoveStatusCondition cs t = filter (\<lambda>c. cd_Type c \<noteq> t) cs"

section \<open>Stores\<close>

type_synonym 'a store = "(nsname \<times> 'a) list"

definition store_get :: "nsname \<Rightarrow> 'a store \<Rightarrow> api_error + 'a" where
  "store_get k s = of_option NotFound (map_of s k)"

definition store_list :: "(nsname \<Rightarrow> 'a \<Rightarrow> bool) \<Rightarrow> 'a store \<Rightarrow> (nsname \<times> 'a) list" where
  "store_list sel s = filter (\<lambda>(k, x). sel k x) s"

definition store_create ::
  "string \<Rightarrow> nsname \<Rightarrow> 'a obj_scheme \<Rightarrow> 'a obj_scheme store \<Rightarrow> (api_error + 'a obj_scheme) \<times> 'a obj_scheme store" where
  "store_create uid k x s =
     (if map_of s k \<noteq> None then (Inl AlreadyExists, s)
      else let x' = x\<lparr>ob_uid := uid, ob_rv := 1, ob_generation := 1\<rparr> in (Inr x', AList.update k x' s))"

definition same_version :: "'a obj_scheme \<Rightarrow> 'a obj_scheme \<Rightarrow> bool" where
  "same_version x cur \<longleftrightarrow> ob_uid x = ob_uid cur \<and> ob_rv x = ob_rv cur"

text \<open>The end of a write: an unchanged object keeps its version, a deleted one without finalizers goes away.\<close>

definition store_put ::
  "nsname \<Rightarrow> 'a obj_scheme \<Rightarrow> 'a obj_scheme \<Rightarrow> 'a obj_scheme store \<Rightarrow> (api_error + 'a obj_scheme) \<times> 'a obj_scheme store" where
  "store_put k x cur s =
     (if x = cur then (Inr cur, s)
      else let x' = x\<lparr>ob_rv := Suc (ob_rv cur)\<rparr> in
           (Inr x', if ob_deleting x' \<and> ob_finalizers x' = [] then AList.delete k s else AList.update k x' s))"

text \<open>\<open>keep x cur\<close> is \<open>x\<close> with the status of \<open>cur\<close> and the generation that follows from its spec;
  \<open>put x cur\<close> is \<open>cur\<close> with the status of \<open>x\<close>.\<close>

definition store_update ::
  "('a obj_scheme \<Rightarrow> 'a obj_scheme \<Rightarrow> 'a obj_scheme) \<Rightarrow> nsname \<Rightarrow> 'a obj_scheme \<Rightarrow> 'a obj_scheme store \<Rightarrow>
   (api_error + 'a obj_scheme) \<times> 'a obj_scheme store" where
  "store_update keep k x s =
     (case map_of s k of
        None \<Rightarrow> (Inl NotFound, s)
      | Some cur \<Rightarrow>
          if \<not> same_version x cur then (Inl Conflict, s)
          else store_put k ((keep x cur)\<lparr>ob_uid := ob_uid cur, ob_rv := ob_rv cur, ob_deleting := ob_deleting cur\<rparr>)
                 cur s)"

definition store_status_update ::
  "('a obj_scheme \<Rightarrow> 'a obj_scheme \<Rightarrow> 'a obj_scheme) \<Rightarrow> nsname \<Rightarrow> 'a obj_scheme \<Rightarrow> 'a obj_scheme store \<Rightarrow>
   (api_error + 'a obj_scheme) \<times> 'a obj_scheme store" where
  "store_status_update put k x s =
     (case map_of s k of
        None \<Rightarrow> (Inl Conflict, s)
      | Some cur \<Rightarrow> if \<not> same_version x cur then (Inl Conflict, s) else store_put k (put x cur) cur s)"

definition store_delete ::
  "nsname \<Rightarrow> 'a obj_scheme \<Rightarrow> 'a obj_scheme store \<Rightarrow> (api_error + unit) \<times> 'a obj_scheme store" where
  "store_delete k x s =
     (case map_of s k of
        None \<Rightarrow> (Inl Conflict, s)
      | Some cur \<Rightarrow>
          if \<not> same_version x cur then (Inl Conflict, s)
          else (Inr (), if ob_finalizers cur = [] then AList.delete k s
                        else AList.update k (cur\<lparr>ob_deleting := True, ob_rv := Suc (ob_rv cur)\<rparr>) s))"

text \<open>A deletion by name only: it reads the current object first and deletes that; a dying object stays as it is.\<close>

definition store_remove :: "nsname \<Rightarrow> 'a obj_scheme store \<Rightarrow> (api_error + unit) \<times> 'a obj_scheme store" where
  "store_remove k s =
     (case map_of s k of
        None \<Rightarrow> (Inl NotFound, s)
      | Some cur \<Rightarrow>
          (Inr (), if ob_finalizers cur = [] then AList.delete k s
                   else if ob_deleting cur then s
                   else AList.update k (cur\<lparr>ob_deleting := True, ob_rv := Suc (ob_rv cur)\<rparr>) s))"

section \<open>What an operation does to a store\<close>

lemma store_create_cases:
  assumes "store_create uid k x s = (r, s')"
  obtains "r = Inl AlreadyExists" "s' = s" "map_of s k \<noteq> None"
  | x' where "r = Inr x'" "x' = x\<lparr>ob_uid := uid, ob_rv := 1, ob_generation := 1\<rparr>"
    "s' = AList.update k x' s" "map_of s k = None"
  using assms by (auto simp: store_create_def Let_def split: if_splits)

lemma store_put_cases:
  assumes "store_put k x cur s = (r, s')"
  obtains "s' = s" "x = cur"
  | "s' = AList.update k (x\<lparr>ob_rv := Suc (ob_rv cur)\<rparr>) s"
  | "s' = AList.delete k s" "ob_deleting x" "ob_finalizers x = []"
  using assms by (auto simp: store_put_def Let_def split: if_splits)

lemma store_delete_cases:
  assumes "store_delete k x s = (r, s')"
  obtains "r = Inl Conflict" "s' = s"
  | cur where "map_of s k = Some cur" "same_version x cur" "r = Inr ()" "ob_finalizers cur \<noteq> []"
    "s' = AList.update k (cur\<lparr>ob_deleting := True, ob_rv := Suc (ob_rv cur)\<rparr>) s"
  | cur where "map_of s k = Some cur" "same_version x cur" "r = Inr ()" "ob_finalizers cur = []"
    "s' = AList.delete k s"
  using assms by (auto simp: store_delete_def split: option.splits if_splits)

lemma store_status_update_cases:
  assumes "store_status_update put k x s = (r, s')"
  obtains "r = Inl Conflict" "s' = s"
  | cur where "map_of s k = Some cur" "same_version x cur" "store_put k (put x cur) cur s = (r, s')"
  using assms by (auto simp: store_status_update_def split: option.splits if_splits)

lemma store_update_cases:
  assumes "store_update keep k x s = (r, s')"
  obtains e where "r = Inl e" "s' = s"
  | cur where "map_of s k = Some cur" "same_version x cur"
    "store_put k ((keep x cur)\<lparr>ob_uid := ob_uid cur, ob_rv := ob_rv cur, ob_deleting := ob_deleting cur\<rparr>)
       cur s = (r, s')"
  using assms by (auto simp: store_update_def split: option.splits if_splits)

lemma store_update_failed:
  assumes "store_update keep k x s = (Inl e, s')"
  shows "s' = s"
  using assms
proof (cases rule: store_update_cases)
  case (2 cur)
  then show ?thesis by (auto simp: store_put_def Let_def split: if_splits)
qed simp

lemma store_list_iff: "(k, x) \<in> set (store_list sel s) \<longleftrightarrow> (k, x) \<in> set s \<and> sel k x"
  by (auto simp: store_list_def)

lemma map_of_store_list:
  assumes "distinct (map fst s)"
  shows "map_of (store_list sel s) k = Some x \<longleftrightarrow> map_of s k = Some x \<and> sel k x"
proof -
  have "distinct (map fst (store_list sel s))" using assms by (simp add: store_list_def distinct_map_filter)
  then show ?thesis using assms by (simp add: map_of_eq_Some_iff store_list_iff)
qed

section \<open>Versions\<close>

declare split_paired_All [simp del] split_paired_Ex [simp del]

text \<open>An object version never changes its content.  \<open>versioned U s s'\<close>: on the way from \<open>s\<close> to \<open>s'\<close>, objects only move
  to higher versions, and the new ones have UIDs outside \<open>U\<close>.  \<open>snapshot U s k x\<close>: \<open>x\<close> was read at \<open>k\<close> some time ago,
  so that the current object, if it is the same incarnation at the same version, still is \<open>x\<close>.\<close>

definition versioned :: "string set \<Rightarrow> 'a obj_scheme store \<Rightarrow> 'a obj_scheme store \<Rightarrow> bool" where
  "versioned U s s' \<longleftrightarrow>
     (\<forall>k x'. map_of s' k = Some x' \<longrightarrow>
        ob_uid x' \<notin> U \<or>
        (\<exists>x. map_of s k = Some x \<and> ob_uid x = ob_uid x' \<and> ob_rv x \<le> ob_rv x' \<and> (ob_rv x = ob_rv x' \<longrightarrow> x = x')))"

definition snapshot :: "string set \<Rightarrow> 'a obj_scheme store \<Rightarrow> nsname \<Rightarrow> 'a obj_scheme \<Rightarrow> bool" where
  "snapshot U s k x \<longleftrightarrow>
     ob_uid x \<in> U \<and>
     (\<forall>cur. map_of s k = Some cur \<longrightarrow> ob_uid cur = ob_uid x \<longrightarrow>
        ob_rv x \<le> ob_rv cur \<and> (ob_rv cur = ob_rv x \<longrightarrow> cur = x))"

definition known_uids :: "string set \<Rightarrow> 'a obj_scheme store \<Rightarrow> bool" where
  "known_uids U s \<longleftrightarrow> (\<forall>k x. map_of s k = Some x \<longrightarrow> ob_uid x \<in> U)"

lemma versioned_refl [simp]: "versioned U s s"
  by (simp add: versioned_def)

lemma versionedD:
  assumes "versioned U s s'" "map_of s' k = Some x'" "ob_uid x' \<in> U"
  obtains x where "map_of s k = Some x" "ob_uid x = ob_uid x'" "ob_rv x \<le> ob_rv x'" "ob_rv x = ob_rv x' \<longrightarrow> x = x'"
proof -
  have "\<exists>x. map_of s k = Some x \<and> ob_uid x = ob_uid x' \<and> ob_rv x \<le> ob_rv x' \<and> (ob_rv x = ob_rv x' \<longrightarrow> x = x')"
    using assms unfolding versioned_def by blast
  then show thesis using that by blast
qed

lemma versionedI:
  assumes "\<And>k x'. map_of s' k = Some x' \<Longrightarrow> ob_uid x' \<in> U \<Longrightarrow>
    \<exists>x. map_of s k = Some x \<and> ob_uid x = ob_uid x' \<and> ob_rv x \<le> ob_rv x' \<and> (ob_rv x = ob_rv x' \<longrightarrow> x = x')"
  shows "versioned U s s'"
  unfolding versioned_def using assms by blast

lemma versioned_trans:
  assumes "versioned U s s'" "versioned U' s' s''" "U \<subseteq> U'"
  shows "versioned U s s''"
proof (rule versionedI)
  fix k z assume z: "map_of s'' k = Some z" "ob_uid z \<in> U"
  have "ob_uid z \<in> U'" using z(2) assms(3) by (rule subsetD [rotated])
  with assms(2) z(1) obtain y where y: "map_of s' k = Some y" "ob_uid y = ob_uid z" "ob_rv y \<le> ob_rv z"
    "ob_rv y = ob_rv z \<longrightarrow> y = z"
    by (rule versionedD)
  have "ob_uid y \<in> U" using y(2) z(2) by simp
  with assms(1) y(1) obtain x where x: "map_of s k = Some x" "ob_uid x = ob_uid y" "ob_rv x \<le> ob_rv y"
    "ob_rv x = ob_rv y \<longrightarrow> x = y"
    by (rule versionedD)
  have "x = z" if "ob_rv x = ob_rv z"
  proof -
    have "ob_rv x = ob_rv y" "ob_rv y = ob_rv z" using that x(3) y(3) by linarith+
    then show ?thesis using x(4) y(4) by simp
  qed
  then show "\<exists>x. map_of s k = Some x \<and> ob_uid x = ob_uid z \<and> ob_rv x \<le> ob_rv z \<and> (ob_rv x = ob_rv z \<longrightarrow> x = z)"
    using x(1-3) y(2,3) by (intro exI [of _ x]) simp
qed

lemma snapshotD:
  assumes "snapshot U s k x" "map_of s k = Some cur" "ob_uid cur = ob_uid x"
  shows "ob_rv x \<le> ob_rv cur" "ob_rv cur = ob_rv x \<Longrightarrow> cur = x"
  using assms unfolding snapshot_def by simp_all

lemma snapshot_later:
  assumes "snapshot U s k x" "versioned U s s'" "U \<subseteq> U'"
  shows "snapshot U' s' k x"
proof -
  have u: "ob_uid x \<in> U" using assms(1) by (simp add: snapshot_def)
  have "ob_rv x \<le> ob_rv cur \<and> (ob_rv cur = ob_rv x \<longrightarrow> cur = x)" if cur: "map_of s' k = Some cur" "ob_uid cur = ob_uid x" for cur
  proof -
    have "ob_uid cur \<in> U" using u cur(2) by simp
    with assms(2) cur(1) obtain y where y: "map_of s k = Some y" "ob_uid y = ob_uid cur" "ob_rv y \<le> ob_rv cur"
      "ob_rv y = ob_rv cur \<longrightarrow> y = cur"
      by (rule versionedD)
    have "ob_uid y = ob_uid x" using y(2) cur(2) by simp
    note x = snapshotD [OF assms(1) y(1) this]
    have "cur = x" if "ob_rv cur = ob_rv x"
    proof -
      have "ob_rv y = ob_rv x" "ob_rv y = ob_rv cur" using that x(1) y(3) by linarith+
      then show ?thesis using x(2) y(4) by simp
    qed
    then show ?thesis using x(1) y(3) by simp
  qed
  then show ?thesis using u assms(3) unfolding snapshot_def by blast
qed

lemma snapshot_now: "known_uids U s \<Longrightarrow> map_of s k = Some x \<Longrightarrow> snapshot U s k x"
  by (auto simp: snapshot_def known_uids_def)

lemma snapshot_current: "snapshot U s k x \<Longrightarrow> map_of s k = Some cur \<Longrightarrow> same_version x cur \<Longrightarrow> cur = x"
  by (auto simp: snapshot_def same_version_def)

lemma versioned_set:
  assumes "map_of s k = Some cur" "ob_uid x = ob_uid cur" "ob_rv cur < ob_rv x"
  shows "versioned U s (AList.update k x s)"
  unfolding versioned_def update_conv'
proof (intro allI impI)
  fix k' x' assume x': "((map_of s)(k \<mapsto> x)) k' = Some x'"
  show "ob_uid x' \<notin> U \<or>
      (\<exists>y. map_of s k' = Some y \<and> ob_uid y = ob_uid x' \<and> ob_rv y \<le> ob_rv x' \<and> (ob_rv y = ob_rv x' \<longrightarrow> y = x'))"
    using x' assms by (cases "k' = k") simp_all
qed

lemma map_of_delete: "map_of (AList.delete k s) k' = (if k' = k then None else map_of s k')"
  by (simp add: delete_conv')

lemma versioned_unset: "versioned U s (AList.delete k s)"
  unfolding versioned_def map_of_delete by simp

lemma known_uids_set: "known_uids U s \<Longrightarrow> ob_uid x \<in> U \<Longrightarrow> known_uids U (AList.update k x s)"
  unfolding known_uids_def update_conv' by simp

lemma known_uids_mono: "known_uids U s \<Longrightarrow> known_uids (insert u U) s"
  unfolding known_uids_def by blast

lemma known_uids_unset: "known_uids U s \<Longrightarrow> known_uids U (AList.delete k s)"
  unfolding known_uids_def map_of_delete by simp

lemma known_uidsD: "known_uids U s \<Longrightarrow> map_of s k = Some x \<Longrightarrow> ob_uid x \<in> U"
  unfolding known_uids_def by blast

text \<open>Every operation of the client keeps versions, if new objects get new UIDs.\<close>

lemma versioned_put:
  assumes "store_put k x cur s = (r, s')" "map_of s k = Some cur" "ob_uid x = ob_uid cur"
  shows "versioned U s s'" "known_uids U s \<Longrightarrow> known_uids U s'"
proof -
  let ?x = "x\<lparr>ob_rv := Suc (ob_rv cur)\<rparr>"
  have "versioned U s (AList.update k ?x s)" by (rule versioned_set [OF assms(2)]) (use assms(3) in simp_all)
  with assms(1) show "versioned U s s'"
    by (cases rule: store_put_cases) (simp_all add: versioned_unset)
  assume known: "known_uids U s"
  then have "known_uids U (AList.update k ?x s)"
    using known_uidsD [OF known assms(2)] assms(3) by (intro known_uids_set) simp_all
  with assms(1) known show "known_uids U s'" by (cases rule: store_put_cases) (simp_all add: known_uids_unset)
qed

lemma versioned_update:
  assumes "store_update keep k x s = (r, s')"
  shows "versioned U s s'" "known_uids U s \<Longrightarrow> known_uids U s'"
  using assms
proof (atomize (full), cases rule: store_update_cases)
  case (2 cur)
  from versioned_put [OF 2(3,1)] show "versioned U s s' \<and> (known_uids U s \<longrightarrow> known_uids U s')" by simp
qed simp

lemma versioned_status_update:
  assumes "store_status_update put k x s = (r, s')" "\<And>cur. ob_uid (put x cur) = ob_uid cur"
  shows "versioned U s s'" "known_uids U s \<Longrightarrow> known_uids U s'"
  using assms(1)
proof (atomize (full), cases rule: store_status_update_cases)
  case (2 cur)
  from versioned_put [OF 2(3,1)] show "versioned U s s' \<and> (known_uids U s \<longrightarrow> known_uids U s')"
    by (simp add: assms(2))
qed simp

text \<open>A deletion that finalizers hold up.\<close>

lemma versioned_dying:
  assumes "map_of s k = Some cur"
  shows "versioned U s (AList.update k (cur\<lparr>ob_deleting := True, ob_rv := Suc (ob_rv cur)\<rparr>) s)"
    and "known_uids U s \<Longrightarrow> known_uids U (AList.update k (cur\<lparr>ob_deleting := True, ob_rv := Suc (ob_rv cur)\<rparr>) s)"
  using assms known_uidsD [OF _ assms, of U] by (simp_all add: versioned_set known_uids_set)

lemma versioned_delete:
  assumes "store_delete k x s = (r, s')"
  shows "versioned U s s'" "known_uids U s \<Longrightarrow> known_uids U s'"
  using assms by (cases rule: store_delete_cases; simp add: versioned_dying versioned_unset known_uids_unset)+

lemma versioned_remove:
  assumes "store_remove k s = (r, s')"
  shows "versioned U s s'" "known_uids U s \<Longrightarrow> known_uids U s'"
  using assms
  by (auto simp: store_remove_def versioned_dying versioned_unset known_uids_unset split: option.splits if_splits)

lemma versioned_create:
  assumes "store_create uid k x s = (r, s')" "uid \<notin> U"
  shows "versioned U s s'" "known_uids U s \<Longrightarrow> known_uids (insert uid U) s'"
proof -
  have ver: "versioned U s (AList.update k y s)" if "ob_uid y \<notin> U" for y
    unfolding versioned_def update_conv' using that by simp
  have known: "known_uids (insert uid U) (AList.update k y s)" if "known_uids U s" "ob_uid y = uid" for y
    using that unfolding known_uids_def update_conv' by simp
  show "versioned U s s'" using assms(1) by (cases rule: store_create_cases) (simp_all add: ver assms(2))
  show "known_uids U s \<Longrightarrow> known_uids (insert uid U) s'"
    using assms(1) by (cases rule: store_create_cases) (simp_all add: known known_uids_mono)
qed

end
