(* ===== verification/Desire.thy ===== *)
theory Desire
  imports Objects
begin

text \<open>
  The operator's side of the desire tables, \<open>seaplane-operator/internal/dynamo/client.go\<close> and
  \<open>internal/controller/desire_status.go\<close>.  The operator writes one item per management-cluster
  resource into a specs table of DynamoDB, an agent in the management cluster (kube-applier, not part
  of the sources) applies the items and writes what it observed into a status table, and the
  reconcilers read the status table back to decide whether a cluster is synced or torn down.

  A table is a map from table name and document ID to items.  A \<open>time.Time\<close> is its number of
  nanoseconds since Go's zero time, so that \<open>IsZero\<close> is \<open>t = 0\<close> and \<open>Truncate(time.Second)\<close> rounds down.
  An RFC 3339 text is represented by the second it denotes, \<open>Garbled\<close> is a text that does not parse.  The
  SHA-256 of the JSON of a spec, the marshaller of the AWS SDK and the shard function are parameters.
  What goes wrong in a call, and what an eventually consistent read returns, are inputs of the call.
\<close>

section \<open>Desires and items\<close>

type_synonym gotime = int

definition second :: int where
  "second = 10 ^ 9"

definition truncate_second :: "gotime \<Rightarrow> gotime" where
  "truncate_second t = t - t mod second"

datatype stamp = Stamp int | Garbled

definition format_rfc3339 :: "gotime \<Rightarrow> stamp" where
  "format_rfc3339 t = Stamp (t div second)"

definition parse_rfc3339 :: "stamp \<Rightarrow> gotime" where
  "parse_rfc3339 s = (case s of Stamp n \<Rightarrow> n * second | Garbled \<Rightarrow> 0)"

record ResourceReference =
  rr_Group :: string
  rr_Version :: string
  rr_Resource :: string
  rr_Namespace :: string
  rr_Name :: string

datatype ApplyDesireType = ApplyDesireTypeServerSideApply | ApplyDesireTypeDelete

record ApplyDesireSpec =
  ad_Type :: ApplyDesireType
  ad_ManagementCluster :: string
  ad_ClusterID :: string
  ad_TargetItem :: ResourceReference
  ad_ServerSideApply :: "string option option" \<comment> \<open>the config, if any, and its \<open>KubeContent\<close>, if any\<close>

record ReadDesireSpec =
  rd_ManagementCluster :: string
  rd_ClusterID :: string
  rd_TargetItem :: ResourceReference

datatype desire_spec = ApplySpec ApplyDesireSpec | ReadSpec ReadDesireSpec

record item =
  it_documentID :: string
  it_version :: string
  it_updateTime :: "stamp option"
  it_shard :: string
  it_spec :: desire_spec
  it_specHash :: "string option"
  it_kubeContent :: "string option" \<comment> \<open>\<open>spec_kubeContent\<close>\<close>

datatype dyn_error = ErrNotFound string | DynError string

definition error_text :: "dyn_error \<Rightarrow> string" where
  "error_text e = (case e of ErrNotFound s \<Rightarrow> ''desire not found: '' @ s | DynError s \<Rightarrow> s)"

record UpsertResult =
  ur_Changed :: bool
  ur_UpdateTime :: gotime

record cacheEntry =
  ce_specHash :: string
  ce_updateTime :: gotime

record dynamo_client =
  dc_items :: "string \<times> string \<Rightarrow> item option"
  dc_cache :: "string \<Rightarrow> cacheEntry option"

record dynamo_lib =
  dl_hash :: "desire_spec \<Rightarrow> string option" \<comment> \<open>hex SHA-256 of the JSON, \<open>None\<close> if it does not marshal\<close>
  dl_marshal :: "desire_spec \<Rightarrow> bool"
  dl_shard :: "string \<Rightarrow> string"

text \<open>A write can fail before DynamoDB performs it, or after (a timeout, a cancelled context).\<close>

datatype write_fault = WriteOk | WriteLost string | WriteUnacknowledged string

record dynamo_call =
  cl_now :: gotime
  cl_getFault :: "string option"
  cl_older :: "item option option" \<comment> \<open>an older state of the item that the read returns\<close>
  cl_write :: write_fault

section \<open>The client\<close>

definition cacheKey :: "string \<Rightarrow> string \<Rightarrow> string" where
  "cacheKey table documentID = table @ ''/'' @ documentID"

definition strip_kubeContent :: "desire_spec \<Rightarrow> desire_spec \<times> string option" where
  "strip_kubeContent spec =
     (case spec of
        ReadSpec r \<Rightarrow> (spec, None)
      | ApplySpec a \<Rightarrow>
          (case ad_ServerSideApply a of
             Some (Some raw) \<Rightarrow> (ApplySpec (a\<lparr>ad_ServerSideApply := Some None\<rparr>), Some raw)
           | _ \<Rightarrow> (spec, None)))"

definition desire_item :: "dynamo_lib \<Rightarrow> string \<Rightarrow> desire_spec \<Rightarrow> string \<Rightarrow> gotime \<Rightarrow> item" where
  "desire_item L documentID spec specHash updateTime =
     \<lparr>it_documentID = documentID, it_version = ''1'', it_updateTime = Some (format_rfc3339 updateTime),
      it_shard = dl_shard L documentID, it_spec = fst (strip_kubeContent spec),
      it_specHash = (if specHash \<noteq> [] then Some specHash else None),
      it_kubeContent = snd (strip_kubeContent spec)\<rparr>"

definition putDesireWithHash ::
  "dynamo_lib \<Rightarrow> dynamo_call \<Rightarrow> string \<Rightarrow> string \<Rightarrow> desire_spec \<Rightarrow> string \<Rightarrow> gotime \<Rightarrow> dynamo_client \<Rightarrow>
   dyn_error option \<times> dynamo_client" where
  "putDesireWithHash L c table documentID spec specHash updateTime s =
     (if \<not> dl_marshal L spec then (Some (DynError ''marshal spec''), s)
      else let s' = s\<lparr>dc_items := (dc_items s)((table, documentID) \<mapsto>
                       desire_item L documentID spec specHash updateTime)\<rparr> in
           (case cl_write c of
              WriteOk \<Rightarrow> (None, s')
            | WriteLost e \<Rightarrow> (Some (DynError e), s)
            | WriteUnacknowledged e \<Rightarrow> (Some (DynError e), s')))"

definition upsert_write ::
  "dynamo_lib \<Rightarrow> dynamo_call \<Rightarrow> string \<Rightarrow> string \<Rightarrow> desire_spec \<Rightarrow> string \<Rightarrow> dynamo_client \<Rightarrow>
   (dyn_error + UpsertResult) \<times> dynamo_client" where
  "upsert_write L c table documentID spec newHash s =
     (let now = truncate_second (cl_now c) in
      case putDesireWithHash L c table documentID spec newHash now s of
        (Some e, s') \<Rightarrow> (Inl e, s')
      | (None, s') \<Rightarrow>
          (Inr \<lparr>ur_Changed = True, ur_UpdateTime = now\<rparr>,
           s'\<lparr>dc_cache := (dc_cache s')(cacheKey table documentID \<mapsto>
                \<lparr>ce_specHash = newHash, ce_updateTime = now\<rparr>)\<rparr>))"

text \<open>Cache miss: read hash and time of the stored item, which an eventually consistent read may take from
  an older state, and write unless the hash is the wanted one.\<close>

definition upsert_miss ::
  "dynamo_lib \<Rightarrow> dynamo_call \<Rightarrow> string \<Rightarrow> string \<Rightarrow> desire_spec \<Rightarrow> string \<Rightarrow> dynamo_client \<Rightarrow>
   (dyn_error + UpsertResult) \<times> dynamo_client" where
  "upsert_miss L c table documentID spec newHash s =
     (case cl_getFault c of
        Some e \<Rightarrow> (Inl (DynError e), s)
      | None \<Rightarrow>
          let existing = (case cl_older c of None \<Rightarrow> dc_items s (table, documentID) | Some x \<Rightarrow> x) in
          case existing of
            None \<Rightarrow> upsert_write L c table documentID spec newHash s
          | Some i \<Rightarrow>
              if it_specHash i = Some newHash
              then let existingTime = (case it_updateTime i of None \<Rightarrow> 0 | Some u \<Rightarrow> parse_rfc3339 u) in
                   (Inr \<lparr>ur_Changed = False, ur_UpdateTime = existingTime\<rparr>,
                    s\<lparr>dc_cache := (dc_cache s)(cacheKey table documentID \<mapsto>
                         \<lparr>ce_specHash = newHash, ce_updateTime = existingTime\<rparr>)\<rparr>)
              else upsert_write L c table documentID spec newHash s)"

definition upsertDesire ::
  "dynamo_lib \<Rightarrow> dynamo_call \<Rightarrow> string \<Rightarrow> string \<Rightarrow> desire_spec \<Rightarrow> dynamo_client \<Rightarrow>
   (dyn_error + UpsertResult) \<times> dynamo_client" where
  "upsertDesire L c table documentID spec s =
     (case dl_hash L spec of
        None \<Rightarrow> (Inl (DynError ''marshal spec for hash''), s)
      | Some newHash \<Rightarrow>
          let ck = cacheKey table documentID in
          case dc_cache s ck of
            Some entry \<Rightarrow>
              if ce_specHash entry = newHash
              then (Inr \<lparr>ur_Changed = False, ur_UpdateTime = ce_updateTime entry\<rparr>, s)
              else upsert_miss L c table documentID spec newHash s
          | None \<Rightarrow> upsert_miss L c table documentID spec newHash s)"

definition TableSuffixApplyDesires :: string where
  "TableSuffixApplyDesires = ''-applydesires''"

definition TableSuffixReadDesires :: string where
  "TableSuffixReadDesires = ''-readdesires''"

definition SpecsPrefix :: "string \<Rightarrow> string" where
  "SpecsPrefix mc = mc @ ''-specs''"

definition StatusPrefix :: "string \<Rightarrow> string" where
  "StatusPrefix mc = mc @ ''-status''"

definition UpsertApplyDesire ::
  "dynamo_lib \<Rightarrow> dynamo_call \<Rightarrow> string \<Rightarrow> string \<Rightarrow> ApplyDesireSpec \<Rightarrow> dynamo_client \<Rightarrow>
   (dyn_error + UpsertResult) \<times> dynamo_client" where
  "UpsertApplyDesire L c specsPrefix documentID spec =
     upsertDesire L c (specsPrefix @ TableSuffixApplyDesires) documentID (ApplySpec spec)"

definition UpsertReadDesire ::
  "dynamo_lib \<Rightarrow> dynamo_call \<Rightarrow> string \<Rightarrow> string \<Rightarrow> ReadDesireSpec \<Rightarrow> dynamo_client \<Rightarrow>
   (dyn_error + UpsertResult) \<times> dynamo_client" where
  "UpsertReadDesire L c specsPrefix documentID spec =
     upsertDesire L c (specsPrefix @ TableSuffixReadDesires) documentID (ReadSpec spec)"

definition DeleteDesireSpec ::
  "dynamo_call \<Rightarrow> string \<Rightarrow> string \<Rightarrow> string \<Rightarrow> dynamo_client \<Rightarrow> dyn_error option \<times> dynamo_client" where
  "DeleteDesireSpec c specsPrefix tableSuffix documentID s =
     (let table = specsPrefix @ tableSuffix;
          s' = s\<lparr>dc_items := (dc_items s)((table, documentID) := None)\<rparr> in
      case cl_write c of
        WriteLost e \<Rightarrow> (Some (DynError e), s)
      | WriteUnacknowledged e \<Rightarrow> (Some (DynError e), s')
      | WriteOk \<Rightarrow> (None, s'\<lparr>dc_cache := (dc_cache s')(cacheKey table documentID := None)\<rparr>))"

definition ResetCache :: "dynamo_client \<Rightarrow> dynamo_client" where
  "ResetCache s = s\<lparr>dc_cache := (\<lambda>_. None)\<rparr>"

section \<open>Statuses\<close>

record ApplyDesireStatus =
  as_ObservedDesireUpdateTime :: gotime
  as_Conditions :: "Condition list"

record ReadDesireStatus =
  rs_Conditions :: "Condition list"
  rs_KubeContent :: "string option"

text \<open>An item of a status table: the map under its \<open>status\<close> key, if it has one, and the whole item, each
  represented by what \<open>UnmarshalMap\<close> makes of it (\<open>None\<close>: an error), and its \<open>status_kubeContent\<close>.\<close>

record 'a status_item =
  si_status :: "'a option option"
  si_whole :: "'a option"
  si_kubeContent :: "string option"

type_synonym 'a status_table = "string \<times> string \<Rightarrow> 'a status_item option"

definition getDesireStatus ::
  "string option \<Rightarrow> 'a status_table \<Rightarrow> string \<Rightarrow> string \<Rightarrow> dyn_error + 'a \<times> string option" where
  "getDesireStatus fault st table documentID =
     (case fault of
        Some e \<Rightarrow> Inl (DynError e)
      | None \<Rightarrow>
          (case st (table, documentID) of
             None \<Rightarrow> Inl (ErrNotFound (table @ ''/'' @ documentID))
           | Some i \<Rightarrow>
               (case (case si_status i of Some m \<Rightarrow> m | None \<Rightarrow> si_whole i) of
                  None \<Rightarrow> Inl (DynError (''unmarshal '' @ table @ ''/'' @ documentID))
                | Some out \<Rightarrow> Inr (out, si_kubeContent i))))"

definition GetApplyDesireStatus ::
  "string option \<Rightarrow> ApplyDesireStatus status_table \<Rightarrow> string \<Rightarrow> string \<Rightarrow> dyn_error + ApplyDesireStatus" where
  "GetApplyDesireStatus fault st statusPrefix documentID =
     sbind (getDesireStatus fault st (statusPrefix @ TableSuffixApplyDesires) documentID) (\<lambda>(s, _). Inr s)"

definition GetReadDesireStatus ::
  "string option \<Rightarrow> ReadDesireStatus status_table \<Rightarrow> string \<Rightarrow> string \<Rightarrow> dyn_error + ReadDesireStatus" where
  "GetReadDesireStatus fault st statusPrefix documentID =
     sbind (getDesireStatus fault st (statusPrefix @ TableSuffixReadDesires) documentID) (\<lambda>(s, kc).
       Inr (case kc of
              Some raw \<Rightarrow> if raw \<noteq> [] then s\<lparr>rs_KubeContent := Some raw\<rparr> else s
            | None \<Rightarrow> s))"

section \<open>The Synced condition\<close>

record DesireStatusEntry =
  de_DocID :: string
  de_Resource :: string
  de_Name :: string
  de_DesireUpdateTime :: gotime

datatype entry_result = Synced | Failed string | Waiting

definition check_entry ::
  "string \<Rightarrow> DesireStatusEntry \<Rightarrow> dyn_error + ApplyDesireStatus \<Rightarrow> entry_result" where
  "check_entry successful e r =
     (let label = de_Resource e @ ''/'' @ de_Name e @ '': '' in
      case r of
        Inl err \<Rightarrow>
          (case err of ErrNotFound _ \<Rightarrow> Waiting | DynError _ \<Rightarrow> Failed (label @ error_text err))
      | Inr status \<Rightarrow>
          if de_DesireUpdateTime e \<noteq> 0 \<and> as_ObservedDesireUpdateTime status < de_DesireUpdateTime e
          then Waiting
          else (case FindStatusCondition (as_Conditions status) successful of
                  None \<Rightarrow> Waiting
                | Some cond \<Rightarrow>
                    if cd_Status cond = ''True'' then Synced
                    else if cd_Message cond \<noteq> []
                    then Failed (label @ cd_Reason cond @ '': '' @ cd_Message cond)
                    else Failed (label @ cd_Reason cond)))"

definition failed_messages :: "entry_result list \<Rightarrow> string list" where
  "failed_messages rs = concat (map (\<lambda>r. case r of Failed m \<Rightarrow> [m] | _ \<Rightarrow> []) rs)"

definition synced_condition :: "string \<Rightarrow> string \<Rightarrow> string \<Rightarrow> int \<Rightarrow> Condition" where
  "synced_condition status reason message generation =
     \<lparr>cd_Type = ''Synced'', cd_Status = status, cd_Reason = reason, cd_Message = message,
      cd_ObservedGeneration = generation\<rparr>"

text \<open>\<open>get\<close> is the client's \<open>GetApplyDesireStatus\<close> on the status prefix; the requests run in parallel and
  write disjoint slots, so their order does not matter.\<close>

definition CheckApplyDesireStatuses ::
  "string \<Rightarrow> (string \<Rightarrow> dyn_error + ApplyDesireStatus) \<Rightarrow> DesireStatusEntry list \<Rightarrow> int \<Rightarrow> Condition" where
  "CheckApplyDesireStatuses successful get entries generation =
     (let results = map (\<lambda>e. check_entry successful e (get (de_DocID e))) entries;
          synced = length (filter (\<lambda>r. r = Synced) results);
          count = format_uint synced @ ''/'' @ format_uint (length entries);
          failed = failed_messages results in
      if failed \<noteq> []
      then synced_condition ''False'' ''SyncFailed''
             (count @ '' synced; failing: '' @ join ''; '' failed) generation
      else if synced = length entries
      then synced_condition ''True'' ''AllSynced'' (count @ '' desires applied successfully'') generation
      else synced_condition ''False'' ''AwaitingSync''
             (count @ '' synced, waiting for kube-applier to process remaining desires'') generation)"

end
