(* ===== verification/DesireProps.thy ===== *)
theory DesireProps
  imports Desire
begin

text \<open>
  What the desire tables promise.  A successful upsert leaves the wanted spec in the specs table, with
  the update time it returns, as long as no failed write has left the table ahead of the client's cache.
  A \<open>Synced\<close> condition that is true means that kube-applier has carried out exactly the stored specs, as
  long as no document is written twice within one second of the clock.  The two provisos are needed:
  \<open>unacknowledged_put_is_forgotten\<close> and \<open>same_second_report_is_mistaken\<close> show what happens without them.

  \<open>desire_step\<close> interleaves the operator's writes and restarts with the steps of kube-applier: picking up
  the stored item of a document, carrying it out, and writing a status.  The rule for the status is the
  contract the sources state for it: the status has the update time of the item it is about, and is
  successful only if that item was carried out.
\<close>

section \<open>Items and times\<close>

lemma second_pos [simp]: "0 < second"
  by (simp add: second_def)

lemma second_ne [simp]: "second \<noteq> 0"
  by (simp add: second_def)

lemma truncate_second_mult: "truncate_second t = t div second * second"
  by (simp add: truncate_second_def minus_mod_eq_div_mult)

lemma parse_format_truncated [simp]: "parse_rfc3339 (format_rfc3339 (truncate_second t)) = truncate_second t"
  by (simp add: parse_rfc3339_def format_rfc3339_def truncate_second_mult second_def)

definition item_desire :: "item \<Rightarrow> desire_spec" where
  "item_desire i =
     (case (it_spec i, it_kubeContent i) of
        (ApplySpec a, Some raw) \<Rightarrow> ApplySpec (a\<lparr>ad_ServerSideApply := Some (Some raw)\<rparr>)
      | (spec, _) \<Rightarrow> spec)"

definition item_time :: "item \<Rightarrow> gotime" where
  "item_time i = (case it_updateTime i of None \<Rightarrow> 0 | Some u \<Rightarrow> parse_rfc3339 u)"

lemma item_desire_item [simp]: "item_desire (desire_item L d spec h t) = spec"
  by (auto simp: item_desire_def desire_item_def strip_kubeContent_def split: desire_spec.splits option.splits)

lemma item_time_desire_item [simp]:
  "item_time (desire_item L d spec h (truncate_second t)) = truncate_second t"
  by (simp add: item_time_def desire_item_def)

lemma specHash_desire_item [simp]: "h \<noteq> [] \<Longrightarrow> it_specHash (desire_item L d spec h t) = Some h"
  by (simp add: desire_item_def)

lemma cacheKey_inj:
  assumes "CHR ''/'' \<notin> set t" "CHR ''/'' \<notin> set t'" "cacheKey t d = cacheKey t' d'"
  shows "t = t' \<and> d = d'"
proof -
  have "split_first CHR ''/'' (cacheKey t d) = Some (t, d)"
    and "split_first CHR ''/'' (cacheKey t' d') = Some (t', d')"
    using assms(1,2) by (simp_all add: cacheKey_def)
  with assms(3) show ?thesis by (metis option.inject prod.inject)
qed

section \<open>One call\<close>

text \<open>A clean call: the read sees the current item, and a write that reports an error has not happened.\<close>

definition clean_call :: "dynamo_call \<Rightarrow> bool" where
  "clean_call c \<longleftrightarrow>
     cl_older c = None \<and> (case cl_write c of WriteUnacknowledged _ \<Rightarrow> False | _ \<Rightarrow> True) \<and> second \<le> cl_now c"

definition valid_table :: "string \<Rightarrow> bool" where
  "valid_table table \<longleftrightarrow> CHR ''/'' \<notin> set table"

text \<open>The hash is never empty and does not collide on the specs \<open>S\<close> that are used.\<close>

definition hash_ok :: "dynamo_lib \<Rightarrow> desire_spec set \<Rightarrow> bool" where
  "hash_ok L S \<longleftrightarrow>
     (\<forall>a \<in> S. dl_hash L a \<noteq> Some [] \<and> (\<forall>b \<in> S. dl_hash L a = dl_hash L b \<and> dl_hash L b \<noteq> None \<longrightarrow> b = a))"

lemma hash_okD:
  assumes "hash_ok L S" "a \<in> S" "dl_hash L a = Some h"
  shows "h \<noteq> []" "b \<in> S \<Longrightarrow> dl_hash L b = Some h \<Longrightarrow> b = a"
  using assms unfolding hash_ok_def by auto

definition coherent :: "dynamo_client \<Rightarrow> bool" where
  "coherent s \<longleftrightarrow>
     (\<forall>table doc e. valid_table table \<longrightarrow> dc_cache s (cacheKey table doc) = Some e \<longrightarrow>
        (\<exists>i. dc_items s (table, doc) = Some i \<and> it_specHash i = Some (ce_specHash e) \<and>
             item_time i = ce_updateTime e))"

lemma coherentD:
  assumes "coherent s" "valid_table table" "dc_cache s (cacheKey table doc) = Some e"
  obtains i where "dc_items s (table, doc) = Some i" "it_specHash i = Some (ce_specHash e)"
    "item_time i = ce_updateTime e"
  using assms unfolding coherent_def by blast

text \<open>What a clean upsert does: nothing, caching a stored item with the wanted hash, or writing.\<close>

lemma upsert_write_cases:
  assumes "upsert_write L c table doc spec h s = (r, s')" "clean_call c"
  obtains e where "r = Inl e" "s' = s"
  | "r = Inr \<lparr>ur_Changed = True, ur_UpdateTime = truncate_second (cl_now c)\<rparr>"
    "s' = \<lparr>dc_items = (dc_items s)((table, doc) \<mapsto> desire_item L doc spec h (truncate_second (cl_now c))),
           dc_cache = (dc_cache s)(cacheKey table doc \<mapsto>
                         \<lparr>ce_specHash = h, ce_updateTime = truncate_second (cl_now c)\<rparr>)\<rparr>"
proof (cases "dl_marshal L spec \<and> cl_write c = WriteOk")
  case True
  with assms(1) show thesis
    by (cases s; intro that(2)) (auto simp: upsert_write_def putDesireWithHash_def Let_def)
next
  case False
  then have "\<exists>e. (r, s') = (Inl e, s)"
    using assms by (cases "dl_marshal L spec"; cases "cl_write c") (auto simp: upsert_write_def putDesireWithHash_def clean_call_def Let_def)
  then show thesis using that(1) by auto
qed

lemma upsert_miss_cases:
  assumes "upsert_miss L c table doc spec h s = (r, s')" "clean_call c"
  obtains e where "r = Inl e" "s' = s"
  | i where "dc_items s (table, doc) = Some i" "it_specHash i = Some h"
    "r = Inr \<lparr>ur_Changed = False, ur_UpdateTime = item_time i\<rparr>"
    "s' = s\<lparr>dc_cache := (dc_cache s)(cacheKey table doc \<mapsto>
              \<lparr>ce_specHash = h, ce_updateTime = item_time i\<rparr>)\<rparr>"
  | "upsert_write L c table doc spec h s = (r, s')"
proof (cases "cl_getFault c")
  case (Some e)
  with assms show thesis by (intro that(1)) (auto simp: upsert_miss_def)
next
  case None
  have older: "cl_older c = None" using assms(2) by (simp add: clean_call_def)
  show thesis
  proof (cases "dc_items s (table, doc)")
    case None
    with assms \<open>cl_getFault c = None\<close> older show thesis by (intro that(3)) (simp add: upsert_miss_def)
  next
    case (Some i)
    show thesis
    proof (cases "it_specHash i = Some h")
      case True
      with assms(1) Some \<open>cl_getFault c = None\<close> older show thesis
        by (intro that(2) [OF Some True]) (auto simp: upsert_miss_def item_time_def Let_def)
    next
      case False
      with assms(1) Some \<open>cl_getFault c = None\<close> older show thesis
        by (intro that(3)) (simp add: upsert_miss_def)
    qed
  qed
qed

lemma upsertDesire_cases:
  assumes "upsertDesire L c table doc spec s = (r, s')" "clean_call c" "coherent s" "valid_table table"
  obtains e where "r = Inl e" "s' = s"
  | h i where "dl_hash L spec = Some h" "dc_items s (table, doc) = Some i" "it_specHash i = Some h"
    "r = Inr \<lparr>ur_Changed = False, ur_UpdateTime = item_time i\<rparr>" "dc_items s' = dc_items s"
    "dc_cache s' = (dc_cache s)(cacheKey table doc \<mapsto> \<lparr>ce_specHash = h, ce_updateTime = item_time i\<rparr>)"
  | h where "dl_hash L spec = Some h"
    "r = Inr \<lparr>ur_Changed = True, ur_UpdateTime = truncate_second (cl_now c)\<rparr>"
    "s' = \<lparr>dc_items = (dc_items s)((table, doc) \<mapsto> desire_item L doc spec h (truncate_second (cl_now c))),
           dc_cache = (dc_cache s)(cacheKey table doc \<mapsto>
                         \<lparr>ce_specHash = h, ce_updateTime = truncate_second (cl_now c)\<rparr>)\<rparr>"
proof (cases "dl_hash L spec")
  case None
  with assms(1) show thesis by (intro that(1)) (auto simp: upsertDesire_def)
next
  case (Some h)
  show thesis
  proof (cases "\<exists>e. dc_cache s (cacheKey table doc) = Some e \<and> ce_specHash e = h")
    case True
    then obtain e where e: "dc_cache s (cacheKey table doc) = Some e" "ce_specHash e = h" by blast
    from assms(3,4) e(1) obtain i where
      i: "dc_items s (table, doc) = Some i" "it_specHash i = Some (ce_specHash e)"
        "item_time i = ce_updateTime e"
      by (rule coherentD)
    note i2 = i(2) [unfolded e(2)]
    have rs: "r = Inr \<lparr>ur_Changed = False, ur_UpdateTime = item_time i\<rparr>" "s' = s"
      using assms(1) Some e i(3) by (simp_all add: upsertDesire_def)
    have "e = \<lparr>ce_specHash = h, ce_updateTime = item_time i\<rparr>" using e(2) i(3) by (cases e) simp
    with e(1) have "(dc_cache s)(cacheKey table doc \<mapsto> \<lparr>ce_specHash = h, ce_updateTime = item_time i\<rparr>) = dc_cache s"
      by (simp add: fun_upd_idem)
    then show thesis using rs by (intro that(2) [OF Some i(1) i2]) simp_all
  next
    case False
    then have "upsert_miss L c table doc spec h s = (r, s')"
      using assms(1) Some by (cases "dc_cache s (cacheKey table doc)") (auto simp: upsertDesire_def)
    then show thesis using assms(2)
    proof (cases rule: upsert_miss_cases)
      case 1 then show thesis by (rule that(1))
    next
      case (2 i) then show thesis by (intro that(2) [OF Some 2(1,2)]) simp_all
    next
      case 3
      from 3 assms(2) show thesis
      proof (cases rule: upsert_write_cases)
        case 1 then show thesis by (rule that(1))
      next
        case 2 then show thesis by (rule that(3) [OF Some])
      qed
    qed
  qed
qed

section \<open>Interleavings\<close>

type_synonym doc_key = "string \<times> string"

record desire_sys =
  sy_client :: dynamo_client
  sy_status :: "ApplyDesireStatus status_table"
  sy_written :: "(doc_key \<times> item) set" \<comment> \<open>every item the specs tables have held\<close>
  sy_picked :: "(doc_key \<times> item) set" \<comment> \<open>every item kube-applier has read\<close>
  sy_applied :: "(doc_key \<times> item) set" \<comment> \<open>every item kube-applier has carried out\<close>

definition specs_key :: "string \<Rightarrow> string \<Rightarrow> doc_key" where
  "specs_key mc doc = (SpecsPrefix mc @ TableSuffixApplyDesires, doc)"

definition status_key :: "string \<Rightarrow> string \<Rightarrow> doc_key" where
  "status_key mc doc = (StatusPrefix mc @ TableSuffixApplyDesires, doc)"

lemma status_key_inj [simp]: "status_key mc doc = status_key mc' doc' \<longleftrightarrow> mc = mc' \<and> doc = doc'"
  by (simp add: status_key_def StatusPrefix_def)

definition stored :: "dynamo_client \<Rightarrow> (doc_key \<times> item) set" where
  "stored d = {(k, i). dc_items d k = Some i}"

definition fresh_second :: "desire_sys \<Rightarrow> doc_key \<Rightarrow> gotime \<Rightarrow> bool" where
  "fresh_second s k now \<longleftrightarrow> (\<forall>i. (k, i) \<in> sy_written s \<longrightarrow> item_time i < truncate_second now)"

definition status_report :: "item \<Rightarrow> Condition list \<Rightarrow> ApplyDesireStatus status_item" where
  "status_report i cs =
     \<lparr>si_status = Some (Some \<lparr>as_ObservedDesireUpdateTime = item_time i, as_Conditions = cs\<rparr>),
      si_whole = None, si_kubeContent = None\<rparr>"

definition claims_success :: "string \<Rightarrow> Condition list \<Rightarrow> bool" where
  "claims_success successful cs \<longleftrightarrow>
     (case FindStatusCondition cs successful of Some c \<Rightarrow> cd_Status c = ''True'' | None \<Rightarrow> False)"

definition client_moved :: "desire_sys \<Rightarrow> dynamo_client \<Rightarrow> desire_sys" where
  "client_moved s d = s\<lparr>sy_client := d, sy_written := sy_written s \<union> stored d\<rparr>"

inductive desire_step :: "dynamo_lib \<Rightarrow> desire_spec set \<Rightarrow> string \<Rightarrow> desire_sys \<Rightarrow> desire_sys \<Rightarrow> bool"
  for L :: dynamo_lib and S :: "desire_spec set" and successful :: string where
  step_upsert:
    "clean_call c \<Longrightarrow> valid_table table \<Longrightarrow> spec \<in> S \<Longrightarrow> fresh_second s (table, doc) (cl_now c) \<Longrightarrow>
     upsertDesire L c table doc spec (sy_client s) = (r, d) \<Longrightarrow>
     desire_step L S successful s (client_moved s d)"
| step_delete:
    "clean_call c \<Longrightarrow> valid_table (specsPrefix @ sfx) \<Longrightarrow>
     DeleteDesireSpec c specsPrefix sfx doc (sy_client s) = (e, d) \<Longrightarrow>
     desire_step L S successful s (client_moved s d)"
| step_restart: "desire_step L S successful s (client_moved s (ResetCache (sy_client s)))"
| step_pick:
    "dc_items (sy_client s) k = Some i \<Longrightarrow>
     desire_step L S successful s (s\<lparr>sy_picked := insert (k, i) (sy_picked s)\<rparr>)"
| step_apply:
    "(k, i) \<in> sy_picked s \<Longrightarrow>
     desire_step L S successful s (s\<lparr>sy_applied := insert (k, i) (sy_applied s)\<rparr>)"
| step_report:
    "(specs_key mc doc, i) \<in> sy_picked s \<Longrightarrow>
     (claims_success successful cs \<Longrightarrow> (specs_key mc doc, i) \<in> sy_applied s) \<Longrightarrow>
     desire_step L S successful s
       (s\<lparr>sy_status := (sy_status s)(status_key mc doc \<mapsto> status_report i cs)\<rparr>)"

definition sys_init :: desire_sys where
  "sys_init =
     \<lparr>sy_client = \<lparr>dc_items = (\<lambda>_. None), dc_cache = (\<lambda>_. None)\<rparr>, sy_status = (\<lambda>_. None),
      sy_written = {}, sy_picked = {}, sy_applied = {}\<rparr>"

definition desire_reachable :: "dynamo_lib \<Rightarrow> desire_spec set \<Rightarrow> string \<Rightarrow> desire_sys \<Rightarrow> bool" where
  "desire_reachable L S successful s \<longleftrightarrow> (desire_step L S successful)\<^sup>*\<^sup>* sys_init s"

section \<open>The invariant\<close>

text \<open>Every item was written by the client, no two items of a document have the same time, the stored item is
  the latest, kube-applier only knows items that were stored, and a success it reports is about an item it
  carried out.\<close>

definition written_by_client :: "dynamo_lib \<Rightarrow> desire_spec set \<Rightarrow> item \<Rightarrow> bool" where
  "written_by_client L S i \<longleftrightarrow>
     (\<exists>doc spec h now. i = desire_item L doc spec h (truncate_second now) \<and> spec \<in> S \<and>
        dl_hash L spec = Some h \<and> second \<le> now)"

definition log_inv :: "dynamo_lib \<Rightarrow> desire_spec set \<Rightarrow> desire_sys \<Rightarrow> bool" where
  "log_inv L S s \<longleftrightarrow>
     (\<forall>k i. (k, i) \<in> sy_written s \<longrightarrow> written_by_client L S i) \<and>
     (\<forall>k i j. (k, i) \<in> sy_written s \<longrightarrow> (k, j) \<in> sy_written s \<longrightarrow> item_time i = item_time j \<longrightarrow> i = j) \<and>
     (\<forall>k i j. dc_items (sy_client s) k = Some i \<longrightarrow> (k, j) \<in> sy_written s \<longrightarrow> item_time j \<le> item_time i) \<and>
     stored (sy_client s) \<subseteq> sy_written s"

definition applier_inv :: "string \<Rightarrow> desire_sys \<Rightarrow> bool" where
  "applier_inv successful s \<longleftrightarrow>
     sy_picked s \<subseteq> sy_written s \<and> sy_applied s \<subseteq> sy_written s \<and>
     (\<forall>mc doc si. sy_status s (status_key mc doc) = Some si \<longrightarrow>
        (\<exists>i cs. si = status_report i cs \<and>
           (claims_success successful cs \<longrightarrow> (specs_key mc doc, i) \<in> sy_applied s)))"

lemma client_moved_simps [simp]:
  "sy_client (client_moved s d) = d" "sy_status (client_moved s d) = sy_status s"
  "sy_written (client_moved s d) = sy_written s \<union> stored d"
  "sy_picked (client_moved s d) = sy_picked s" "sy_applied (client_moved s d) = sy_applied s"
  by (simp_all add: client_moved_def)

lemma stored_iff [simp]: "(k, i) \<in> stored d \<longleftrightarrow> dc_items d k = Some i"
  by (simp add: stored_def)

lemma truncate_second_ge: "second \<le> t \<Longrightarrow> second \<le> truncate_second t"
  using zdiv_mono1 [of second t second] mult_right_mono [of 1 "t div second" second]
  by (simp add: truncate_second_mult)

lemma item_time_written: "written_by_client L S i \<Longrightarrow> item_time i \<noteq> 0"
proof -
  assume "written_by_client L S i"
  then obtain doc spec h now where "i = desire_item L doc spec h (truncate_second now)" "second \<le> now"
    unfolding written_by_client_def by blast
  then show ?thesis using truncate_second_ge [of now] second_pos by (simp del: second_pos)
qed

lemma log_invD:
  assumes "log_inv L S s"
  shows "(k, i) \<in> sy_written s \<Longrightarrow> written_by_client L S i"
    "(k, i) \<in> sy_written s \<Longrightarrow> (k, j) \<in> sy_written s \<Longrightarrow> item_time i = item_time j \<Longrightarrow> i = j"
    "dc_items (sy_client s) k = Some i \<Longrightarrow> (k, j) \<in> sy_written s \<Longrightarrow> item_time j \<le> item_time i"
    "dc_items (sy_client s) k = Some i \<Longrightarrow> (k, i) \<in> sy_written s"
  using assms unfolding log_inv_def stored_def by blast+

lemma log_invI:
  assumes "\<And>k i. (k, i) \<in> sy_written s \<Longrightarrow> written_by_client L S i"
    "\<And>k i j. (k, i) \<in> sy_written s \<Longrightarrow> (k, j) \<in> sy_written s \<Longrightarrow> item_time i = item_time j \<Longrightarrow> i = j"
    "\<And>k i j. dc_items (sy_client s) k = Some i \<Longrightarrow> (k, j) \<in> sy_written s \<Longrightarrow> item_time j \<le> item_time i"
    "\<And>k i. dc_items (sy_client s) k = Some i \<Longrightarrow> (k, i) \<in> sy_written s"
  shows "log_inv L S s"
  using assms unfolding log_inv_def stored_def by blast

text \<open>A move of the client that removes items, or writes one item of a fresh second, keeps the log in order.\<close>

lemma log_inv_shrink:
  assumes inv: "log_inv L S s" and d: "\<And>k i. dc_items d k = Some i \<Longrightarrow> dc_items (sy_client s) k = Some i"
  shows "log_inv L S (client_moved s d)"
proof -
  have w: "sy_written s \<union> stored d = sy_written s" using log_invD(4) [OF inv] d by auto
  show ?thesis
    using log_invD [OF inv]
    by (intro log_invI; unfold client_moved_simps w) (blast dest: d)+
qed

lemma log_inv_write:
  assumes inv: "log_inv L S s" and fresh: "fresh_second s k now" and now: "second \<le> now"
    and h: "dl_hash L spec = Some h" "spec \<in> S"
    and d: "dc_items d = (dc_items (sy_client s))(k \<mapsto> desire_item L doc spec h (truncate_second now))"
  shows "log_inv L S (client_moved s d)"
proof -
  define i where "i = desire_item L doc spec h (truncate_second now)"
  have d': "dc_items d = (dc_items (sy_client s))(k \<mapsto> i)" using d by (simp add: i_def)
  have st: "dc_items d k' = Some x \<Longrightarrow> (k', x) \<in> insert (k, i) (sy_written s)" for k' x
    using log_invD(4) [OF inv, of k' x] by (simp add: d' split: if_splits)
  have "(k, i) \<in> stored d" by (simp add: d')
  moreover have "stored d \<subseteq> insert (k, i) (sy_written s)" unfolding stored_def using st by blast
  ultimately have w: "sy_written s \<union> stored d = insert (k, i) (sy_written s)" by blast
  have lt: "item_time j < item_time i" if "(k, j) \<in> sy_written s" for j
    using fresh that by (simp add: fresh_second_def i_def)
  have byc: "written_by_client L S i" unfolding written_by_client_def i_def using h now by blast
  show ?thesis
  proof (rule log_invI; unfold client_moved_simps w)
    fix k' x assume "(k', x) \<in> insert (k, i) (sy_written s)"
    then show "written_by_client L S x" using byc log_invD(1) [OF inv] by blast
  next
    fix k' x y
    assume "(k', x) \<in> insert (k, i) (sy_written s)" "(k', y) \<in> insert (k, i) (sy_written s)"
      "item_time x = item_time y"
    then consider "x = i" "y = i" | "x = i" "(k, y) \<in> sy_written s" | "y = i" "(k, x) \<in> sy_written s"
      | "(k', x) \<in> sy_written s" "(k', y) \<in> sy_written s" by blast
    then show "x = y"
      by cases (use lt \<open>item_time x = item_time y\<close> log_invD(2) [OF inv] in fastforce)+
  next
    fix k' x y assume "dc_items d k' = Some x" "(k', y) \<in> insert (k, i) (sy_written s)"
    then show "item_time y \<le> item_time x"
      using lt [of y] log_invD(3) [OF inv, of k' x y] by (cases "k' = k") (auto simp: d')
  next
    fix k' x assume "dc_items d k' = Some x"
    then show "(k', x) \<in> insert (k, i) (sy_written s)" by (rule st)
  qed
qed

lemma coherent_update:
  assumes "coherent s" "valid_table t"
    and cache: "dc_cache s' = (dc_cache s)(cacheKey t d := x)"
    and x: "\<And>e. x = Some e \<Longrightarrow> \<exists>i. dc_items s' (t, d) = Some i \<and> it_specHash i = Some (ce_specHash e) \<and>
                                   item_time i = ce_updateTime e"
    and frame: "\<And>k. k \<noteq> (t, d) \<Longrightarrow> dc_items s' k = dc_items s k"
  shows "coherent s'"
  unfolding coherent_def
proof (intro allI impI)
  fix t' d' e assume e: "valid_table t'" "dc_cache s' (cacheKey t' d') = Some e"
  show "\<exists>i. dc_items s' (t', d') = Some i \<and> it_specHash i = Some (ce_specHash e) \<and>
          item_time i = ce_updateTime e"
  proof (cases "cacheKey t' d' = cacheKey t d")
    case True
    then have "t' = t \<and> d' = d" using assms(2) e(1) cacheKey_inj unfolding valid_table_def by blast
    moreover have "x = Some e" using True e(2) cache by simp
    ultimately show ?thesis using x by simp
  next
    case False
    then have old: "dc_cache s (cacheKey t' d') = Some e" using e(2) cache by simp
    have "(t', d') \<noteq> (t, d)" using False by auto
    then have "dc_items s' (t', d') = dc_items s (t', d')" by (rule frame)
    moreover obtain i where "dc_items s (t', d') = Some i" "it_specHash i = Some (ce_specHash e)"
      "item_time i = ce_updateTime e"
      using assms(1) e(1) old by (rule coherentD)
    ultimately show ?thesis by simp
  qed
qed

lemma coherent_upsert:
  assumes "upsertDesire L c table doc spec s = (r, s')" "clean_call c" "coherent s" "valid_table table"
    "hash_ok L S" "spec \<in> S"
  shows "coherent s'"
  using assms(1-4)
proof (cases rule: upsertDesire_cases)
  case 1
  then show ?thesis using assms(3) by simp
next
  case (2 h i)
  then show ?thesis by (intro coherent_update [OF assms(3,4) 2(6)]) auto
next
  case (3 h)
  then show ?thesis
    by (intro coherent_update [OF assms(3,4)]) (auto simp: hash_okD(1) [OF assms(5,6) 3(1)])
qed

lemma coherent_delete:
  assumes "DeleteDesireSpec c p sfx doc s = (e, s')" "clean_call c" "coherent s" "valid_table (p @ sfx)"
  shows "coherent s'"
proof (cases "cl_write c")
  case WriteOk
  then have "s' = s\<lparr>dc_items := (dc_items s)((p @ sfx, doc) := None),
                    dc_cache := (dc_cache s)(cacheKey (p @ sfx) doc := None)\<rparr>"
    using assms(1) by (simp add: DeleteDesireSpec_def Let_def)
  then show ?thesis by (intro coherent_update [OF assms(3,4)]) auto
next
  case (WriteLost x)
  with assms show ?thesis by (simp add: DeleteDesireSpec_def Let_def)
next
  case (WriteUnacknowledged x)
  with assms show ?thesis by (simp add: clean_call_def)
qed

text \<open>All three invariants hold in every reachable state.\<close>

definition desire_inv :: "dynamo_lib \<Rightarrow> desire_spec set \<Rightarrow> string \<Rightarrow> desire_sys \<Rightarrow> bool" where
  "desire_inv L S successful s \<longleftrightarrow> coherent (sy_client s) \<and> log_inv L S s \<and> applier_inv successful s"

lemma desire_inv_client:
  assumes "desire_inv L S successful s" "coherent d" "log_inv L S (client_moved s d)"
  shows "desire_inv L S successful (client_moved s d)"
  using assms unfolding desire_inv_def applier_inv_def client_moved_simps by blast

lemma desire_inv_applier:
  assumes "desire_inv L S successful s" "sy_client s' = sy_client s" "sy_written s' = sy_written s"
    "applier_inv successful s'"
  shows "desire_inv L S successful s'"
  using assms unfolding desire_inv_def log_inv_def by simp

lemma applier_invD:
  assumes "applier_inv successful s" "sy_status s (status_key mc doc) = Some si"
  obtains i cs where "si = status_report i cs"
    "claims_success successful cs \<longrightarrow> (specs_key mc doc, i) \<in> sy_applied s"
  using assms unfolding applier_inv_def by blast

lemma applier_inv_apply:
  assumes "applier_inv successful s" "(k, i) \<in> sy_picked s"
  shows "applier_inv successful (s\<lparr>sy_applied := insert (k, i) (sy_applied s)\<rparr>)"
  unfolding applier_inv_def
proof (intro conjI allI impI)
  fix mc doc si
  assume "sy_status (s\<lparr>sy_applied := insert (k, i) (sy_applied s)\<rparr>) (status_key mc doc) = Some si"
  then have "sy_status s (status_key mc doc) = Some si" by simp
  with assms(1) show "\<exists>j cs. si = status_report j cs \<and> (claims_success successful cs \<longrightarrow>
      (specs_key mc doc, j) \<in> sy_applied (s\<lparr>sy_applied := insert (k, i) (sy_applied s)\<rparr>))"
    by (rule applier_invD) auto
qed (use assms in \<open>auto simp: applier_inv_def\<close>)

lemma applier_inv_report:
  assumes "applier_inv successful s"
    "claims_success successful cs \<Longrightarrow> (specs_key mc doc, i) \<in> sy_applied s"
  shows "applier_inv successful
           (s\<lparr>sy_status := (sy_status s)(status_key mc doc \<mapsto> status_report i cs)\<rparr>)" (is "applier_inv _ ?s'")
  unfolding applier_inv_def
proof (intro conjI allI impI)
  fix mc' doc' si assume si: "sy_status ?s' (status_key mc' doc') = Some si"
  show "\<exists>j cs. si = status_report j cs \<and> (claims_success successful cs \<longrightarrow>
      (specs_key mc' doc', j) \<in> sy_applied ?s')"
  proof (cases "status_key mc' doc' = status_key mc doc")
    case True
    with si assms(2) show ?thesis by (intro exI [of _ i] exI [of _ cs]) auto
  next
    case False
    with si have "sy_status s (status_key mc' doc') = Some si" by (simp del: status_key_inj)
    with assms(1) show ?thesis by (rule applier_invD) auto
  qed
qed (use assms in \<open>auto simp: applier_inv_def\<close>)

lemma desire_inv_step:
  assumes "desire_step L S successful s s'" "hash_ok L S" "desire_inv L S successful s"
  shows "desire_inv L S successful s'"
  using assms(1)
proof cases
  case (step_upsert c table spec doc r d)
  note co = assms(3) [unfolded desire_inv_def, THEN conjunct1]
    and lg = assms(3) [unfolded desire_inv_def, THEN conjunct2, THEN conjunct1]
  have "coherent d" using coherent_upsert [OF step_upsert(6,2) co step_upsert(3) assms(2) step_upsert(4)] .
  moreover have "log_inv L S (client_moved s d)"
    using step_upsert(6,2) co step_upsert(3)
  proof (cases rule: upsertDesire_cases)
    case 1 then show ?thesis by (intro log_inv_shrink [OF lg]) simp
  next
    case 2 then show ?thesis by (intro log_inv_shrink [OF lg]) simp
  next
    case (3 h)
    have "second \<le> cl_now c" using step_upsert(2) by (simp add: clean_call_def)
    then show ?thesis by (rule log_inv_write [OF lg step_upsert(5) _ 3(1) step_upsert(4)]) (simp add: 3(3))
  qed
  ultimately show ?thesis unfolding step_upsert(1) by (rule desire_inv_client [OF assms(3)])
next
  case (step_delete c p sfx doc e d)
  have "coherent d"
    using coherent_delete [OF step_delete(4,2) _ step_delete(3)] assms(3) by (simp add: desire_inv_def)
  moreover have "log_inv L S (client_moved s d)"
    using step_delete(4) assms(3)
    by (intro log_inv_shrink)
       (auto simp: desire_inv_def DeleteDesireSpec_def Let_def split: write_fault.splits if_splits)
  ultimately show ?thesis unfolding step_delete(1) by (rule desire_inv_client [OF assms(3)])
next
  case step_restart
  have "coherent (ResetCache (sy_client s))" by (simp add: coherent_def ResetCache_def)
  moreover have "log_inv L S (client_moved s (ResetCache (sy_client s)))"
    using assms(3) by (intro log_inv_shrink) (auto simp: desire_inv_def ResetCache_def)
  ultimately show ?thesis unfolding step_restart by (rule desire_inv_client [OF assms(3)])
next
  case (step_pick k i)
  have "(k, i) \<in> sy_written s"
    using assms(3) step_pick(2) by (auto simp: desire_inv_def intro: log_invD(4))
  then have "applier_inv successful s'"
    using assms(3) unfolding step_pick(1) desire_inv_def applier_inv_def by simp
  then show ?thesis by (intro desire_inv_applier [OF assms(3)]) (simp_all add: step_pick(1))
next
  case (step_apply k i)
  have "applier_inv successful s'"
    unfolding step_apply(1) using assms(3) step_apply(2)
    by (intro applier_inv_apply) (simp_all add: desire_inv_def)
  then show ?thesis by (intro desire_inv_applier [OF assms(3)]) (simp_all add: step_apply(1))
next
  case (step_report mc doc i cs)
  have "applier_inv successful s'"
    unfolding step_report(1) using assms(3) step_report(3)
    by (intro applier_inv_report) (simp_all add: desire_inv_def)
  then show ?thesis by (intro desire_inv_applier [OF assms(3)]) (simp_all add: step_report(1))
qed

lemma desire_inv_reachable:
  assumes "desire_reachable L S successful s" "hash_ok L S"
  shows "desire_inv L S successful s"
proof -
  have init: "desire_inv L S successful sys_init"
    by (simp add: desire_inv_def sys_init_def coherent_def log_inv_def applier_inv_def stored_def)
  have "(desire_step L S successful)\<^sup>*\<^sup>* sys_init s" using assms(1) by (simp add: desire_reachable_def)
  then show ?thesis by (induction rule: rtranclp_induct) (use init assms(2) desire_inv_step in blast)+
qed

section \<open>Properties\<close>

definition published :: "dynamo_client \<Rightarrow> doc_key \<Rightarrow> gotime \<Rightarrow> desire_spec \<Rightarrow> bool" where
  "published d k t spec \<longleftrightarrow>
     (case dc_items d k of None \<Rightarrow> False | Some i \<Rightarrow> item_desire i = spec \<and> item_time i = t)"

lemma publishedD:
  assumes "published d k t spec"
  obtains i where "dc_items d k = Some i" "item_desire i = spec" "item_time i = t"
  using assms unfolding published_def by (auto split: option.splits)

lemma stored_item_desire:
  assumes inv: "desire_inv L S successful s" and hash: "hash_ok L S" "spec \<in> S" "dl_hash L spec = Some h"
    and i: "dc_items (sy_client s) k = Some i" "it_specHash i = Some h"
  shows "item_desire i = spec"
proof -
  have "written_by_client L S i"
    using inv i(1) by (auto simp: desire_inv_def intro: log_invD(1) log_invD(4))
  then obtain doc spec' h' now where w: "i = desire_item L doc spec' h' (truncate_second now)"
    "spec' \<in> S" "dl_hash L spec' = Some h'" unfolding written_by_client_def by blast
  then have "h' = h" using i(2) hash_okD(1) [OF hash(1) w(2,3)] by simp
  then show ?thesis using w hash_okD(2) [OF hash w(2)] by simp
qed

text \<open>An upsert that succeeds has not met a lost acknowledgement.\<close>

lemma upsert_acknowledged:
  assumes "upsertDesire L c table doc spec s = (Inr r, d)"
  shows "upsertDesire L (c\<lparr>cl_write := WriteOk\<rparr>) table doc spec s = (Inr r, d)"
  using assms
  by (cases "cl_write c")
     (auto simp: upsertDesire_def upsert_miss_def upsert_write_def putDesireWithHash_def Let_def
       split: option.splits if_splits prod.splits sum.splits)

text \<open>C19: a successful upsert publishes the desire.  Take any state that the operator and kube-applier reach by
  clean calls, restarts and deletions in any order: every read of theirs sees the current item, and a write that
  reports an error has not happened.  If the reads of a further upsert see the current item and it returns no error, the
  wanted spec is stored under its document ID, whether it was found in the cache, found in the table or written, and the
  time it returns is the stored update time, to the precision the table keeps.  The hash does not collide on the
  specs in use.\<close>

theorem upsert_publishes:
  assumes "desire_reachable L S successful s" "hash_ok L S"
    and "cl_older c = None" "second \<le> cl_now c" "valid_table table" "spec \<in> S"
    and "upsertDesire L c table doc spec (sy_client s) = (Inr r, d)"
  shows "published d (table, doc) (ur_UpdateTime r) spec"
proof -
  have inv: "desire_inv L S successful s" using assms(1,2) by (rule desire_inv_reachable)
  then have co: "coherent (sy_client s)" by (simp add: desire_inv_def)
  have "clean_call (c\<lparr>cl_write := WriteOk\<rparr>)" using assms(3,4) by (simp add: clean_call_def)
  with upsert_acknowledged [OF assms(7)] show ?thesis using co assms(5)
  proof (cases rule: upsertDesire_cases)
    case 1 then show ?thesis by simp
  next
    case (2 h i)
    have "item_desire i = spec" by (rule stored_item_desire [OF inv assms(2,6) 2(1-3)])
    then show ?thesis using 2 by (simp add: published_def)
  next
    case (3 h) then show ?thesis by (simp add: published_def)
  qed
qed

lemma check_entry_Synced:
  assumes "check_entry successful e r = Synced"
  obtains st where "r = Inr st" "claims_success successful (as_Conditions st)"
    "de_DesireUpdateTime e = 0 \<or> de_DesireUpdateTime e \<le> as_ObservedDesireUpdateTime st"
  using assms
  by (auto simp: check_entry_def claims_success_def Let_def
      split: sum.splits dyn_error.splits if_splits option.splits)

lemma filter_all_length: "length (filter P xs) = length xs \<longleftrightarrow> (\<forall>x \<in> set xs. P x)"
proof
  assume eq: "length (filter P xs) = length xs"
  show "\<forall>x \<in> set xs. P x"
  proof
    fix x assume "x \<in> set xs"
    then show "P x" using length_filter_less [of x xs P] eq by auto
  qed
qed simp

lemma Check_True_iff:
  "cd_Status (CheckApplyDesireStatuses successful get entries g) = ''True'' \<longleftrightarrow>
     (\<forall>e \<in> set entries. check_entry successful e (get (de_DocID e)) = Synced)"
proof -
  let ?rs = "map (\<lambda>e. check_entry successful e (get (de_DocID e))) entries"
  have 1: "(\<forall>r \<in> set ?rs. r = Synced) \<Longrightarrow> failed_messages ?rs = []"
    by (auto simp: failed_messages_def)
  have 2: "length (filter (\<lambda>r. r = Synced) ?rs) = length entries \<longleftrightarrow> (\<forall>r \<in> set ?rs. r = Synced)"
    using filter_all_length [of "\<lambda>r. r = Synced" ?rs] by simp
  have "cd_Status (CheckApplyDesireStatuses successful get entries g) = ''True'' \<longleftrightarrow>
      failed_messages ?rs = [] \<and> length (filter (\<lambda>r. r = Synced) ?rs) = length entries"
    unfolding CheckApplyDesireStatuses_def synced_condition_def Let_def by simp
  also have "\<dots> \<longleftrightarrow> (\<forall>r \<in> set ?rs. r = Synced)" unfolding 2 using 1 by blast
  finally show ?thesis by simp
qed

text \<open>C18: \<open>Synced\<close> is true only of what was carried out.  In every state reached by clean calls that write a
  document at most once per second, if the entries a reconciler
  checks are those of its published desires and \<open>CheckApplyDesireStatuses\<close> answers \<open>True\<close>, then kube-applier has
  successfully carried out an item with exactly the published spec for each of them; an earlier spec of the same
  document, or a report that is still about it, is never enough.\<close>

theorem synced_means_applied:
  assumes "desire_reachable L S successful s" "hash_ok L S"
    and "\<And>e. e \<in> set entries \<Longrightarrow> published (sy_client s) (specs_key mc (de_DocID e)) (de_DesireUpdateTime e) (spec e)"
    and "cd_Status (CheckApplyDesireStatuses successful
           (\<lambda>doc. GetApplyDesireStatus (fault doc) (sy_status s) (StatusPrefix mc) doc) entries g) = ''True''"
    and "e \<in> set entries"
  shows "\<exists>i. (specs_key mc (de_DocID e), i) \<in> sy_applied s \<and> item_desire i = spec e"
proof -
  have inv: "log_inv L S s" "applier_inv successful s"
    using desire_inv_reachable [OF assms(1,2)] by (simp_all add: desire_inv_def)
  let ?k = "specs_key mc (de_DocID e)"
  obtain i where i: "dc_items (sy_client s) ?k = Some i" "item_desire i = spec e"
    "item_time i = de_DesireUpdateTime e" using assms(3) [OF assms(5)] by (rule publishedD)
  have iw: "(?k, i) \<in> sy_written s" using log_invD(4) [OF inv(1) i(1)] .
  then have t: "de_DesireUpdateTime e \<noteq> 0" using log_invD(1) [OF inv(1)] item_time_written i(3) by metis
  have "check_entry successful e
          (GetApplyDesireStatus (fault (de_DocID e)) (sy_status s) (StatusPrefix mc) (de_DocID e)) = Synced"
    using assms(4,5) by (simp add: Check_True_iff)
  then obtain st where st: "GetApplyDesireStatus (fault (de_DocID e)) (sy_status s) (StatusPrefix mc) (de_DocID e) = Inr st"
    "claims_success successful (as_Conditions st)" "de_DesireUpdateTime e \<le> as_ObservedDesireUpdateTime st"
    using t by (rule_tac check_entry_Synced) auto
  obtain si where si: "sy_status s (status_key mc (de_DocID e)) = Some si"
    "st \<in> set_option (si_whole si) \<or> si_status si = Some (Some st)"
    using st(1) by (auto simp: GetApplyDesireStatus_def getDesireStatus_def status_key_def split: option.splits)
  from inv(2) si(1) obtain j cs where j: "si = status_report j cs"
    "claims_success successful cs \<longrightarrow> (?k, j) \<in> sy_applied s" by (rule applier_invD)
  have stj: "st = \<lparr>as_ObservedDesireUpdateTime = item_time j, as_Conditions = cs\<rparr>"
    using si(2) j(1) by (simp add: status_report_def)
  have ja: "(?k, j) \<in> sy_applied s" using st(2) j(2) by (simp add: stj)
  then have jw: "(?k, j) \<in> sy_written s" using inv(2) unfolding applier_inv_def by blast
  have "item_time j = item_time i"
    using st(3) i(3) log_invD(3) [OF inv(1) i(1) jw] by (simp add: stj)
  then have "j = i" using log_invD(2) [OF inv(1) jw iw] by simp
  then show ?thesis using ja i(2) by blast
qed
section \<open>What the provisos exclude\<close>

lemma upsert_changed:
  assumes "upsertDesire L c table doc spec s = (Inr r, s')" "ur_Changed r"
  obtains h where "dl_hash L spec = Some h" "ur_UpdateTime r = truncate_second (cl_now c)"
    "dc_items s' = (dc_items s)((table, doc) \<mapsto> desire_item L doc spec h (truncate_second (cl_now c)))"
    "dc_cache s' = (dc_cache s)(cacheKey table doc \<mapsto>
                      \<lparr>ce_specHash = h, ce_updateTime = truncate_second (cl_now c)\<rparr>)"
proof -
  obtain h where h: "dl_hash L spec = Some h" and w: "upsert_write L c table doc spec h s = (Inr r, s')"
    using assms
    by (auto simp: upsertDesire_def upsert_miss_def Let_def split: option.splits if_splits)
  then show thesis
    by (intro that [OF h])
       (auto simp: upsert_write_def putDesireWithHash_def Let_def split: if_splits write_fault.splits)
qed

text \<open>C36: within one second the operator mistakes an old report for a new one.  If the operator writes a desire,
  kube-applier carries it out and reports success, and the operator writes another spec of the same document
  within the same second, then \<open>CheckApplyDesireStatuses\<close> answers \<open>True\<close> for the new spec at once, although the
  only report there is is about the old one.  A resource whose desire is flipped to \<open>Delete\<close> in the second in
  which it was applied is so taken for deleted.\<close>

theorem same_second_report_is_mistaken:
  assumes "UpsertApplyDesire L c1 (SpecsPrefix mc) doc a d0 = (Inr r1, d1)" "ur_Changed r1"
    and "dc_items d1 (specs_key mc doc) = Some i"
    and "st (status_key mc doc) = Some (status_report i cs)" "claims_success successful cs"
    and "UpsertApplyDesire L c2 (SpecsPrefix mc) doc b d1 = (Inr r2, d2)" "ur_Changed r2"
    and "cl_now c1 div second = cl_now c2 div second"
    and "de_DocID e = doc" "de_DesireUpdateTime e = ur_UpdateTime r2"
  shows "cd_Status (CheckApplyDesireStatuses successful
           (\<lambda>doc. GetApplyDesireStatus None st (StatusPrefix mc) doc) [e] g) = ''True'' \<and>
         item_desire i = ApplySpec a \<and> published d2 (specs_key mc doc) (ur_UpdateTime r2) (ApplySpec b)"
proof -
  note up = UpsertApplyDesire_def
  obtain h1 where 1: "dc_items d1 = (dc_items d0)(specs_key mc doc \<mapsto>
      desire_item L doc (ApplySpec a) h1 (truncate_second (cl_now c1)))"
    using upsert_changed [OF assms(1) [unfolded up] assms(2)] unfolding specs_key_def by metis
  obtain h2 where 2: "dc_items d2 = (dc_items d1)(specs_key mc doc \<mapsto>
      desire_item L doc (ApplySpec b) h2 (truncate_second (cl_now c2)))"
    "ur_UpdateTime r2 = truncate_second (cl_now c2)"
    using upsert_changed [OF assms(6) [unfolded up] assms(7)] unfolding specs_key_def by metis
  have i: "i = desire_item L doc (ApplySpec a) h1 (truncate_second (cl_now c1))"
    using assms(3) 1 by simp
  have eq: "truncate_second (cl_now c1) = truncate_second (cl_now c2)"
    using assms(8) by (simp add: truncate_second_mult)
  obtain c where c: "FindStatusCondition cs successful = Some c" "cd_Status c = ''True''"
    using assms(5) by (auto simp: claims_success_def split: option.splits)
  have "GetApplyDesireStatus None st (StatusPrefix mc) doc =
      Inr \<lparr>as_ObservedDesireUpdateTime = item_time i, as_Conditions = cs\<rparr>"
    using assms(4) by (simp add: GetApplyDesireStatus_def getDesireStatus_def status_key_def status_report_def)
  then have "check_entry successful e (GetApplyDesireStatus None st (StatusPrefix mc) (de_DocID e)) = Synced"
    using c assms(9,10) 2(2) eq i by (simp add: check_entry_def)
  then show ?thesis using i 2 by (simp add: Check_True_iff published_def)
qed

text \<open>C37: a write whose acknowledgement is lost makes the cache wrong.  If the operator has written spec \<open>a\<close> and its
  next write, of spec \<open>b\<close>, is performed by DynamoDB but reported as failed, then every later upsert of \<open>a\<close> reports
  success without a call, while the table keeps \<open>b\<close>: the desired state is not published until the spec changes
  again or the process restarts.\<close>

theorem unacknowledged_put_is_forgotten:
  assumes "UpsertApplyDesire L c1 specsPrefix doc a d0 = (Inr r1, d1)" "ur_Changed r1"
    and "cl_write c2 = WriteUnacknowledged err" "cl_getFault c2 = None" "cl_older c2 = None"
    and "dl_marshal L (ApplySpec b)" "dl_hash L (ApplySpec b) = Some hb" "dl_hash L (ApplySpec a) \<noteq> Some hb"
    and "dl_hash L (ApplySpec a) \<noteq> Some []"
    and "UpsertApplyDesire L c2 specsPrefix doc b d1 = (r2, d2)"
  shows "r2 = Inl (DynError err) \<and>
         UpsertApplyDesire L c3 specsPrefix doc a d2 =
           (Inr \<lparr>ur_Changed = False, ur_UpdateTime = ur_UpdateTime r1\<rparr>, d2) \<and>
         map_option item_desire (dc_items d2 (specsPrefix @ TableSuffixApplyDesires, doc)) = Some (ApplySpec b)"
proof -
  let ?t = "specsPrefix @ TableSuffixApplyDesires"
  from upsert_changed [OF assms(1) [unfolded UpsertApplyDesire_def] assms(2)] obtain ha where
    ha: "dl_hash L (ApplySpec a) = Some ha" and r1: "ur_UpdateTime r1 = truncate_second (cl_now c1)"
    and items: "dc_items d1 (?t, doc) = Some (desire_item L doc (ApplySpec a) ha (truncate_second (cl_now c1)))"
    and cache: "dc_cache d1 (cacheKey ?t doc) = Some \<lparr>ce_specHash = ha, ce_updateTime = truncate_second (cl_now c1)\<rparr>"
    by (metis fun_upd_same)
  have ne: "ha \<noteq> hb" "ha \<noteq> []" using ha assms(8,9) by auto
  have "upsertDesire L c2 ?t doc (ApplySpec b) d1 = upsert_write L c2 ?t doc (ApplySpec b) hb d1"
    using assms(4,5,7) items cache ne by (simp add: upsertDesire_def upsert_miss_def)
  then have "(r2, d2) = (Inl (DynError err), d1\<lparr>dc_items := (dc_items d1)((?t, doc) \<mapsto>
      desire_item L doc (ApplySpec b) hb (truncate_second (cl_now c2)))\<rparr>)"
    using assms(3,6,10) by (simp add: UpsertApplyDesire_def upsert_write_def putDesireWithHash_def Let_def)
  then show ?thesis using ha cache r1 by (simp add: UpsertApplyDesire_def upsertDesire_def)
qed

section \<open>Witnesses\<close>

definition ex_target :: ResourceReference where
  "ex_target = \<lparr>rr_Group = ''hypershift.openshift.io'', rr_Version = ''v1beta1'', rr_Resource = ''hostedclusters'',
                rr_Namespace = ''ns'', rr_Name = ''hc''\<rparr>"

definition ex_apply :: ApplyDesireSpec where
  "ex_apply = \<lparr>ad_Type = ApplyDesireTypeServerSideApply, ad_ManagementCluster = ''mc1'', ad_ClusterID = ''c1'',
               ad_TargetItem = ex_target, ad_ServerSideApply = Some (Some ''raw'')\<rparr>"

definition ex_delete :: ApplyDesireSpec where
  "ex_delete = ex_apply\<lparr>ad_Type := ApplyDesireTypeDelete, ad_ServerSideApply := None\<rparr>"

definition ex_lib :: dynamo_lib where
  "ex_lib = \<lparr>dl_hash = (\<lambda>s. case s of ApplySpec a \<Rightarrow>
                (case ad_Type a of ApplyDesireTypeDelete \<Rightarrow> Some ''d'' | _ \<Rightarrow> Some ''a'') | ReadSpec _ \<Rightarrow> Some ''r''),
             dl_marshal = (\<lambda>_. True), dl_shard = (\<lambda>d. d)\<rparr>"

definition ex_call :: "int \<Rightarrow> dynamo_call" where
  "ex_call t = \<lparr>cl_now = t, cl_getFault = None, cl_older = None, cl_write = WriteOk\<rparr>"

definition ex_specs :: "desire_spec set" where
  "ex_specs = {ApplySpec ex_apply, ApplySpec ex_delete}"

definition ex_entry :: "gotime \<Rightarrow> DesireStatusEntry" where
  "ex_entry t = \<lparr>de_DocID = ''doc'', de_Resource = ''hostedclusters'', de_Name = ''hc'', de_DesireUpdateTime = t\<rparr>"

definition ex_success :: "Condition list" where
  "ex_success = [\<lparr>cd_Type = ''Successful'', cd_Status = ''True'', cd_Reason = [], cd_Message = [], cd_ObservedGeneration = 1\<rparr>]"

definition ex_client1 :: dynamo_client where
  "ex_client1 = snd (UpsertApplyDesire ex_lib (ex_call (7 * second + 3)) (SpecsPrefix ''mc1'') ''doc'' ex_apply
                       (sy_client sys_init))"

definition ex_item :: item where
  "ex_item = desire_item ex_lib ''doc'' (ApplySpec ex_apply) ''a'' (7 * second)"

lemma ex_hash_ok: "hash_ok ex_lib ex_specs"
  by (simp add: hash_ok_def ex_lib_def ex_specs_def ex_delete_def ex_apply_def)

lemma ex_clean [simp]: "clean_call (ex_call (7 * second + 3))" "clean_call (ex_call (7 * second + 5))"
  by (simp_all add: clean_call_def ex_call_def second_def)

lemma ex_valid [simp]: "valid_table (SpecsPrefix ''mc1'' @ TableSuffixApplyDesires)"
  by (simp add: valid_table_def SpecsPrefix_def TableSuffixApplyDesires_def)

lemma ex_truncate [simp]: "truncate_second (7 * second + 3) = 7 * second" "truncate_second (7 * second + 5) = 7 * second"
  by (simp_all add: truncate_second_def second_def)

lemma ex_upsert1:
  "UpsertApplyDesire ex_lib (ex_call (7 * second + 3)) (SpecsPrefix ''mc1'') ''doc'' ex_apply (sy_client sys_init) =
     (Inr \<lparr>ur_Changed = True, ur_UpdateTime = 7 * second\<rparr>, ex_client1)"
  by (simp add: ex_client1_def UpsertApplyDesire_def upsertDesire_def upsert_miss_def upsert_write_def
      putDesireWithHash_def sys_init_def ex_lib_def ex_apply_def ex_call_def Let_def)

lemma ex_client1_items: "dc_items ex_client1 = [specs_key ''mc1'' ''doc'' \<mapsto> ex_item]"
  by (simp add: ex_client1_def UpsertApplyDesire_def upsertDesire_def upsert_miss_def upsert_write_def
      putDesireWithHash_def sys_init_def ex_lib_def ex_apply_def ex_call_def specs_key_def ex_item_def Let_def)

theorem upsert_publishes_witness:
  "published ex_client1 (SpecsPrefix ''mc1'' @ TableSuffixApplyDesires, ''doc'') (7 * second) (ApplySpec ex_apply)"
  using upsert_publishes [of ex_lib ex_specs "''Successful''" sys_init "ex_call (7 * second + 3)"
      "SpecsPrefix ''mc1'' @ TableSuffixApplyDesires" "ApplySpec ex_apply" "''doc''"
      "\<lparr>ur_Changed = True, ur_UpdateTime = 7 * second\<rparr>" ex_client1]
    ex_hash_ok ex_upsert1 [unfolded UpsertApplyDesire_def] ex_clean(1)
  by (simp add: desire_reachable_def ex_specs_def clean_call_def)

text \<open>The operator publishes, kube-applier picks up, carries out and reports.\<close>

definition ex_sys :: "nat \<Rightarrow> desire_sys" where
  "ex_sys n =
     (let ki = (specs_key ''mc1'' ''doc'', ex_item) in
      \<lparr>sy_client = ex_client1,
       sy_status = (if n < 3 then (\<lambda>_. None)
                    else [status_key ''mc1'' ''doc'' \<mapsto> status_report ex_item ex_success]),
       sy_written = {ki}, sy_picked = (if n < 1 then {} else {ki}), sy_applied = (if n < 2 then {} else {ki})\<rparr>)"

lemma ex_sys_simps [simp]:
  "sy_client (ex_sys n) = ex_client1" "sy_picked (ex_sys (Suc n)) = {(specs_key ''mc1'' ''doc'', ex_item)}"
  "sy_applied (ex_sys (Suc (Suc n))) = {(specs_key ''mc1'' ''doc'', ex_item)}"
  "sy_status (ex_sys 3) = [status_key ''mc1'' ''doc'' \<mapsto> status_report ex_item ex_success]"
  by (simp_all add: ex_sys_def Let_def)

lemma ex_desire_reachable: "desire_reachable ex_lib ex_specs ''Successful'' (ex_sys 3)"
proof -
  let ?step = "desire_step ex_lib ex_specs ''Successful''"
  have "client_moved sys_init ex_client1 = ex_sys 0"
    by (simp add: client_moved_def ex_sys_def sys_init_def stored_def ex_client1_items)
       (auto split: if_splits)
  moreover have "?step sys_init (client_moved sys_init ex_client1)"
    by (rule step_upsert [OF ex_clean(1) ex_valid _ _ ex_upsert1 [unfolded UpsertApplyDesire_def]])
       (simp_all add: ex_specs_def fresh_second_def sys_init_def)
  moreover have "?step (ex_sys 0) (ex_sys 1)"
    using step_pick [of "ex_sys 0" "specs_key ''mc1'' ''doc''" ex_item]
    by (simp add: ex_client1_items) (simp add: ex_sys_def Let_def)
  moreover have "?step (ex_sys 1) (ex_sys 2)"
    using step_apply [of "specs_key ''mc1'' ''doc''" ex_item "ex_sys 1"] by (simp add: ex_sys_def Let_def)
  moreover have "?step (ex_sys 2) (ex_sys 3)"
    using step_report [of "''mc1''" "''doc''" ex_item "ex_sys 2" _ ex_success] by (simp add: ex_sys_def Let_def)
  ultimately have "?step sys_init (ex_sys 0)" "?step (ex_sys 0) (ex_sys 1)" "?step (ex_sys 1) (ex_sys 2)"
    "?step (ex_sys 2) (ex_sys 3)" by simp_all
  then show ?thesis unfolding desire_reachable_def
    by (intro rtranclp.rtrancl_into_rtrancl [OF rtranclp.rtrancl_into_rtrancl
          [OF rtranclp.rtrancl_into_rtrancl [OF r_into_rtranclp]]])
qed

lemma ex_item_simps [simp]: "item_desire ex_item = ApplySpec ex_apply" "item_time ex_item = 7 * second"
  using item_time_desire_item [of ex_lib "''doc''" "ApplySpec ex_apply" "''a''" "7 * second + 3"]
  by (simp_all add: ex_item_def)

lemma ex_desire_checked:
  "cd_Status (CheckApplyDesireStatuses ''Successful''
     (\<lambda>doc. GetApplyDesireStatus None (sy_status (ex_sys 3)) (StatusPrefix ''mc1'') doc)
     [ex_entry (7 * second)] 1) = ''True''"
  by (simp add: Check_True_iff check_entry_def ex_entry_def GetApplyDesireStatus_def getDesireStatus_def
      status_key_def status_report_def ex_success_def FindStatusCondition_def)

theorem synced_means_applied_witness:
  "\<exists>i. (specs_key ''mc1'' ''doc'', i) \<in> sy_applied (ex_sys 3) \<and> item_desire i = ApplySpec ex_apply"
  using synced_means_applied [of ex_lib ex_specs "''Successful''" "ex_sys 3" "[ex_entry (7 * second)]" "''mc1''"
      "\<lambda>_. ApplySpec ex_apply" "\<lambda>_. None" 1 "ex_entry (7 * second)"] ex_desire_reachable ex_hash_ok ex_desire_checked
  by (simp add: published_def ex_client1_items ex_entry_def)

definition ex_client2 :: dynamo_client where
  "ex_client2 = snd (UpsertApplyDesire ex_lib (ex_call (7 * second + 5)) (SpecsPrefix ''mc1'') ''doc'' ex_delete ex_client1)"

lemma ex_client1_cache:
  "dc_cache ex_client1 (cacheKey (SpecsPrefix ''mc1'' @ TableSuffixApplyDesires) ''doc'') =
     Some \<lparr>ce_specHash = ''a'', ce_updateTime = 7 * second\<rparr>"
  by (simp add: ex_client1_def UpsertApplyDesire_def upsertDesire_def upsert_miss_def upsert_write_def
      putDesireWithHash_def sys_init_def ex_lib_def ex_apply_def ex_call_def Let_def)

lemma ex_item_hash [simp]: "it_specHash ex_item = Some ''a''"
  by (simp add: ex_item_def)

lemma ex_hashes [simp]: "dl_hash ex_lib (ApplySpec ex_delete) = Some ''d''" "dl_hash ex_lib (ApplySpec ex_apply) = Some ''a''"
  "dl_marshal ex_lib s"
  by (simp_all add: ex_lib_def ex_delete_def ex_apply_def)

lemma ex_upsert2:
  "UpsertApplyDesire ex_lib (ex_call (7 * second + 5)) (SpecsPrefix ''mc1'') ''doc'' ex_delete ex_client1 =
     (Inr \<lparr>ur_Changed = True, ur_UpdateTime = 7 * second\<rparr>, ex_client2)"
  by (simp add: ex_client2_def UpsertApplyDesire_def upsertDesire_def ex_client1_cache upsert_miss_def
      upsert_write_def putDesireWithHash_def ex_call_def Let_def ex_client1_items [unfolded specs_key_def])

theorem same_second_report_is_mistaken_witness:
  "cd_Status (CheckApplyDesireStatuses ''Successful''
     (\<lambda>doc. GetApplyDesireStatus None [status_key ''mc1'' ''doc'' \<mapsto> status_report ex_item ex_success]
        (StatusPrefix ''mc1'') doc) [ex_entry (7 * second)] 1) = ''True'' \<and>
   item_desire ex_item = ApplySpec ex_apply \<and>
   published ex_client2 (specs_key ''mc1'' ''doc'') (7 * second) (ApplySpec ex_delete)"
  using same_second_report_is_mistaken [OF ex_upsert1 _ _ _ _ ex_upsert2, of ex_item
      "[status_key ''mc1'' ''doc'' \<mapsto> status_report ex_item ex_success]" ex_success "''Successful''"
      "ex_entry (7 * second)" 1]
  by (simp add: ex_client1_items ex_entry_def claims_success_def ex_success_def FindStatusCondition_def ex_call_def
      second_def)

theorem unacknowledged_put_is_forgotten_witness:
  "\<exists>d2. UpsertApplyDesire ex_lib ((ex_call (7 * second + 5))\<lparr>cl_write := WriteUnacknowledged ''timeout''\<rparr>)
            (SpecsPrefix ''mc1'') ''doc'' ex_delete ex_client1 = (Inl (DynError ''timeout''), d2) \<and>
        UpsertApplyDesire ex_lib (ex_call (9 * second)) (SpecsPrefix ''mc1'') ''doc'' ex_apply d2 =
            (Inr \<lparr>ur_Changed = False, ur_UpdateTime = 7 * second\<rparr>, d2) \<and>
        map_option item_desire (dc_items d2 (SpecsPrefix ''mc1'' @ TableSuffixApplyDesires, ''doc'')) =
            Some (ApplySpec ex_delete)"
proof -
  let ?c2 = "(ex_call (7 * second + 5))\<lparr>cl_write := WriteUnacknowledged ''timeout''\<rparr>"
  obtain r2 d2 where r2: "UpsertApplyDesire ex_lib ?c2 (SpecsPrefix ''mc1'') ''doc'' ex_delete ex_client1 = (r2, d2)"
    by fastforce
  show ?thesis
    using unacknowledged_put_is_forgotten [OF ex_upsert1 _ _ _ _ _ _ _ _ r2, of "''timeout''" "''d''"
        "ex_call (9 * second)"] r2
    by (auto simp: ex_call_def)
qed

end
