(* ===== verification/Fleet.thy ===== *)
theory Fleet
  imports Desire NetworkCIDR
begin

text \<open>
  The kinds of object the operator and the API work on (\<open>api/v1alpha1\<close>, the fields that the modelled code
  uses), and the state they share: one store per kind and the DynamoDB tables.  Spec fields come first in
  each kind, then status fields; an update writes the former, a status update the latter.
\<close>

section \<open>Labels and names\<close>

definition accountIDLabel :: string where "accountIDLabel = ''seaplane.io/account-id''"
definition clusterUIDLabel :: string where "clusterUIDLabel = ''seaplane.io/cluster-uid''"
definition claimedByClusterUIDLabel :: string where
  "claimedByClusterUIDLabel = ''seaplane.io/claimed-by-cluster-uid''"
definition ownerUIDLabel :: string where "ownerUIDLabel = ''seaplane.io/owner-uid''"

definition accountNamespace :: "string \<Rightarrow> string" where
  "accountNamespace accountID = ''account-'' @ accountID"

section \<open>Kinds\<close>

type_synonym Index = obj

record DNSReservation = obj +
  dr_ClusterDeletionPolicy :: string
  dr_Phase :: string
  dr_BaseDomain :: string
  dr_InternalHostedClusterName :: string
  dr_ObservedGeneration :: int
  dr_Conditions :: "Condition list"

record OidcConfig = obj +
  oc_Type :: string
  oc_IssuerUrl :: string
  oc_SecretArn :: string
  oc_InstallerRoleArn :: string
  oc_Phase :: string
  oc_LastUsedTimestamp :: "gotime option"

record PlacementReference =
  pr_Name :: string
  pr_ManagementCluster :: string

text \<open>Of the AWS platform only queue and region matter; \<open>cs_Other\<close> and \<open>ns_Other\<close> stand for the spec fields that no
  modelled code looks at.  Documents that are only compared or copied are texts.\<close>

record AWSPlatform =
  aw_TerminationHandlerQueueURL :: string
  aw_Region :: string

record ClusterSpec =
  cs_AccountID :: string
  cs_CreatorARN :: string
  cs_DNSReservationID :: string
  cs_OidcConfigID :: string
  cs_HostedClusterName :: string
  cs_ExpirationTimestamp :: "gotime option"
  cs_Tags :: "(string \<times> string) list"
  cs_ControlPlaneUpgradePolicy :: string
  cs_Configuration :: string
  cs_Release :: string
  cs_IssuerURL :: string
  cs_AWS :: "AWSPlatform option"
  cs_Networking :: ClusterNetworking
  cs_Other :: string

record ClusterStatus =
  ct_Conditions :: "Condition list"
  ct_Phase :: string
  ct_ControlPlaneEndpoint :: string
  ct_Version :: string
  ct_PlacementRef :: "PlacementReference option"
  ct_ObservedGeneration :: int
  ct_BaseDomain :: string

record Cluster = obj +
  cu_CreationTimestamp :: gotime
  cu_Spec :: ClusterSpec
  cu_Status :: ClusterStatus

record PlacementStatus =
  pt_Phase :: string
  pt_ObservedGeneration :: int
  pt_Conditions :: "Condition list"

record Placement = obj +
  pl_ClusterName :: string
  pl_ManagementCluster :: string
  pl_Status :: PlacementStatus

record NodePoolSpec =
  ns_AccountID :: string
  ns_ClusterName :: string
  ns_Replicas :: "int option"
  ns_AutoScaling :: string
  ns_Release :: string
  ns_Tags :: "(string \<times> string) list"
  ns_EC2InstanceMetadataHttpTokens :: string
  ns_AutoRepair :: "bool option"
  ns_Labels :: "(string \<times> string) list"
  ns_ManagementAutoRepair :: bool \<comment> \<open>in \<open>spec.nodePool.management\<close>\<close>
  ns_NodeLabels :: "(string \<times> string) list" \<comment> \<open>in \<open>spec.nodePool\<close>\<close>
  ns_InternalPoolID :: string
  ns_Other :: string

record NodePoolStatus =
  nt_Phase :: string
  nt_Replicas :: "int option"
  nt_ObservedGeneration :: int
  nt_Conditions :: "Condition list"

record ownerReference =
  ow_Kind :: string
  ow_Name :: string
  ow_UID :: string

record NodePool = obj +
  np_Owner :: "ownerReference option" \<comment> \<open>the controller owner\<close>
  np_Spec :: NodePoolSpec
  np_Status :: NodePoolStatus

text \<open>Which fields are spec and which are status: \<open>keep_*\<close> combines a new object with the stored status,
  \<open>put_*\<close> the stored object with a new status.\<close>

definition put_DNSReservation :: "DNSReservation \<Rightarrow> DNSReservation \<Rightarrow> DNSReservation" where
  "put_DNSReservation x cur =
     cur\<lparr>dr_Phase := dr_Phase x, dr_BaseDomain := dr_BaseDomain x,
         dr_InternalHostedClusterName := dr_InternalHostedClusterName x,
         dr_ObservedGeneration := dr_ObservedGeneration x, dr_Conditions := dr_Conditions x\<rparr>"

definition keep_DNSReservation :: "DNSReservation \<Rightarrow> DNSReservation \<Rightarrow> DNSReservation" where
  "keep_DNSReservation x cur =
     put_DNSReservation cur
       (x\<lparr>ob_generation := (if dr_ClusterDeletionPolicy x = dr_ClusterDeletionPolicy cur then ob_generation x
                            else ob_generation cur + 1)\<rparr>)"

definition put_OidcConfig :: "OidcConfig \<Rightarrow> OidcConfig \<Rightarrow> OidcConfig" where
  "put_OidcConfig x cur = cur\<lparr>oc_Phase := oc_Phase x, oc_LastUsedTimestamp := oc_LastUsedTimestamp x\<rparr>"

definition keep_OidcConfig :: "OidcConfig \<Rightarrow> OidcConfig \<Rightarrow> OidcConfig" where
  "keep_OidcConfig x cur =
     put_OidcConfig cur
       (x\<lparr>ob_generation := (if oc_Type x = oc_Type cur \<and> oc_IssuerUrl x = oc_IssuerUrl cur \<and>
                               oc_SecretArn x = oc_SecretArn cur \<and> oc_InstallerRoleArn x = oc_InstallerRoleArn cur
                            then ob_generation x else ob_generation cur + 1)\<rparr>)"

definition put_Cluster :: "Cluster \<Rightarrow> Cluster \<Rightarrow> Cluster" where
  "put_Cluster x cur = cur\<lparr>cu_Status := cu_Status x\<rparr>"

definition keep_Cluster :: "Cluster \<Rightarrow> Cluster \<Rightarrow> Cluster" where
  "keep_Cluster x cur =
     x\<lparr>cu_Status := cu_Status cur, cu_CreationTimestamp := cu_CreationTimestamp cur,
       ob_generation := (if cu_Spec x = cu_Spec cur then ob_generation x else ob_generation cur + 1)\<rparr>"

definition put_Placement :: "Placement \<Rightarrow> Placement \<Rightarrow> Placement" where
  "put_Placement x cur = cur\<lparr>pl_Status := pl_Status x\<rparr>"

definition put_NodePool :: "NodePool \<Rightarrow> NodePool \<Rightarrow> NodePool" where
  "put_NodePool x cur = cur\<lparr>np_Status := np_Status x\<rparr>"

definition keep_NodePool :: "NodePool \<Rightarrow> NodePool \<Rightarrow> NodePool" where
  "keep_NodePool x cur =
     x\<lparr>np_Status := np_Status cur,
       ob_generation := (if np_Spec x = np_Spec cur then ob_generation x else ob_generation cur + 1)\<rparr>"

text \<open>The stored snapshot of a rendered HostedCluster or NodePool, with its content as a text.\<close>

record rendered = obj +
  rn_Content :: string

definition keep_rendered :: "rendered \<Rightarrow> rendered \<Rightarrow> rendered" where
  "keep_rendered x cur =
     x\<lparr>ob_generation := (if rn_Content x = rn_Content cur then ob_generation x else ob_generation cur + 1)\<rparr>"

section \<open>The shared state\<close>

record fleet =
  fl_indexes :: "Index store"
  fl_reservations :: "DNSReservation store"
  fl_oidcconfigs :: "OidcConfig store"
  fl_clusters :: "Cluster store"
  fl_placements :: "Placement store"
  fl_nodepools :: "NodePool store"
  fl_rendered :: "rendered store" \<comment> \<open>the rendered HostedClusters\<close>
  fl_renderedPools :: "rendered store" \<comment> \<open>the rendered NodePools\<close>
  fl_mcs :: "obj store" \<comment> \<open>the management clusters\<close>
  fl_manifests :: "obj store"
  fl_accounts :: "obj store" \<comment> \<open>the ConfigMaps of enrolled accounts\<close>
  fl_dynamo :: dynamo_client
  fl_statuses :: "ApplyDesireStatus status_table"
  fl_uids :: "string set" \<comment> \<open>the UIDs given out so far; no code looks at it\<close>

text \<open>An operation on one store as an operation on the state.\<close>

definition on_indexes :: "(Index store \<Rightarrow> 'r \<times> Index store) \<Rightarrow> fleet \<Rightarrow> 'r \<times> fleet" where
  "on_indexes f s = (case f (fl_indexes s) of (r, x) \<Rightarrow> (r, s\<lparr>fl_indexes := x\<rparr>))"

definition on_reservations :: "(DNSReservation store \<Rightarrow> 'r \<times> DNSReservation store) \<Rightarrow> fleet \<Rightarrow> 'r \<times> fleet" where
  "on_reservations f s = (case f (fl_reservations s) of (r, x) \<Rightarrow> (r, s\<lparr>fl_reservations := x\<rparr>))"

definition on_oidcconfigs :: "(OidcConfig store \<Rightarrow> 'r \<times> OidcConfig store) \<Rightarrow> fleet \<Rightarrow> 'r \<times> fleet" where
  "on_oidcconfigs f s = (case f (fl_oidcconfigs s) of (r, x) \<Rightarrow> (r, s\<lparr>fl_oidcconfigs := x\<rparr>))"

definition on_clusters :: "(Cluster store \<Rightarrow> 'r \<times> Cluster store) \<Rightarrow> fleet \<Rightarrow> 'r \<times> fleet" where
  "on_clusters f s = (case f (fl_clusters s) of (r, x) \<Rightarrow> (r, s\<lparr>fl_clusters := x\<rparr>))"

definition on_placements :: "(Placement store \<Rightarrow> 'r \<times> Placement store) \<Rightarrow> fleet \<Rightarrow> 'r \<times> fleet" where
  "on_placements f s = (case f (fl_placements s) of (r, x) \<Rightarrow> (r, s\<lparr>fl_placements := x\<rparr>))"

definition on_nodepools :: "(NodePool store \<Rightarrow> 'r \<times> NodePool store) \<Rightarrow> fleet \<Rightarrow> 'r \<times> fleet" where
  "on_nodepools f s = (case f (fl_nodepools s) of (r, x) \<Rightarrow> (r, s\<lparr>fl_nodepools := x\<rparr>))"

definition on_rendered :: "(rendered store \<Rightarrow> 'r \<times> rendered store) \<Rightarrow> fleet \<Rightarrow> 'r \<times> fleet" where
  "on_rendered f s = (case f (fl_rendered s) of (r, x) \<Rightarrow> (r, s\<lparr>fl_rendered := x\<rparr>))"

definition on_renderedPools :: "(rendered store \<Rightarrow> 'r \<times> rendered store) \<Rightarrow> fleet \<Rightarrow> 'r \<times> fleet" where
  "on_renderedPools f s = (case f (fl_renderedPools s) of (r, x) \<Rightarrow> (r, s\<lparr>fl_renderedPools := x\<rparr>))"

definition on_mcs :: "(obj store \<Rightarrow> 'r \<times> obj store) \<Rightarrow> fleet \<Rightarrow> 'r \<times> fleet" where
  "on_mcs f s = (case f (fl_mcs s) of (r, x) \<Rightarrow> (r, s\<lparr>fl_mcs := x\<rparr>))"

definition on_manifests :: "(obj store \<Rightarrow> 'r \<times> obj store) \<Rightarrow> fleet \<Rightarrow> 'r \<times> fleet" where
  "on_manifests f s = (case f (fl_manifests s) of (r, x) \<Rightarrow> (r, s\<lparr>fl_manifests := x\<rparr>))"

definition on_accounts :: "(obj store \<Rightarrow> 'r \<times> obj store) \<Rightarrow> fleet \<Rightarrow> 'r \<times> fleet" where
  "on_accounts f s = (case f (fl_accounts s) of (r, x) \<Rightarrow> (r, s\<lparr>fl_accounts := x\<rparr>))"

definition on_dynamo :: "(dynamo_client \<Rightarrow> 'r \<times> dynamo_client) \<Rightarrow> fleet \<Rightarrow> 'r \<times> fleet" where
  "on_dynamo f s = (case f (fl_dynamo s) of (r, x) \<Rightarrow> (r, s\<lparr>fl_dynamo := x\<rparr>))"

text \<open>A creation records the UID it was given.  UIDs are random and do not repeat: with one that was given out before,
  nothing happens.\<close>

definition minting :: "string \<Rightarrow> (fleet \<Rightarrow> (api_error + 'a) \<times> fleet) \<Rightarrow> fleet \<Rightarrow> (api_error + 'a) \<times> fleet" where
  "minting uid f s =
     (if uid \<in> fl_uids s then (Inl (OtherError ''repeated UID''), s)
      else case f s of
        (Inl e, s') \<Rightarrow> (Inl e, s')
      | (Inr x, s') \<Rightarrow> (Inr x, s'\<lparr>fl_uids := insert uid (fl_uids s')\<rparr>))"

text \<open>A read returns its answer and leaves the state.\<close>

definition reading :: "(fleet \<Rightarrow> api_error + 'a) \<Rightarrow> (fleet, 'a) prog" where
  "reading g = api_call (\<lambda>s. (g s, s))"

definition returning :: "api_error + 'a \<Rightarrow> (fleet, 'a) prog" where
  "returning r = (case r of Inl e \<Rightarrow> fail e | Inr x \<Rightarrow> ret x)"

datatype result = Finished | RequeueAfter nat \<comment> \<open>seconds\<close>

end
