(* ===== verification/DnsController.thy ===== *)
theory DnsController
  imports Fleet "HOL-Library.List_Lexorder" "HOL-Library.Char_ord"
begin

text \<open>
  The controller of DNS reservations, \<open>seaplane-operator/internal/controller/dnsreservation_controller.go\<close>, and
  the name it derives for hosted clusters, \<open>api/v1alpha1/hostedclustername.go\<close>.  The controller gives every
  reservation a base domain whose prefix no other reservation has, by creating an \<open>Index\<close> object named after
  the prefix and labelled with the reservation's UID.

  The inputs that are not objects are in \<open>dns_config\<close>: the domain suffix, what the prefix generator returns
  at each attempt, and the UIDs the database mints for the objects the attempts create.
\<close>

record dns_config =
  dz_suffix :: string
  dz_prefix :: "nat \<Rightarrow> api_error + string"
  dz_uid :: "nat \<Rightarrow> string"

definition dnsReservationFinalizer :: string where
  "dnsReservationFinalizer = ''seaplane.io/dnsreservation''"

definition dnsReservationAllocationAttempts :: nat where
  "dnsReservationAllocationAttempts = 5"

definition defaultDNSShard :: string where
  "defaultDNSShard = ''0''"

definition dnsShardNamespace :: "string \<Rightarrow> string" where
  "dnsShardNamespace shard = ''dns-shard-'' @ shard @ ''-reservations''"

section \<open>Names of hosted clusters\<close>

definition MaxClusterNameLengthWithoutDNSReservation :: nat where
  "MaxClusterNameLengthWithoutDNSReservation = 63 - length ''cluster-'' - 36 - 1"

definition is_lower_alnum :: "char \<Rightarrow> bool" where
  "is_lower_alnum c \<longleftrightarrow> 97 \<le> char_nat c \<and> char_nat c \<le> 122 \<or> is_digit c"

definition HostedClusterNameFromDNSReservation :: "string \<Rightarrow> string" where
  "HostedClusterNameFromDNSReservation uid =
     (if uid = [] then []
      else if MaxClusterNameLengthWithoutDNSReservation \<le> length ''hc-'' then []
      else let suf = take (MaxClusterNameLengthWithoutDNSReservation - length ''hc-'')
                          (filter is_lower_alnum (to_lower uid))
           in if suf = [] then [] else ''hc-'' @ suf)"

section \<open>Owned indexes\<close>

definition ignoring_NotFound :: "(fleet, unit) prog \<Rightarrow> (fleet, unit) prog" where
  "ignoring_NotFound m = attempt m (\<lambda>r. case r of Inl e \<Rightarrow> if e = NotFound then ret () else fail e | Inr _ \<Rightarrow> ret ())"

definition listOwnedIndexes :: "string \<Rightarrow> (fleet, (nsname \<times> Index) list) prog" where
  "listOwnedIndexes uid =
     reading (\<lambda>s. Inr (store_list (\<lambda>k x. label ownerUIDLabel x = uid) (fl_indexes s)))"

definition delete_index :: "nsname \<times> Index \<Rightarrow> (fleet, unit) prog" where
  "delete_index kx = ignoring_NotFound (api_call (on_indexes (store_delete (fst kx) (snd kx))))"

definition first_by_name :: "(nsname \<times> Index) list \<Rightarrow> (nsname \<times> Index) option" where
  "first_by_name l = (case sort_key (\<lambda>kx. snd (fst kx)) l of [] \<Rightarrow> None | kx # _ \<Rightarrow> Some kx)"

fun recover_loop ::
  "string \<Rightarrow> (nsname \<times> Index) list \<Rightarrow> (nsname \<times> Index) list \<Rightarrow> (fleet, (nsname \<times> Index) option) prog" where
  "recover_loop uid [] expected = ret (first_by_name expected)"
| "recover_loop uid (kx # l) expected =
     (if label ownerUIDLabel (snd kx) \<noteq> uid then recover_loop uid l expected
      else if fst (fst kx) \<noteq> dnsShardNamespace defaultDNSShard
      then andThen (delete_index kx) (\<lambda>_. recover_loop uid l expected)
      else recover_loop uid l (expected @ [kx]))"

definition recoverOwnedIndex :: "string \<Rightarrow> (fleet, (nsname \<times> Index) option) prog" where
  "recoverOwnedIndex uid = andThen (listOwnedIndexes uid) (\<lambda>l. recover_loop uid l [])"

definition new_index :: "string \<Rightarrow> string \<Rightarrow> Index" where
  "new_index accountID uid =
     \<lparr>ob_uid = [], ob_rv = 0, ob_generation = 0,
      ob_labels = [(accountIDLabel, accountID), (ownerUIDLabel, uid)], ob_annotations = [], ob_finalizers = [], ob_deleting = False\<rparr>"

definition allocated :: "string \<Rightarrow> (fleet, (nsname \<times> Index) option) prog" where
  "allocated uid =
     andThen (recoverOwnedIndex uid) (\<lambda>owned.
       if owned \<noteq> None then ret owned else fail (OtherError ''created but not visible''))"

fun allocate_loop :: "dns_config \<Rightarrow> string \<Rightarrow> string \<Rightarrow> nat \<Rightarrow> nat \<Rightarrow> (fleet, (nsname \<times> Index) option) prog" where
  "allocate_loop cfg accountID uid i 0 = ret None"
| "allocate_loop cfg accountID uid i (Suc n) =
     (case dz_prefix cfg i of
        Inl e \<Rightarrow> fail e
      | Inr pfx \<Rightarrow>
          let k = (dnsShardNamespace defaultDNSShard, pfx) in
          attempt (api_call (on_indexes (store_create (dz_uid cfg i) k (new_index accountID uid)))) (\<lambda>r.
            case r of
              Inr _ \<Rightarrow> allocated uid
            | Inl e \<Rightarrow>
                if e \<noteq> AlreadyExists then fail e
                else andThen (reading (\<lambda>s. store_get k (fl_indexes s))) (\<lambda>existing.
                       if label ownerUIDLabel existing \<noteq> uid then allocate_loop cfg accountID uid (Suc i) n
                       else allocated uid)))"

definition allocateIndex :: "dns_config \<Rightarrow> DNSReservation \<Rightarrow> (fleet, (nsname \<times> Index) option) prog" where
  "allocateIndex cfg reservation =
     (let accountID = label accountIDLabel reservation in
      if accountID = [] then fail (OtherError ''no account label'')
      else allocate_loop cfg accountID (ob_uid reservation) 0 dnsReservationAllocationAttempts)"

definition deleteDuplicateOwnedIndexes :: "string \<Rightarrow> nsname \<Rightarrow> (fleet, unit) prog" where
  "deleteDuplicateOwnedIndexes uid canonical =
     andThen (listOwnedIndexes uid) (\<lambda>l.
       forEach l (\<lambda>kx. if label ownerUIDLabel (snd kx) \<noteq> uid \<or> fst kx = canonical then ret () else delete_index kx))"

section \<open>Status\<close>

definition isAutomaticDNSReservation :: "string \<Rightarrow> DNSReservation \<Rightarrow> bool" where
  "isAutomaticDNSReservation name r \<longleftrightarrow>
     dr_ClusterDeletionPolicy r = ''Delete'' \<or>
     (let clusterUID = label claimedByClusterUIDLabel r in
      clusterUID \<noteq> [] \<and>
      (name = ''auto-dns-'' @ clusterUID \<or> has_suffix name (''-auto-dns-'' @ clusterUID)))"

definition resolveInternalHostedClusterName :: "nsname \<Rightarrow> DNSReservation \<Rightarrow> (fleet, string) prog" where
  "resolveInternalHostedClusterName k r =
     (if \<not> isAutomaticDNSReservation (snd k) r then
        (let name = HostedClusterNameFromDNSReservation (ob_uid r) in
         if name = [] then fail (OtherError ''derive internal HostedCluster name'') else ret name)
      else let clusterUID = label claimedByClusterUIDLabel r in
        if clusterUID = [] then fail (OtherError ''no claiming Cluster UID'')
        else andThen (reading (\<lambda>s. Inr (store_list (\<lambda>k' c. fst k' = fst k) (fl_clusters s)))) (\<lambda>clusters.
               case find (\<lambda>kc. ob_uid (snd kc) = clusterUID) clusters of
                 None \<Rightarrow> fail (OtherError ''claiming Cluster not found'')
               | Some (k', c) \<Rightarrow>
                   if cs_HostedClusterName (cu_Spec c) \<noteq> [] \<and> cs_HostedClusterName (cu_Spec c) \<noteq> ''uid-pending''
                   then ret (cs_HostedClusterName (cu_Spec c)) else ret (snd k')))"

definition allocation_failed :: "string \<Rightarrow> int \<Rightarrow> Condition" where
  "allocation_failed message generation =
     \<lparr>cd_Type = ''Ready'', cd_Status = ''False'', cd_Reason = ''PrefixAllocationFailed'',
      cd_Message = message, cd_ObservedGeneration = generation\<rparr>"

definition reservation_status ::
  "string \<Rightarrow> string \<Rightarrow> string \<Rightarrow> string \<Rightarrow> DNSReservation \<Rightarrow> DNSReservation" where
  "reservation_status phase baseDomain message name latest =
     latest\<lparr>dr_Phase := phase, dr_BaseDomain := baseDomain, dr_InternalHostedClusterName := name,
            dr_ObservedGeneration := ob_generation latest,
            dr_Conditions :=
              (if message \<noteq> [] then SetStatusCondition (dr_Conditions latest)
                                       (allocation_failed message (ob_generation latest))
               else RemoveStatusCondition (dr_Conditions latest) ''Ready'')\<rparr>"

text \<open>One attempt of the status update, and the retries.\<close>

definition update_status_once ::
  "nsname \<Rightarrow> DNSReservation \<Rightarrow> string \<Rightarrow> string \<Rightarrow> string \<Rightarrow> (fleet, unit) prog" where
  "update_status_once k reservation phase baseDomain message =
     attempt (reading (\<lambda>s. store_get k (fl_reservations s))) (\<lambda>got.
       case got of
         Inl e \<Rightarrow> if e = NotFound then ret () else fail e
       | Inr latest \<Rightarrow>
           if ob_uid latest \<noteq> ob_uid reservation \<or> ob_deleting latest then ret ()
           else andThen (resolveInternalHostedClusterName k latest) (\<lambda>name.
             let new = reservation_status phase baseDomain message name latest in
             if new = latest then ret ()
             else andThen (api_call (on_reservations (store_status_update put_DNSReservation k new)))
                    (\<lambda>_. ret ())))"

definition updateReservationStatus ::
  "nsname \<Rightarrow> DNSReservation \<Rightarrow> string \<Rightarrow> string \<Rightarrow> string \<Rightarrow> (fleet, unit) prog" where
  "updateReservationStatus k reservation phase baseDomain message =
     RetryOnConflict (update_status_once k reservation phase baseDomain message)"

section \<open>Reconciling\<close>

definition remove_dns_finalizer :: "nsname \<Rightarrow> DNSReservation \<Rightarrow> (fleet, unit) prog" where
  "remove_dns_finalizer k reservation =
     attempt (reading (\<lambda>s. store_get k (fl_reservations s))) (\<lambda>got.
       case got of
         Inl e \<Rightarrow> if e = NotFound then ret () else fail e
       | Inr latest \<Rightarrow>
           if ob_uid latest \<noteq> ob_uid reservation \<or> \<not> ContainsFinalizer latest dnsReservationFinalizer
           then ret ()
           else andThen (api_call (on_reservations (store_update keep_DNSReservation k
                            (RemoveFinalizer dnsReservationFinalizer latest)))) (\<lambda>_. ret ()))"

definition dns_reconcileDelete :: "nsname \<Rightarrow> DNSReservation \<Rightarrow> (fleet, result) prog" where
  "dns_reconcileDelete k reservation =
     andThen (listOwnedIndexes (ob_uid reservation)) (\<lambda>indexes.
     andThen (forEach indexes (\<lambda>kx.
                if label ownerUIDLabel (snd kx) \<noteq> ob_uid reservation then ret () else delete_index kx)) (\<lambda>_.
     andThen (listOwnedIndexes (ob_uid reservation)) (\<lambda>remaining.
     if remaining \<noteq> [] then ret (RequeueAfter 30)
     else andThen (RetryOnConflict (remove_dns_finalizer k reservation)) (\<lambda>_. ret Finished))))"

definition base_domain :: "dns_config \<Rightarrow> string \<Rightarrow> string" where
  "base_domain cfg pfx = pfx @ ''.'' @ defaultDNSShard @ ''.'' @ dz_suffix cfg"

definition dns_assign :: "dns_config \<Rightarrow> nsname \<Rightarrow> DNSReservation \<Rightarrow> nsname \<times> Index \<Rightarrow> (fleet, result) prog" where
  "dns_assign cfg k reservation index =
     andThen (deleteDuplicateOwnedIndexes (ob_uid reservation) (fst index)) (\<lambda>_.
     andThen (updateReservationStatus k reservation ''Ready'' (base_domain cfg (snd (fst index))) []) (\<lambda>_.
     ret (RequeueAfter 300)))"

definition dns_reconcile_live :: "dns_config \<Rightarrow> nsname \<Rightarrow> DNSReservation \<Rightarrow> (fleet, result) prog" where
  "dns_reconcile_live cfg k reservation =
     (if \<not> ContainsFinalizer reservation dnsReservationFinalizer then
        attempt (api_call (on_reservations (store_update keep_DNSReservation k
                   (AddFinalizer dnsReservationFinalizer reservation)))) (\<lambda>r.
          case r of Inl e \<Rightarrow> if e = NotFound then ret Finished else fail e | Inr _ \<Rightarrow> ret Finished)
      else if ob_uid reservation = [] then fail (OtherError ''no database UID'')
      else if dz_suffix cfg = [] then fail (OtherError ''base domain suffix is not configured'')
      else andThen (recoverOwnedIndex (ob_uid reservation)) (\<lambda>found.
        case found of
          Some index \<Rightarrow> dns_assign cfg k reservation index
        | None \<Rightarrow>
            andThen (allocateIndex cfg reservation) (\<lambda>alloc.
              case alloc of
                Some index \<Rightarrow> dns_assign cfg k reservation index
              | None \<Rightarrow>
                  andThen (updateReservationStatus k reservation ''Pending'' []
                             ''failed to reserve a DNS prefix after 5 attempts'') (\<lambda>_.
                  ret (RequeueAfter 30)))))"

definition dns_Reconcile :: "dns_config \<Rightarrow> nsname \<Rightarrow> (fleet, result) prog" where
  "dns_Reconcile cfg k =
     attempt (reading (\<lambda>s. store_get k (fl_reservations s))) (\<lambda>got.
       case got of
         Inl e \<Rightarrow> if e = NotFound then ret Finished else fail e
       | Inr reservation \<Rightarrow>
           if ob_deleting reservation then dns_reconcileDelete k reservation
           else dns_reconcile_live cfg k reservation)"

end
