(* ===== verification/DnsProps.thy ===== *)
theory DnsProps
  imports DnsController
begin

text \<open>
  No two reservations get the same base domain.  The proof is by rely and guarantee: \<open>dns_inv\<close> is the
  invariant of the shared objects, \<open>dns_rely k\<close> what a reconciliation of the reservation at \<open>k\<close> needs of
  everything else that runs (it keeps the invariant, leaves the indexes of this reservation alone and does not
  remove its finalizer), and \<open>dns_guar k\<close> what it promises about each of its own writes.  The guarantee for one
  key gives the rely for every other key, so reconciliations of different reservations can be interleaved at will.
\<close>

declare split_paired_All [simp del] split_paired_Ex [simp del]

section \<open>Invariant, rely and guarantee\<close>

definition res :: "fleet \<Rightarrow> nsname \<Rightarrow> DNSReservation option" where
  "res s k = map_of (fl_reservations s) k"

definition idx :: "fleet \<Rightarrow> nsname \<Rightarrow> Index option" where
  "idx s k = map_of (fl_indexes s) k"

definition owned :: "string \<Rightarrow> fleet \<Rightarrow> (nsname \<times> Index) set" where
  "owned u s = {(k, x). idx s k = Some x \<and> label ownerUIDLabel x = u}"

definition good_reservation :: "DNSReservation \<Rightarrow> bool" where
  "good_reservation r \<longleftrightarrow>
     ob_uid r \<noteq> [] \<and>
     (ob_finalizers r = [dnsReservationFinalizer] \<or> ob_finalizers r = [] \<and> \<not> ob_deleting r)"

definition backed :: "dns_config \<Rightarrow> DNSReservation \<Rightarrow> fleet \<Rightarrow> bool" where
  "backed cfg r s \<longleftrightarrow>
     ob_deleting r \<or> dr_BaseDomain r = [] \<or>
     (\<exists>p x. ((dnsShardNamespace defaultDNSShard, p), x) \<in> owned (ob_uid r) s \<and> dr_BaseDomain r = base_domain cfg p)"

definition dns_inv :: "dns_config \<Rightarrow> fleet \<Rightarrow> bool" where
  "dns_inv cfg s \<longleftrightarrow>
     distinct (map fst (fl_indexes s)) \<and> distinct (map fst (fl_reservations s)) \<and>
     (\<forall>k r k' r'. res s k = Some r \<longrightarrow> res s k' = Some r' \<longrightarrow> ob_uid r = ob_uid r' \<longrightarrow> k = k') \<and>
     (\<forall>k r. res s k = Some r \<longrightarrow> good_reservation r) \<and>
     (\<forall>k r a x b y. res s k = Some r \<longrightarrow> (a, x) \<in> owned (ob_uid r) s \<longrightarrow> (b, y) \<in> owned (ob_uid r) s \<longrightarrow>
        a = b \<and> ob_finalizers x = []) \<and>
     (\<forall>k r. res s k = Some r \<longrightarrow> backed cfg r s)"

definition dns_rely :: "dns_config \<Rightarrow> nsname \<Rightarrow> fleet \<Rightarrow> fleet \<Rightarrow> bool" where
  "dns_rely cfg k s s' \<longleftrightarrow>
     (dns_inv cfg s \<longrightarrow>
        dns_inv cfg s' \<and>
        (\<forall>r. res s k = Some r \<and> ContainsFinalizer r dnsReservationFinalizer \<longrightarrow>
           owned (ob_uid r) s' = owned (ob_uid r) s \<and>
           (\<exists>r'. res s' k = Some r' \<and> ob_uid r' = ob_uid r \<and> ContainsFinalizer r' dnsReservationFinalizer \<and>
                 (ob_deleting r \<longrightarrow> ob_deleting r'))) \<and>
        (\<forall>r'. res s' k = Some r' \<and> ContainsFinalizer r' dnsReservationFinalizer \<longrightarrow>
           owned (ob_uid r') s' = {} \<or>
           (\<exists>r. res s k = Some r \<and> ob_uid r = ob_uid r' \<and> ContainsFinalizer r dnsReservationFinalizer)))"

text \<open>The finalizer is taken away only when no index is left.\<close>

definition no_leak :: "nsname \<Rightarrow> fleet \<Rightarrow> fleet \<Rightarrow> bool" where
  "no_leak k s s' \<longleftrightarrow>
     (\<forall>r. res s k = Some r \<longrightarrow> ContainsFinalizer r dnsReservationFinalizer \<longrightarrow>
        owned (ob_uid r) s = {} \<or>
        (\<exists>r'. res s' k = Some r' \<and> ContainsFinalizer r' dnsReservationFinalizer))"

definition dns_guar :: "dns_config \<Rightarrow> nsname \<Rightarrow> fleet \<Rightarrow> fleet \<Rightarrow> bool" where
  "dns_guar cfg k s s' \<longleftrightarrow>
     (dns_inv cfg s \<longrightarrow>
        dns_inv cfg s' \<and>
        (\<forall>k'. k' \<noteq> k \<longrightarrow> res s' k' = res s k') \<and>
        (\<forall>k' r. k' \<noteq> k \<longrightarrow> res s k' = Some r \<longrightarrow> owned (ob_uid r) s' = owned (ob_uid r) s) \<and>
        no_leak k s s')"

definition domains_unique :: "fleet \<Rightarrow> bool" where
  "domains_unique s \<longleftrightarrow>
     (\<forall>k r k' r'. res s k = Some r \<longrightarrow> res s k' = Some r' \<longrightarrow> \<not> ob_deleting r \<longrightarrow> \<not> ob_deleting r' \<longrightarrow>
        dr_BaseDomain r \<noteq> [] \<longrightarrow> dr_BaseDomain r = dr_BaseDomain r' \<longrightarrow> k = k')"

lemma ownedD: "(k, x) \<in> owned u s \<longleftrightarrow> idx s k = Some x \<and> label ownerUIDLabel x = u"
  by (simp add: owned_def)

lemma dns_invD:
  assumes "dns_inv cfg s"
  shows "distinct (map fst (fl_indexes s))" "distinct (map fst (fl_reservations s))"
    and "res s k = Some r \<Longrightarrow> res s k' = Some r' \<Longrightarrow> ob_uid r = ob_uid r' \<Longrightarrow> k = k'"
    and "res s k = Some r \<Longrightarrow> good_reservation r"
    and "res s k = Some r \<Longrightarrow> (a, x) \<in> owned (ob_uid r) s \<Longrightarrow> (b, y) \<in> owned (ob_uid r) s \<Longrightarrow> a = b"
    and "res s k = Some r \<Longrightarrow> (a, x) \<in> owned (ob_uid r) s \<Longrightarrow> ob_finalizers x = []"
    and "res s k = Some r \<Longrightarrow> backed cfg r s"
  using assms unfolding dns_inv_def by blast+

lemma dns_invI:
  assumes "distinct (map fst (fl_indexes s))" "distinct (map fst (fl_reservations s))"
    and "\<And>k r k' r'. res s k = Some r \<Longrightarrow> res s k' = Some r' \<Longrightarrow> ob_uid r = ob_uid r' \<Longrightarrow> k = k'"
    and "\<And>k r. res s k = Some r \<Longrightarrow> good_reservation r"
    and "\<And>k r a x b y. res s k = Some r \<Longrightarrow> (a, x) \<in> owned (ob_uid r) s \<Longrightarrow> (b, y) \<in> owned (ob_uid r) s \<Longrightarrow> a = b"
    and "\<And>k r a x. res s k = Some r \<Longrightarrow> (a, x) \<in> owned (ob_uid r) s \<Longrightarrow> ob_finalizers x = []"
    and "\<And>k r. res s k = Some r \<Longrightarrow> backed cfg r s"
  shows "dns_inv cfg s"
  using assms unfolding dns_inv_def by blast

lemma guar_gives_rely: "dns_guar cfg k s s' \<Longrightarrow> k' \<noteq> k \<Longrightarrow> dns_rely cfg k' s s'"
  unfolding dns_guar_def dns_rely_def by metis

lemma dns_inv_unique: "dns_inv cfg s \<Longrightarrow> domains_unique s"
  unfolding domains_unique_def
proof (intro allI impI)
  fix k r k' r'
  assume inv: "dns_inv cfg s" and r: "res s k = Some r" "res s k' = Some r'"
    and live: "\<not> ob_deleting r" "\<not> ob_deleting r'" and d: "dr_BaseDomain r \<noteq> []" "dr_BaseDomain r = dr_BaseDomain r'"
  obtain p x where p: "((dnsShardNamespace defaultDNSShard, p), x) \<in> owned (ob_uid r) s"
    "dr_BaseDomain r = base_domain cfg p"
    using dns_invD(7) [OF inv r(1)] live d unfolding backed_def by blast
  obtain q y where q: "((dnsShardNamespace defaultDNSShard, q), y) \<in> owned (ob_uid r') s"
    "dr_BaseDomain r' = base_domain cfg q"
    using dns_invD(7) [OF inv r(2)] live d unfolding backed_def by metis
  have "p = q" using p(2) q(2) d(2) by (simp add: base_domain_def)
  then have "ob_uid r = ob_uid r'" using p(1) q(1) by (simp add: ownedD)
  then show "k = k'" by (rule dns_invD(3) [OF inv r])
qed

section \<open>What the reconciler knows\<close>

text \<open>\<open>holds k u o\<close>: the reservation at \<open>k\<close> has UID \<open>u\<close> and the finalizer, and \<open>o\<close> is the index it owns, if any.\<close>

definition holds :: "dns_config \<Rightarrow> nsname \<Rightarrow> string \<Rightarrow> bool \<Rightarrow> (nsname \<times> Index) option \<Rightarrow> fleet \<Rightarrow> bool" where
  "holds cfg k u dying own s \<longleftrightarrow>
     dns_inv cfg s \<and> owned u s = set_option own \<and>
     (\<exists>r. res s k = Some r \<and> ob_uid r = u \<and> ContainsFinalizer r dnsReservationFinalizer \<and> (dying \<longrightarrow> ob_deleting r))"

lemma holdsD:
  assumes "holds cfg k u dying own s"
  obtains r where "dns_inv cfg s" "owned u s = set_option own" "res s k = Some r" "ob_uid r = u"
    "ContainsFinalizer r dnsReservationFinalizer" "dying \<longrightarrow> ob_deleting r"
  using assms unfolding holds_def by blast

lemma holds_stable: "stable (dns_rely cfg k) (holds cfg k u dying own)"
  unfolding stable_def holds_def dns_rely_def by metis

lemma inv_stable: "stable (dns_rely cfg k) (dns_inv cfg)"
  unfolding stable_def dns_rely_def by blast

lemma guar_refl [simp]: "dns_guar cfg k s s"
  by (simp add: dns_guar_def no_leak_def)

lemma holds_intro:
  assumes "dns_inv cfg s" "res s k = Some r" "ContainsFinalizer r dnsReservationFinalizer"
    "dying \<longrightarrow> ob_deleting r"
  shows "\<exists>own. holds cfg k (ob_uid r) dying own s"
proof (cases "owned (ob_uid r) s = {}")
  case True
  then show ?thesis using assms unfolding holds_def by (intro exI [of _ None]) auto
next
  case False
  then obtain a x where x: "(a, x) \<in> owned (ob_uid r) s" by auto
  have "b = a \<and> y = x" if y: "(b, y) \<in> owned (ob_uid r) s" for b y
    using dns_invD(5) [OF assms(1,2) x y] x y by (simp add: ownedD)
  then have "owned (ob_uid r) s = {(a, x)}" using x by fast
  then show ?thesis using assms unfolding holds_def by (intro exI [of _ "Some (a, x)"]) auto
qed

section \<open>Writes to the indexes\<close>

lemma res_on_indexes [simp]: "res (s\<lparr>fl_indexes := y\<rparr>) k = res s k"
  by (simp add: res_def)

lemma idx_on_reservations [simp]: "idx (s\<lparr>fl_reservations := y\<rparr>) k = idx s k"
  by (simp add: idx_def)

lemma owned_on_reservations [simp]: "owned u (s\<lparr>fl_reservations := y\<rparr>) = owned u s"
  by (simp add: owned_def)

text \<open>Changing the owned index of \<open>u\<close> changes nothing for other reservations.\<close>

lemma change_owned:
  assumes h: "holds cfg k u dying own s"
    and d: "distinct (map fst y)"
    and own: "owned u (s\<lparr>fl_indexes := y\<rparr>) = set_option own'"
    and others: "\<And>v. v \<noteq> u \<Longrightarrow> owned v (s\<lparr>fl_indexes := y\<rparr>) = owned v s"
    and fin: "\<And>a x. own' = Some (a, x) \<Longrightarrow> ob_finalizers x = []"
    and keep: "dying \<or> own = None \<or> (\<exists>a x. own = Some (a, x) \<and> fst a \<noteq> dnsShardNamespace defaultDNSShard)"
  shows "dns_guar cfg k s (s\<lparr>fl_indexes := y\<rparr>) \<and> holds cfg k u dying own' (s\<lparr>fl_indexes := y\<rparr>)"
proof -
  obtain r where r: "dns_inv cfg s" "owned u s = set_option own" "res s k = Some r" "ob_uid r = u"
    "ContainsFinalizer r dnsReservationFinalizer" "dying \<longrightarrow> ob_deleting r" using h by (rule holdsD)
  note inv = dns_invD [OF r(1)]
  have other: "ob_uid r' \<noteq> u" if "res s k' = Some r'" "k' \<noteq> k" for k' r'
    using inv(3) [OF r(3) that(1)] r(4) that(2) by auto
  have "dns_inv cfg (s\<lparr>fl_indexes := y\<rparr>)"
  proof (rule dns_invI)
    fix k' r' a x b z
    assume r': "res (s\<lparr>fl_indexes := y\<rparr>) k' = Some r'"
      and ab: "(a, x) \<in> owned (ob_uid r') (s\<lparr>fl_indexes := y\<rparr>)" "(b, z) \<in> owned (ob_uid r') (s\<lparr>fl_indexes := y\<rparr>)"
    show "a = b"
    proof (cases "ob_uid r' = u")
      case True with ab own show ?thesis by (cases own') auto
    next
      case False with r' ab others [OF False] inv(5) [of k' r' a x b z] show ?thesis by simp
    qed
  next
    fix k' r' a x
    assume r': "res (s\<lparr>fl_indexes := y\<rparr>) k' = Some r'" "(a, x) \<in> owned (ob_uid r') (s\<lparr>fl_indexes := y\<rparr>)"
    show "ob_finalizers x = []"
    proof (cases "ob_uid r' = u")
      case True with r' own fin show ?thesis by (cases own') auto
    next
      case False with r' others [OF False] inv(6) [of k' r' a x] show ?thesis by simp
    qed
  next
    fix k' r' assume r': "res (s\<lparr>fl_indexes := y\<rparr>) k' = Some r'"
    then have b: "backed cfg r' s" using inv(7) by simp
    show "backed cfg r' (s\<lparr>fl_indexes := y\<rparr>)"
    proof (cases "ob_uid r' = u")
      case False with b others [OF False] show ?thesis by (simp add: backed_def)
    next
      case True
      then have "r' = r" using r' r(3) other [of k' r'] by (cases "k' = k") auto
      then show ?thesis using b keep r(2,4,6) unfolding backed_def by auto
    qed
  qed (use inv d in auto)
  then show ?thesis
    unfolding dns_guar_def holds_def no_leak_def using own others other r by auto
qed

lemma idx_delete: "idx (s\<lparr>fl_indexes := AList.delete a (fl_indexes s)\<rparr>) b = (if b = a then None else idx s b)"
  by (simp add: idx_def delete_conv')

lemma idx_update: "idx (s\<lparr>fl_indexes := AList.update a x (fl_indexes s)\<rparr>) b = (if b = a then Some x else idx s b)"
  by (simp add: idx_def update_conv')

lemma owned_delete: "owned u (s\<lparr>fl_indexes := AList.delete a (fl_indexes s)\<rparr>) = {kx \<in> owned u s. fst kx \<noteq> a}"
  by (auto simp: owned_def idx_delete split: if_splits)

lemma owned_update:
  "owned u (s\<lparr>fl_indexes := AList.update a x (fl_indexes s)\<rparr>) =
     {kx \<in> owned u s. fst kx \<noteq> a} \<union> (if label ownerUIDLabel x = u then {(a, x)} else {})"
  by (auto simp: owned_def idx_update split: if_splits)

lemma owned_frame: "idx s a = None \<or> (\<exists>x. idx s a = Some x \<and> label ownerUIDLabel x \<noteq> u) \<Longrightarrow> {kx \<in> owned u s. fst kx \<noteq> a} = owned u s"
  by (auto simp: owned_def)

text \<open>Deleting the owned index, if the reservation is going away or the index is in a foreign shard.\<close>

lemma delete_owned:
  assumes h: "holds cfg k u dying (Some (a, x)) s"
    and keep: "dying \<or> fst a \<noteq> dnsShardNamespace defaultDNSShard"
    and f: "on_indexes (store_delete a x) s = (r, s')"
  shows "dns_guar cfg k s s' \<and> (if r = Inr () then holds cfg k u dying None s' else s' = s)"
proof -
  obtain c where c: "dns_inv cfg s" "owned u s = {(a, x)}" "res s k = Some c" "ob_uid c = u"
    using h by (auto elim: holdsD)
  then have ax: "(a, x) \<in> owned (ob_uid c) s" by simp
  then have x: "map_of (fl_indexes s) a = Some x" "label ownerUIDLabel x = u" "ob_finalizers x = []"
    using c(4) dns_invD(6) [OF c(1,3) ax] by (auto simp: ownedD idx_def)
  obtain t where t: "store_delete a x (fl_indexes s) = (r, t)" "s' = s\<lparr>fl_indexes := t\<rparr>"
    using f by (auto simp: on_indexes_def split: prod.splits)
  have "r = Inr ()" "t = AList.delete a (fl_indexes s)"
    using t(1) x(1,3) by (simp_all add: store_delete_def same_version_def)
  moreover have "dns_guar cfg k s (s\<lparr>fl_indexes := AList.delete a (fl_indexes s)\<rparr>) \<and>
      holds cfg k u dying None (s\<lparr>fl_indexes := AList.delete a (fl_indexes s)\<rparr>)"
  proof (rule change_owned [OF h])
    show "distinct (map fst (AList.delete a (fl_indexes s)))"
      using dns_invD(1) [OF c(1)] by (rule distinct_delete)
    show "owned u (s\<lparr>fl_indexes := AList.delete a (fl_indexes s)\<rparr>) = set_option None"
      using c(2) by (simp add: owned_delete)
    show "v \<noteq> u \<Longrightarrow> owned v (s\<lparr>fl_indexes := AList.delete a (fl_indexes s)\<rparr>) = owned v s" for v
      using x(1,2) unfolding owned_delete by (intro owned_frame) (simp add: idx_def)
  qed (use keep in auto)
  ultimately show ?thesis using t(2) by simp
qed

text \<open>Creating an index for a reservation that owns none.\<close>

lemma create_owned:
  assumes h: "holds cfg k u dying None s"
    and f: "on_indexes (store_create n a (new_index acc u)) s = (r, s')"
  shows "dns_guar cfg k s s' \<and>
    (if r = Inl AlreadyExists then s' = s else \<exists>x. r = Inr x \<and> holds cfg k u dying (Some (a, x)) s')"
proof -
  obtain c where c: "dns_inv cfg s" "owned u s = {}" using h by (auto elim: holdsD)
  obtain t where t: "store_create n a (new_index acc u) (fl_indexes s) = (r, t)" "s' = s\<lparr>fl_indexes := t\<rparr>"
    using f by (auto simp: on_indexes_def split: prod.splits)
  from t(1) show ?thesis
  proof (cases rule: store_create_cases)
    case 1 then show ?thesis using t(2) by simp
  next
    case (2 x)
    have x: "label ownerUIDLabel x = u" "ob_finalizers x = []"
      unfolding 2(2) by (simp_all add: new_index_def label_def accountIDLabel_def ownerUIDLabel_def)
    have "dns_guar cfg k s (s\<lparr>fl_indexes := AList.update a x (fl_indexes s)\<rparr>) \<and>
        holds cfg k u dying (Some (a, x)) (s\<lparr>fl_indexes := AList.update a x (fl_indexes s)\<rparr>)"
    proof (rule change_owned [OF h])
      show "distinct (map fst (AList.update a x (fl_indexes s)))"
        using dns_invD(1) [OF c(1)] by (rule distinct_update)
      show "owned u (s\<lparr>fl_indexes := AList.update a x (fl_indexes s)\<rparr>) = set_option (Some (a, x))"
        using c(2) x by (simp add: owned_update)
      show "v \<noteq> u \<Longrightarrow> owned v (s\<lparr>fl_indexes := AList.update a x (fl_indexes s)\<rparr>) = owned v s" for v
        using x 2(4) owned_frame [of s a v] by (simp add: owned_update idx_def)
    qed (use x in auto)
    then show ?thesis using 2 t(2) by simp
  qed
qed

section \<open>Writes to the reservation\<close>

lemma res_update: "res (s\<lparr>fl_reservations := AList.update a x (fl_reservations s)\<rparr>) b = (if b = a then Some x else res s b)"
  by (simp add: res_def update_conv')

lemma res_delete: "res (s\<lparr>fl_reservations := AList.delete a (fl_reservations s)\<rparr>) b = (if b = a then None else res s b)"
  by (simp add: res_def delete_conv')

text \<open>Replacing the reservation by a good one with the same UID, backed by the same indexes, or removing it.\<close>

lemma change_reservation:
  assumes inv: "dns_inv cfg s" and cur: "res s k = Some cur"
    and new: "good_reservation c" "ob_uid c = ob_uid cur" "backed cfg c s"
      "ContainsFinalizer cur dnsReservationFinalizer \<Longrightarrow>
         owned (ob_uid cur) s = {} \<or> ContainsFinalizer c dnsReservationFinalizer"
    and s': "s' = s\<lparr>fl_reservations := AList.update k c (fl_reservations s)\<rparr>"
  shows "dns_guar cfg k s s' \<and> dns_inv cfg s' \<and> res s' k = Some c \<and> owned u s' = owned u s"
proof -
  note i = dns_invD [OF inv]
  have r: "res s' a = (if a = k then Some c else res s a)" for a by (simp add: s' res_update)
  have o: "owned v s' = owned v s" for v by (simp add: s')
  have b: "backed cfg x s' = backed cfg x s" for x by (simp add: backed_def o)
  have "dns_inv cfg s'"
  proof (rule dns_invI)
    fix a x b y assume "res s' a = Some x" "res s' b = Some y" "ob_uid x = ob_uid y"
    then show "a = b"
      using i(3) [of a x b y] i(3) [OF cur, of b y] i(3) [of a x, OF _ cur] new(2) r by (auto split: if_splits)
  next
    fix a x p q b y
    assume "res s' a = Some x" "(p, q) \<in> owned (ob_uid x) s'" "(b, y) \<in> owned (ob_uid x) s'"
    then show "p = b" using i(5) [of a x] i(5) [OF cur] new(2) r o by (auto split: if_splits)
  next
    fix a x p q assume "res s' a = Some x" "(p, q) \<in> owned (ob_uid x) s'"
    then show "ob_finalizers q = []" using i(6) [of a x] i(6) [OF cur] new(2) r o by (auto split: if_splits)
  qed (use i new r b distinct_update in \<open>auto simp: s' split: if_splits\<close>)
  then show ?thesis using cur new(4) by (auto simp: dns_guar_def no_leak_def r o)
qed

lemma remove_reservation:
  assumes inv: "dns_inv cfg s" and s': "s' = s\<lparr>fl_reservations := AList.delete k (fl_reservations s)\<rparr>"
    and gone: "\<And>c. res s k = Some c \<Longrightarrow> ContainsFinalizer c dnsReservationFinalizer \<Longrightarrow> owned (ob_uid c) s = {}"
  shows "dns_guar cfg k s s' \<and> dns_inv cfg s'"
proof -
  note i = dns_invD [OF inv]
  have r: "res s' a = (if a = k then None else res s a)" for a by (simp add: s' res_delete)
  have o: "owned v s' = owned v s" for v by (simp add: s')
  have b: "backed cfg x s' = backed cfg x s" for x by (simp add: backed_def o)
  have "dns_inv cfg s'"
    by (rule dns_invI) (use i(1,3-7) r b o distinct_delete [OF i(2)] in \<open>auto simp: s' split: if_splits\<close>)
  then show ?thesis using gone by (auto simp: dns_guar_def no_leak_def r o)
qed

text \<open>The status update of a reservation.\<close>

lemma status_write:
  assumes h: "holds cfg k u dying own s"
    and bd: "dr_BaseDomain new = [] \<or>
      (\<exists>p x. own = Some ((dnsShardNamespace defaultDNSShard, p), x) \<and> dr_BaseDomain new = base_domain cfg p)"
    and f: "on_reservations (store_status_update put_DNSReservation k new) s = (r, s')"
  shows "dns_guar cfg k s s' \<and> holds cfg k u dying own s'"
proof -
  obtain c where c: "dns_inv cfg s" "owned u s = set_option own" "res s k = Some c" "ob_uid c = u"
    "ContainsFinalizer c dnsReservationFinalizer" "dying \<longrightarrow> ob_deleting c" using h by (rule holdsD)
  obtain t where t: "store_status_update put_DNSReservation k new (fl_reservations s) = (r, t)"
    "s' = s\<lparr>fl_reservations := t\<rparr>" using f by (auto simp: on_reservations_def split: prod.splits)
  let ?c = "(put_DNSReservation new c)\<lparr>ob_rv := Suc (ob_rv c)\<rparr>"
  have c': "ob_finalizers ?c = ob_finalizers c" "ob_uid ?c = ob_uid c" "ob_deleting ?c = ob_deleting c"
    "dr_BaseDomain ?c = dr_BaseDomain new" by (simp_all add: put_DNSReservation_def)
  have fin: "ob_finalizers c \<noteq> []" using c(5) by (auto simp: ContainsFinalizer_def)
  have "t = fl_reservations s \<or> t = AList.update k ?c (fl_reservations s)"
    using t(1)
  proof (cases rule: store_status_update_cases)
    case (2 cur)
    then have "cur = c" using c(3) by (simp add: res_def)
    from 2(3) [unfolded this] show ?thesis
      by (cases rule: store_put_cases) (use fin in \<open>auto simp: put_DNSReservation_def\<close>)
  qed simp
  then show ?thesis
  proof
    assume "t = fl_reservations s" then show ?thesis using t(2) h by simp
  next
    assume "t = AList.update k ?c (fl_reservations s)"
    then have s': "s' = s\<lparr>fl_reservations := AList.update k ?c (fl_reservations s)\<rparr>" using t(2) by simp
    have "good_reservation ?c" using dns_invD(4) [OF c(1,3)] c' by (simp add: good_reservation_def)
    moreover have "backed cfg ?c s" using bd c(2,4) c' by (auto simp: backed_def)
    ultimately have "dns_guar cfg k s s' \<and> dns_inv cfg s' \<and> res s' k = Some ?c \<and> owned u s' = owned u s"
      using change_reservation [OF c(1,3) _ c'(2) _ _ s'] c(5) c'(1) by (simp add: ContainsFinalizer_def)
    then show ?thesis using c c' by (simp add: holds_def ContainsFinalizer_def)
  qed
qed

text \<open>An update that adds or removes the finalizer.\<close>

lemma finalizer_write:
  assumes inv: "dns_inv cfg s"
    and new: "ob_finalizers new = [dnsReservationFinalizer] \<or>
      ob_finalizers new = [] \<and> (\<forall>c. res s k = Some c \<longrightarrow> ob_uid c = ob_uid new \<longrightarrow>
        ContainsFinalizer c dnsReservationFinalizer \<longrightarrow> owned (ob_uid c) s = {})"
    and f: "on_reservations (store_update keep_DNSReservation k new) s = (r, s')"
  shows "dns_guar cfg k s s' \<and> dns_inv cfg s' \<and>
    (s' = s \<or> res s' k = None \<or> (\<exists>c. res s' k = Some c \<and> ob_finalizers c = ob_finalizers new))"
proof -
  obtain t where t: "store_update keep_DNSReservation k new (fl_reservations s) = (r, t)"
    "s' = s\<lparr>fl_reservations := t\<rparr>" using f by (auto simp: on_reservations_def split: prod.splits)
  from t(1) show ?thesis
  proof (cases rule: store_update_cases)
    case 1 then show ?thesis using t(2) inv by simp
  next
    case (2 c)
    let ?n = "(keep_DNSReservation new c)\<lparr>ob_uid := ob_uid c, ob_rv := ob_rv c, ob_deleting := ob_deleting c\<rparr>"
    let ?n' = "?n\<lparr>ob_rv := Suc (ob_rv c)\<rparr>"
    have n: "ob_finalizers ?n' = ob_finalizers new" "ob_uid ?n' = ob_uid c" "ob_deleting ?n' = ob_deleting c"
      "dr_BaseDomain ?n' = dr_BaseDomain c" by (simp_all add: keep_DNSReservation_def put_DNSReservation_def)
    have c: "res s k = Some c" using 2(1) by (simp add: res_def)
    have u: "ob_uid c = ob_uid new" using 2(2) by (simp add: same_version_def)
    consider "t = fl_reservations s" | "t = AList.delete k (fl_reservations s)" "ob_finalizers new = []"
      | "t = AList.update k ?n' (fl_reservations s)" "ob_deleting c \<longrightarrow> ob_finalizers new \<noteq> []"
      using 2(3) n by (auto simp: store_put_def Let_def split: if_splits)
    then show ?thesis
    proof cases
      case 1 then show ?thesis using t(2) inv by simp
    next
      case 2
      then have "s' = s\<lparr>fl_reservations := AList.delete k (fl_reservations s)\<rparr>" using t(2) by simp
      from remove_reservation [OF inv this] this show ?thesis using new u c 2(2) by (simp add: res_delete)
    next
      case 3
      then have s': "s' = s\<lparr>fl_reservations := AList.update k ?n' (fl_reservations s)\<rparr>" using t(2) by simp
      have "good_reservation ?n'"
        using dns_invD(4) [OF inv c] new 3(2) n unfolding good_reservation_def n by blast
      moreover have "backed cfg ?n' s" using dns_invD(7) [OF inv c] unfolding backed_def n .
      moreover have "ContainsFinalizer c dnsReservationFinalizer \<Longrightarrow>
          owned (ob_uid c) s = {} \<or> ContainsFinalizer ?n' dnsReservationFinalizer"
        using new c u n(1) by (auto simp: ContainsFinalizer_def)
      ultimately have "dns_guar cfg k s s' \<and> dns_inv cfg s' \<and> res s' k = Some ?n'"
        using change_reservation [OF inv c _ n(2) _ _ s'] by blast
      then show ?thesis using n(1) by blast
    qed
  qed
qed

section \<open>Contracts of the parts\<close>

abbreviation dcon ::
  "dns_config \<Rightarrow> nsname \<Rightarrow> (fleet \<Rightarrow> bool) \<Rightarrow> (fleet, 'a) prog \<Rightarrow> (api_error + 'a \<Rightarrow> fleet \<Rightarrow> bool) \<Rightarrow> bool" where
  "dcon cfg k \<equiv> contract (dns_rely cfg k) (dns_guar cfg k)"

definition known :: "dns_config \<Rightarrow> nsname \<Rightarrow> string \<Rightarrow> bool \<Rightarrow> fleet \<Rightarrow> bool" where
  "known cfg k u dying s \<longleftrightarrow> (\<exists>own. holds cfg k u dying own s)"

lemma knownI: "holds cfg k u dying own s \<Longrightarrow> known cfg k u dying s"
  by (auto simp: known_def)

lemma known_stable: "stable (dns_rely cfg k) (known cfg k u dying)"
  using holds_stable unfolding stable_def known_def by metis

lemma dcon_reading:
  assumes "stable (dns_rely cfg k) P" "\<And>s. P s \<Longrightarrow> Q (g s) s" "\<And>s m. P s \<Longrightarrow> Q (Inl (lost_error m)) s"
  shows "dcon cfg k P (reading g) Q"
  unfolding reading_def by (rule contract_read) (use assms in auto)

lemma distinct_set_single: "distinct l \<Longrightarrow> set l = {x} \<Longrightarrow> l = [x]"
proof -
  assume d: "distinct l" "set l = {x}"
  then have "length l = 1" using distinct_card [OF d(1)] by simp
  then obtain y where "l = [y]" by (auto simp: length_Suc_conv)
  then show ?thesis using d(2) by simp
qed

lemma holds_listed:
  assumes "holds cfg k u dying own s"
  shows "store_list (\<lambda>a x. label ownerUIDLabel x = u) (fl_indexes s) = (case own of None \<Rightarrow> [] | Some kx \<Rightarrow> [kx])"
proof -
  have h: "dns_inv cfg s" "owned u s = set_option own" using assms by (simp_all add: holds_def)
  let ?l = "store_list (\<lambda>a x. label ownerUIDLabel x = u) (fl_indexes s)"
  have "set ?l = owned u s"
    using dns_invD(1) [OF h(1)] by (auto simp: store_list_iff ownedD idx_def)
  moreover have "distinct ?l"
    using dns_invD(1) [OF h(1)] by (simp add: store_list_def distinct_map)
  ultimately show ?thesis using h(2) distinct_set_single [of ?l] by (cases own) auto
qed

lemma holds_label: "holds cfg k u dying (Some kx) s \<Longrightarrow> label ownerUIDLabel (snd kx) = u"
proof -
  assume "holds cfg k u dying (Some kx) s"
  then have "kx \<in> owned u s" by (simp add: holds_def)
  then show ?thesis by (cases kx) (simp add: ownedD)
qed

lemma listOwnedIndexes_contract:
  "dcon cfg k (holds cfg k u dying own) (listOwnedIndexes u)
     (\<lambda>r s. holds cfg k u dying own s \<and> (\<forall>l. r = Inr l \<longrightarrow> l = (case own of None \<Rightarrow> [] | Some kx \<Rightarrow> [kx])))"
  unfolding listOwnedIndexes_def
  by (rule dcon_reading [OF holds_stable]) (simp_all add: holds_listed)

lemma ignoring_NotFound_contract:
  assumes "dcon cfg k P m (\<lambda>r s. if r = Inl NotFound then Q (Inr ()) s else Q r s)"
  shows "dcon cfg k P (ignoring_NotFound m) Q"
  unfolding ignoring_NotFound_def
proof (rule contract_attempt [OF assms])
  fix r :: "api_error + unit"
  show "dcon cfg k (\<lambda>s. if r = Inl NotFound then Q (Inr ()) s else Q r s)
      (case r of Inl e \<Rightarrow> if e = NotFound then ret () else fail e | Inr _ \<Rightarrow> ret ()) Q"
    by (cases r) auto
qed

lemma delete_index_contract:
  assumes "dying \<or> fst (fst kx) \<noteq> dnsShardNamespace defaultDNSShard"
  shows "dcon cfg k (holds cfg k u dying (Some kx)) (delete_index kx)
           (\<lambda>r s. if r = Inr () then holds cfg k u dying None s else known cfg k u dying s)"
  unfolding delete_index_def
proof (rule ignoring_NotFound_contract, rule contract_call [OF holds_stable])
  fix s r s'
  assume h: "holds cfg k u dying (Some kx) s" and f: "on_indexes (store_delete (fst kx) (snd kx)) s = (r, s')"
  have d: "dns_guar cfg k s s' \<and> (if r = Inr () then holds cfg k u dying None s' else s' = s)"
    using delete_owned [of cfg k u dying "fst kx" "snd kx", OF _ assms f] h by simp
  moreover have "r \<noteq> Inl NotFound"
    using f by (auto simp: on_indexes_def store_delete_def split: option.splits if_splits)
  ultimately show "dns_guar cfg k s s' \<and>
      (if r = Inl NotFound then if Inr () = Inr () then holds cfg k u dying None s' else known cfg k u dying s'
       else if r = Inr () then holds cfg k u dying None s' else known cfg k u dying s') \<and>
      (\<forall>m. if Inl (lost_error m) = Inl NotFound then
             if Inr () = Inr () then holds cfg k u dying None s' else known cfg k u dying s'
           else if Inl (lost_error m) = Inr () then holds cfg k u dying None s' else known cfg k u dying s')"
    using h by (auto intro: knownI)
qed (auto intro: knownI)

lemma recoverOwnedIndex_contract:
  "dcon cfg k (holds cfg k u dying own) (recoverOwnedIndex u)
     (\<lambda>r s. case r of
        Inl _ \<Rightarrow> known cfg k u dying s
      | Inr o' \<Rightarrow> holds cfg k u dying o' s \<and>
          (\<forall>kx. o' = Some kx \<longrightarrow> fst (fst kx) = dnsShardNamespace defaultDNSShard))"
  unfolding recoverOwnedIndex_def
proof (rule contract_andThen [OF listOwnedIndexes_contract])
  fix l
  let ?Q = "\<lambda>r s. case r of
        Inl _ \<Rightarrow> known cfg k u dying s
      | Inr o' \<Rightarrow> holds cfg k u dying o' s \<and>
          (\<forall>kx. o' = Some kx \<longrightarrow> fst (fst kx) = dnsShardNamespace defaultDNSShard)"
  have "dcon cfg k (holds cfg k u dying own) (recover_loop u (case own of None \<Rightarrow> [] | Some kx \<Rightarrow> [kx]) []) ?Q"
  proof (cases own)
    case None
    then show ?thesis by (auto simp: first_by_name_def)
  next
    case (Some kx)
    show ?thesis
    proof (cases "label ownerUIDLabel (snd kx) = u")
      case False
      then show ?thesis using Some
        by (intro contract_false) (auto dest: holds_label)
    next
      case True
      show ?thesis
      proof (cases "fst (fst kx) = dnsShardNamespace defaultDNSShard")
        case True
        then show ?thesis using Some \<open>label ownerUIDLabel (snd kx) = u\<close> by (auto simp: first_by_name_def)
      next
        case False
        have "dcon cfg k (holds cfg k u dying (Some kx)) (andThen (delete_index kx) (\<lambda>_. ret None)) ?Q"
          by (rule contract_andThen [OF delete_index_contract]) (use False in auto)
        then show ?thesis using Some True False by (simp add: first_by_name_def)
      qed
    qed
  qed
  then show "dcon cfg k (\<lambda>s. holds cfg k u dying own s \<and> (\<forall>l'. Inr l = Inr l' \<longrightarrow> l' = (case own of None \<Rightarrow> [] | Some kx \<Rightarrow> [kx])))
      (recover_loop u l []) ?Q"
    by (cases "l = (case own of None \<Rightarrow> [] | Some kx \<Rightarrow> [kx])") (simp_all add: contract_false)
qed (auto intro: knownI)

lemma api_result_cases:
  obtains "r = Inl NotFound" | "r = Inl AlreadyExists" | "r = Inl Conflict" | m where "r = Inl (OtherError m)"
  | x where "r = Inr x"
  by (metis api_error.exhaust sum.exhaust_sel)

text \<open>A prefix is found, or every attempt collided.\<close>

definition found :: "dns_config \<Rightarrow> nsname \<Rightarrow> string \<Rightarrow> api_error + (nsname \<times> Index) option \<Rightarrow> fleet \<Rightarrow> bool" where
  "found cfg k u r s \<longleftrightarrow>
     (case r of
        Inl _ \<Rightarrow> known cfg k u False s
      | Inr own \<Rightarrow> holds cfg k u False own s \<and>
          (\<forall>kx. own = Some kx \<longrightarrow> fst (fst kx) = dnsShardNamespace defaultDNSShard))"

lemma found_simps [simp]:
  "found cfg k u (Inl e) s \<longleftrightarrow> known cfg k u False s"
  "found cfg k u (Inr own) s \<longleftrightarrow>
     holds cfg k u False own s \<and> (\<forall>kx. own = Some kx \<longrightarrow> fst (fst kx) = dnsShardNamespace defaultDNSShard)"
  by (simp_all add: found_def)

lemma recoverOwnedIndex_found:
  "dcon cfg k (holds cfg k u False own) (recoverOwnedIndex u) (found cfg k u)"
  using recoverOwnedIndex_contract unfolding found_def .

lemma allocated_contract: "dcon cfg k (holds cfg k u False own) (allocated u) (found cfg k u)"
  unfolding allocated_def
  by (rule contract_andThen [OF recoverOwnedIndex_found], rule contract_if)
     (auto intro: knownI)

lemma allocate_loop_contract: "dcon cfg k (holds cfg k u False None) (allocate_loop cfg acc u i n) (found cfg k u)"
proof (induction n arbitrary: i)
  case 0
  show ?case by auto
next
  case (Suc n)
  show ?case
  proof (cases "dz_prefix cfg i")
    case (Inl e)
    then show ?thesis by (auto intro: knownI)
  next
    case (Inr p)
    let ?k = "(dnsShardNamespace defaultDNSShard, p)"
    let ?create = "api_call (on_indexes (store_create (dz_uid cfg i) ?k (new_index acc u)))"
    let ?P = "\<lambda>r s. case r of Inl AlreadyExists \<Rightarrow> holds cfg k u False None s | _ \<Rightarrow> known cfg k u False s"
    have create: "dcon cfg k (holds cfg k u False None) ?create ?P"
    proof (rule contract_call [OF holds_stable])
      fix s r s'
      assume h: "holds cfg k u False None s"
        and f: "on_indexes (store_create (dz_uid cfg i) ?k (new_index acc u)) s = (r, s')"
      from create_owned [OF h f] h show "dns_guar cfg k s s' \<and> ?P r s' \<and> (\<forall>m. ?P (Inl (lost_error m)) s')"
        by (auto split: if_splits api_error.splits intro: knownI)
    qed (auto split: api_error.splits intro: knownI)
    let ?get = "reading (\<lambda>s. store_get ?k (fl_indexes s))"
    have get: "dcon cfg k (holds cfg k u False None) ?get
        (\<lambda>r s. holds cfg k u False None s \<and> (\<forall>x. r = Inr x \<longrightarrow> label ownerUIDLabel x \<noteq> u))"
    proof (rule dcon_reading [OF holds_stable])
      fix s assume h: "holds cfg k u False None s"
      then have "owned u s = {}" by (simp add: holds_def)
      then have "map_of (fl_indexes s) ?k = Some x \<Longrightarrow> label ownerUIDLabel x \<noteq> u" for x
        using ownedD [of ?k x u s] by (auto simp: idx_def)
      then show "holds cfg k u False None s \<and> (\<forall>x. store_get ?k (fl_indexes s) = Inr x \<longrightarrow> label ownerUIDLabel x \<noteq> u)"
        using h by (auto simp: store_get_def)
    qed simp
    have collide: "dcon cfg k (holds cfg k u False None)
        (andThen ?get (\<lambda>existing. if label ownerUIDLabel existing \<noteq> u then allocate_loop cfg acc u (Suc i) n
                                  else allocated u)) (found cfg k u)"
    proof (rule contract_andThen [OF get])
      fix x
      show "dcon cfg k (\<lambda>s. holds cfg k u False None s \<and> (\<forall>x'. Inr x = Inr x' \<longrightarrow> label ownerUIDLabel x' \<noteq> u))
          (if label ownerUIDLabel x \<noteq> u then allocate_loop cfg acc u (Suc i) n else allocated u) (found cfg k u)"
        using Suc.IH [of "Suc i"] by (cases "label ownerUIDLabel x = u") (simp_all add: contract_false)
    qed (auto intro: knownI)
    show ?thesis unfolding allocate_loop.simps Inr sum.case Let_def
    proof (rule contract_attempt [OF create])
      fix r :: "api_error + Index"
      have "dcon cfg k (known cfg k u False) (allocated u) (found cfg k u)"
        unfolding known_def by (rule contract_ex) (rule allocated_contract)
      moreover have "dcon cfg k (known cfg k u False) (fail e) (found cfg k u)" for e
        by auto
      ultimately show "dcon cfg k (?P r)
          (case r of Inl e \<Rightarrow> if e \<noteq> AlreadyExists then fail e
             else andThen ?get (\<lambda>existing. if label ownerUIDLabel existing \<noteq> u
                    then allocate_loop cfg acc u (Suc i) n else allocated u)
           | Inr _ \<Rightarrow> allocated u) (found cfg k u)"
        using collide by (cases r rule: api_result_cases) simp_all
    qed
  qed
qed

lemma allocateIndex_contract:
  "dcon cfg k (holds cfg k (ob_uid reservation) False None) (allocateIndex cfg reservation)
     (found cfg k (ob_uid reservation))"
  unfolding allocateIndex_def Let_def
  by (rule contract_if) (auto intro: knownI allocate_loop_contract)

lemma deleteDuplicateOwnedIndexes_contract:
  "dcon cfg k (holds cfg k u False (Some kx)) (deleteDuplicateOwnedIndexes u (fst kx))
     (\<lambda>r s. holds cfg k u False (Some kx) s)"
  unfolding deleteDuplicateOwnedIndexes_def
proof (rule contract_andThen [OF listOwnedIndexes_contract])
  fix l
  let ?del = "\<lambda>kx'. if label ownerUIDLabel (snd kx') \<noteq> u \<or> fst kx' = fst kx then ret () else delete_index kx'"
  have "dcon cfg k (holds cfg k u False (Some kx)) (forEach [kx] ?del) (\<lambda>r s. holds cfg k u False (Some kx) s)"
    by (rule contract_forEach) auto
  then show "dcon cfg k (\<lambda>s. holds cfg k u False (Some kx) s \<and>
        (\<forall>l'. Inr l = Inr l' \<longrightarrow> l' = (case Some kx of None \<Rightarrow> [] | Some kx \<Rightarrow> [kx])))
      (forEach l ?del) (\<lambda>r s. holds cfg k u False (Some kx) s)"
    by (cases "l = [kx]") (simp_all add: contract_false)
qed simp

lemma resolve_contract:
  assumes "stable (dns_rely cfg k) P"
  shows "dcon cfg k P (resolveInternalHostedClusterName k' r) (\<lambda>_. P)"
proof -
  have "dcon cfg k P (reading (\<lambda>s. Inr (g s))) (\<lambda>_. P)" for g :: "fleet \<Rightarrow> 'x"
    by (rule dcon_reading [OF assms]) auto
  then show ?thesis
    unfolding resolveInternalHostedClusterName_def Let_def
    by (intro contract_if contract_andThen [where Q' = "\<lambda>_. P"])
       (auto intro!: contract_if split: option.splits)
qed

text \<open>A status update keeps what the reconciler knows, if the domain it writes is empty or that of the owned index.\<close>

lemma status_call_contract:
  assumes "dr_BaseDomain new = [] \<or>
      (\<exists>p x. own = Some ((dnsShardNamespace defaultDNSShard, p), x) \<and> dr_BaseDomain new = base_domain cfg p)"
  shows "dcon cfg k (holds cfg k u False own)
           (api_call (on_reservations (store_status_update put_DNSReservation k new))) (\<lambda>_. holds cfg k u False own)"
proof (rule contract_call [OF holds_stable])
  fix s r s'
  assume "holds cfg k u False own s" "on_reservations (store_status_update put_DNSReservation k new) s = (r, s')"
  from status_write [OF this(1) assms this(2)]
  show "dns_guar cfg k s s' \<and> holds cfg k u False own s' \<and> (\<forall>m::lost. holds cfg k u False own s')" by blast
qed simp

lemma updateReservationStatus_contract:
  assumes bd: "bd = [] \<or> (\<exists>p x. own = Some ((dnsShardNamespace defaultDNSShard, p), x) \<and> bd = base_domain cfg p)"
  shows "dcon cfg k (holds cfg k u False own) (updateReservationStatus k reservation phase bd message)
           (\<lambda>_. holds cfg k u False own)"
proof -
  let ?H = "holds cfg k u False own"
  have get: "dcon cfg k ?H (reading (\<lambda>s. store_get k (fl_reservations s))) (\<lambda>_. ?H)"
    by (rule dcon_reading [OF holds_stable])
  have wr: "dcon cfg k ?H (andThen (api_call (on_reservations (store_status_update put_DNSReservation k
      (reservation_status phase bd message name latest)))) (\<lambda>_. ret ())) (\<lambda>_. ?H)" for name latest
    by (rule contract_andThen [OF status_call_contract]) (use bd in \<open>auto simp: reservation_status_def\<close>)
  have "dcon cfg k ?H (update_status_once k reservation phase bd message) (\<lambda>_. ?H)"
    unfolding update_status_once_def
  proof (rule contract_attempt [OF get], split sum.split, intro conjI allI impI)
    fix latest
    show "dcon cfg k ?H (if ob_uid latest \<noteq> ob_uid reservation \<or> ob_deleting latest then ret ()
           else andThen (resolveInternalHostedClusterName k latest) (\<lambda>name.
             let new = reservation_status phase bd message name latest in
             if new = latest then ret ()
             else andThen (api_call (on_reservations (store_status_update put_DNSReservation k new)))
                    (\<lambda>_. ret ()))) (\<lambda>_. ?H)"
      by (rule contract_if, force, rule contract_andThen [OF resolve_contract [OF holds_stable]])
         (auto simp: Let_def intro!: contract_conseq [OF wr])
  qed auto
  then show ?thesis unfolding updateReservationStatus_def
    by (intro contract_RetryOnConflict) (auto elim: contract_conseq)
qed

lemma dns_assign_contract:
  assumes "fst (fst kx) = dnsShardNamespace defaultDNSShard"
  shows "dcon cfg k (holds cfg k (ob_uid r) False (Some kx)) (dns_assign cfg k r kx) (\<lambda>_. dns_inv cfg)"
    (is "dcon cfg k ?H _ _")
proof -
  have st: "dcon cfg k ?H (updateReservationStatus k r ''Ready'' (base_domain cfg (snd (fst kx))) []) (\<lambda>_. ?H)"
    by (rule updateReservationStatus_contract) (use assms in \<open>cases kx; cases "fst kx"; auto\<close>)
  have inv: "?H s \<Longrightarrow> dns_inv cfg s" for s by (simp add: holds_def)
  show ?thesis unfolding dns_assign_def
    by (rule contract_andThen [OF deleteDuplicateOwnedIndexes_contract], rule contract_andThen [OF st])
       (auto intro: inv)
qed

lemma add_finalizer_contract:
  assumes "good_reservation r" "\<not> ContainsFinalizer r dnsReservationFinalizer"
  shows "dcon cfg k (dns_inv cfg) (api_call (on_reservations (store_update keep_DNSReservation k
           (AddFinalizer dnsReservationFinalizer r)))) (\<lambda>_. dns_inv cfg)"
proof (rule contract_call [OF inv_stable])
  fix s res s'
  assume "dns_inv cfg s" "on_reservations (store_update keep_DNSReservation k (AddFinalizer dnsReservationFinalizer r)) s = (res, s')"
  from finalizer_write [OF this(1) _ this(2)] assms
  show "dns_guar cfg k s s' \<and> dns_inv cfg s' \<and> (\<forall>m::lost. dns_inv cfg s')"
    by (auto simp: AddFinalizer_def good_reservation_def ContainsFinalizer_def)
qed simp

lemma known_inv: "known cfg k u dying s \<Longrightarrow> dns_inv cfg s"
  by (auto simp: known_def holds_def)

lemma dns_reconcile_live_contract:
  assumes "good_reservation r"
  shows "dcon cfg k (\<lambda>s. dns_inv cfg s \<and> (ContainsFinalizer r dnsReservationFinalizer \<longrightarrow> known cfg k (ob_uid r) False s))
           (dns_reconcile_live cfg k r) (\<lambda>_. dns_inv cfg)"
proof (cases "ContainsFinalizer r dnsReservationFinalizer")
  case False
  show ?thesis unfolding dns_reconcile_live_def
    by (simp add: False, rule contract_attempt [OF add_finalizer_contract [OF assms False]])
       (auto split: sum.splits)
next
  case True
  let ?u = "ob_uid r"
  have pending: "dcon cfg k (holds cfg k ?u False None)
      (andThen (updateReservationStatus k r ''Pending'' [] m) (\<lambda>_. ret (RequeueAfter 30))) (\<lambda>_. dns_inv cfg)" for m
    by (rule contract_andThen [OF updateReservationStatus_contract]) (auto simp: holds_def)
  have assign: "dcon cfg k (found cfg k ?u (Inr (Some kx))) (dns_assign cfg k r kx) (\<lambda>_. dns_inv cfg)" for kx
    by (cases "fst (fst kx) = dnsShardNamespace defaultDNSShard")
       (auto intro: contract_conseq [OF dns_assign_contract] contract_false)
  have alloc0: "dcon cfg k (found cfg k ?u (Inr None)) (allocateIndex cfg r) (found cfg k ?u)"
    by (rule contract_conseq [OF allocateIndex_contract]) auto
  have alloc: "dcon cfg k (found cfg k ?u (Inr None))
      (andThen (allocateIndex cfg r) (\<lambda>alloc. case alloc of
         Some index \<Rightarrow> dns_assign cfg k r index
       | None \<Rightarrow> andThen (updateReservationStatus k r ''Pending'' [] m) (\<lambda>_. ret (RequeueAfter 30))))
      (\<lambda>_. dns_inv cfg)" for m
  proof (rule contract_andThen [OF alloc0])
    fix alloc
    show "dcon cfg k (found cfg k ?u (Inr alloc)) (case alloc of
         Some index \<Rightarrow> dns_assign cfg k r index
       | None \<Rightarrow> andThen (updateReservationStatus k r ''Pending'' [] m) (\<lambda>_. ret (RequeueAfter 30))) (\<lambda>_. dns_inv cfg)"
      using assign by (cases alloc) (auto intro: contract_conseq [OF pending])
  qed (auto intro: known_inv)
  have "dcon cfg k (known cfg k ?u False)
      (andThen (recoverOwnedIndex ?u) (\<lambda>found.
        case found of
          Some index \<Rightarrow> dns_assign cfg k r index
        | None \<Rightarrow>
            andThen (allocateIndex cfg r) (\<lambda>alloc. case alloc of
                Some index \<Rightarrow> dns_assign cfg k r index
              | None \<Rightarrow> andThen (updateReservationStatus k r ''Pending'' [] m) (\<lambda>_. ret (RequeueAfter 30)))))
      (\<lambda>_. dns_inv cfg)" for m
    unfolding known_def
    by (rule contract_ex, rule contract_andThen [OF recoverOwnedIndex_found], split option.split)
       (use assign alloc in \<open>auto intro: known_inv simp del: found_simps(2)\<close>)
  note main = this
  show ?thesis unfolding dns_reconcile_live_def
    using True by (intro contract_if contract_conseq [OF main]) auto
qed

text \<open>Once the owned indexes are gone, no index is left as long as the finalizer stays.\<close>

definition unowned :: "dns_config \<Rightarrow> nsname \<Rightarrow> string \<Rightarrow> fleet \<Rightarrow> bool" where
  "unowned cfg k u s \<longleftrightarrow>
     dns_inv cfg s \<and>
     (\<forall>c. res s k = Some c \<longrightarrow> ob_uid c = u \<longrightarrow> ContainsFinalizer c dnsReservationFinalizer \<longrightarrow> owned u s = {})"

lemma unowned_inv: "unowned cfg k u s \<Longrightarrow> dns_inv cfg s"
  by (simp add: unowned_def)

lemma unowned_stable: "stable (dns_rely cfg k) (unowned cfg k u)"
  unfolding stable_def unowned_def dns_rely_def by metis

lemma finalizer_removal:
  assumes "unowned cfg k u s" "good_reservation c" "ob_uid c = u"
    and f: "on_reservations (store_update keep_DNSReservation k (RemoveFinalizer dnsReservationFinalizer c)) s = (q, s')"
  shows "dns_guar cfg k s s' \<and> unowned cfg k u s'"
proof -
  let ?new = "RemoveFinalizer dnsReservationFinalizer c"
  have n: "ob_finalizers ?new = []" "ob_uid ?new = u"
    using assms(2,3) by (auto simp: RemoveFinalizer_def good_reservation_def)
  have "dns_guar cfg k s s' \<and> dns_inv cfg s' \<and>
      (s' = s \<or> res s' k = None \<or> (\<exists>c. res s' k = Some c \<and> ob_finalizers c = ob_finalizers ?new))"
    by (rule finalizer_write [OF unowned_inv [OF assms(1)] _ f]) (use assms(1) n in \<open>auto simp: unowned_def\<close>)
  then show ?thesis using assms(1) n(1) by (auto simp: unowned_def ContainsFinalizer_def)
qed

lemma remove_dns_finalizer_contract:
  "dcon cfg k (unowned cfg k (ob_uid r)) (RetryOnConflict (remove_dns_finalizer k r)) (\<lambda>_. dns_inv cfg)"
proof (rule contract_RetryOnConflict)
  let ?P = "unowned cfg k (ob_uid r)"
  have get: "dcon cfg k ?P (reading (\<lambda>s. store_get k (fl_reservations s)))
      (\<lambda>got s. ?P s \<and> (\<forall>c. got = Inr c \<longrightarrow> good_reservation c))"
    by (rule dcon_reading [OF unowned_stable])
       (auto simp: store_get_def res_def [symmetric] dest: dns_invD(4) unowned_inv)
  have wr: "dcon cfg k ?P
      (api_call (on_reservations (store_update keep_DNSReservation k (RemoveFinalizer dnsReservationFinalizer c))))
      (\<lambda>_. ?P)" if "good_reservation c" "ob_uid c = ob_uid r" for c
    by (rule contract_call [OF unowned_stable]) (use finalizer_removal [OF _ that] in auto)
  have "dcon cfg k ?P (remove_dns_finalizer k r) (\<lambda>_. ?P)"
    unfolding remove_dns_finalizer_def
  proof (rule contract_attempt [OF get], split sum.split, intro conjI allI impI)
    fix got :: "api_error + DNSReservation" and c assume got: "got = Inr c"
    show "dcon cfg k (\<lambda>s. ?P s \<and> (\<forall>c. got = Inr c \<longrightarrow> good_reservation c))
        (if ob_uid c \<noteq> ob_uid r \<or> \<not> ContainsFinalizer c dnsReservationFinalizer then ret ()
         else andThen (api_call (on_reservations (store_update keep_DNSReservation k
                (RemoveFinalizer dnsReservationFinalizer c)))) (\<lambda>_. ret ())) (\<lambda>_. ?P)"
    proof (cases "good_reservation c \<and> ob_uid c = ob_uid r")
      case False then show ?thesis using got by (cases "good_reservation c") (auto intro: contract_false)
    next
      case True
      have "dcon cfg k ?P (andThen (api_call (on_reservations (store_update keep_DNSReservation k
                (RemoveFinalizer dnsReservationFinalizer c)))) (\<lambda>_. ret ())) (\<lambda>_. ?P)"
        by (rule contract_andThen [OF wr]) (use True in auto)
      note main = this
      show ?thesis by (intro contract_if contract_conseq [OF main]) auto
    qed
  qed auto
  then show "dcon cfg k ?P (remove_dns_finalizer k r)
      (\<lambda>q s. if q = Inl Conflict then ?P s \<and> dns_inv cfg s else dns_inv cfg s)"
    by (rule contract_conseq) (auto intro: unowned_inv)
qed

lemma dns_reconcileDelete_contract:
  "dcon cfg k (known cfg k (ob_uid r) True) (dns_reconcileDelete k r) (\<lambda>_. dns_inv cfg)"
proof -
  let ?u = "ob_uid r"
  let ?del = "\<lambda>kx. if label ownerUIDLabel (snd kx) \<noteq> ?u then ret () else delete_index kx"
  have tail: "dcon cfg k (holds cfg k ?u True own)
      (andThen (listOwnedIndexes ?u) (\<lambda>remaining. if remaining \<noteq> [] then ret (RequeueAfter 30)
         else andThen (RetryOnConflict (remove_dns_finalizer k r)) (\<lambda>_. ret Finished))) (\<lambda>_. dns_inv cfg)" for own
  proof (rule contract_andThen [OF listOwnedIndexes_contract])
    fix l
    have rm: "dcon cfg k (unowned cfg k ?u) (andThen (RetryOnConflict (remove_dns_finalizer k r)) (\<lambda>_. ret Finished))
        (\<lambda>_. dns_inv cfg)" by (rule contract_andThen [OF remove_dns_finalizer_contract]) auto
    show "dcon cfg k (\<lambda>s. holds cfg k ?u True own s \<and> (\<forall>l'. Inr l = Inr l' \<longrightarrow> l' = (case own of None \<Rightarrow> [] | Some kx \<Rightarrow> [kx])))
        (if l \<noteq> [] then ret (RequeueAfter 30) else andThen (RetryOnConflict (remove_dns_finalizer k r)) (\<lambda>_. ret Finished))
        (\<lambda>_. dns_inv cfg)"
      by (rule contract_if, force simp: holds_def, rule contract_conseq [OF rm])
         (cases own, auto simp: holds_def unowned_def)
  qed (auto simp: holds_def)
  have del: "dcon cfg k (holds cfg k ?u True own) (forEach (case own of None \<Rightarrow> [] | Some kx \<Rightarrow> [kx]) ?del)
      (\<lambda>q s. known cfg k ?u True s)" for own
  proof (cases own)
    case None then show ?thesis by (auto intro: knownI)
  next
    case (Some kx)
    have "dcon cfg k (holds cfg k ?u True (Some kx)) (andThen (?del kx) (\<lambda>_. ret ())) (\<lambda>q s. known cfg k ?u True s)"
      by (rule contract_andThen [where Q' = "\<lambda>_. known cfg k ?u True"], rule contract_if)
         (auto intro: knownI intro!: contract_conseq [OF delete_index_contract] split: if_splits)
    then show ?thesis using Some by simp
  qed
  have "dcon cfg k (holds cfg k ?u True own) (dns_reconcileDelete k r) (\<lambda>_. dns_inv cfg)" for own
    unfolding dns_reconcileDelete_def
  proof (rule contract_andThen [OF listOwnedIndexes_contract])
    fix l
    let ?rest = "\<lambda>l. andThen (forEach l ?del) (\<lambda>_. andThen (listOwnedIndexes ?u) (\<lambda>remaining.
        if remaining \<noteq> [] then ret (RequeueAfter 30)
        else andThen (RetryOnConflict (remove_dns_finalizer k r)) (\<lambda>_. ret Finished)))"
    have "dcon cfg k (holds cfg k ?u True own) (?rest (case own of None \<Rightarrow> [] | Some kx \<Rightarrow> [kx])) (\<lambda>_. dns_inv cfg)"
      by (rule contract_andThen [OF del]) (auto simp: known_def [abs_def] intro!: contract_ex tail, simp add: holds_def)
    then show "dcon cfg k (\<lambda>s. holds cfg k ?u True own s \<and> (\<forall>l'. Inr l = Inr l' \<longrightarrow> l' = (case own of None \<Rightarrow> [] | Some kx \<Rightarrow> [kx])))
        (?rest l) (\<lambda>_. dns_inv cfg)"
      by (cases "l = (case own of None \<Rightarrow> [] | Some kx \<Rightarrow> [kx])") (simp_all add: contract_false)
  qed (auto simp: holds_def)
  then show ?thesis unfolding known_def by (rule contract_ex)
qed

lemma dns_Reconcile_contract: "dcon cfg k (dns_inv cfg) (dns_Reconcile cfg k) (\<lambda>_. dns_inv cfg)"
  unfolding dns_Reconcile_def
proof (rule contract_attempt)
  show "dcon cfg k (dns_inv cfg) (reading (\<lambda>s. store_get k (fl_reservations s)))
      (\<lambda>got s. dns_inv cfg s \<and> (\<forall>r. got = Inr r \<longrightarrow> res s k = Some r))"
    by (rule dcon_reading [OF inv_stable]) (auto simp: store_get_def res_def)
  fix got :: "api_error + DNSReservation"
  show "dcon cfg k (\<lambda>s. dns_inv cfg s \<and> (\<forall>r. got = Inr r \<longrightarrow> res s k = Some r))
      (case got of Inl e \<Rightarrow> if e = NotFound then ret Finished else fail e
       | Inr r \<Rightarrow> if ob_deleting r then dns_reconcileDelete k r else dns_reconcile_live cfg k r) (\<lambda>_. dns_inv cfg)"
  proof (cases got)
    case (Inl e) then show ?thesis by auto
  next
    case (Inr r)
    have del: "dcon cfg k (\<lambda>s. dns_inv cfg s \<and> res s k = Some r) (dns_reconcileDelete k r) (\<lambda>_. dns_inv cfg)"
      if "ob_deleting r"
    proof (rule contract_conseq [OF dns_reconcileDelete_contract])
      fix s assume s: "dns_inv cfg s \<and> res s k = Some r"
      then have "ContainsFinalizer r dnsReservationFinalizer"
        using dns_invD(4) [of cfg s k r] that by (auto simp: good_reservation_def ContainsFinalizer_def)
      then show "known cfg k (ob_uid r) True s" using holds_intro [of cfg s k r True] s that by (auto simp: known_def)
    qed
    have live: "dcon cfg k (\<lambda>s. dns_inv cfg s \<and> res s k = Some r) (dns_reconcile_live cfg k r) (\<lambda>_. dns_inv cfg)"
    proof (cases "good_reservation r")
      case True
      show ?thesis
        by (rule contract_conseq [OF dns_reconcile_live_contract [OF True]])
           (use holds_intro [where dying = False] in \<open>auto simp: known_def\<close>)
    next
      case False
      show ?thesis by (rule contract_false) (use False in \<open>auto dest: dns_invD(4)\<close>)
    qed
    show ?thesis using Inr del live by simp
  qed
qed

lemma dns_rely_trans: "dns_rely cfg k s s' \<Longrightarrow> dns_rely cfg k s' s'' \<Longrightarrow> dns_rely cfg k s s''"
  unfolding dns_rely_def by metis

interpretation dns: concurrent "dns_inv cfg" "dns_rely cfg" "dns_guar cfg" "dns_Reconcile cfg" for cfg
proof
  show "dns_rely cfg k s s" for k s by (simp add: dns_rely_def)
qed (use guar_gives_rely dns_rely_trans dns_Reconcile_contract in blast)+

text \<open>C16: no two reservations ever get the same base domain, and no index outlives its reservation.  However the
  calls of a reconciliation of the reservation at \<open>k\<close> fail (without effect or after it), and whatever the generator
  returns, as long as everything else that runs between its calls keeps to \<open>dns_rely k\<close>: at every moment of the
  reconciliation no two reservations that are not being deleted share a base domain, the finalizer goes away only
  when no index of the reservation is left, and each write of the reconciliation keeps to \<open>dns_rely k'\<close> for every
  other key \<open>k'\<close>, so that any number of reconciliations may run at once.\<close>

theorem base_domains_are_unique:
  assumes "dns_inv cfg (w_state w)" "relies (dns_rely cfg k) w"
    and "dns_Reconcile cfg k w = (r, w')"
  shows "dns_inv cfg (w_state w') \<and> domains_unique (w_state w') \<and>
    (\<exists>l. w_log w' = w_log w @ l \<and>
       (\<forall>(s, s') \<in> set l. (dns_inv cfg s \<longrightarrow> domains_unique s' \<and> no_leak k s s') \<and>
          (\<forall>k'. k' \<noteq> k \<longrightarrow> dns_rely cfg k' s s')))"
proof -
  note c = dns.main_keeps_inv [OF assms]
  have "dns_guar cfg k s s' \<Longrightarrow> dns_inv cfg s \<longrightarrow> domains_unique s' \<and> no_leak k s s'" for s s'
    using dns_inv_unique [of cfg s'] by (auto simp: dns_guar_def)
  then show ?thesis using c dns_inv_unique by fast
qed

section \<open>What an undisturbed reconciliation does\<close>

lemma runs_reading: "g s = r \<Longrightarrow> runs (reading g) s r s"
  unfolding reading_def by (rule runs_call) simp

lemma runs_listOwned:
  assumes "holds cfg k u False own s"
  shows "runs (listOwnedIndexes u) s (Inr (case own of None \<Rightarrow> [] | Some kx \<Rightarrow> [kx])) s"
  unfolding listOwnedIndexes_def by (rule runs_reading) (simp add: holds_listed [OF assms])

lemma runs_recover:
  assumes h: "holds cfg k u False own s"
    and shard: "\<And>kx. own = Some kx \<Longrightarrow> fst (fst kx) = dnsShardNamespace defaultDNSShard"
  shows "runs (recoverOwnedIndex u) s (Inr own) s"
  unfolding recoverOwnedIndex_def
proof (rule runs_andThen [OF runs_listOwned [OF h]])
  show "runs (recover_loop u (case own of None \<Rightarrow> [] | Some kx \<Rightarrow> [kx]) []) s (Inr own) s"
    using runs_ret [of own s] holds_label [of cfg k u False _ s] h shard
    by (cases own) (auto simp: first_by_name_def)
qed

text \<open>The attempts before \<open>n\<close> collide, attempt \<open>n\<close> does not.\<close>

definition first_free :: "dns_config \<Rightarrow> fleet \<Rightarrow> nat \<Rightarrow> string \<Rightarrow> bool" where
  "first_free cfg s n p \<longleftrightarrow>
     dz_prefix cfg n = Inr p \<and> idx s (dnsShardNamespace defaultDNSShard, p) = None \<and>
     (\<forall>i < n. \<exists>q. dz_prefix cfg i = Inr q \<and> idx s (dnsShardNamespace defaultDNSShard, q) \<noteq> None)"

lemma runs_allocate_loop:
  assumes h: "holds cfg k u False None s" and free: "first_free cfg s n p"
    and s': "on_indexes (store_create (dz_uid cfg n) (dnsShardNamespace defaultDNSShard, p) (new_index acc u)) s = (Inr x, s')"
  shows "i \<le> n \<Longrightarrow> n < i + m \<Longrightarrow>
    runs (allocate_loop cfg acc u i m) s (Inr (Some ((dnsShardNamespace defaultDNSShard, p), x))) s'"
proof (induction m arbitrary: i)
  case (Suc m)
  let ?ns = "dnsShardNamespace defaultDNSShard"
  let ?create = "\<lambda>q. api_call (on_indexes (store_create (dz_uid cfg i) (?ns, q) (new_index acc u)))"
  show ?case
  proof (cases "i = n")
    case True
    have h': "holds cfg k u False (Some ((?ns, p), x)) s'" using create_owned [OF h s'] by auto
    have "runs (allocated u) s' (Inr (Some ((?ns, p), x))) s'"
      unfolding allocated_def
      by (rule runs_andThen [OF runs_recover [OF h']]) (auto intro: runs_ret)
    moreover have "runs (?create p) s (Inr x) s'" using s' True by (intro runs_call) simp
    ultimately show ?thesis using free True
      by (auto simp: first_free_def Let_def intro: runs_attempt)
  next
    case False
    then have "i < n" using Suc.prems by simp
    then obtain q y where q: "dz_prefix cfg i = Inr q" "idx s (?ns, q) = Some y"
      using free unfolding first_free_def by blast
    have y: "label ownerUIDLabel y \<noteq> u"
      using h q(2) ownedD [of "(?ns, q)" y u s] by (auto simp: holds_def)
    have create: "runs (?create q) s (Inl AlreadyExists) s"
      using q(2) by (intro runs_call) (simp add: on_indexes_def store_create_def idx_def)
    have get: "runs (reading (\<lambda>s. store_get (?ns, q) (fl_indexes s))) s (Inr y) s"
      using q(2) by (intro runs_reading) (simp add: store_get_def idx_def)
    have "runs (allocate_loop cfg acc u (Suc i) m) s (Inr (Some ((?ns, p), x))) s'"
      using False Suc.prems by (intro Suc.IH) auto
    then show ?thesis unfolding allocate_loop.simps q(1) sum.case Let_def
      by (intro runs_attempt [OF create]) (simp, intro runs_andThen [OF get], simp add: y)
  qed
qed simp

text \<open>Publishing the domain of the owned index.\<close>

lemma runs_publish:
  assumes h: "holds cfg k u False (Some ((dnsShardNamespace defaultDNSShard, p), x)) s"
    and r: "res s k = Some reservation" "\<not> ob_deleting reservation" "ContainsFinalizer reservation dnsReservationFinalizer"
    and automatic: "\<not> isAutomaticDNSReservation (snd k) reservation"
    and name: "HostedClusterNameFromDNSReservation (ob_uid reservation) = name" "name \<noteq> []"
    and bd: "dr_BaseDomain reservation = []"
  shows "\<exists>r' s'. runs (updateReservationStatus k reservation ''Ready'' (base_domain cfg p) []) s (Inr ()) s' \<and>
    holds cfg k u False (Some ((dnsShardNamespace defaultDNSShard, p), x)) s' \<and> res s' k = Some r' \<and>
    dr_Phase r' = ''Ready'' \<and> dr_BaseDomain r' = base_domain cfg p \<and> dr_InternalHostedClusterName r' = name"
proof -
  define new where "new = reservation_status ''Ready'' (base_domain cfg p) [] name reservation"
  let ?r = "new\<lparr>ob_rv := Suc (ob_rv reservation)\<rparr>"
  let ?s = "s\<lparr>fl_reservations := AList.update k ?r (fl_reservations s)\<rparr>"
  have v: "same_version new reservation" "put_DNSReservation new reservation = new"
    "ob_finalizers new = ob_finalizers reservation" "dr_BaseDomain new = base_domain cfg p"
    by (simp_all add: new_def reservation_status_def same_version_def put_DNSReservation_def)
  have ne: "new \<noteq> reservation" using v(4) bd by (auto simp: base_domain_def)
  have "ob_finalizers ?r \<noteq> []" using v(3) r(3) by (auto simp: ContainsFinalizer_def)
  then have up: "on_reservations (store_status_update put_DNSReservation k new) s = (Inr ?r, ?s)"
    using r(1) v ne by (simp add: on_reservations_def store_status_update_def store_put_def res_def Let_def)
  have "runs (update_status_once k reservation ''Ready'' (base_domain cfg p) []) s (Inr ()) ?s"
    unfolding update_status_once_def
    by (rule runs_attempt [OF runs_reading [of _ _ "Inr reservation"]])
       (use r automatic name ne up in \<open>auto simp: store_get_def res_def resolveInternalHostedClusterName_def Let_def new_def
          intro!: runs_andThen [OF runs_ret] runs_andThen [OF runs_call] runs_ret\<close>)
  then have "runs (updateReservationStatus k reservation ''Ready'' (base_domain cfg p) []) s (Inr ()) ?s"
    unfolding updateReservationStatus_def by (rule runs_retry) simp
  moreover have "holds cfg k u False (Some ((dnsShardNamespace defaultDNSShard, p), x)) ?s"
    using status_write [OF h _ up] by (simp add: new_def reservation_status_def)
  moreover have "res ?s k = Some ?r" by (simp add: res_update)
  ultimately show ?thesis by (intro exI [of _ ?r] exI [of _ ?s]) (simp add: new_def reservation_status_def)
qed

lemma runs_assign:
  assumes h: "holds cfg k (ob_uid reservation) False (Some ((ns, p), x)) s"
    and up: "runs (updateReservationStatus k reservation ''Ready'' (base_domain cfg p) []) s (Inr ()) s'"
  shows "runs (dns_assign cfg k reservation ((ns, p), x)) s (Inr (RequeueAfter 300)) s'"
proof -
  have "runs (deleteDuplicateOwnedIndexes (ob_uid reservation) (ns, p)) s (Inr ()) s"
    unfolding deleteDuplicateOwnedIndexes_def
    by (rule runs_andThen [OF runs_listOwned [OF h]]) (auto intro: runs_andThen runs_ret)
  then show ?thesis unfolding dns_assign_def using up by (auto intro!: runs_andThen runs_ret)
qed

text \<open>C17: a new reservation becomes ready with the first free prefix.  Without failures and interference, a
  reconciliation of a live reservation that owns no index tries the generated prefixes in order, creates the index of
  the first one nobody has, and publishes the base domain of that prefix, if one of the five attempts is free.\<close>

theorem first_free_prefix_is_assigned:
  assumes "dns_inv cfg (w_state w)" "w_script w = []"
    and "res (w_state w) k = Some reservation" "\<not> ob_deleting reservation"
    and "ContainsFinalizer reservation dnsReservationFinalizer" "owned (ob_uid reservation) (w_state w) = {}"
    and "dz_suffix cfg \<noteq> []" "label accountIDLabel reservation \<noteq> []"
    and "\<not> isAutomaticDNSReservation (snd k) reservation"
    and "HostedClusterNameFromDNSReservation (ob_uid reservation) = name" "name \<noteq> []"
    and "first_free cfg (w_state w) n p" "n < dnsReservationAllocationAttempts"
  shows "\<exists>w' x r'. dns_Reconcile cfg k w = (Inr (RequeueAfter 300), w') \<and>
    owned (ob_uid reservation) (w_state w') = {((dnsShardNamespace defaultDNSShard, p), x)} \<and>
    res (w_state w') k = Some r' \<and> dr_Phase r' = ''Ready'' \<and> dr_BaseDomain r' = base_domain cfg p \<and>
    dr_InternalHostedClusterName r' = name"
proof -
  let ?s = "w_state w" and ?u = "ob_uid reservation" and ?ns = "dnsShardNamespace defaultDNSShard"
  let ?acc = "label accountIDLabel reservation"
  have h: "holds cfg k ?u False None ?s" using assms(1,3,5,6) by (simp add: holds_def)
  obtain x s1 where s1: "on_indexes (store_create (dz_uid cfg n) (?ns, p) (new_index ?acc ?u)) ?s = (Inr x, s1)"
    "s1 = ?s\<lparr>fl_indexes := AList.update (?ns, p) x (fl_indexes ?s)\<rparr>"
    using assms(12) by (auto simp: first_free_def on_indexes_def store_create_def idx_def Let_def)
  have h1: "holds cfg k ?u False (Some ((?ns, p), x)) s1" using create_owned [OF h s1(1)] by auto
  have res1: "res s1 k = Some reservation" using assms(3) s1(2) by simp
  have "dr_BaseDomain reservation = []" using dns_invD(7) [OF assms(1,3)] assms(4,6) by (simp add: backed_def)
  from runs_publish [OF h1 res1 assms(4,5,9-11) this] obtain r2 s2 where
    s2: "runs (updateReservationStatus k reservation ''Ready'' (base_domain cfg p) []) s1 (Inr ()) s2"
      "holds cfg k ?u False (Some ((?ns, p), x)) s2" "res s2 k = Some r2" "dr_Phase r2 = ''Ready''"
      "dr_BaseDomain r2 = base_domain cfg p" "dr_InternalHostedClusterName r2 = name"
    by blast
  note assign = runs_assign [OF h1 s2(1)]
  have alloc: "runs (allocateIndex cfg reservation) ?s (Inr (Some ((?ns, p), x))) s1"
    unfolding allocateIndex_def using assms(8,13) runs_allocate_loop [OF h assms(12) s1(1)] by (simp add: Let_def)
  have "ob_uid reservation \<noteq> []" using dns_invD(4) [OF assms(1,3)] by (simp add: good_reservation_def)
  moreover have rec: "runs (recoverOwnedIndex ?u) ?s (Inr None) ?s" by (rule runs_recover [OF h]) simp
  have "runs (andThen (recoverOwnedIndex ?u) (case_option
      (andThen (allocateIndex cfg reservation) (case_option pending (dns_assign cfg k reservation)))
      (dns_assign cfg k reservation))) ?s (Inr (RequeueAfter 300)) s2" for pending
    by (rule runs_andThen [OF rec], simp, rule runs_andThen [OF alloc], simp add: assign)
  ultimately have "runs (dns_reconcile_live cfg k reservation) ?s (Inr (RequeueAfter 300)) s2"
    unfolding dns_reconcile_live_def using assms(5,7) by simp
  then have "runs (dns_Reconcile cfg k) ?s (Inr (RequeueAfter 300)) s2"
    unfolding dns_Reconcile_def
    by (intro runs_attempt [OF runs_reading [of _ _ "Inr reservation"]])
       (use assms(3,4) in \<open>simp_all add: store_get_def res_def\<close>)
  from runsD [OF this assms(2)] show ?thesis
    using s2 by (cases "dns_Reconcile cfg k w") (auto simp: holds_def)
qed

text \<open>A witness: one reservation is ready with the prefix \<open>1a2b\<close>, the generator first returns the same prefix for a
  second one, whose status update then fails after the database has performed it.\<close>

definition ex_reservation :: "string \<Rightarrow> string \<Rightarrow> DNSReservation" where
  "ex_reservation uid bd =
     \<lparr>ob_uid = uid, ob_rv = 3, ob_generation = 1, ob_labels = [(accountIDLabel, ''123'')], ob_annotations = [],
      ob_finalizers = [dnsReservationFinalizer], ob_deleting = False, dr_ClusterDeletionPolicy = [],
      dr_Phase = (if bd = [] then [] else ''Ready''), dr_BaseDomain = bd, dr_InternalHostedClusterName = [],
      dr_ObservedGeneration = 0, dr_Conditions = []\<rparr>"

definition ex_dns :: dns_config where
  "ex_dns = \<lparr>dz_suffix = ''example.com'', dz_prefix = (\<lambda>i. Inr (if i = 0 then ''1a2b'' else ''3c4d'')),
             dz_uid = (\<lambda>_. ''i2'')\<rparr>"

definition ex_fleet :: fleet where
  "ex_fleet =
     \<lparr>fl_indexes = [((dnsShardNamespace defaultDNSShard, ''1a2b''), (new_index ''123'' ''u1'')\<lparr>ob_uid := ''i1'', ob_rv := 1\<rparr>)],
      fl_reservations = [((''account-123'', ''a''), ex_reservation ''u1'' (base_domain ex_dns ''1a2b'')),
                         ((''account-123'', ''b''), ex_reservation ''u2'' [])],
      fl_oidcconfigs = [], fl_clusters = [], fl_placements = [], fl_nodepools = [], fl_rendered = [],
      fl_renderedPools = [], fl_mcs = [], fl_manifests = [], fl_accounts = [],
      fl_dynamo = \<lparr>dc_items = (\<lambda>_. None), dc_cache = (\<lambda>_. None)\<rparr>, fl_statuses = (\<lambda>_. None), fl_uids = {}\<rparr>"

definition ex_step :: "call_fault \<Rightarrow> fleet step" where
  "ex_step f = \<lparr>st_others = (\<lambda>s. s), st_fault = f\<rparr>"

definition ex_world :: "fleet world" where
  "ex_world = \<lparr>w_state = ex_fleet,
     w_script = replicate 8 (ex_step NoCallFault) @ [ex_step (FailAfter LostConflict)], w_log = []\<rparr>"

lemma ex_fleet_inv: "dns_inv ex_dns ex_fleet"
proof -
  have labels: "label ownerUIDLabel (new_index a u) = u" "label ownerUIDLabel ((new_index a u)\<lparr>ob_uid := i, ob_rv := n\<rparr>) = u" for a u i n
    by (simp_all add: label_def new_index_def accountIDLabel_def ownerUIDLabel_def)
  have r: "res ex_fleet k = Some r \<longleftrightarrow>
      k = (''account-123'', ''a'') \<and> r = ex_reservation ''u1'' (base_domain ex_dns ''1a2b'') \<or>
      k = (''account-123'', ''b'') \<and> r = ex_reservation ''u2'' []" for k r
    by (auto simp: res_def ex_fleet_def)
  have o: "owned u ex_fleet = (if u = ''u1'' then {((dnsShardNamespace defaultDNSShard, ''1a2b''),
      (new_index ''123'' ''u1'')\<lparr>ob_uid := ''i1'', ob_rv := 1\<rparr>)} else {})" for u
    by (auto simp: owned_def idx_def ex_fleet_def labels split: if_splits)
  show ?thesis
    by (rule dns_invI)
       (auto simp: r o ex_reservation_def good_reservation_def backed_def base_domain_def new_index_def, simp_all add: ex_fleet_def)
qed

theorem base_domains_are_unique_witness:
  "domains_unique (w_state (snd (dns_Reconcile ex_dns (''account-123'', ''b'') ex_world)))"
  using base_domains_are_unique [of ex_dns ex_world "(''account-123'', ''b'')"
      "fst (dns_Reconcile ex_dns (''account-123'', ''b'') ex_world)" "snd (dns_Reconcile ex_dns (''account-123'', ''b'') ex_world)"]
    ex_fleet_inv
  by (simp add: ex_world_def relies_def ex_step_def dns_rely_def)

theorem first_free_prefix_is_assigned_witness:
  "\<exists>w' x r'. dns_Reconcile ex_dns (''account-123'', ''b'') (ex_world\<lparr>w_script := []\<rparr>) = (Inr (RequeueAfter 300), w') \<and>
     owned ''u2'' (w_state w') = {((dnsShardNamespace defaultDNSShard, ''3c4d''), x)} \<and>
     res (w_state w') (''account-123'', ''b'') = Some r' \<and> dr_Phase r' = ''Ready'' \<and>
     dr_BaseDomain r' = base_domain ex_dns ''3c4d'' \<and> dr_InternalHostedClusterName r' = ''hc-u2''"
proof -
  let ?r = "ex_reservation ''u2'' []"
  have u: "ob_uid ?r = ''u2''" by (simp add: ex_reservation_def)
  have "res ex_fleet (''account-123'', ''b'') = Some ?r" by (simp add: res_def ex_fleet_def)
  moreover have "owned ''u2'' ex_fleet = {}"
    by (auto simp: owned_def idx_def ex_fleet_def new_index_def label_def accountIDLabel_def ownerUIDLabel_def
        split: if_splits)
  moreover have "HostedClusterNameFromDNSReservation ''u2'' = ''hc-u2''" by code_simp
  moreover have "first_free ex_dns ex_fleet 1 ''3c4d''"
    by (simp add: first_free_def ex_dns_def ex_fleet_def idx_def)
  moreover have "label accountIDLabel ?r \<noteq> []" "\<not> isAutomaticDNSReservation ''b'' ?r"
    by (simp_all add: ex_reservation_def label_def isAutomaticDNSReservation_def accountIDLabel_def claimedByClusterUIDLabel_def)
  ultimately show ?thesis
    using first_free_prefix_is_assigned [of ex_dns "ex_world\<lparr>w_script := []\<rparr>" "(''account-123'', ''b'')" ?r "''hc-u2''" 1 "''3c4d''"]
      ex_fleet_inv
    by (simp add: u) (simp add: ex_world_def ex_reservation_def ex_dns_def ContainsFinalizer_def dnsReservationAllocationAttempts_def)
qed

end
