(* ===== verification/RequestChecks.thy ===== *)
theory RequestChecks
  imports DnsController
begin

text \<open>
  The checks of request contents in \<open>seaplane-api/pkg/validation\<close> that look at names, AWS tags and Spot termination
  queues (\<open>identity.go\<close>, \<open>aws_tags.go\<close>, \<open>spot.go\<close>).  The Kubernetes library's name checks and the two patterns over
  Unicode classes are in \<open>check_lib\<close>.  Maps are association lists.
\<close>

record check_lib =
  kl_IsDNS1123Label :: "string \<Rightarrow> bool"
  kl_IsDNS1123Subdomain :: "string \<Rightarrow> bool"
  kl_IsQualifiedName :: "string \<Rightarrow> bool"
  kl_IsValidLabelValue :: "string \<Rightarrow> bool"
  kl_tagKeyPattern :: "string \<Rightarrow> bool"
  kl_tagValuePattern :: "string \<Rightarrow> bool"

text \<open>Validation errors, with their operands instead of their texts.\<close>

datatype check_error =
  EmptyTag
| ReservedTagPrefix string
| InvalidTagKey string
| InvalidTagValue string
| TooManyTags nat
| TooManyPoolTags string nat \<comment> \<open>with the name of the node pool\<close>
| InvalidQueueURL
| QueueInOtherRegion
| QueueNotUnique
| NegativeReplicas
| InvalidHttpTokens
| ParentUnresolved
| ParentMissing
| BadNetwork ValidationError
| FieldRejected string string \<comment> \<open>by the field validator: field and reason\<close>

section \<open>Names\<close>

definition ValidateClusterName :: "check_lib \<Rightarrow> string \<Rightarrow> bool" where
  "ValidateClusterName K name \<longleftrightarrow> kl_IsDNS1123Label K name"

definition ValidateClusterNameForDNSReservation :: "check_lib \<Rightarrow> string \<Rightarrow> bool \<Rightarrow> bool" where
  "ValidateClusterNameForDNSReservation K name hasDNSReservation \<longleftrightarrow>
     ValidateClusterName K name \<and>
     \<not> (\<not> hasDNSReservation \<and> length name > MaxClusterNameLengthWithoutDNSReservation)"

definition ValidateResourceName :: "check_lib \<Rightarrow> string \<Rightarrow> bool" where
  "ValidateResourceName K name \<longleftrightarrow> kl_IsDNS1123Subdomain K name"

definition ParseNodePoolName :: "check_lib \<Rightarrow> string \<Rightarrow> (string \<times> string) option" where
  "ParseNodePoolName K name =
     (case split_on (CHR ''.'') name of
        [clusterName, childName] \<Rightarrow>
          if kl_IsDNS1123Label K clusterName \<and> kl_IsDNS1123Label K childName then Some (clusterName, childName) else None
      | _ \<Rightarrow> None)"

definition ValidateAccountNamespace :: "string \<Rightarrow> string \<Rightarrow> bool" where
  "ValidateAccountNamespace namespace accountID \<longleftrightarrow> \<not> (namespace \<noteq> [] \<and> namespace \<noteq> ''account-'' @ accountID)"

section \<open>AWS tags\<close>

type_synonym tags = "(string \<times> string) list"

definition maxAWSResourceTags :: nat where "maxAWSResourceTags = 25"
definition redHatManagedTagKey :: string where "redHatManagedTagKey = ''red-hat-managed''"
definition clusterOwnershipBudgetTagKey :: string where
  "clusterOwnershipBudgetTagKey = CHR 0x00 # ''cluster-ownership-budget''"

definition tag_errors :: "check_lib \<Rightarrow> tags \<Rightarrow> string \<Rightarrow> check_error list" where
  "tag_errors K tags key =
     (let value = (case map_of tags key of None \<Rightarrow> [] | Some v \<Rightarrow> v) in
      if key = [] \<or> value = [] then [EmptyTag]
      else if has_prefix (to_lower key) ''aws:'' then [ReservedTagPrefix key]
      else if \<not> kl_tagKeyPattern K key then [InvalidTagKey key]
      else if \<not> kl_tagValuePattern K value then [InvalidTagValue key]
      else [])"

definition ValidateCustomerAWSTags :: "check_lib \<Rightarrow> tags \<Rightarrow> check_error list" where
  "ValidateCustomerAWSTags K tags = concat (map (tag_errors K tags) (sort (remdups (map fst tags))))"

definition add_key :: "string \<Rightarrow> string set \<times> nat \<Rightarrow> string set \<times> nat" where
  "add_key key st = (case st of (seen, count) \<Rightarrow> if key \<in> seen then (seen, count) else (insert key seen, Suc count))"

definition renderedAWSTagCount :: "string list \<Rightarrow> tags list \<Rightarrow> nat" where
  "renderedAWSTagCount systemTagKeys customerTagMaps =
     snd (fold (\<lambda>tags. fold (\<lambda>kv. add_key (fst kv)) tags) customerTagMaps (fold add_key systemTagKeys ({}, 0)))"

definition ValidateClusterAWSTagBudget :: "tags \<Rightarrow> check_error list" where
  "ValidateClusterAWSTagBudget customerTags =
     (let count = renderedAWSTagCount [redHatManagedTagKey, clusterOwnershipBudgetTagKey] [customerTags] in
      if count \<le> maxAWSResourceTags then [] else [TooManyTags count])"

definition ValidateNodePoolAWSTagBudget :: "tags \<Rightarrow> tags \<Rightarrow> check_error list" where
  "ValidateNodePoolAWSTagBudget clusterTags nodePoolTags =
     (let count = renderedAWSTagCount [redHatManagedTagKey] [clusterTags, nodePoolTags] in
      if count \<le> maxAWSResourceTags then [] else [TooManyTags count])"

section \<open>Spot termination queues\<close>

definition maxTerminationHandlerQueueURL :: nat where "maxTerminationHandlerQueueURL = 512"

definition queue_char :: "char \<Rightarrow> bool" where
  "queue_char c \<longleftrightarrow> is_digit c \<or> 97 \<le> char_nat c \<and> char_nat c \<le> 122 \<or> 65 \<le> char_nat c \<and> char_nat c \<le> 90 \<or>
     c = CHR ''_'' \<or> c = CHR ''-''"

definition queue_name :: "string \<Rightarrow> bool" where
  "queue_name s \<longleftrightarrow>
     1 \<le> length s \<and> length s \<le> 80 \<and> list_all queue_char s \<or>
     has_suffix s ''.fifo'' \<and>
       (let stem = trim_suffix s ''.fifo'' in 1 \<le> length stem \<and> length stem \<le> 75 \<and> list_all queue_char stem)"

text \<open>The region of a queue URL that matches the pattern.  The region's characters do not include the dot that
  follows it, so the longest match is the only one.\<close>

definition region_char :: "char \<Rightarrow> bool" where
  "region_char c \<longleftrightarrow> is_digit c \<or> 97 \<le> char_nat c \<and> char_nat c \<le> 122 \<or> c = CHR ''-''"

definition queue_url_region :: "string \<Rightarrow> string option" where
  "queue_url_region url =
     (if \<not> has_prefix url ''https://sqs.'' then None
      else let rest = drop 12 url; region = takeWhile region_char rest; host = dropWhile region_char rest in
           if region = [] \<or> \<not> has_prefix host ''.amazonaws.com/'' then None
           else let path = drop 15 host in
                if length (take 12 path) = 12 \<and> list_all is_digit (take 12 path) \<and>
                   has_prefix (drop 12 path) ''/'' \<and> queue_name (drop 13 path)
                then Some region else None)"

definition ValidateSpotTerminationHandlerQueueURL :: "string \<Rightarrow> string \<Rightarrow> string list \<Rightarrow> check_error list" where
  "ValidateSpotTerminationHandlerQueueURL queueURL region existingQueueURLs =
     (if queueURL = [] then []
      else case queue_url_region queueURL of
        None \<Rightarrow> [InvalidQueueURL]
      | Some m \<Rightarrow>
          if length queueURL > maxTerminationHandlerQueueURL then [InvalidQueueURL]
          else (if region = [] \<or> m \<noteq> region then [QueueInOtherRegion] else []) @
               (if queueURL \<in> set existingQueueURLs then [QueueNotUnique] else []))"

section \<open>Tag budgets\<close>

lemma add_key_fold: "finite A \<Longrightarrow> fold add_key ks (A, card A) = (A \<union> set ks, card (A \<union> set ks))"
proof (induction ks arbitrary: A)
  case (Cons k ks)
  have "add_key k (A, card A) = (insert k A, card (insert k A))"
    using Cons.prems by (simp add: add_key_def insert_absorb)
  then show ?case using Cons.IH [of "insert k A"] Cons.prems by simp
qed simp

lemma renderedAWSTagCount_card:
  "renderedAWSTagCount sys maps = card (set sys \<union> (\<Union>m \<in> set maps. fst ` set m))"
proof -
  have keys: "fold (\<lambda>kv. add_key (fst kv)) m st = fold add_key (map fst m) st" for m st
    by (induction m arbitrary: st) simp_all
  have maps: "fold (\<lambda>tags. fold (\<lambda>kv. add_key (fst kv)) tags) ms (A, card A) =
      (A \<union> (\<Union>m \<in> set ms. fst ` set m), card (A \<union> (\<Union>m \<in> set ms. fst ` set m)))" if "finite A" for ms A
    using that
  proof (induction ms arbitrary: A)
    case (Cons m ms)
    then show ?case using Cons.IH [of "A \<union> fst ` set m"] by (simp add: keys add_key_fold Un_assoc)
  qed simp
  have "fold add_key sys ({}, 0) = (set sys, card (set sys))" using add_key_fold [of "{}" sys] by simp
  then show ?thesis by (simp add: renderedAWSTagCount_def maps)
qed

lemma ValidateClusterAWSTagBudget_card:
  "ValidateClusterAWSTagBudget cts = [] \<longleftrightarrow>
     card ({redHatManagedTagKey, clusterOwnershipBudgetTagKey} \<union> fst ` set cts) \<le> 25"
  by (simp add: ValidateClusterAWSTagBudget_def Let_def renderedAWSTagCount_card maxAWSResourceTags_def)

lemma ValidateNodePoolAWSTagBudget_card:
  "ValidateNodePoolAWSTagBudget cts pts = [] \<longleftrightarrow>
     card (insert redHatManagedTagKey (fst ` set cts \<union> fst ` set pts)) \<le> 25"
  by (simp add: ValidateNodePoolAWSTagBudget_def Let_def renderedAWSTagCount_card maxAWSResourceTags_def)

end
