(* ===== verification/RenderTags.thy ===== *)
theory RenderTags
  imports RequestChecks "HOL-Library.AList"
begin

text \<open>
  The AWS resource tags that the operator puts on a hosted cluster and on a node pool, \<open>appendSystemTags\<close> and
  \<open>mergeNodePoolTags\<close> of \<open>seaplane-operator/internal/render\<close>, and how the budgets that the API checks relate to
  them.  A Go map is an association list of which the first entry of a key counts.
\<close>

definition ownership_tag_key :: "string \<Rightarrow> string" where
  "ownership_tag_key clusterID = ''kubernetes.io/cluster/'' @ clusterID"

definition appendSystemTags :: "string \<Rightarrow> tags \<Rightarrow> tags" where
  "appendSystemTags clusterID customerTags =
     (let tags = (''red-hat-managed'', ''true'') #
                 (if clusterID \<noteq> [] then [(ownership_tag_key clusterID, ''owned'')] else []);
          seen = set (map fst tags) in
      tags @ map (\<lambda>key. (key, case map_of customerTags key of None \<Rightarrow> [] | Some v \<Rightarrow> v))
               (filter (\<lambda>key. key \<notin> seen) (sort (remdups (map fst customerTags)))))"

definition mergeNodePoolTags :: "tags \<Rightarrow> tags \<Rightarrow> tags" where
  "mergeNodePoolTags clusterTags nodePoolTags =
     (let merged = foldr (\<lambda>(key, value). AList.update key value) clusterTags [] in
      foldr (\<lambda>(key, value). AList.update key value) nodePoolTags merged)"

lemma ownership_tag_key_ne [simp]:
  "ownership_tag_key clusterID \<noteq> ''red-hat-managed''" "''red-hat-managed'' \<noteq> ownership_tag_key clusterID"
  by (simp_all add: ownership_tag_key_def)

lemma map_of_filtered: "map_of (map (\<lambda>k. (k, f k)) ks) k = (if k \<in> set ks then Some (f k) else None)"
  by (induction ks) auto

text \<open>The rendered tags: the system tags, and every customer tag with another key.\<close>

lemma appendSystemTags_keys:
  "distinct (map fst (appendSystemTags c cts))"
  "fst ` set (appendSystemTags c cts) =
     insert ''red-hat-managed'' ((if c = [] then {} else {ownership_tag_key c}) \<union> fst ` set cts)"
proof -
  have keys: "map fst (appendSystemTags c cts) =
      (''red-hat-managed'' # (if c = [] then [] else [ownership_tag_key c])) @
      filter (\<lambda>k. k \<noteq> ''red-hat-managed'' \<and> (c = [] \<or> k \<noteq> ownership_tag_key c)) (sort (remdups (map fst cts)))"
    by (auto simp: appendSystemTags_def Let_def comp_def intro!: filter_cong)
  then show "distinct (map fst (appendSystemTags c cts))" by simp
  have "fst ` set (appendSystemTags c cts) = set (map fst (appendSystemTags c cts))" by simp
  then show "fst ` set (appendSystemTags c cts) =
      insert ''red-hat-managed'' ((if c = [] then {} else {ownership_tag_key c}) \<union> fst ` set cts)"
    unfolding keys by auto
qed

lemma length_appendSystemTags:
  "length (appendSystemTags c cts) =
     card (insert ''red-hat-managed'' ((if c = [] then {} else {ownership_tag_key c}) \<union> fst ` set cts))"
  using distinct_card [OF appendSystemTags_keys(1), of c cts] by (simp add: appendSystemTags_keys(2))

lemma map_of_appendSystemTags:
  "map_of (appendSystemTags c cts) =
     (if c = [] then map_of cts else (map_of cts)(ownership_tag_key c \<mapsto> ''owned''))(''red-hat-managed'' \<mapsto> ''true'')"
proof
  fix k
  have "map_of cts k = None \<longleftrightarrow> k \<notin> fst ` set cts" by (simp add: map_of_eq_None_iff)
  then show "map_of (appendSystemTags c cts) k =
      ((if c = [] then map_of cts else (map_of cts)(ownership_tag_key c \<mapsto> ''owned''))(''red-hat-managed'' \<mapsto> ''true'')) k"
    by (cases "c = []") (auto simp: appendSystemTags_def Let_def map_of_filtered split: option.splits)
qed

lemma map_of_foldr_update: "map_of (foldr (\<lambda>(k, v). AList.update k v) xs ys) = map_of ys ++ map_of xs"
proof (induction xs)
  case (Cons x xs)
  then show ?case by (cases x) (simp add: AList.update_conv' map_add_def fun_eq_iff)
qed simp

lemma map_of_mergeNodePoolTags: "map_of (mergeNodePoolTags cts pts) = map_of cts ++ map_of pts"
  by (simp add: mergeNodePoolTags_def map_of_foldr_update)

lemma mergeNodePoolTags_keys: "fst ` set (mergeNodePoolTags cts pts) = fst ` set cts \<union> fst ` set pts"
proof -
  have "dom (map_of (mergeNodePoolTags cts pts)) = fst ` set cts \<union> fst ` set pts"
    by (auto simp: map_of_mergeNodePoolTags dom_map_of_conv_image_fst)
  then show ?thesis by (simp add: dom_map_of_conv_image_fst)
qed

lemma accepted_tag_key:
  assumes "ValidateCustomerAWSTags K cts = []" "k \<in> fst ` set cts"
  shows "kl_tagKeyPattern K k"
proof -
  have "tag_errors K cts k = []" using assms by (auto simp: ValidateCustomerAWSTags_def)
  then show ?thesis by (auto simp: tag_errors_def Let_def split: if_splits)
qed

text \<open>C23: the tag budgets of the API bound what the operator renders.  The tags rendered on a hosted cluster have different
  keys, and the cluster passes its budget exactly if they are at most 25, counting one more if the customer
  sets the cluster's own ownership key, which the budget counts beside the tag it stands for.  The tags
  rendered on a node pool have different keys, the pool's value where cluster and pool set the same key and the
  service's own value for its key, and the pool passes its budget exactly if they are at most 25.  A
  pool that adds no tags to those of a cluster within its budget is within its own.  The customer tags have passed
  the check of their form, whose key pattern does not admit the placeholder the budget counts for the ownership key.\<close>
theorem tag_budgets_are_exact:
  assumes "ValidateCustomerAWSTags K cts = []" "\<not> kl_tagKeyPattern K clusterOwnershipBudgetTagKey"
    and "clusterID \<noteq> []"
    and "rendered = appendSystemTags clusterID cts"
    and "pool_rendered = appendSystemTags [] (mergeNodePoolTags cts pts)"
  shows "distinct (map fst rendered) \<and>
         (ValidateClusterAWSTagBudget cts = [] \<longleftrightarrow>
            length rendered + (if ownership_tag_key clusterID \<in> fst ` set cts then 1 else 0) \<le> 25) \<and>
         distinct (map fst pool_rendered) \<and>
         (ValidateNodePoolAWSTagBudget cts pts = [] \<longleftrightarrow> length pool_rendered \<le> 25) \<and>
         map_of pool_rendered = (map_of cts ++ map_of pts)(''red-hat-managed'' \<mapsto> ''true'') \<and>
         (ValidateClusterAWSTagBudget cts = [] \<longrightarrow> ValidateNodePoolAWSTagBudget cts [] = [])"
proof -
  let ?own = "ownership_tag_key clusterID" and ?b = clusterOwnershipBudgetTagKey and ?A = "fst ` set cts"
  let ?R = "insert redHatManagedTagKey ?A"
  have b: "?b \<notin> ?R" "?own \<notin> {redHatManagedTagKey}" "finite ?R"
    using accepted_tag_key [OF assms(1)] assms(2)
    by (auto simp: redHatManagedTagKey_def clusterOwnershipBudgetTagKey_def)
  have "{redHatManagedTagKey, ?b} \<union> ?A = insert ?b ?R" by auto
  then have count: "card ({redHatManagedTagKey, ?b} \<union> ?A) = Suc (card ?R)"
    using b by simp
  have "insert redHatManagedTagKey ({?own} \<union> ?A) = insert ?own ?R" by auto
  then have "length rendered + (if ?own \<in> ?A then 1 else 0) = Suc (card ?R)"
    using assms(3) b by (auto simp: assms(4) length_appendSystemTags redHatManagedTagKey_def [symmetric] insert_absorb)
  then have c: "ValidateClusterAWSTagBudget cts = [] \<longleftrightarrow> length rendered + (if ?own \<in> ?A then 1 else 0) \<le> 25"
    unfolding ValidateClusterAWSTagBudget_card count by simp
  have p: "ValidateNodePoolAWSTagBudget cts pts = [] \<longleftrightarrow> length pool_rendered \<le> 25"
    unfolding ValidateNodePoolAWSTagBudget_card assms(5) length_appendSystemTags mergeNodePoolTags_keys
    by (simp add: redHatManagedTagKey_def)
  have n: "ValidateNodePoolAWSTagBudget cts [] = []" if "ValidateClusterAWSTagBudget cts = []"
    using that unfolding ValidateClusterAWSTagBudget_card ValidateNodePoolAWSTagBudget_card count by simp
  show ?thesis
    using c p n appendSystemTags_keys(1)
    by (auto simp: assms(4,5) map_of_appendSystemTags map_of_mergeNodePoolTags)
qed

theorem tag_budgets_are_exact_witness:
  "let K = \<lparr>kl_IsDNS1123Label = (\<lambda>_. True), kl_IsDNS1123Subdomain = (\<lambda>_. True), kl_IsQualifiedName = (\<lambda>_. True),
            kl_IsValidLabelValue = (\<lambda>_. True), kl_tagKeyPattern = (\<lambda>s. CHR 0x00 \<notin> set s),
            kl_tagValuePattern = (\<lambda>_. True)\<rparr>;
       cts = [(''team'', ''a''), (''kubernetes.io/cluster/c1'', ''shared'')]
   in ValidateCustomerAWSTags K cts = [] \<and> ValidateClusterAWSTagBudget cts = [] \<and>
      length (appendSystemTags ''c1'' cts) = 3 \<and>
      map_of (appendSystemTags [] (mergeNodePoolTags cts [(''team'', ''b'')])) ''team'' = Some ''b''"
proof -
  define K where "K = \<lparr>kl_IsDNS1123Label = (\<lambda>_. True), kl_IsDNS1123Subdomain = (\<lambda>_. True), kl_IsQualifiedName = (\<lambda>_. True),
            kl_IsValidLabelValue = (\<lambda>_. True), kl_tagKeyPattern = (\<lambda>s. CHR 0x00 \<notin> set s),
            kl_tagValuePattern = (\<lambda>_. True)\<rparr>"
  define cts where "cts = [(''team'', ''a''), (''kubernetes.io/cluster/c1'', ''shared'')]"
  have 1: "ValidateCustomerAWSTags K cts = []" unfolding K_def cts_def by code_simp
  have 2: "\<not> kl_tagKeyPattern K clusterOwnershipBudgetTagKey"
    by (simp add: K_def clusterOwnershipBudgetTagKey_def)
  have 3: "length (appendSystemTags ''c1'' cts) = 3" unfolding cts_def by code_simp
  have "''c1'' \<noteq> []" by simp
  note t = tag_budgets_are_exact [OF 1 2 this refl refl, of "[(''team'', ''b'')]"]
  have "ValidateClusterAWSTagBudget cts = []" using t 3 by (simp add: split: if_splits)
  moreover have "map_of (appendSystemTags [] (mergeNodePoolTags cts [(''team'', ''b'')])) ''team'' = Some ''b''"
    using t by simp
  ultimately show ?thesis using 1 3 unfolding K_def cts_def Let_def by blast
qed

end
