(* ===== verification/FieldValidator.thy ===== *)
theory FieldValidator
  imports RequestChecks Json "HOL-Library.AList"
begin

text \<open>
  The checks of spec fields against the registry of field rules, \<open>seaplane-api/pkg/validation/field_validator.go\<close> and
  \<open>preserve.go\<close>, the feature gates (\<open>internal/codegen/featuregate\<close>), and the two checks of single fields
  (\<open>additional_allowed_principals.go\<close>, \<open>additional_trust_bundle.go\<close>).  The registry is generated data and a parameter.

  A JSON document is a list of members, which can repeat a key.  Decoding it to a Go map keeps the last member of a
  key (\<open>decode_map\<close>); decoding it into a struct goes through all of them (\<open>unmarshal\<close>).  The list order of a decoded map
  stands for the order in which Go iterates over it.  \<open>reflect.DeepEqual\<close> does not see that order.
\<close>

section \<open>Feature gates\<close>

datatype FeatureStage = GA | TechPreview | DevPreview

definition stage_rank :: "FeatureStage \<Rightarrow> nat" where
  "stage_rank st = (case st of GA \<Rightarrow> 0 | TechPreview \<Rightarrow> 1 | DevPreview \<Rightarrow> 2)"

definition SeaplaneFeatureGates :: "(string \<times> FeatureStage) list" where
  "SeaplaneFeatureGates =
     [(''SeaplaneEtcdConfig'', GA), (''SeaplaneAutoScaling'', TechPreview), (''SeaplaneSecretEncryption'', TechPreview),
      (''SeaplaneCustomDNS'', DevPreview), (''SeaplaneKubeletAdvanced'', TechPreview),
      (''SeaplaneMachineConfig'', TechPreview)]"

definition MaxStage :: "string \<Rightarrow> FeatureStage" where
  "MaxStage fs =
     (if fs = ''TechPreviewNoUpgrade'' then TechPreview
      else if fs = ''DevPreviewNoUpgrade'' then DevPreview
      else GA)"

definition Includes :: "string \<Rightarrow> FeatureStage \<Rightarrow> bool" where
  "Includes fs stage \<longleftrightarrow> stage_rank stage \<le> stage_rank (MaxStage fs)"

definition IsGateEnabled :: "string \<Rightarrow> string \<Rightarrow> bool" where
  "IsGateEnabled gate fs =
     (case map_of SeaplaneFeatureGates gate of None \<Rightarrow> False | Some stage \<Rightarrow> Includes fs stage)"

section \<open>The registry\<close>

datatype WriteMode = Unrestricted | Mutable | Immutable | ServiceSet

record FeatureGateWriteMode =
  gw_FeatureGate :: string
  gw_WriteMode :: WriteMode

record FieldMeta =
  fm_WriteMode :: WriteMode
  fm_FeatureGate :: string
  fm_Hidden :: bool
  fm_FeatureGateAwareWriteModes :: "FeatureGateWriteMode list"

type_synonym registry = "(string \<times> FieldMeta) list"
type_synonym members = "(string \<times> json) list"

definition equal_fold :: "string \<Rightarrow> string \<Rightarrow> bool" where
  "equal_fold a b \<longleftrightarrow> to_lower a = to_lower b"

lemma equal_fold_lengths [code]: "equal_fold a b = (if length a = length b then to_lower a = to_lower b else False)"
  by (auto simp: equal_fold_def to_lower_def dest: map_eq_imp_length_eq)

definition lookupFieldMeta :: "registry \<Rightarrow> string \<Rightarrow> (FieldMeta \<times> string) option" where
  "lookupFieldMeta reg fieldPath =
     (case map_of reg fieldPath of
        Some meta \<Rightarrow> Some (meta, fieldPath)
      | None \<Rightarrow> map_option (\<lambda>(canonical, meta). (meta, canonical)) (find (\<lambda>(canonical, _). equal_fold canonical fieldPath) reg))"

definition isStructuralContainer :: "string \<Rightarrow> registry \<Rightarrow> bool" where
  "isStructuralContainer fieldPath reg =
     list_ex (\<lambda>(childPath, meta). has_prefix childPath (fieldPath @ ''.'') \<and>
       (fm_WriteMode meta = Mutable \<or> fm_WriteMode meta = Immutable)) reg"

definition effectiveWriteMode :: "FieldMeta \<Rightarrow> string \<Rightarrow> WriteMode" where
  "effectiveWriteMode meta fs =
     (case find (\<lambda>ov. gw_FeatureGate ov \<noteq> [] \<and> IsGateEnabled (gw_FeatureGate ov) fs) (fm_FeatureGateAwareWriteModes meta) of
        Some ov \<Rightarrow> gw_WriteMode ov
      | None \<Rightarrow>
          (case find (\<lambda>ov. gw_FeatureGate ov = []) (fm_FeatureGateAwareWriteModes meta) of
             Some ov \<Rightarrow> gw_WriteMode ov
           | None \<Rightarrow> fm_WriteMode meta))"

section \<open>Documents as fields\<close>

text \<open>What decoding to \<open>map[string]any\<close> makes of a document: of repeated keys the last one counts, at every depth.\<close>

primrec decode_any :: "json \<Rightarrow> json" where
  "decode_any JNull = JNull"
| "decode_any (JBool b) = JBool b"
| "decode_any (JNum n) = JNum n"
| "decode_any (JStr s) = JStr s"
| "decode_any (JArr js) = JArr (map decode_any js)"
| "decode_any (JObj kvs) = JObj (fold (\<lambda>(k, v). AList.update k v) (map (map_prod id decode_any) kvs) [])"

definition decode_map :: "members \<Rightarrow> members" where
  "decode_map doc = fold (\<lambda>(k, v). AList.update k v) (map (map_prod id decode_any) doc) []"

definition DeepEqual :: "json \<Rightarrow> json \<Rightarrow> bool" where
  "DeepEqual a b \<longleftrightarrow> jsonb a = jsonb b"

fun isZeroValue :: "json \<Rightarrow> bool" where
  "isZeroValue JNull = True"
| "isZeroValue (JStr s) = (s = [])"
| "isZeroValue (JBool b) = (\<not> b)"
| "isZeroValue (JNum n) = (n = 0)"
| "isZeroValue (JObj kvs) = list_all (\<lambda>kv. isZeroValue (snd kv)) kvs"
| "isZeroValue (JArr js) = (js = [])"

definition isEmptyObject :: "json \<Rightarrow> bool" where
  "isEmptyObject v \<longleftrightarrow> v = JObj []"

text \<open>The assignments of \<open>flattenMap\<close> in their order, and the map they build.\<close>

fun flat_writes :: "string \<Rightarrow> members \<Rightarrow> members" where
  "flat_writes prefx [] = []"
| "flat_writes prefx ((key, val) # m) =
     (let path = (if prefx = [] then key else prefx @ ''.'' @ key) in
      (path, val) # (case val of JObj nested \<Rightarrow> flat_writes path nested | _ \<Rightarrow> []) @ flat_writes prefx m)"

definition flattenMap :: "string \<Rightarrow> members \<Rightarrow> members" where
  "flattenMap prefx m = fold (\<lambda>(p, v). AList.update p v) (flat_writes prefx m) []"

definition flattenToFieldPaths :: "members \<Rightarrow> members" where
  "flattenToFieldPaths m = flattenMap ''spec'' m"

text \<open>A key that is not in a Go map reads as nil.\<close>

definition field_value :: "members \<Rightarrow> string \<Rightarrow> json" where
  "field_value flds path = (case map_of flds path of None \<Rightarrow> JNull | Some v \<Rightarrow> v)"

section \<open>Checks of single fields\<close>

record bundle_lib =
  bl_parseARN :: "string \<Rightarrow> (string \<times> string \<times> string \<times> string \<times> string) option"
    \<comment> \<open>partition, service, region, account and resource\<close>
  bl_trimSpace :: "string \<Rightarrow> string"
  bl_pemDecode :: "string \<Rightarrow> ((string \<times> string) \<times> string) option" \<comment> \<open>type and bytes of a block, and the rest\<close>
  bl_isCA :: "string \<Rightarrow> bool" \<comment> \<open>the bytes are a certificate of a CA\<close>

definition principal_char :: "char \<Rightarrow> bool" where
  "principal_char c \<longleftrightarrow> queue_char c \<or> c \<in> set ''+=,.@''"

definition iamPrincipalName :: "string \<Rightarrow> bool" where
  "iamPrincipalName s \<longleftrightarrow> list_all (\<lambda>part. part \<noteq> [] \<and> list_all principal_char part) (split_on (CHR ''/'') s)"

definition awsPartitionPattern :: "string \<Rightarrow> bool" where
  "awsPartitionPattern s =
     (case split_on (CHR ''-'') s of
        first # rest \<Rightarrow> first = ''aws'' \<and> list_all (\<lambda>p. p \<noteq> [] \<and> list_all is_lower_alnum p) rest
      | [] \<Rightarrow> False)"

definition validAdditionalAllowedPrincipal :: "bundle_lib \<Rightarrow> string \<Rightarrow> bool" where
  "validAdditionalAllowedPrincipal B value =
     (case bl_parseARN B value of
        None \<Rightarrow> False
      | Some (part, service, region, account, resource) \<Rightarrow>
          if \<not> awsPartitionPattern part \<or> service \<noteq> ''iam'' \<or> region \<noteq> [] \<or>
             \<not> (length account = 12 \<and> list_all is_digit account) then False
          else if resource = ''root'' then True
          else if has_prefix resource ''role/'' then iamPrincipalName (drop 5 resource)
          else if has_prefix resource ''user/'' then iamPrincipalName (drop 5 resource)
          else if has_prefix resource ''federated-user/'' then iamPrincipalName (drop 15 resource)
          else False)"

fun principals_ok :: "bundle_lib \<Rightarrow> json list \<Rightarrow> string set \<Rightarrow> bool" where
  "principals_ok B [] seen = True"
| "principals_ok B (v # vs) seen =
     (case v of
        JStr arn \<Rightarrow>
          validAdditionalAllowedPrincipal B arn \<and> length arn \<le> 255 \<and> arn \<notin> seen \<and>
          principals_ok B vs (insert arn seen)
      | _ \<Rightarrow> False)"

definition additionalAllowedPrincipalsPath :: string where
  "additionalAllowedPrincipalsPath = ''spec.hostedCluster.platform.aws.additionalAllowedPrincipals''"

definition validateAdditionalAllowedPrincipals :: "bundle_lib \<Rightarrow> members \<Rightarrow> check_error list" where
  "validateAdditionalAllowedPrincipals B flds =
     (case map_of flds additionalAllowedPrincipalsPath of
        None \<Rightarrow> []
      | Some (JArr principals) \<Rightarrow>
          if length principals > 25 then [FieldRejected additionalAllowedPrincipalsPath ''more than 25 principals'']
          else if principals_ok B principals {} then []
          else [FieldRejected additionalAllowedPrincipalsPath ''invalid entry'']
      | Some _ \<Rightarrow> [FieldRejected additionalAllowedPrincipalsPath ''must be an array of IAM principal ARNs''])"

text \<open>The loop over the blocks of a trust bundle; \<open>None\<close> means that it does not return.\<close>

partial_function (option) pem_loop :: "bundle_lib \<Rightarrow> string \<Rightarrow> nat \<Rightarrow> (string + nat) option" where
  "pem_loop B remaining certCount =
     (let remaining = bl_trimSpace B remaining in
      if remaining = [] then Some (Inr certCount)
      else if \<not> has_prefix remaining ''-----BEGIN '' then Some (Inl ''must contain only PEM-encoded CA certificates'')
      else case bl_pemDecode B remaining of
        None \<Rightarrow> Some (Inl ''must contain only PEM-encoded CA certificates'')
      | Some ((type, bytes), rest) \<Rightarrow>
          if type \<noteq> ''CERTIFICATE'' then Some (Inl ''must contain only PEM-encoded CA certificates'')
          else if \<not> bl_isCA B bytes then Some (Inl ''must contain only valid PEM-encoded CA certificates'')
          else pem_loop B rest (Suc certCount))"

definition validatePEMTrustBundle :: "bundle_lib \<Rightarrow> string \<Rightarrow> (string + unit) option" where
  "validatePEMTrustBundle B bundle =
     map_option (\<lambda>r. sbind r (\<lambda>certCount.
       if certCount = 0 then Inl ''must contain at least one PEM-encoded CA certificate'' else Inr ())) (pem_loop B bundle 0)"

definition additionalTrustBundleField :: string where
  "additionalTrustBundleField = ''spec.additionalTrustBundle''"

definition validateAdditionalTrustBundle :: "bundle_lib \<Rightarrow> members \<Rightarrow> check_error list option" where
  "validateAdditionalTrustBundle B flds =
     (case map_of flds additionalTrustBundleField of
        None \<Rightarrow> Some []
      | Some JNull \<Rightarrow> Some []
      | Some (JStr bundle) \<Rightarrow>
          if bundle = [] then Some []
          else if length bundle > 1048576 then Some [FieldRejected additionalTrustBundleField ''must not exceed 1048576 UTF-8 bytes'']
          else map_option (\<lambda>r. case r of Inl err \<Rightarrow> [FieldRejected additionalTrustBundleField err] | Inr _ \<Rightarrow> [])
                 (validatePEMTrustBundle B bundle)
      | Some _ \<Rightarrow> Some [FieldRejected additionalTrustBundleField ''must be a PEM-encoded CA bundle''])"

section \<open>The field validator\<close>

datatype Operation = OperationCreate | OperationUpdate

record validator =
  va_registry :: registry
  va_resourceType :: string
  va_bundle :: bundle_lib

definition immutable_reason :: string where
  "immutable_reason = ''field is immutable and cannot be changed after creation''"

text \<open>\<open>pointers\<close> is the set of the paths whose pointer is not nil.\<close>

definition validateWriteMode ::
  "string \<Rightarrow> FieldMeta \<Rightarrow> Operation \<Rightarrow> json \<Rightarrow> members option \<Rightarrow> string \<Rightarrow> string set \<Rightarrow> check_error list" where
  "validateWriteMode fieldPath meta op val existingFields fs pointers =
     (case effectiveWriteMode meta fs of
        ServiceSet \<Rightarrow>
          (let rejected = [FieldRejected fieldPath ''field is platform-managed and cannot be set by customers''] in
           case existingFields of
             Some old \<Rightarrow>
               if op = OperationUpdate then
                 if DeepEqual (field_value old fieldPath) val \<or>
                    map_of old fieldPath = None \<and> isZeroValue val \<and> fieldPath \<notin> pointers then [] else rejected
               else if isZeroValue val \<and> fieldPath \<notin> pointers then [] else rejected
           | None \<Rightarrow> if isZeroValue val \<and> fieldPath \<notin> pointers then [] else rejected)
      | Immutable \<Rightarrow>
          (case existingFields of
             Some old \<Rightarrow>
               if op = OperationUpdate \<and> \<not> DeepEqual (field_value old fieldPath) val
               then [FieldRejected fieldPath immutable_reason] else []
           | None \<Rightarrow> [])
      | _ \<Rightarrow> [])"

definition validate_field ::
  "registry \<Rightarrow> members option \<Rightarrow> Operation \<Rightarrow> string \<Rightarrow> string set \<Rightarrow> string \<times> json \<Rightarrow> check_error list" where
  "validate_field reg existingFields op fs pointers field =
     (case lookupFieldMeta reg (fst field) of
        None \<Rightarrow> []
      | Some (meta, canonical) \<Rightarrow>
          if isStructuralContainer (fst field) reg then []
          else if fm_Hidden meta \<and> effectiveWriteMode meta fs \<noteq> ServiceSet then []
          else if fm_FeatureGate meta \<noteq> [] \<and> \<not> isEmptyObject (snd field) \<and> \<not> IsGateEnabled (fm_FeatureGate meta) fs
          then [FieldRejected canonical ''requires a feature gate which is not enabled'']
          else validateWriteMode canonical meta op (snd field) existingFields fs pointers)"

definition validate ::
  "validator \<Rightarrow> members \<Rightarrow> members option \<Rightarrow> Operation \<Rightarrow> string \<Rightarrow> string set \<Rightarrow> check_error list option" where
  "validate V flds existingFields op fs pointers =
     (let errs = concat (map (validate_field (va_registry V) existingFields op fs pointers) flds) in
      if va_resourceType V = ''Cluster'' then
        map_option (\<lambda>bundle. errs @ bundle @ validateAdditionalAllowedPrincipals (va_bundle V) flds)
          (validateAdditionalTrustBundle (va_bundle V) flds)
      else Some errs)"

text \<open>The proper ancestors of a path, as dotted texts.\<close>

definition ancestors :: "string \<Rightarrow> string list" where
  "ancestors fieldPath =
     (let parts = split_on (CHR ''.'') fieldPath in map (\<lambda>i. join ''.'' (take i parts)) [1..<length parts])"

definition hasNullAncestor :: "string \<Rightarrow> members \<Rightarrow> bool" where
  "hasNullAncestor fieldPath flds = list_ex (\<lambda>a. map_of flds a = Some JNull) (ancestors fieldPath)"

definition raw_immutable_change :: "registry \<Rightarrow> members \<Rightarrow> members \<Rightarrow> string \<Rightarrow> string \<times> FieldMeta \<Rightarrow> check_error list" where
  "raw_immutable_change reg rawFields existingFields fs entry =
     (case entry of (fieldPath, meta) \<Rightarrow>
        if fm_Hidden meta \<or> isStructuralContainer fieldPath reg \<or> effectiveWriteMode meta fs \<noteq> Immutable then []
        else let oldValue = field_value existingFields fieldPath; rejected = [FieldRejected fieldPath immutable_reason] in
          if map_of rawFields fieldPath \<noteq> None \<and> \<not> DeepEqual oldValue (field_value rawFields fieldPath) then rejected
          else if map_of existingFields fieldPath \<noteq> None \<and> \<not> isZeroValue oldValue \<and> hasNullAncestor fieldPath rawFields
          then rejected
          else [])"

definition validateRawImmutableChanges :: "registry \<Rightarrow> members \<Rightarrow> members \<Rightarrow> string \<Rightarrow> check_error list" where
  "validateRawImmutableChanges reg rawFields existingFields fs =
     concat (map (raw_immutable_change reg rawFields existingFields fs) reg)"

fun appendUniqueValidationErrors :: "check_error list \<Rightarrow> check_error list \<Rightarrow> check_error list" where
  "appendUniqueValidationErrors existing [] = existing"
| "appendUniqueValidationErrors existing (err # additional) =
     (if err \<in> set existing then appendUniqueValidationErrors existing additional
      else appendUniqueValidationErrors (existing @ [err]) additional)"

definition ValidateCreate :: "validator \<Rightarrow> members \<Rightarrow> string set \<Rightarrow> string \<Rightarrow> check_error list option" where
  "ValidateCreate V spec pointers fs = validate V (flattenToFieldPaths spec) None OperationCreate fs pointers"

definition validateUpdate ::
  "validator \<Rightarrow> members \<Rightarrow> string set \<Rightarrow> members \<Rightarrow> members option \<Rightarrow> string \<Rightarrow> check_error list option" where
  "validateUpdate V newSpec pointers rawSpec existingSpec fs =
     (let existingFields = map_option flattenToFieldPaths existingSpec in
      map_option (\<lambda>errs. case existingFields of
          None \<Rightarrow> errs
        | Some old \<Rightarrow>
            appendUniqueValidationErrors errs
              (validateRawImmutableChanges (va_registry V) (flattenToFieldPaths rawSpec) old fs))
        (validate V (flattenToFieldPaths newSpec) existingFields OperationUpdate fs pointers))"

text \<open>For a raw map no pointers are collected.\<close>

definition ValidateUpdate :: "validator \<Rightarrow> members \<Rightarrow> members \<Rightarrow> string \<Rightarrow> check_error list option" where
  "ValidateUpdate V rawSpec existingSpec fs = validateUpdate V rawSpec {} rawSpec (Some existingSpec) fs"

definition ValidateUpdateWithRawSpec ::
  "validator \<Rightarrow> members \<Rightarrow> string set \<Rightarrow> members \<Rightarrow> members option \<Rightarrow> string \<Rightarrow> check_error list option" where
  "ValidateUpdateWithRawSpec V newSpec pointers rawSpec existingSpec fs =
     (if rawSpec = [] then Some [FieldRejected ''spec'' ''raw spec is required for update validation'']
      else validateUpdate V newSpec pointers rawSpec existingSpec fs)"

section \<open>Preserving service-set fields\<close>

fun lookupPath :: "members \<Rightarrow> string list \<Rightarrow> json option" where
  "lookupPath m [] = Some (JObj m)"
| "lookupPath m [key] = map_of m key"
| "lookupPath m (key # keys) = (case map_of m key of Some (JObj child) \<Rightarrow> lookupPath child keys | _ \<Rightarrow> None)"

fun setPath :: "members \<Rightarrow> string list \<Rightarrow> json \<Rightarrow> bool \<Rightarrow> members option" where
  "setPath m [] val isPresent = Some m"
| "setPath m [key] val isPresent = Some (if isPresent then AList.update key val m else AList.delete key m)"
| "setPath m (key # keys) val isPresent =
     (case map_of m key of
        None \<Rightarrow> if isPresent then map_option (\<lambda>c. AList.update key (JObj c) m) (setPath [] keys val isPresent) else Some m
      | Some JNull \<Rightarrow>
          if isPresent then map_option (\<lambda>c. AList.update key (JObj c) m) (setPath [] keys val isPresent) else Some m
      | Some (JObj child) \<Rightarrow> map_option (\<lambda>c. AList.update key (JObj c) m) (setPath child keys val isPresent)
      | Some _ \<Rightarrow> None)"

definition preserve_field :: "registry \<Rightarrow> members \<Rightarrow> string \<Rightarrow> string \<times> FieldMeta \<Rightarrow> members option \<Rightarrow> members option" where
  "preserve_field reg want fs entry got =
     (case (entry, got) of
        (_, None) \<Rightarrow> None
      | ((path, meta), Some m) \<Rightarrow>
          if effectiveWriteMode meta fs \<noteq> ServiceSet \<or> isStructuralContainer path reg then Some m
          else let keys = split_on (CHR ''.'') (trim_prefix path ''spec.'');
                   stored = lookupPath want keys; current = lookupPath m keys in
            if (stored = None) = (current = None) \<and>
               (case (stored, current) of (Some a, Some b) \<Rightarrow> DeepEqual a b | _ \<Rightarrow> True) then Some m
            else setPath m keys (case stored of None \<Rightarrow> JNull | Some v \<Rightarrow> v) (stored \<noteq> None))"

definition PreserveServiceSet :: "registry \<Rightarrow> string \<Rightarrow> members \<Rightarrow> members \<Rightarrow> members option" where
  "PreserveServiceSet reg fs candidate stored = fold (preserve_field reg stored fs) reg (Some candidate)"

section \<open>Fields of a request\<close>

fun hasJSONFieldPath :: "json \<Rightarrow> string list \<Rightarrow> bool" where
  "hasJSONFieldPath val [] = True"
| "hasJSONFieldPath (JObj flds) (part # parts) =
     list_ex (\<lambda>(name, child). equal_fold name part \<and> hasJSONFieldPath child parts) flds"
| "hasJSONFieldPath _ (part # parts) = False"

definition HasJSONField :: "members \<Rightarrow> string \<Rightarrow> bool" where
  "HasJSONField object fieldPath =
     (if fieldPath = [] then False
      else let parts = split_on (CHR ''.'') fieldPath in
           if [] \<in> set parts then False else hasJSONFieldPath (JObj object) parts)"

end
