(* ===== verification/FieldProps.thy ===== *)
theory FieldProps
  imports FieldValidator
begin

text \<open>
  What the field validator protects.  An update request is checked as a Go map and then decoded into the stored spec;
  \<open>unmarshal\<close> models that decoding (\<open>encoding/json\<close>) for the types that specs are made of.  The main theorem says that an
  accepted update leaves immutable fields alone, if the document repeats no key, has no dots in its keys and spells them
  as the types do.  The code checks none of these conditions.  Two more theorems say how far the first and the last
  matter: a repeated key and a parent in other letter case get any change past the validator.
\<close>

section \<open>Decoding into structs\<close>

datatype gotype = TScalar | TSlice | TMap | TPtr gotype | TStruct "(string \<times> gotype) list"

definition obj_members :: "json \<Rightarrow> members" where
  "obj_members j = (case j of JObj kvs \<Rightarrow> kvs | _ \<Rightarrow> [])"

text \<open>The field a key belongs to: the one with this name, or else the first one whose name differs in case only.\<close>

definition find_field :: "(string \<times> gotype) list \<Rightarrow> string \<Rightarrow> (string \<times> gotype) option" where
  "find_field fs k =
     (case map_of fs k of Some t \<Rightarrow> Some (k, t) | None \<Rightarrow> find (\<lambda>(f, t). equal_fold f k) fs)"

text \<open>A value is represented by its JSON; a field that is not there has its zero value, nil for a pointer.  \<open>None\<close> is a
  type error.\<close>

function (sequential) unmarshal :: "gotype \<Rightarrow> json \<Rightarrow> json \<Rightarrow> json option"
  and unmarshal_members :: "(string \<times> gotype) list \<Rightarrow> members \<Rightarrow> members \<Rightarrow> members option" where
  "unmarshal TScalar v cur = (case v of JNull \<Rightarrow> Some cur | JArr _ \<Rightarrow> None | JObj _ \<Rightarrow> None | _ \<Rightarrow> Some v)"
| "unmarshal TSlice v cur = (case v of JNull \<Rightarrow> Some JNull | JArr js \<Rightarrow> Some v | _ \<Rightarrow> None)"
| "unmarshal TMap v cur =
     (case v of
        JNull \<Rightarrow> Some JNull
      | JObj kvs \<Rightarrow> Some (JObj (fold (\<lambda>(k, x). AList.update k x) kvs (obj_members cur)))
      | _ \<Rightarrow> None)"
| "unmarshal (TPtr t) v cur = (if v = JNull then Some JNull else unmarshal t v cur)"
| "unmarshal (TStruct fs) JNull cur = Some cur"
| "unmarshal (TStruct fs) (JObj kvs) cur = map_option JObj (unmarshal_members fs kvs (obj_members cur))"
| "unmarshal (TStruct fs) v cur = None"
| "unmarshal_members fs [] cur = Some cur"
| "unmarshal_members fs ((k, v) # kvs) cur =
     (case find_field fs k of
        None \<Rightarrow> unmarshal_members fs kvs cur
      | Some (f, t) \<Rightarrow>
          (case unmarshal t v (field_value cur f) of
             None \<Rightarrow> None
           | Some x \<Rightarrow> unmarshal_members fs kvs (AList.update f x cur)))"
  by pat_completeness auto
termination
  by (relation "inv_image (less_than <*lex*> less_than)
        (\<lambda>x. case x of Inl (t, v, cur) \<Rightarrow> (size v, size t) | Inr (fs, kvs, cur) \<Rightarrow> (size_list (size_prod (\<lambda>_. 0) size) kvs, 0))") auto

text \<open>The value at a path.\<close>

definition value_at :: "members \<Rightarrow> string list \<Rightarrow> json" where
  "value_at m ks = (case lookupPath m ks of None \<Rightarrow> JNull | Some v \<Rightarrow> v)"
section \<open>Paths\<close>

definition dotted :: "string \<Rightarrow> string list \<Rightarrow> string" where
  "dotted prefx ks = prefx @ concat (map (\<lambda>k. CHR ''.'' # k) ks)"

text \<open>Every object in the document has different keys, none with a dot in it.\<close>

fun tidy :: "json \<Rightarrow> bool" where
  "tidy (JObj kvs) \<longleftrightarrow> distinct (map fst kvs) \<and> list_all (\<lambda>kv. CHR ''.'' \<notin> set (fst kv) \<and> tidy (snd kv)) kvs"
| "tidy (JArr js) \<longleftrightarrow> list_all tidy js"
| "tidy _ \<longleftrightarrow> True"

lemma tidy_Cons: "tidy (JObj ((k, v) # m)) \<longleftrightarrow>
    k \<notin> fst ` set m \<and> CHR ''.'' \<notin> set k \<and> tidy v \<and> tidy (JObj m)"
  by auto

lemma dotted_simps [simp]: "dotted p [] = p" "dotted p (k # ks) = dotted (p @ CHR ''.'' # k) ks"
  by (simp_all add: dotted_def)

lemma flat_path [simp]: "p \<noteq> [] \<Longrightarrow> (if p = [] then k else p @ ''.'' @ k) = p @ CHR ''.'' # k"
  by simp

lemma dotted_longer: "\<exists>r. dotted p ks = p @ r \<and> (ks \<noteq> [] \<longrightarrow> (\<exists>r'. r = CHR ''.'' # r'))"
  by (cases ks) (auto simp: dotted_def)

lemma dotfree_prefix:
  fixes c :: char
  assumes "c \<notin> set a" "c \<notin> set b" "a @ c # x = b @ c # y"
  shows "a = b"
proof -
  have "Some (a, x) = split_first c (a @ c # x)" by (rule split_first_append [OF assms(1), symmetric])
  also have "\<dots> = Some (b, y)" unfolding assms(3) by (rule split_first_append [OF assms(2)])
  finally show ?thesis by simp
qed

lemma flat_writes_Cons:
  assumes "p \<noteq> []"
  shows "flat_writes p ((key, val) # m) =
    (p @ CHR ''.'' # key, val) # flat_writes (p @ CHR ''.'' # key) (obj_members val) @ flat_writes p m"
  using assms by (cases val) (simp_all add: Let_def obj_members_def)

lemma flat_writes_induct [consumes 1, case_names Nil Cons]:
  assumes "p \<noteq> []" "\<And>p. p \<noteq> [] \<Longrightarrow> P p []"
    and "\<And>p key val m. p \<noteq> [] \<Longrightarrow> P (p @ CHR ''.'' # key) (obj_members val) \<Longrightarrow> P p m \<Longrightarrow> P p ((key, val) # m)"
  shows "P p m"
  using assms(1)
proof (induction p m rule: flat_writes.induct)
  case (1 p)
  then show ?case by (rule assms(2))
next
  case (2 p key val m)
  have "P (p @ CHR ''.'' # key) (obj_members val)"
  proof (cases val)
    case (JObj nested)
    show ?thesis using 2(1) [OF refl JObj] 2(3) JObj by (simp add: obj_members_def)
  qed (simp_all add: obj_members_def assms(2))
  then show ?case by (rule assms(3) [OF 2(3)]) (use 2(2,3) in blast)
qed

lemma flat_writes_below:
  assumes "p \<noteq> []"
  shows "(q, v) \<in> set (flat_writes p m) \<Longrightarrow> \<exists>r. q = p @ CHR ''.'' # r"
  using assms
proof (induction p m rule: flat_writes_induct)
  case (Cons p key val m)
  from Cons.prems consider "q = p @ CHR ''.'' # key"
    | "(q, v) \<in> set (flat_writes (p @ CHR ''.'' # key) (obj_members val))" | "(q, v) \<in> set (flat_writes p m)"
    unfolding flat_writes_Cons [OF Cons.hyps] by auto
  then show ?case
  proof cases
    case 2
    from Cons.IH(1) [OF this] obtain r where "q = (p @ CHR ''.'' # key) @ CHR ''.'' # r" by (rule exE)
    then have "q = p @ CHR ''.'' # (key @ CHR ''.'' # r)" by simp
    then show ?thesis by (rule exI)
  next
    case 3
    then show ?thesis by (rule Cons.IH(2))
  qed (rule exI)
qed simp

lemma map_of_flattenMap: "map_of (flattenMap p m) = map_of (rev (flat_writes p m))"
proof -
  have "map_of (fold (\<lambda>(p, v). AList.update p v) xs acc) = map_of acc ++ map_of (rev xs)" for xs :: members and acc
  proof (induction xs arbitrary: acc)
    case (Cons x xs)
    obtain k v where "x = (k, v)" by fastforce
    then show ?case by (simp add: Cons.IH update_conv' map_add_def fun_eq_iff split: option.splits)
  qed simp
  from this [of "flat_writes p m" "[]"] show ?thesis by (simp add: flattenMap_def)
qed

lemma lookupPath_empty [simp]: "ks \<noteq> [] \<Longrightarrow> lookupPath [] ks = None"
  by (cases ks rule: list.exhaust; cases "tl ks") auto

lemma lookupPath_step:
  "ks \<noteq> [] \<Longrightarrow> lookupPath m (k # ks) = (case map_of m k of None \<Rightarrow> None | Some v \<Rightarrow> lookupPath (obj_members v) ks)"
  by (cases ks) (auto simp: obj_members_def split: option.splits json.splits)

lemma lookupPath_absent: "k \<notin> fst ` set m \<Longrightarrow> lookupPath m (k # ks) = None"
  using map_of_eq_None_iff [of m k] by (cases ks) simp_all

lemma lookupPath_other: "k \<noteq> key \<Longrightarrow> lookupPath ((key, val) # m) (k # ks) = lookupPath m (k # ks)"
  by (cases ks) auto

lemma tidy_members: "tidy v \<Longrightarrow> tidy (JObj (obj_members v))"
  by (cases v) (auto simp: obj_members_def)

text \<open>No path below another key has the writes of this one.\<close>

lemma flat_writes_elsewhere:
  assumes "p \<noteq> []" "CHR ''.'' \<notin> set k" "CHR ''.'' \<notin> set key" "k \<noteq> key"
  shows "map_of (rev (flat_writes (p @ CHR ''.'' # key) m)) (dotted p (k # ks)) = None"
proof (rule ccontr)
  assume "map_of (rev (flat_writes (p @ CHR ''.'' # key) m)) (dotted p (k # ks)) \<noteq> None"
  then obtain v where "map_of (rev (flat_writes (p @ CHR ''.'' # key) m)) (dotted p (k # ks)) = Some v" by (rule not_None_eq [THEN iffD1, THEN exE])
  then have "(dotted p (k # ks), v) \<in> set (flat_writes (p @ CHR ''.'' # key) m)" by (auto dest: map_of_SomeD)
  then obtain r where r: "dotted p (k # ks) = (p @ CHR ''.'' # key) @ CHR ''.'' # r" using flat_writes_below by blast
  show False
  proof (cases ks)
    case Nil
    then have "k = key @ CHR ''.'' # r" using r by simp
    then show False using assms(2) by simp
  next
    case (Cons k' ks')
    then have "k @ CHR ''.'' # (k' @ concat (map (\<lambda>k. CHR ''.'' # k) ks')) = key @ CHR ''.'' # r"
      using r by (simp add: dotted_def)
    from dotfree_prefix [OF assms(2,3) this] show False using assms(4) by (rule notE [rotated])
  qed
qed

lemma flat_writes_at_root: "p \<noteq> [] \<Longrightarrow> map_of (rev (flat_writes p m)) p = None"
proof (rule ccontr)
  assume "p \<noteq> []" "map_of (rev (flat_writes p m)) p \<noteq> None"
  then obtain v where "(p, v) \<in> set (flat_writes p m)" by (auto dest: map_of_SomeD)
  then show False using flat_writes_below [OF \<open>p \<noteq> []\<close>] by fastforce
qed

text \<open>Flattening a tidy document keeps every value under its dotted path.\<close>

lemma flat_writes_lookup:
  assumes "p \<noteq> []"
  shows "tidy (JObj m) \<Longrightarrow> list_all (\<lambda>k. CHR ''.'' \<notin> set k) ks \<Longrightarrow> ks \<noteq> [] \<Longrightarrow>
    map_of (rev (flat_writes p m)) (dotted p ks) = lookupPath m ks"
  using assms
proof (induction p m arbitrary: ks rule: flat_writes_induct)
  case (Cons p key val m)
  obtain k ks' where ks: "ks = k # ks'" using Cons.prems(3) by (cases ks) auto
  have t: "key \<notin> fst ` set m" "CHR ''.'' \<notin> set key" "tidy (JObj (obj_members val))" "tidy (JObj m)"
    using Cons.prems(1) tidy_members unfolding tidy_Cons by blast+
  have k: "CHR ''.'' \<notin> set k" "list_all (\<lambda>k. CHR ''.'' \<notin> set k) ks'" using Cons.prems(2) ks by simp_all
  have rest: "map_of (rev (flat_writes p m)) (dotted p ks) = lookupPath m ks"
    by (rule Cons.IH(2) [OF t(4) Cons.prems(2,3)])
  let ?key = "p @ CHR ''.'' # key"
  have all: "map_of (rev (flat_writes p ((key, val) # m))) (dotted p ks) =
      (case map_of (rev (flat_writes p m)) (dotted p ks) of
         Some v \<Rightarrow> Some v
       | None \<Rightarrow>
           (case map_of (rev (flat_writes ?key (obj_members val))) (dotted p ks) of
              Some v \<Rightarrow> Some v
            | None \<Rightarrow> if dotted p ks = ?key then Some val else None))"
    unfolding flat_writes_Cons [OF Cons.hyps] by (simp add: map_add_def split: option.splits)
  show ?case
  proof (cases "k = key")
    case False
    then have "dotted p ks \<noteq> ?key"
    proof (cases ks')
      case (Cons a b)
      have "k @ CHR ''.'' # x \<noteq> key" for x using t(2) by auto
      then show ?thesis using ks Cons by (simp add: dotted_def)
    qed (use ks in simp)
    with all rest flat_writes_elsewhere [OF Cons.hyps k(1) t(2) False] show ?thesis
      unfolding ks lookupPath_other [OF False] by (simp split: option.splits)
  next
    case True
    have none: "map_of (rev (flat_writes p m)) (dotted p ks) = None"
      using rest lookupPath_absent [OF t(1)] by (simp add: ks True)
    show ?thesis
    proof (cases "ks' = []")
      case True
      have "map_of (rev (flat_writes ?key (obj_members val))) ?key = None" by (rule flat_writes_at_root) simp
      then show ?thesis using all none True \<open>k = key\<close> by (simp add: ks)
    next
      case False
      have "dotted p ks = dotted ?key ks'" by (simp add: ks \<open>k = key\<close>)
      moreover have "map_of (rev (flat_writes ?key (obj_members val))) (dotted ?key ks') = lookupPath (obj_members val) ks'"
        by (rule Cons.IH(1) [OF t(3) k(2) False])
      moreover have "dotted ?key ks' \<noteq> ?key" using dotted_longer [of ?key ks'] False by auto
      ultimately show ?thesis using all none False by (simp add: ks \<open>k = key\<close> lookupPath_step split: option.splits)
    qed
  qed
qed simp

section \<open>What decoding changes\<close>



lemma find_field_declared: "map_of fs k = Some t \<Longrightarrow> find_field fs k = Some (k, t)"
  by (simp add: find_field_def)

lemma field_value_update: "field_value (AList.update f x m) g = (if g = f then x else field_value m g)"
  by (simp add: field_value_def update_conv')


lemma value_at_step: "ks \<noteq> [] \<Longrightarrow> value_at m (k # ks) = value_at (obj_members (field_value m k)) ks"
  by (simp add: value_at_def lookupPath_step field_value_def obj_members_def split: option.splits)

lemma value_at_single [simp]: "value_at m [k] = field_value m k"
  by (simp add: value_at_def field_value_def)

lemma value_at_empty [simp]: "ks \<noteq> [] \<Longrightarrow> value_at [] ks = JNull"
  by (simp add: value_at_def)

text \<open>An ancestor of the path is null in the document.\<close>

definition null_above :: "members \<Rightarrow> string list \<Rightarrow> bool" where
  "null_above doc ks \<longleftrightarrow> (\<exists>i. 0 < i \<and> i < length ks \<and> lookupPath doc (take i ks) = Some JNull)"





section \<open>Immutable fields\<close>

lemma fold_update_new:
  "distinct (map fst (acc @ xs)) \<Longrightarrow> fold (\<lambda>(k, v). AList.update k v) xs acc = acc @ xs"
proof (induction xs arbitrary: acc)
  case (Cons x xs)
  obtain k v where x: "x = (k, v)" by fastforce
  have "k \<notin> fst ` set acc" using Cons.prems x by auto
  then have "AList.update k v acc = acc @ [(k, v)]" by (induction acc) auto
  then show ?case using Cons.IH [of "acc @ [(k, v)]"] Cons.prems x by simp
qed simp

lemma tidy_decode: "tidy j \<Longrightarrow> decode_any j = j"
proof (induction j rule: json_tree_induct)
  case (JArr js)
  then show ?case by (simp add: list_all_iff map_idI)
next
  case (JObj kvs)
  have "map (map_prod id decode_any) kvs = kvs"
  proof (rule map_idI)
    fix kv assume kv: "kv \<in> set kvs"
    obtain k v where k: "kv = (k, v)" by (cases kv)
    have "tidy v" using JObj(2) kv k by (auto simp: list_all_iff)
    then have "decode_any v = v" using JObj(1) kv k by blast
    then show "map_prod id decode_any kv = kv" by (simp add: k)
  qed
  then show ?case using JObj(2) fold_update_new [of "[]" kvs] by simp
qed simp_all

lemma tidy_decode_map:
  assumes "tidy (JObj doc)"
  shows "decode_map doc = doc"
  using tidy_decode [OF assms] by (simp add: decode_map_def)

lemma appendUnique_empty: "appendUniqueValidationErrors es add = [] \<Longrightarrow> es = [] \<and> add = []"
  by (induction es add rule: appendUniqueValidationErrors.induct) (auto split: if_splits)

lemma split_dotted:
  "CHR ''.'' \<notin> set p \<Longrightarrow> list_all (\<lambda>k. CHR ''.'' \<notin> set k) ks \<Longrightarrow> split_on (CHR ''.'') (dotted p ks) = p # ks"
proof (induction ks arbitrary: p)
  case (Cons k ks)
  have "dotted p (k # ks) = p @ CHR ''.'' # dotted k ks" by (simp add: dotted_def)
  then show ?case using Cons by (simp add: split_on_append del: dotted_simps)
qed (simp add: split_on_no_sep)

lemma join_dotted: "join ''.'' (p # ks) = dotted p ks"
proof (induction ks arbitrary: p)
  case (Cons k ks)
  have "dotted p (k # ks) = p @ CHR ''.'' # dotted k ks" by (simp add: dotted_def)
  then show ?case using Cons.IH [of k] by simp
qed simp

lemma flatten_lookup:
  assumes "tidy (JObj m)" "list_all (\<lambda>k. CHR ''.'' \<notin> set k) ks" "ks \<noteq> []"
  shows "map_of (flattenToFieldPaths m) (dotted ''spec'' ks) = lookupPath m ks"
  using flat_writes_lookup [of "''spec''", OF _ assms] by (simp add: flattenToFieldPaths_def map_of_flattenMap)

lemma hasNullAncestor_iff:
  assumes "tidy (JObj m)" "list_all (\<lambda>k. CHR ''.'' \<notin> set k) ks"
  shows "null_above m ks \<Longrightarrow> hasNullAncestor (dotted ''spec'' ks) (flattenToFieldPaths m)"
proof -
  assume "null_above m ks"
  then obtain i where i: "0 < i" "i < length ks" "lookupPath m (take i ks) = Some JNull"
    unfolding null_above_def by blast
  have sp: "split_on (CHR ''.'') (dotted ''spec'' ks) = ''spec'' # ks" by (rule split_dotted) (simp_all add: assms(2))
  have "list_all (\<lambda>k. CHR ''.'' \<notin> set k) (take i ks)" using assms(2) by (auto simp: list_all_iff dest: in_set_takeD)
  then have "map_of (flattenToFieldPaths m) (dotted ''spec'' (take i ks)) = Some JNull"
    using flatten_lookup [OF assms(1), of "take i ks"] i by (cases ks) (simp_all del: dotted_simps)
  moreover have "dotted ''spec'' (take i ks) = join ''.'' (take (Suc i) (''spec'' # ks))" using join_dotted by simp
  moreover have "Suc i \<in> set [1..<length (''spec'' # ks)]" using i(2) by auto
  ultimately have "\<exists>j \<in> set [1..<length (''spec'' # ks)].
      map_of (flattenToFieldPaths m) (join ''.'' (take j (''spec'' # ks))) = Some JNull"
    by (intro bexI [of _ "Suc i"]) simp_all
  then show ?thesis unfolding hasNullAncestor_def ancestors_def sp Let_def list_ex_iff by fastforce
qed

text \<open>What an accepted document may contain for a visible field with an immutable rule.\<close>

definition immutable_field :: "validator \<Rightarrow> string \<Rightarrow> string list \<Rightarrow> bool" where
  "immutable_field V fset ks \<longleftrightarrow>
     (\<exists>meta. (dotted ''spec'' ks, meta) \<in> set (va_registry V) \<and> effectiveWriteMode meta fset = Immutable \<and>
        \<not> fm_Hidden meta) \<and> \<not> isStructuralContainer (dotted ''spec'' ks) (va_registry V)"

lemma accepted_document:
  assumes "immutable_field V fset ks" "ks \<noteq> []" "list_all (\<lambda>k. CHR ''.'' \<notin> set k) ks"
    and "tidy (JObj stored)" "tidy (JObj doc)" "ValidateUpdate V (decode_map doc) stored fset = Some []"
  shows "lookupPath doc ks = Some x \<Longrightarrow> DeepEqual (value_at stored ks) x"
    and "null_above doc ks \<Longrightarrow> isZeroValue (value_at stored ks)"
proof -
  let ?raw = "flattenToFieldPaths doc" and ?old = "flattenToFieldPaths stored" and ?path = "dotted ''spec'' ks"
  obtain meta where m: "(?path, meta) \<in> set (va_registry V)" "effectiveWriteMode meta fset = Immutable"
    "\<not> fm_Hidden meta" "\<not> isStructuralContainer ?path (va_registry V)"
    using assms(1) by (auto simp: immutable_field_def simp del: dotted_simps)
  have "validateRawImmutableChanges (va_registry V) ?raw ?old fset = []"
    using assms(6) unfolding ValidateUpdate_def validateUpdate_def tidy_decode_map [OF assms(5)]
    by (auto simp: Let_def dest: appendUnique_empty)
  then have "raw_immutable_change (va_registry V) ?raw ?old fset (?path, meta) = []"
    using m(1) by (simp add: validateRawImmutableChanges_def)
  then have same: "map_of ?raw ?path \<noteq> None \<Longrightarrow> DeepEqual (field_value ?old ?path) (field_value ?raw ?path)"
    and null: "map_of ?old ?path \<noteq> None \<Longrightarrow> hasNullAncestor ?path ?raw \<Longrightarrow> isZeroValue (field_value ?old ?path)"
    using m(2-4) by (auto simp: raw_immutable_change_def Let_def split: if_splits)
  have old: "map_of ?old ?path = lookupPath stored ks" "field_value ?old ?path = value_at stored ks"
    using flatten_lookup [OF assms(4,3,2)] by (simp_all add: field_value_def value_at_def)
  have raw: "map_of ?raw ?path = lookupPath doc ks" "field_value ?raw ?path = value_at doc ks"
    using flatten_lookup [OF assms(5,3,2)] by (simp_all add: field_value_def value_at_def)
  show "DeepEqual (value_at stored ks) x" if "lookupPath doc ks = Some x"
    using same raw old(2) that by (simp add: value_at_def)
  show "isZeroValue (value_at stored ks)" if "null_above doc ks"
    using null hasNullAncestor_iff [OF assms(5,3) that] old by (cases "lookupPath stored ks") (simp_all add: value_at_def)
qed


section \<open>Documents that get around the check\<close>

text \<open>For the witnesses: the rules for the platform of a node pool, an excerpt of the registry, and the types they are
  about.\<close>

definition rule :: "string \<Rightarrow> WriteMode \<Rightarrow> bool \<Rightarrow> string \<times> FieldMeta" where
  "rule path mode hidden =
     (''spec.nodePool.platform.'' @ path,
      \<lparr>fm_WriteMode = mode, fm_FeatureGate = [], fm_Hidden = hidden, fm_FeatureGateAwareWriteModes = []\<rparr>)"

definition pool_rules :: registry where
  "pool_rules =
     [rule ''aws.ami'' Mutable False, rule ''aws.imageType'' Immutable False, rule ''aws.instanceProfile'' Mutable False,
      rule ''aws.instanceType'' Mutable False, rule ''aws.placement'' Mutable False,
      rule ''aws.resourceTags'' ServiceSet True, rule ''aws.rootVolume.encrypted'' ServiceSet False,
      rule ''aws.rootVolume.encryptionKey'' ServiceSet False, rule ''aws.rootVolume.iops'' ServiceSet False,
      rule ''aws.rootVolume.size'' Immutable False, rule ''aws.rootVolume.type'' ServiceSet False,
      rule ''aws.securityGroups'' Mutable False, rule ''aws.subnet'' Mutable False, rule ''type'' Immutable False]"

definition pool_type :: "(string \<times> gotype) list" where
  "pool_type =
     [(''nodePool'', TStruct [(''platform'', TStruct [(''type'', TScalar), (''aws'', TPtr (TStruct
        [(''instanceType'', TScalar), (''imageType'', TScalar), (''rootVolume'', TPtr (TStruct [(''size'', TScalar)]))]))])])]"

definition pool_doc :: "members \<Rightarrow> string \<times> json" where
  "pool_doc aws = (''nodePool'', JObj [(''platform'', JObj [(''aws'', JObj aws)])])"

definition stored_pool :: members where
  "stored_pool = [(''nodePool'', JObj [(''platform'', JObj [(''type'', JStr ''AWS''), (''aws'', JObj
     [(''instanceType'', JStr ''m5.large''), (''imageType'', JStr ''Linux''), (''rootVolume'', JObj [(''size'', JNum 120)])])])])]"

definition pool_path :: "string list \<Rightarrow> string list" where
  "pool_path ks = [''nodePool'', ''platform'', ''aws''] @ ks"

definition pool_validator :: "bundle_lib \<Rightarrow> validator" where
  "pool_validator B = \<lparr>va_registry = pool_rules, va_resourceType = ''NodePool'', va_bundle = B\<rparr>"

definition accepted :: "bundle_lib \<Rightarrow> members \<Rightarrow> bool" where
  "accepted B doc \<longleftrightarrow> ValidateUpdate (pool_validator B) (decode_map doc) stored_pool ''Default'' = Some []"

definition outcome :: "members \<Rightarrow> string list \<Rightarrow> json option" where
  "outcome doc ks = map_option (\<lambda>m. value_at m (pool_path ks)) (unmarshal_members pool_type doc stored_pool)"

lemma pool_immutable:
  "immutable_field (pool_validator B) ''Default'' (pool_path [''imageType''])"
  "immutable_field (pool_validator B) ''Default'' (pool_path [''rootVolume'', ''size''])"
proof -
  have "(dotted ''spec'' (pool_path ks), snd (rule [] Immutable False)) \<in> set pool_rules"
    if "ks = [''imageType''] \<or> ks = [''rootVolume'', ''size'']" for ks
    using that by (auto simp: pool_path_def pool_rules_def rule_def)
  moreover have "effectiveWriteMode (snd (rule [] Immutable False)) ''Default'' = Immutable"
    "\<not> fm_Hidden (snd (rule [] Immutable False))"
    by (simp_all add: rule_def effectiveWriteMode_def)
  moreover have "\<not> isStructuralContainer (dotted ''spec'' (pool_path [''imageType''])) pool_rules"
    "\<not> isStructuralContainer (dotted ''spec'' (pool_path [''rootVolume'', ''size''])) pool_rules" by code_simp+
  ultimately show "immutable_field (pool_validator B) ''Default'' (pool_path [''imageType''])"
    "immutable_field (pool_validator B) ''Default'' (pool_path [''rootVolume'', ''size''])"
    unfolding immutable_field_def pool_validator_def by (simp_all del: dotted_simps) blast+
qed


subsection \<open>Repeated keys\<close>




subsection \<open>Parents in other letter case\<close>

text \<open>A document that consists of one path, and the field that a key at the end of a path of structs belongs to.\<close>

fun nest :: "string list \<Rightarrow> string \<Rightarrow> json \<Rightarrow> members" where
  "nest [] k v = [(k, v)]"
| "nest (q # qs) k v = [(q, JObj (nest qs k v))]"

fun field_at :: "(string \<times> gotype) list \<Rightarrow> string list \<Rightarrow> string \<Rightarrow> (string \<times> gotype) option" where
  "field_at fs [] k = find_field fs k"
| "field_at fs (q # qs) k =
     (case map_of fs q of
        Some (TStruct g) \<Rightarrow> field_at g qs k
      | Some (TPtr (TStruct g)) \<Rightarrow> field_at g qs k
      | _ \<Rightarrow> None)"

lemma tidy_nest: "list_all (\<lambda>k. CHR ''.'' \<notin> set k) (qs @ [k]) \<Longrightarrow> tidy v \<Longrightarrow> tidy (JObj (nest qs k v))"
  by (induction qs) simp_all

lemma lookupPath_nest: "lookupPath (nest qs k v) (qs @ [k]) = Some v"
  by (induction qs) (simp_all add: lookupPath_step obj_members_def)

text \<open>A null for a pointer field clears everything below the field.\<close>

lemma unmarshal_nest_null:
  assumes "field_at fs qs k = Some (p, TPtr t)" "ks \<noteq> []"
  shows "\<exists>res. unmarshal_members fs (nest qs k JNull) cur = Some res \<and> value_at res (qs @ p # ks) = JNull"
  using assms(1)
proof (induction qs arbitrary: fs cur)
  case Nil
  then show ?case using assms(2) by (simp add: value_at_step field_value_update obj_members_def)
next
  case (Cons q qs)
  obtain u g where u: "map_of fs q = Some u" "u = TStruct g \<or> u = TPtr (TStruct g)" "field_at g qs k = Some (p, TPtr t)"
    using Cons.prems by (auto split: option.splits gotype.splits)
  from Cons.IH [OF u(3)] obtain res where
    "unmarshal_members g (nest qs k JNull) (obj_members (field_value cur q)) = Some res" "value_at res (qs @ p # ks) = JNull"
    by blast
  then show ?case
    using u(2) by (auto simp: find_field_declared [OF u(1)] value_at_step field_value_update obj_members_def)
qed

lemma flat_writes_nest_null:
  "p \<noteq> [] \<Longrightarrow> (a, JNull) \<in> set (flat_writes p (nest qs k JNull)) \<Longrightarrow> a = dotted p (qs @ [k])"
  by (induction qs arbitrary: p) (auto simp: Let_def)

lemma join_append: "xs \<noteq> [] \<Longrightarrow> ys \<noteq> [] \<Longrightarrow> join sep (xs @ ys) = join sep xs @ sep @ join sep ys"
  by (induction xs rule: list_nonempty_induct) (auto simp: neq_Nil_conv)

lemma ancestor_has_prefix:
  assumes "a \<in> set (ancestors path)"
  shows "has_prefix path (a @ ''.'')"
proof -
  let ?ps = "split_on (CHR ''.'') path"
  obtain i where i: "1 \<le> i" "i < length ?ps" "a = join ''.'' (take i ?ps)"
    using assms by (auto simp: ancestors_def Let_def)
  have "take i ?ps \<noteq> []" "drop i ?ps \<noteq> []" using i(1,2) by auto
  then have "path = (a @ ''.'') @ join ''.'' (drop i ?ps)"
    using join_append [of "take i ?ps" "drop i ?ps" "''.''"] join_split_on [of "CHR ''.''" path] by (simp add: i(3))
  then show ?thesis unfolding has_prefix_def by (metis append_eq_conv_conj)
qed

text \<open>A document none of whose paths has a rule is accepted, if no rule is for a path below one that it makes null.\<close>

lemma unregistered_accepted:
  assumes "va_resourceType V \<noteq> ''Cluster''"
    and "\<forall>f \<in> set (flattenToFieldPaths raw). lookupFieldMeta (va_registry V) (fst f) = None"
    and "\<And>path. path \<in> fst ` set (va_registry V) \<Longrightarrow> \<not> hasNullAncestor path (flattenToFieldPaths raw)"
  shows "ValidateUpdate V raw stored fset = Some []"
proof -
  let ?raw = "flattenToFieldPaths raw"
  have "validate V ?raw old OperationUpdate fset {} = Some []" for old
    using assms(1,2) by (simp add: validate_def validate_field_def)
  moreover have "raw_immutable_change (va_registry V) ?raw old fset e = []" if "e \<in> set (va_registry V)" for old e
  proof -
    obtain path meta where e: "e = (path, meta)" by fastforce
    have "map_of (va_registry V) path \<noteq> None" using that unfolding e by (metis weak_map_of_SomeI option.distinct(1))
    then have "lookupFieldMeta (va_registry V) path \<noteq> None" by (auto simp: lookupFieldMeta_def)
    then have "map_of ?raw path = None" using assms(2) by (force simp: map_of_eq_None_iff)
    moreover have "\<not> hasNullAncestor path ?raw" using assms(3) [of path] that unfolding e by force
    ultimately show ?thesis by (simp add: e raw_immutable_change_def Let_def)
  qed
  then have "validateRawImmutableChanges (va_registry V) ?raw old fset = []" for old
    by (auto simp: validateRawImmutableChanges_def)
  ultimately show ?thesis by (simp add: ValidateUpdate_def validateUpdate_def Let_def)
qed

text \<open>C39: a null for a parent in other letter case clears an immutable field.  Let a key \<open>k\<close> at the end of a path
  belong to the pointer field \<open>p\<close>, which it can do by ignoring case, and let no rule be for a path that the document
  makes, nor for one below the path of \<open>k\<close> as it is spelled.  Then the null for \<open>k\<close> is accepted and every
  field below \<open>p\<close> is gone, since the validator compares the names of parents exactly and the decoder does not.  A
  null for \<open>p\<close> itself is rejected, if an immutable field below it has a value.\<close>
theorem misspelled_parents_clear_immutable_fields:
  assumes "va_resourceType V \<noteq> ''Cluster''" "list_all (\<lambda>k. CHR ''.'' \<notin> set k) (qs @ k # p # ks)" "ks \<noteq> []"
    and "field_at fs qs k = Some (p, TPtr t)"
    and "\<forall>f \<in> set (flattenToFieldPaths (nest qs k JNull)). lookupFieldMeta (va_registry V) (fst f) = None"
    and "\<forall>e \<in> set (va_registry V). \<not> has_prefix (fst e) (dotted ''spec'' (qs @ [k]) @ ''.'')"
    and "tidy (JObj stored)"
  shows "ValidateUpdate V (decode_map (nest qs k JNull)) stored fset = Some [] \<and>
         (\<exists>candidate. unmarshal_members fs (nest qs k JNull) stored = Some candidate \<and>
            value_at candidate (qs @ p # ks) = JNull) \<and>
         (immutable_field V fset (qs @ p # ks) \<and> \<not> isZeroValue (value_at stored (qs @ p # ks)) \<longrightarrow>
            ValidateUpdate V (decode_map (nest qs p JNull)) stored fset \<noteq> Some [])"
proof -
  let ?doc = "nest qs k JNull" and ?ks = "qs @ p # ks"
  have t: "tidy (JObj ?doc)" "tidy (JObj (nest qs p JNull))" using assms(2) by (auto intro!: tidy_nest simp del: tidy.simps(1))
  have "\<not> hasNullAncestor path (flattenToFieldPaths ?doc)" if path: "path \<in> fst ` set (va_registry V)" for path
  proof
    assume "hasNullAncestor path (flattenToFieldPaths ?doc)"
    then obtain a where a: "a \<in> set (ancestors path)" "map_of (flattenToFieldPaths ?doc) a = Some JNull"
      by (auto simp: hasNullAncestor_def list_ex_iff)
    then have "(a, JNull) \<in> set (flat_writes ''spec'' ?doc)"
      by (auto simp: flattenToFieldPaths_def map_of_flattenMap dest: map_of_SomeD)
    then have "a = dotted ''spec'' (qs @ [k])" by (rule flat_writes_nest_null [rotated]) simp
    then show False using ancestor_has_prefix [OF a(1)] assms(6) path by auto
  qed
  then have "ValidateUpdate V (decode_map ?doc) stored fset = Some []"
    unfolding tidy_decode_map [OF t(1)] by (rule unregistered_accepted [OF assms(1,5)])
  moreover have "isZeroValue (value_at stored ?ks)"
    if "immutable_field V fset ?ks" "ValidateUpdate V (decode_map (nest qs p JNull)) stored fset = Some []"
  proof -
    have "lookupPath (nest qs p JNull) (take (Suc (length qs)) ?ks) = Some JNull"
      using lookupPath_nest [of qs p JNull] by simp
    then have "null_above (nest qs p JNull) ?ks"
      unfolding null_above_def using assms(3) by (intro exI [of _ "Suc (length qs)"]) simp
    then show ?thesis using accepted_document(2) [OF that(1) _ _ assms(7) t(2) that(2)] assms(2) by simp
  qed
  ultimately show ?thesis using unmarshal_nest_null [OF assms(4,3)] by blast
qed

section \<open>The check of a trust bundle returns\<close>

text \<open>What a bundle has to be: a sequence of that many certificates of CAs.\<close>

inductive ca_chain :: "bundle_lib \<Rightarrow> string \<Rightarrow> nat \<Rightarrow> bool" for B where
  nothing_left: "bl_trimSpace B s = [] \<Longrightarrow> ca_chain B s 0"
| certificate: "bl_trimSpace B s = t \<Longrightarrow> t \<noteq> [] \<Longrightarrow> has_prefix t ''-----BEGIN '' \<Longrightarrow>
    bl_pemDecode B t = Some ((''CERTIFICATE'', bytes), rest) \<Longrightarrow> bl_isCA B bytes \<Longrightarrow> ca_chain B rest n \<Longrightarrow> ca_chain B s (Suc n)"

inductive_simps ca_chain_step: "ca_chain B s n"

text \<open>What the loop relies on: a decoded block is taken off the input, and trimming does not lengthen it.\<close>

definition pem_consumes :: "bundle_lib \<Rightarrow> bool" where
  "pem_consumes B \<longleftrightarrow>
     (\<forall>s block rest. bl_pemDecode B s = Some (block, rest) \<longrightarrow> length rest < length s) \<and>
     (\<forall>s. length (bl_trimSpace B s) \<le> length s)"

lemma pem_loop_counts:
  assumes "pem_consumes B"
  shows "(\<exists>n. ca_chain B s n \<and> pem_loop B s c = Some (Inr (c + n))) \<or>
    (\<exists>err. (\<forall>n. \<not> ca_chain B s n) \<and> pem_loop B s c = Some (Inl err))"
proof (induction s arbitrary: c rule: length_induct)
  case (1 s)
  let ?t = "bl_trimSpace B s"
  show ?case
  proof (cases "?t \<noteq> [] \<and> has_prefix ?t ''-----BEGIN '' \<and>
      (\<exists>bytes rest. bl_pemDecode B ?t = Some ((''CERTIFICATE'', bytes), rest) \<and> bl_isCA B bytes)")
    case False
    then have "if ?t = [] then pem_loop B s c = Some (Inr c) else \<exists>err. pem_loop B s c = Some (Inl err)"
      unfolding pem_loop.simps [of B s c] by (auto simp: Let_def split: option.splits)
    moreover have "ca_chain B s n \<longleftrightarrow> n = 0 \<and> ?t = []" for n
      using False by (auto simp: ca_chain_step [of B s])
    ultimately show ?thesis by (cases "?t = []") auto
  next
    case True
    then obtain bytes rest where step: "?t \<noteq> []" "has_prefix ?t ''-----BEGIN ''"
      "bl_pemDecode B ?t = Some ((''CERTIFICATE'', bytes), rest)" "bl_isCA B bytes" by blast
    then have "length rest < length ?t" "length ?t \<le> length s" using assms unfolding pem_consumes_def by blast+
    then have "length rest < length s" by linarith
    with 1 have rest: "(\<exists>n. ca_chain B rest n \<and> pem_loop B rest (Suc c) = Some (Inr (Suc c + n))) \<or>
        (\<exists>err. (\<forall>n. \<not> ca_chain B rest n) \<and> pem_loop B rest (Suc c) = Some (Inl err))" by blast
    have loop: "pem_loop B s c = pem_loop B rest (Suc c)" unfolding pem_loop.simps [of B s c] using step by simp
    have "ca_chain B s n \<longleftrightarrow> (\<exists>m. n = Suc m \<and> ca_chain B rest m)" for n
      using step by (auto simp: ca_chain_step [of B s])
    with rest show ?thesis unfolding loop by (elim disjE exE) auto
  qed
qed

lemma ca_chain_unique: "ca_chain B s m \<Longrightarrow> ca_chain B s n \<Longrightarrow> m = n"
proof (induction arbitrary: n rule: ca_chain.induct)
  case (nothing_left s)
  from nothing_left.prems show ?case by cases (use nothing_left.hyps in auto)
next
  case (certificate s t bytes rest m)
  from certificate.prems obtain m' where "n = Suc m'" "ca_chain B rest m'"
    by cases (use certificate.hyps in auto)
  with certificate.IH show ?case by blast
qed

lemma validatePEMTrustBundle_returns:
  assumes "pem_consumes B"
  obtains r where "validatePEMTrustBundle B bundle = Some r" "r = Inr () \<longleftrightarrow> (\<exists>n. ca_chain B bundle (Suc n))"
proof -
  consider n where "ca_chain B bundle n" "pem_loop B bundle 0 = Some (Inr n)"
    | err where "\<forall>n. \<not> ca_chain B bundle n" "pem_loop B bundle 0 = Some (Inl err)"
    using pem_loop_counts [OF assms, of "bundle" 0] by auto
  then show thesis
  proof cases
    case 1
    then show thesis
      by (intro that [of "if n = 0 then Inl ''must contain at least one PEM-encoded CA certificate'' else Inr ()"])
        (auto simp: validatePEMTrustBundle_def dest: ca_chain_unique gr0_implies_Suc)
  next
    case 2
    then show thesis by (intro that [of "Inl err"]) (auto simp: validatePEMTrustBundle_def)
  qed
qed

text \<open>C22: the validation of a request returns.  The only loop of it that a bundle of certificates drives ends for every
  bundle, given that decoding a PEM block consumes input, and it accepts exactly the non-empty sequences of CA certificates.
  So checking a create or an update of any resource gives a list of errors.\<close>

theorem field_validation_returns:
  assumes "pem_consumes (va_bundle V)"
  shows "(\<exists>r. validatePEMTrustBundle (va_bundle V) bundle = Some r \<and>
      (r = Inr () \<longleftrightarrow> (\<exists>n. ca_chain (va_bundle V) bundle (Suc n)))) \<and>
    (\<exists>errs. ValidateCreate V spec pointers fset = Some errs) \<and>
    (\<exists>errs. ValidateUpdateWithRawSpec V spec pointers raw stored fset = Some errs)"
proof -
  have pem: "\<exists>r. validatePEMTrustBundle (va_bundle V) b = Some r \<and>
      (r = Inr () \<longleftrightarrow> (\<exists>n. ca_chain (va_bundle V) b (Suc n)))" for b
    by (rule validatePEMTrustBundle_returns [OF assms, of b]) blast
  then have "\<exists>errs. validateAdditionalTrustBundle (va_bundle V) flds = Some errs" for flds
    by (fastforce simp: validateAdditionalTrustBundle_def split: option.splits json.splits)
  then have "\<exists>errs. validate V flds old op fset pointers = Some errs" for flds old op
    by (auto simp: validate_def Let_def)
  then show ?thesis
    using pem by (auto simp: ValidateCreate_def ValidateUpdateWithRawSpec_def validateUpdate_def Let_def)
qed

definition sample_bundles :: bundle_lib where
  "sample_bundles = \<lparr>bl_parseARN = (\<lambda>_. None), bl_trimSpace = dropWhile (\<lambda>c. c = CHR '' ''),
     bl_pemDecode = (\<lambda>s. if has_prefix s ''-----BEGIN A'' then Some ((''CERTIFICATE'', ''A''), drop 12 s) else None),
     bl_isCA = (\<lambda>bytes. bytes = ''A'')\<rparr>"

theorem field_validation_returns_witness:
  "validatePEMTrustBundle sample_bundles ''-----BEGIN A -----BEGIN A'' = Some (Inr ())"
proof -
  let ?V = "\<lparr>va_registry = [], va_resourceType = ''Cluster'', va_bundle = sample_bundles\<rparr>"
  let ?b = "''-----BEGIN A -----BEGIN A''"
  have "length (drop 12 s) < length s" if "has_prefix s ''-----BEGIN A''" for s
    using that by (cases s) (auto simp: has_prefix_def)
  then have "pem_consumes (va_bundle ?V)"
    by (auto simp: pem_consumes_def sample_bundles_def length_dropWhile_le split: if_splits)
  from field_validation_returns [OF this, of ?b]
  have returned: "\<exists>r. validatePEMTrustBundle sample_bundles ?b = Some r \<and> (r = Inr () \<longleftrightarrow> (\<exists>n. ca_chain sample_bundles ?b (Suc n)))"
    by simp
  have zero: "ca_chain sample_bundles [] 0" by (rule nothing_left) (simp add: sample_bundles_def)
  have one: "ca_chain sample_bundles '' -----BEGIN A'' (Suc 0)"
    by (rule certificate [where bytes = "''A''", OF refl _ _ _ _ zero]) (simp_all add: sample_bundles_def has_prefix_def)
  have "ca_chain sample_bundles ?b (Suc (Suc 0))"
    by (rule certificate [where bytes = "''A''", OF refl _ _ _ _ one]) (simp_all add: sample_bundles_def has_prefix_def)
  with returned show ?thesis by metis
qed


theorem misspelled_parents_clear_immutable_fields_witness:
  "accepted sample_bundles [pool_doc [(''RootVolume'', JNull)]] \<and>
   outcome [pool_doc [(''RootVolume'', JNull)]] [''rootVolume'', ''size''] = Some JNull \<and>
   \<not> accepted sample_bundles [pool_doc [(''rootVolume'', JNull)]]"
proof -
  let ?qs = "pool_path []" and ?V = "pool_validator sample_bundles"
  have "va_resourceType ?V \<noteq> ''Cluster''" by (simp add: pool_validator_def)
  moreover have "list_all (\<lambda>k. CHR ''.'' \<notin> set k) (?qs @ ''RootVolume'' # ''rootVolume'' # [''size''])" by code_simp
  moreover have "field_at pool_type ?qs ''RootVolume'' = Some (''rootVolume'', TPtr (TStruct [(''size'', TScalar)]))"
    by code_simp
  moreover have "\<forall>f \<in> set (flattenToFieldPaths (nest ?qs ''RootVolume'' JNull)). lookupFieldMeta (va_registry ?V) (fst f) = None"
    by code_simp
  moreover have "\<forall>e \<in> set (va_registry ?V). \<not> has_prefix (fst e) (dotted ''spec'' (?qs @ [''RootVolume'']) @ ''.'')"
    by code_simp
  moreover have "tidy (JObj stored_pool)" by code_simp
  ultimately have "ValidateUpdate ?V (decode_map (nest ?qs ''RootVolume'' JNull)) stored_pool ''Default'' = Some [] \<and>
      (\<exists>candidate. unmarshal_members pool_type (nest ?qs ''RootVolume'' JNull) stored_pool = Some candidate \<and>
         value_at candidate (?qs @ ''rootVolume'' # [''size'']) = JNull) \<and>
      (immutable_field ?V ''Default'' (?qs @ ''rootVolume'' # [''size'']) \<and>
         \<not> isZeroValue (value_at stored_pool (?qs @ ''rootVolume'' # [''size''])) \<longrightarrow>
       ValidateUpdate ?V (decode_map (nest ?qs ''rootVolume'' JNull)) stored_pool ''Default'' \<noteq> Some [])"
    by (intro misspelled_parents_clear_immutable_fields) simp_all
  moreover have "nest ?qs k JNull = [pool_doc [(k, JNull)]]" for k by (simp add: pool_path_def pool_doc_def)
  moreover have "?qs @ ''rootVolume'' # [''size''] = pool_path [''rootVolume'', ''size'']" by (simp add: pool_path_def)
  moreover have "\<not> isZeroValue (value_at stored_pool (pool_path [''rootVolume'', ''size'']))" by code_simp
  ultimately show ?thesis using pool_immutable(2) by (auto simp: accepted_def outcome_def)
qed

end
