(* ===== verification/ApiClient.thy ===== *)
theory ApiClient
  imports Fleet
begin

text \<open>
  The database client of the API server, \<open>seaplane-api/pkg/clients/seaplanedb/client.go\<close>: each method is a program on
  the shared state.  The account of the authenticated caller, which the code takes from the context, is an
  argument.  A key is namespace and name of an object.

  What the database and the clock give to a request is in \<open>inputs\<close>: the UIDs of the objects it creates and the times
  it reads.  SHA-256 and Go's formatting of times are in \<open>client_lib\<close>.
\<close>

record inputs =
  in_uid :: "nat \<Rightarrow> string"
  in_now :: "nat \<Rightarrow> gotime"

record client_lib =
  lb_sha256Hex :: "string \<Rightarrow> string"
  lb_formatTime :: "gotime \<Rightarrow> string" \<comment> \<open>in UTC, with the layout \<open>time.RFC3339Nano\<close>\<close>
  lb_parseTime :: "string \<Rightarrow> gotime option"

section \<open>Ownership\<close>

definition validateOwnedCandidate :: "string \<Rightarrow> nsname \<Rightarrow> 'a obj_scheme \<Rightarrow> string \<Rightarrow> api_error + string" where
  "validateOwnedCandidate account k x specAccountID =
     (if account = [] \<or> fst k \<noteq> accountNamespace account \<or> label accountIDLabel x \<noteq> account \<or>
         specAccountID \<noteq> [] \<and> specAccountID \<noteq> account
      then Inl (OtherError ''create candidate identity does not match caller'')
      else Inr account)"

definition validateOwnedSnapshot :: "string \<Rightarrow> nsname \<Rightarrow> 'a obj_scheme \<Rightarrow> api_error + unit" where
  "validateOwnedSnapshot account k x =
     (if ob_rv x = 0 then Inl (OtherError ''a positive object resource version is required'')
      else if account = [] \<or> fst k \<noteq> accountNamespace account \<or> snd k = []
      then Inl (OtherError ''invalid snapshot identity'')
      else case map_of (ob_labels x) accountIDLabel of
             Some owner \<Rightarrow> if owner \<noteq> account then Inl (OtherError ''snapshot owner does not match caller'') else Inr ()
           | None \<Rightarrow> Inr ())"

section \<open>Clusters\<close>

definition CreateCluster :: "string \<Rightarrow> string \<Rightarrow> gotime \<Rightarrow> nsname \<Rightarrow> Cluster \<Rightarrow> (fleet, Cluster) prog" where
  "CreateCluster account uid now k cluster =
     andThen (returning (validateOwnedCandidate account k cluster (cs_AccountID (cu_Spec cluster)))) (\<lambda>accountID.
     api_call (minting uid (on_clusters (store_create uid k
       (cluster\<lparr>cu_Spec := (cu_Spec cluster)\<lparr>cs_AccountID := accountID\<rparr>, cu_CreationTimestamp := now\<rparr>)))))"

definition GetCluster :: "string \<Rightarrow> string \<Rightarrow> (fleet, Cluster) prog" where
  "GetCluster account name = reading (\<lambda>s. store_get (accountNamespace account, name) (fl_clusters s))"

definition ListClusters :: "string \<Rightarrow> (fleet, (nsname \<times> Cluster) list) prog" where
  "ListClusters account = reading (\<lambda>s. Inr (store_list (\<lambda>k x. fst k = accountNamespace account) (fl_clusters s)))"

definition UpdateCluster :: "string \<Rightarrow> nsname \<Rightarrow> Cluster \<Rightarrow> (fleet, Cluster) prog" where
  "UpdateCluster account k cluster =
     andThen (returning (validateOwnedSnapshot account k cluster)) (\<lambda>_.
     api_call (on_clusters (store_update keep_Cluster k cluster)))"

definition DeleteClusterObject :: "string \<Rightarrow> nsname \<Rightarrow> Cluster \<Rightarrow> (fleet, unit) prog" where
  "DeleteClusterObject account k cluster =
     andThen (returning (validateOwnedSnapshot account k cluster)) (\<lambda>_.
     api_call (on_clusters (store_delete k cluster)))"

definition DeleteCluster :: "string \<Rightarrow> string \<Rightarrow> (fleet, unit) prog" where
  "DeleteCluster account name =
     andThen (GetCluster account name) (DeleteClusterObject account (accountNamespace account, name))"

section \<open>Queues for Spot terminations\<close>

definition spotQueueClaimTimeout :: gotime where
  "spotQueueClaimTimeout = 600 * second"

definition spotQueueOwnerPrefix :: string where
  "spotQueueOwnerPrefix = ''cluster-''"

definition SpotTerminationQueueReservationsNamespace :: string where
  "SpotTerminationQueueReservationsNamespace = ''spot-termination-queue-reservations''"

definition SpotTerminationQueueOwnerLabel :: string where
  "SpotTerminationQueueOwnerLabel = ''seaplane.io/spot-termination-queue-owner''"

definition SpotTerminationQueueClaimedAtAnnotation :: string where
  "SpotTerminationQueueClaimedAtAnnotation = ''seaplane.io/spot-termination-queue-claimed-at''"

definition SpotTerminationQueueIndexName :: "client_lib \<Rightarrow> string \<Rightarrow> string \<Rightarrow> string" where
  "SpotTerminationQueueIndexName L accountID queueURL = lb_sha256Hex L (accountID @ [CHR 0x00] @ queueURL)"

definition spotQueueOwnerKey :: "string \<Rightarrow> string" where
  "spotQueueOwnerKey clusterName = spotQueueOwnerPrefix @ clusterName"

definition spotQueueClaimExpired :: "client_lib \<Rightarrow> gotime \<Rightarrow> Index \<Rightarrow> bool" where
  "spotQueueClaimExpired L now index =
     (case lb_parseTime L (annotation SpotTerminationQueueClaimedAtAnnotation index) of
        None \<Rightarrow> False
      | Some claimedAt \<Rightarrow> now - claimedAt > spotQueueClaimTimeout)"

definition clusterUsesSpotTerminationQueue :: "Cluster \<Rightarrow> string \<Rightarrow> bool" where
  "clusterUsesSpotTerminationQueue cluster queueURL =
     (case cs_AWS (cu_Spec cluster) of None \<Rightarrow> False | Some aws \<Rightarrow> aw_TerminationHandlerQueueURL aws = queueURL)"

definition queue_key :: "client_lib \<Rightarrow> string \<Rightarrow> string \<Rightarrow> nsname" where
  "queue_key L account queueURL =
     (SpotTerminationQueueReservationsNamespace, SpotTerminationQueueIndexName L account queueURL)"

definition queue_reservation :: "client_lib \<Rightarrow> gotime \<Rightarrow> string \<Rightarrow> Index" where
  "queue_reservation L now owner =
     \<lparr>ob_uid = [], ob_rv = 0, ob_generation = 0, ob_labels = [(SpotTerminationQueueOwnerLabel, owner)],
      ob_annotations = [(SpotTerminationQueueClaimedAtAnnotation, lb_formatTime L now)],
      ob_finalizers = [], ob_deleting = False\<rparr>"

text \<open>Deleting an expired claim of a cluster that does not use the queue.\<close>

definition reclaim_queue ::
  "client_lib \<Rightarrow> gotime \<Rightarrow> nsname \<Rightarrow> Index \<Rightarrow> (fleet, bool) prog \<Rightarrow> (fleet, bool) prog" where
  "reclaim_queue L now k existing again =
     (if \<not> spotQueueClaimExpired L now existing then fail AlreadyExists
      else attempt (api_call (on_indexes (store_delete k existing))) (\<lambda>deleted. case deleted of
             Inl err \<Rightarrow> if err = NotFound \<or> err = Conflict then again else fail err
           | Inr _ \<Rightarrow> again))"

text \<open>The attempts of a claim, numbered from \<open>i\<close>.  An attempt reads the clock twice.\<close>

fun claim_attempts ::
  "client_lib \<Rightarrow> inputs \<Rightarrow> string \<Rightarrow> string \<Rightarrow> string \<Rightarrow> nat \<Rightarrow> nat \<Rightarrow> (fleet, bool) prog" where
  "claim_attempts L I account queueURL clusterName i 0 = fail AlreadyExists"
| "claim_attempts L I account queueURL clusterName i (Suc n) =
     (let k = queue_key L account queueURL; ownerKey = spotQueueOwnerKey clusterName; uid = in_uid I (Suc i);
          again = claim_attempts L I account queueURL clusterName (Suc i) n in
      attempt (api_call (minting uid (on_indexes (store_create uid k (queue_reservation L (in_now I (2 * i)) ownerKey)))))
      (\<lambda>created. case created of
        Inr _ \<Rightarrow> ret True
      | Inl createErr \<Rightarrow>
          if createErr \<noteq> AlreadyExists then fail createErr
          else attempt (reading (\<lambda>s. store_get k (fl_indexes s))) (\<lambda>got. case got of
            Inl getErr \<Rightarrow> if getErr = NotFound then again else fail getErr
          | Inr existing \<Rightarrow>
              let owner = label SpotTerminationQueueOwnerLabel existing in
              if owner = ownerKey then
                attempt (api_call (on_indexes (store_update (\<lambda>x cur. x) k
                           (set_annotation SpotTerminationQueueClaimedAtAnnotation
                              (lb_formatTime L (in_now I (2 * i + 1))) existing)))) (\<lambda>updated. case updated of
                  Inl err \<Rightarrow> if err = Conflict then again else fail err
                | Inr _ \<Rightarrow> ret False)
              else let ownerName = trim_prefix owner spotQueueOwnerPrefix in
                if ownerName = owner \<or> ownerName = [] then fail createErr
                else attempt (GetCluster account ownerName) (\<lambda>ownerCluster.
                  if (case ownerCluster of Inl _ \<Rightarrow> False | Inr c \<Rightarrow> clusterUsesSpotTerminationQueue c queueURL)
                  then fail createErr
                  else case ownerCluster of
                    Inl err \<Rightarrow> if err \<noteq> NotFound then fail err else reclaim_queue L (in_now I (2 * i + 1)) k existing again
                  | Inr _ \<Rightarrow> reclaim_queue L (in_now I (2 * i + 1)) k existing again))))"

definition ClaimSpotTerminationQueue ::
  "client_lib \<Rightarrow> inputs \<Rightarrow> string \<Rightarrow> string \<Rightarrow> string \<Rightarrow> (fleet, bool) prog" where
  "ClaimSpotTerminationQueue L I account queueURL clusterName = claim_attempts L I account queueURL clusterName 0 5"

definition ReleaseSpotTerminationQueue :: "client_lib \<Rightarrow> string \<Rightarrow> string \<Rightarrow> string \<Rightarrow> (fleet, unit) prog" where
  "ReleaseSpotTerminationQueue L account queueURL clusterName =
     (let k = queue_key L account queueURL in
      attempt (reading (\<lambda>s. store_get k (fl_indexes s))) (\<lambda>got. case got of
        Inl err \<Rightarrow> if err = NotFound then ret () else fail err
      | Inr reservation \<Rightarrow>
          if label SpotTerminationQueueOwnerLabel reservation \<noteq> spotQueueOwnerKey clusterName
          then fail (OtherError ''spot termination queue reservation is not owned by cluster'')
          else attempt (GetCluster account clusterName) (\<lambda>ownerCluster.
            if (case ownerCluster of Inl _ \<Rightarrow> False | Inr c \<Rightarrow> clusterUsesSpotTerminationQueue c queueURL) then ret ()
            else if (case ownerCluster of Inl err \<Rightarrow> err \<noteq> NotFound | Inr _ \<Rightarrow> False)
            then returning (map_sum id (\<lambda>_. ()) ownerCluster)
            else attempt (api_call (on_indexes (store_delete k reservation))) (\<lambda>deleted. case deleted of
                   Inl err \<Rightarrow> if err = NotFound then ret () else fail err
                 | Inr _ \<Rightarrow> ret ()))))"

section \<open>Node pools\<close>

definition nodePoolParent :: "NodePool \<Rightarrow> ownerReference option" where
  "nodePoolParent np =
     (case np_Owner np of
        None \<Rightarrow> None
      | Some parent \<Rightarrow>
          if ow_Kind parent \<noteq> ''Cluster'' \<or> ow_UID parent = [] \<or> label clusterUIDLabel np \<noteq> ow_UID parent then None
          else Some parent)"

definition requireOwnedCluster :: "string \<Rightarrow> NodePool \<Rightarrow> (fleet, unit) prog" where
  "requireOwnedCluster account np =
     (case nodePoolParent np of
        None \<Rightarrow> fail NotFound
      | Some parent \<Rightarrow>
          andThen (GetCluster account (ow_Name parent)) (\<lambda>cluster.
            if ob_uid cluster \<noteq> ow_UID parent then fail NotFound else ret ()))"

definition CreateNodePool :: "string \<Rightarrow> string \<Rightarrow> nsname \<Rightarrow> NodePool \<Rightarrow> (fleet, NodePool) prog" where
  "CreateNodePool account uid k np =
     andThen (returning (validateOwnedCandidate account k np (ns_AccountID (np_Spec np)))) (\<lambda>accountID.
     andThen (requireOwnedCluster account np) (\<lambda>_.
     api_call (minting uid (on_nodepools (store_create uid k
       (np\<lparr>np_Spec := (np_Spec np)\<lparr>ns_AccountID := accountID\<rparr>\<rparr>))))))"

definition GetNodePool :: "string \<Rightarrow> string \<Rightarrow> (fleet, NodePool) prog" where
  "GetNodePool account name = reading (\<lambda>s. store_get (accountNamespace account, name) (fl_nodepools s))"

definition ListNodePools :: "string \<Rightarrow> string \<Rightarrow> (fleet, (nsname \<times> NodePool) list) prog" where
  "ListNodePools account clusterUID =
     reading (\<lambda>s. Inr (store_list (\<lambda>k x. fst k = accountNamespace account \<and>
        (clusterUID \<noteq> [] \<longrightarrow> label clusterUIDLabel x = clusterUID)) (fl_nodepools s)))"

definition UpdateNodePool :: "string \<Rightarrow> nsname \<Rightarrow> NodePool \<Rightarrow> (fleet, NodePool) prog" where
  "UpdateNodePool account k np =
     andThen (returning (validateOwnedSnapshot account k np)) (\<lambda>_.
     api_call (on_nodepools (store_update keep_NodePool k np)))"

definition DeleteNodePoolObject :: "string \<Rightarrow> nsname \<Rightarrow> NodePool \<Rightarrow> (fleet, unit) prog" where
  "DeleteNodePoolObject account k np =
     andThen (returning (validateOwnedSnapshot account k np)) (\<lambda>_. api_call (on_nodepools (store_delete k np)))"

definition DeleteNodePool :: "string \<Rightarrow> string \<Rightarrow> (fleet, unit) prog" where
  "DeleteNodePool account name =
     andThen (GetNodePool account name) (DeleteNodePoolObject account (accountNamespace account, name))"

section \<open>DNS reservations\<close>

definition CreateDNSReservation :: "string \<Rightarrow> string \<Rightarrow> nsname \<Rightarrow> DNSReservation \<Rightarrow> (fleet, DNSReservation) prog" where
  "CreateDNSReservation account uid k reservation =
     andThen (returning (validateOwnedCandidate account k reservation [])) (\<lambda>_.
     api_call (minting uid (on_reservations (store_create uid k reservation))))"

definition GetDNSReservation :: "string \<Rightarrow> string \<Rightarrow> (fleet, DNSReservation) prog" where
  "GetDNSReservation account name = reading (\<lambda>s. store_get (accountNamespace account, name) (fl_reservations s))"

text \<open>The first object of a namespace with a UID, with its key.\<close>

definition store_by_uid :: "string \<Rightarrow> string \<Rightarrow> 'a obj_scheme store \<Rightarrow> api_error + nsname \<times> 'a obj_scheme" where
  "store_by_uid account uid s =
     (case store_list (\<lambda>k x. fst k = accountNamespace account \<and> ob_uid x = uid) s of
        [] \<Rightarrow> Inl NotFound
      | kx # _ \<Rightarrow> Inr kx)"

definition GetDNSReservationByUID :: "string \<Rightarrow> string \<Rightarrow> (fleet, nsname \<times> DNSReservation) prog" where
  "GetDNSReservationByUID account uid = reading (\<lambda>s. store_by_uid account uid (fl_reservations s))"

definition ListDNSReservations :: "string \<Rightarrow> (fleet, (nsname \<times> DNSReservation) list) prog" where
  "ListDNSReservations account =
     reading (\<lambda>s. Inr (store_list (\<lambda>k x. fst k = accountNamespace account) (fl_reservations s)))"

definition UpdateDNSReservation :: "string \<Rightarrow> nsname \<Rightarrow> DNSReservation \<Rightarrow> (fleet, DNSReservation) prog" where
  "UpdateDNSReservation account k reservation =
     andThen (returning (validateOwnedSnapshot account k reservation)) (\<lambda>_.
     api_call (on_reservations (store_update keep_DNSReservation k reservation)))"

definition UpdateDNSReservationStatus :: "nsname \<Rightarrow> DNSReservation \<Rightarrow> (fleet, DNSReservation) prog" where
  "UpdateDNSReservationStatus k reservation =
     api_call (on_reservations (store_status_update put_DNSReservation k reservation))"

definition DeleteDNSReservationObject :: "nsname \<Rightarrow> DNSReservation \<Rightarrow> (fleet, unit) prog" where
  "DeleteDNSReservationObject k reservation = api_call (on_reservations (store_delete k reservation))"

definition DeleteDNSReservation :: "string \<Rightarrow> string \<Rightarrow> (fleet, unit) prog" where
  "DeleteDNSReservation account name =
     andThen (GetDNSReservation account name) (DeleteDNSReservationObject (accountNamespace account, name))"

section \<open>Manifests, management clusters and the account allowlist\<close>

definition CreateManifest :: "string \<Rightarrow> string \<Rightarrow> string \<Rightarrow> obj \<Rightarrow> (fleet, obj) prog" where
  "CreateManifest uid namespace name hfm =
     api_call (minting uid (on_manifests (store_create uid (namespace, name) hfm)))"

definition GetManifest :: "string \<Rightarrow> string \<Rightarrow> (fleet, obj) prog" where
  "GetManifest namespace name = reading (\<lambda>s. store_get (namespace, name) (fl_manifests s))"

definition DeleteManifest :: "string \<Rightarrow> string \<Rightarrow> (fleet, unit) prog" where
  "DeleteManifest namespace name = api_call (on_manifests (store_remove (namespace, name)))"

definition CreateManagementCluster :: "string \<Rightarrow> string \<Rightarrow> obj \<Rightarrow> (fleet, obj) prog" where
  "CreateManagementCluster uid name mc = api_call (minting uid (on_mcs (store_create uid ([], name) mc)))"

definition enrolledAccountsNamespace :: string where
  "enrolledAccountsNamespace = ''accounts''"

definition empty_obj :: obj where
  "empty_obj = \<lparr>ob_uid = [], ob_rv = 0, ob_generation = 0, ob_labels = [], ob_annotations = [], ob_finalizers = [],
                ob_deleting = False\<rparr>"

definition EnrollAccount :: "string \<Rightarrow> string \<Rightarrow> (fleet, unit) prog" where
  "EnrollAccount uid accountID =
     attempt (api_call (minting uid (on_accounts (store_create uid (enrolledAccountsNamespace, accountID) empty_obj))))
     (\<lambda>r. case r of Inl err \<Rightarrow> if err = AlreadyExists then ret () else fail err | Inr _ \<Rightarrow> ret ())"

definition UnenrollAccount :: "string \<Rightarrow> (fleet, unit) prog" where
  "UnenrollAccount accountID =
     attempt (api_call (on_accounts (store_remove (enrolledAccountsNamespace, accountID))))
     (\<lambda>r. case r of Inl err \<Rightarrow> if err = NotFound then ret () else fail err | Inr _ \<Rightarrow> ret ())"

definition IsAccountEnrolled :: "string \<Rightarrow> (fleet, bool) prog" where
  "IsAccountEnrolled accountID =
     attempt (reading (\<lambda>s. store_get (enrolledAccountsNamespace, accountID) (fl_accounts s)))
     (\<lambda>r. case r of Inl err \<Rightarrow> if err = NotFound then ret False else fail err | Inr _ \<Rightarrow> ret True)"

section \<open>OIDC configs\<close>

definition CreateOidcConfig :: "string \<Rightarrow> string \<Rightarrow> nsname \<Rightarrow> OidcConfig \<Rightarrow> (fleet, OidcConfig) prog" where
  "CreateOidcConfig account uid k oc =
     andThen (returning (validateOwnedCandidate account k oc [])) (\<lambda>_.
     api_call (minting uid (on_oidcconfigs (store_create uid k oc))))"

definition GetOidcConfig :: "string \<Rightarrow> string \<Rightarrow> (fleet, OidcConfig) prog" where
  "GetOidcConfig account name = reading (\<lambda>s. store_get (accountNamespace account, name) (fl_oidcconfigs s))"

definition GetOidcConfigByUID :: "string \<Rightarrow> string \<Rightarrow> (fleet, nsname \<times> OidcConfig) prog" where
  "GetOidcConfigByUID account uid = reading (\<lambda>s. store_by_uid account uid (fl_oidcconfigs s))"

definition ListOidcConfigs :: "string \<Rightarrow> (fleet, (nsname \<times> OidcConfig) list) prog" where
  "ListOidcConfigs account =
     reading (\<lambda>s. Inr (store_list (\<lambda>k x. fst k = accountNamespace account) (fl_oidcconfigs s)))"

definition UpdateOidcConfigLastUsedTimestamp :: "string \<Rightarrow> string \<Rightarrow> gotime \<Rightarrow> (fleet, unit) prog" where
  "UpdateOidcConfigLastUsedTimestamp account oidcConfigUID ts =
     andThen (GetOidcConfigByUID account oidcConfigUID) (\<lambda>(k, oc).
     andThen (api_call (on_oidcconfigs (store_status_update put_OidcConfig k (oc\<lparr>oc_LastUsedTimestamp := Some ts\<rparr>))))
     (\<lambda>_. ret ()))"

definition UpdateOidcConfigObject :: "string \<Rightarrow> nsname \<Rightarrow> OidcConfig \<Rightarrow> (fleet, OidcConfig) prog" where
  "UpdateOidcConfigObject account k oc =
     andThen (returning (validateOwnedSnapshot account k oc)) (\<lambda>_.
     api_call (on_oidcconfigs (store_update keep_OidcConfig k oc)))"

definition DeleteOidcConfigObject :: "string \<Rightarrow> nsname \<Rightarrow> OidcConfig \<Rightarrow> (fleet, unit) prog" where
  "DeleteOidcConfigObject account k oc =
     andThen (returning (validateOwnedSnapshot account k oc)) (\<lambda>_. api_call (on_oidcconfigs (store_delete k oc)))"

definition DeleteOidcConfig :: "string \<Rightarrow> string \<Rightarrow> (fleet, unit) prog" where
  "DeleteOidcConfig account name =
     andThen (GetOidcConfig account name) (DeleteOidcConfigObject account (accountNamespace account, name))"

definition OidcIssuerReservationsNamespace :: string where
  "OidcIssuerReservationsNamespace = ''oidc-issuer-reservations''"

definition GetOidcIssuerIndex :: "string \<Rightarrow> (fleet, Index) prog" where
  "GetOidcIssuerIndex indexName =
     reading (\<lambda>s. store_get (OidcIssuerReservationsNamespace, indexName) (fl_indexes s))"

end
