(* ===== verification/HandlerBase.thy ===== *)
theory HandlerBase
  imports ApiClient FieldValidator Authz
begin

text \<open>
  What the request handlers of \<open>seaplane-api/pkg/handlers\<close> share: replies and their errors (\<open>errorcodes.go\<close>),
  authorization (\<open>authorize.go\<close>, \<open>resource_authz.go\<close>), the conversion of request objects
  (\<open>clients/seaplanedb/convert.go\<close>), customer labels (\<open>resource_labels.go\<close>) and paging.

  A handler is a program that ends with a reply.  Its request is given decoded: the JSON decoder and the Kubernetes
  types are not part of the repository.  Where the code looks at the document itself, its members are given,
  in their order and with repeated keys.  Names of actions and of errors are those of the source.
\<close>

section \<open>Requests and replies\<close>

record request =
  rq_AccountID :: string
  rq_CallerARN :: string
  rq_IsAllowlisted :: bool
  rq_SourceIP :: string
  rq_UserAgent :: string
  rq_Time :: int \<comment> \<open>when its authorization is prepared, in Unix seconds\<close>

text \<open>The objects in a reply are the stored ones; their projection to the public types hides service-set fields.
  \<open>NullList\<close> is a list whose \<open>items\<close> are \<open>null\<close>.\<close>

datatype payload =
  ClusterBody nsname Cluster
| NodePoolBody nsname NodePool
| OidcConfigBody nsname OidcConfig
| DNSReservationBody nsname DNSReservation
| ListBody "payload list" nat nat nat \<comment> \<open>items, total, limit and offset\<close>
| NullList nat nat nat
| LabelsBody "(string \<times> string) list"
| DeletionInitiated string
| NoContent

datatype reply =
  Reply nat payload \<comment> \<open>with its HTTP status\<close>
| APIError string \<comment> \<open>an error by the name of its variable\<close>
| Invalid string "check_error list"
| NoReply \<comment> \<open>the handler does not return\<close>

text \<open>What a program for one kind of spec needs of \<open>encoding/json\<close>: the JSON of a value, decoding members onto a value,
  the zero value, and the paths of the pointers that are not nil (\<open>collectPointerSet\<close>).\<close>

record 'x codec =
  co_marshal :: "'x \<Rightarrow> members"
  co_unmarshal :: "members \<Rightarrow> 'x \<Rightarrow> 'x option"
  co_zero :: 'x
  co_pointers :: "'x \<Rightarrow> string set"

record 'p api =
  ap_cedar :: "'p cedar"
  ap_parseARN :: "string \<Rightarrow> arn option"
  ap_authorizer :: "'p Authorizer"
  ap_client :: client_lib
  ap_checks :: check_lib
  ap_clusterValidator :: validator
  ap_clusterCodec :: "ClusterSpec codec"
  ap_nodePoolValidator :: validator
  ap_nodePoolCodec :: "NodePoolSpec codec"
  ap_float :: "int \<Rightarrow> int" \<comment> \<open>\<open>int64\<close> of a power of two in floating point, see the network validation\<close>
  ap_parseURL :: "string \<Rightarrow> (string \<times> string \<times> string \<times> bool \<times> string \<times> string \<times> string) option"
    \<comment> \<open>scheme, host, opaque part, whether there is a user, host name, port and escaped path\<close>
  ap_oidcIssuerBaseURL :: string
  ap_defaultClusterExpiration :: gotime
  ap_platformAccountID :: string

text \<open>Go on unless a reply has been written.\<close>

definition responding :: "(fleet, reply option) prog \<Rightarrow> (fleet, reply) prog \<Rightarrow> (fleet, reply) prog" where
  "responding m k = andThen m (\<lambda>r. case r of Some reply \<Rightarrow> ret reply | None \<Rightarrow> k)"

text \<open>Retrying with a state: an attempt that returns \<open>None\<close> met a conflict.\<close>

fun retries :: "nat \<Rightarrow> 'c \<Rightarrow> ('c \<Rightarrow> ('s, 'c \<times> 'a option) prog) \<Rightarrow> ('s, 'a option) prog" where
  "retries 0 c f = andThen (f c) (\<lambda>(c', r). ret r)"
| "retries (Suc n) c f = andThen (f c) (\<lambda>(c', r). case r of None \<Rightarrow> retries n c' f | Some x \<Rightarrow> ret (Some x))"

definition RetryAttempts :: "'c \<Rightarrow> ('c \<Rightarrow> ('s, 'c \<times> 'a option) prog) \<Rightarrow> ('s, 'a option) prog" where
  "RetryAttempts c f = retries 4 c f"

section \<open>Authorization\<close>

text \<open>Whether the request's context has been cancelled; the script decides.\<close>

definition cancelled :: "(fleet, bool) prog" where
  "cancelled = attempt (reading (\<lambda>s. Inr ())) (\<lambda>r. ret (r \<noteq> Inr ()))"

definition request_identity :: "request \<Rightarrow> Identity" where
  "request_identity rq =
     \<lparr>id_AccountID = rq_AccountID rq, id_CallerARN = rq_CallerARN rq, id_IsAllowlisted = rq_IsAllowlisted rq\<rparr>"

definition request_context :: "request \<Rightarrow> labels \<Rightarrow> RequestContext" where
  "request_context rq requestLabels =
     \<lparr>rx_SourceIP = rq_SourceIP rq, rx_UserAgent = rq_UserAgent rq, rx_RequestTime = Some (rq_Time rq),
      rx_RequestLabels = requestLabels\<rparr>"

text \<open>The code prepares the authorization at the first check of a request and keeps it for the later ones.  It depends on
  nothing but the request, so it is computed here at every check.\<close>

definition prepareResourceAuthz :: "'p api \<Rightarrow> request \<Rightarrow> labels \<Rightarrow> bool \<Rightarrow> Failure + 'p Prepared" where
  "prepareResourceAuthz A rq requestLabels c =
     Prepare (ap_cedar A) (ap_parseARN A) c c (ap_authorizer A) (request_identity rq) (request_context rq requestLabels)"

fun check_all :: "'p api \<Rightarrow> 'p Prepared \<Rightarrow> Resource \<Rightarrow> string list \<Rightarrow> (fleet, reply option) prog" where
  "check_all A p resource [] = ret None"
| "check_all A p resource (action # actions) =
     andThen cancelled (\<lambda>c.
       case Check (ap_cedar A) c c p action resource of
         Inl _ \<Rightarrow> ret (Some (APIError ''errAuthzFailed''))
       | Inr decision \<Rightarrow>
           if de_Allowed decision then check_all A p resource actions else ret (Some (APIError ''errAuthzDenied'')))"

definition authorizeResource ::
  "'p api \<Rightarrow> request \<Rightarrow> labels \<Rightarrow> string \<Rightarrow> Resource \<Rightarrow> string list \<Rightarrow> (fleet, reply option) prog" where
  "authorizeResource A rq requestLabels operation resource additional =
     andThen cancelled (\<lambda>c.
       case prepareResourceAuthz A rq requestLabels c of
         Inl _ \<Rightarrow> ret (Some (APIError ''errAuthzFailed''))
       | Inr p \<Rightarrow> check_all A p resource (operation # additional))"

definition authorizeCollection :: "'p api \<Rightarrow> request \<Rightarrow> string \<Rightarrow> string \<Rightarrow> (fleet, reply option) prog" where
  "authorizeCollection A rq operation kind =
     authorizeResource A rq Map.empty operation
       \<lparr>rs_Kind = ''Collection'', rs_ID = [], rs_AccountID = rq_AccountID rq, rs_Labels = Map.empty,
        rs_CollectionKind = kind, rs_ParentCluster = None\<rparr> []"

definition candidateResource :: "Resource \<Rightarrow> string \<Rightarrow> Resource" where
  "candidateResource resource name = resource\<lparr>rs_ID := name\<rparr>"

definition clusterResource :: "Cluster \<Rightarrow> Resource" where
  "clusterResource cr =
     \<lparr>rs_Kind = ''Cluster'', rs_ID = ob_uid cr, rs_AccountID = label accountIDLabel cr,
      rs_Labels = map_of (ob_annotations cr), rs_CollectionKind = [], rs_ParentCluster = None\<rparr>"

definition pool_resource :: "NodePool \<Rightarrow> Cluster \<Rightarrow> Resource" where
  "pool_resource np parent =
     \<lparr>rs_Kind = ''NodePool'', rs_ID = ob_uid np, rs_AccountID = label accountIDLabel np,
      rs_Labels = map_of (ob_annotations np), rs_CollectionKind = [],
      rs_ParentCluster = Some \<lparr>pc_ID = ob_uid parent, pc_AccountID = label accountIDLabel parent,
                               pc_Labels = map_of (ob_annotations parent)\<rparr>\<rparr>"

text \<open>The condition on the owner is that of \<open>nodePoolParent\<close>.\<close>

definition nodePoolResource :: "string \<Rightarrow> NodePool \<Rightarrow> (fleet, Resource) prog" where
  "nodePoolResource account np =
     (case nodePoolParent np of
        None \<Rightarrow> fail NotFound
      | Some owner \<Rightarrow>
          andThen (GetCluster account (ow_Name owner)) (\<lambda>parent.
            if ob_uid parent \<noteq> ow_UID owner then fail NotFound else ret (pool_resource np parent)))"

definition nodePoolNotFound :: "string \<Rightarrow> string option" where
  "nodePoolNotFound operation =
     (if operation = ''DescribeNodePool'' then Some ''ErrNodePoolGetNotFound''
      else if operation = ''UpdateNodePool'' then Some ''ErrNodePoolUpdateNotFound''
      else if operation = ''DeleteNodePool'' then Some ''ErrNodePoolDeleteNotFound''
      else None)"

definition authorizeNodePool ::
  "'p api \<Rightarrow> request \<Rightarrow> labels \<Rightarrow> string \<Rightarrow> string \<Rightarrow> NodePool \<Rightarrow> string list \<Rightarrow> (fleet, reply option) prog" where
  "authorizeNodePool A rq requestLabels operation name np additional =
     attempt (nodePoolResource (rq_AccountID rq) np) (\<lambda>r. case r of
       Inl err \<Rightarrow>
         (case nodePoolNotFound operation of
            Some notFound \<Rightarrow> ret (Some (APIError (if err = NotFound then notFound else ''errAuthzFailed'')))
          | None \<Rightarrow> ret (Some (APIError ''errAuthzFailed'')))
     | Inr resource \<Rightarrow>
         authorizeResource A rq requestLabels operation
           (if operation = ''CreateNodePool'' then candidateResource resource name else resource) additional)"

definition namespaceAccount :: "string \<Rightarrow> string" where
  "namespaceAccount namespace = (if has_prefix namespace ''account-'' then drop 8 namespace else [])"

definition oidcConfigResource :: "nsname \<Rightarrow> OidcConfig \<Rightarrow> Resource" where
  "oidcConfigResource k oc =
     \<lparr>rs_Kind = ''OIDCConfig'', rs_ID = ob_uid oc, rs_AccountID = namespaceAccount (fst k),
      rs_Labels = map_of (ob_annotations oc), rs_CollectionKind = [], rs_ParentCluster = None\<rparr>"

definition dnsReservationResource :: "nsname \<Rightarrow> DNSReservation \<Rightarrow> Resource" where
  "dnsReservationResource k res =
     \<lparr>rs_Kind = ''DNSReservation'', rs_ID = ob_uid res, rs_AccountID = namespaceAccount (fst k),
      rs_Labels = map_of (ob_annotations res), rs_CollectionKind = [], rs_ParentCluster = None\<rparr>"

definition clusterUpdateActions :: "ClusterSpec \<Rightarrow> ClusterSpec \<Rightarrow> string list" where
  "clusterUpdateActions old candidate =
     (if cs_Configuration old \<noteq> cs_Configuration candidate then [''UpdateClusterConfig''] else []) @
     (if cs_Release old \<noteq> cs_Release candidate \<or>
         cs_ControlPlaneUpgradePolicy old \<noteq> cs_ControlPlaneUpgradePolicy candidate
      then [''UpdateClusterVersion''] else [])"

definition nodePoolUpdateActions :: "NodePoolSpec \<Rightarrow> NodePoolSpec \<Rightarrow> string list" where
  "nodePoolUpdateActions old candidate =
     (if ns_Replicas old \<noteq> ns_Replicas candidate \<or> ns_AutoScaling old \<noteq> ns_AutoScaling candidate
      then [''ScaleNodePool''] else []) @
     (if ns_Release old \<noteq> ns_Release candidate then [''UpdateNodePoolVersion''] else [])"

section \<open>Conversion of request objects\<close>

text \<open>The metadata of a customer's object; its namespace is that of the account.\<close>

definition customerObjectMeta :: "(string \<times> string) list \<Rightarrow> string \<Rightarrow> obj" where
  "customerObjectMeta annotations accountID =
     \<lparr>ob_uid = [], ob_rv = 0, ob_generation = 0, ob_labels = [(accountIDLabel, accountID)],
      ob_annotations = filter (\<lambda>(key, _). \<not> has_prefix key ''seaplane.io/'') annotations, ob_finalizers = [],
      ob_deleting = False\<rparr>"

text \<open>The public specs lack the fields that are reset here.\<close>

definition UnprojectCluster :: "ClusterSpec \<Rightarrow> string \<Rightarrow> ClusterSpec" where
  "UnprojectCluster spc accountID = spc\<lparr>cs_AccountID := accountID, cs_CreatorARN := [], cs_HostedClusterName := []\<rparr>"

definition PublicToInternalCluster :: "(string \<times> string) list \<Rightarrow> ClusterSpec \<Rightarrow> string \<Rightarrow> Cluster" where
  "PublicToInternalCluster annotations spc accountID =
     (let m = customerObjectMeta annotations accountID in
      \<lparr>ob_uid = ob_uid m, ob_rv = ob_rv m, ob_generation = ob_generation m, ob_labels = ob_labels m,
       ob_annotations = ob_annotations m, ob_finalizers = ob_finalizers m, ob_deleting = ob_deleting m,
       cu_CreationTimestamp = 0, cu_Spec = UnprojectCluster spc accountID,
       cu_Status = \<lparr>ct_Conditions = [], ct_Phase = [], ct_ControlPlaneEndpoint = [], ct_Version = [],
                    ct_PlacementRef = None, ct_ObservedGeneration = 0, ct_BaseDomain = []\<rparr>\<rparr>)"

definition UnprojectNodePool :: "NodePoolSpec \<Rightarrow> string \<Rightarrow> string \<Rightarrow> NodePoolSpec" where
  "UnprojectNodePool spc accountID internalPoolID = spc\<lparr>ns_AccountID := accountID, ns_InternalPoolID := internalPoolID\<rparr>"

definition syncNodePoolPassthrough :: "bool option \<Rightarrow> (string \<times> string) list \<Rightarrow> NodePoolSpec \<Rightarrow> NodePoolSpec" where
  "syncNodePoolPassthrough autoRepair labels spc =
     spc\<lparr>ns_ManagementAutoRepair := (case autoRepair of Some b \<Rightarrow> b | None \<Rightarrow> True), ns_NodeLabels := labels\<rparr>"

definition PublicToInternalNodePool ::
  "(string \<times> string) list \<Rightarrow> NodePoolSpec \<Rightarrow> string \<Rightarrow> string \<Rightarrow> NodePool" where
  "PublicToInternalNodePool annotations spc accountID internalPoolID =
     (let m = customerObjectMeta annotations accountID;
          crd = (UnprojectNodePool spc accountID internalPoolID)\<lparr>ns_Labels := ns_Labels spc\<rparr> in
      \<lparr>ob_uid = ob_uid m, ob_rv = ob_rv m, ob_generation = ob_generation m, ob_labels = ob_labels m,
       ob_annotations = ob_annotations m, ob_finalizers = ob_finalizers m, ob_deleting = ob_deleting m,
       np_Owner = None, np_Spec = syncNodePoolPassthrough (ns_AutoRepair spc) (ns_Labels spc) crd,
       np_Status = \<lparr>nt_Phase = [], nt_Replicas = None, nt_ObservedGeneration = 0, nt_Conditions = []\<rparr>\<rparr>)"

definition PublicToInternalOidcConfig ::
  "(string \<times> string) list \<Rightarrow> string \<Rightarrow> string \<Rightarrow> string \<Rightarrow> string \<Rightarrow> string \<Rightarrow> OidcConfig" where
  "PublicToInternalOidcConfig annotations type issuerUrl secretArn installerRoleArn accountID =
     (let m = customerObjectMeta annotations accountID in
      \<lparr>ob_uid = ob_uid m, ob_rv = ob_rv m, ob_generation = ob_generation m, ob_labels = ob_labels m,
       ob_annotations = ob_annotations m, ob_finalizers = ob_finalizers m, ob_deleting = ob_deleting m,
       oc_Type = type, oc_IssuerUrl = issuerUrl, oc_SecretArn = secretArn, oc_InstallerRoleArn = installerRoleArn,
       oc_Phase = [], oc_LastUsedTimestamp = None\<rparr>)"

definition PublicToInternalDNSReservation :: "(string \<times> string) list \<Rightarrow> string \<Rightarrow> DNSReservation" where
  "PublicToInternalDNSReservation annotations accountID =
     (let m = customerObjectMeta annotations accountID in
      \<lparr>ob_uid = ob_uid m, ob_rv = ob_rv m, ob_generation = ob_generation m, ob_labels = ob_labels m,
       ob_annotations = ob_annotations m, ob_finalizers = ob_finalizers m, ob_deleting = ob_deleting m,
       dr_ClusterDeletionPolicy = [], dr_Phase = [], dr_BaseDomain = [], dr_InternalHostedClusterName = [],
       dr_ObservedGeneration = 0, dr_Conditions = []\<rparr>)"

text \<open>The raw value that decoding to a struct with a field of that name keeps: the last member whose key matches.\<close>

definition raw_member :: "string \<Rightarrow> members \<Rightarrow> json option" where
  "raw_member name doc = map_option snd (find (\<lambda>(key, _). equal_fold key name) (rev doc))"

definition reset_cluster_maps :: "members \<Rightarrow> ClusterSpec \<Rightarrow> ClusterSpec" where
  "reset_cluster_maps doc spc = (if raw_member ''tags'' doc \<noteq> None then spc\<lparr>cs_Tags := []\<rparr> else spc)"

definition reset_pool_maps :: "members \<Rightarrow> NodePoolSpec \<Rightarrow> NodePoolSpec option" where
  "reset_pool_maps doc spc =
     (let s1 = (if raw_member ''labels'' doc \<noteq> None then spc\<lparr>ns_Labels := []\<rparr> else spc);
          s2 = (if raw_member ''tags'' doc \<noteq> None then s1\<lparr>ns_Tags := []\<rparr> else s1) in
      case raw_member ''nodePool'' doc of
        None \<Rightarrow> Some s2
      | Some JNull \<Rightarrow> Some s2
      | Some (JObj nodePool) \<Rightarrow>
          Some (if raw_member ''nodeLabels'' nodePool \<noteq> None then s2\<lparr>ns_NodeLabels := []\<rparr> else s2)
      | Some _ \<Rightarrow> None)"

definition MergeClusterSpec :: "ClusterSpec codec \<Rightarrow> members \<Rightarrow> ClusterSpec \<Rightarrow> ClusterSpec option" where
  "MergeClusterSpec C doc dst = co_unmarshal C doc (reset_cluster_maps doc dst)"

definition MergeNodePoolSpec :: "NodePoolSpec codec \<Rightarrow> members \<Rightarrow> NodePoolSpec \<Rightarrow> NodePoolSpec option" where
  "MergeNodePoolSpec C doc dst = Option.bind (reset_pool_maps doc dst) (co_unmarshal C doc)"

text \<open>\<open>PreserveServiceSet\<close> on specs: if a value was put back, the candidate is rebuilt from the corrected members.\<close>

definition preserve_spec :: "validator \<Rightarrow> 'x codec \<Rightarrow> 'x \<Rightarrow> 'x \<Rightarrow> 'x option" where
  "preserve_spec V C candidate stored =
     (let got = co_marshal C candidate in
      case PreserveServiceSet (va_registry V) ''Default'' got (co_marshal C stored) of
        None \<Rightarrow> None
      | Some m \<Rightarrow> if m = got then Some candidate else co_unmarshal C m (co_zero C))"

section \<open>Pages\<close>

definition parsePositiveInt :: "string \<Rightarrow> nat \<Rightarrow> nat \<Rightarrow> nat" where
  "parsePositiveInt value fallback maxValue =
     (case parse_int64 value of
        Some n \<Rightarrow> if n \<le> 0 \<or> n > int maxValue then fallback else nat n
      | None \<Rightarrow> fallback)"

definition parseNonNegativeInt :: "string \<Rightarrow> nat" where
  "parseNonNegativeInt value = (case parse_int64 value of Some n \<Rightarrow> if n < 0 then 0 else nat n | None \<Rightarrow> 0)"

definition page :: "nat \<Rightarrow> nat \<Rightarrow> 'a list \<Rightarrow> 'a list" where
  "page limit offset items =
     (if offset \<ge> length items then [] else take (min limit (length items - offset)) (drop offset items))"

section \<open>Customer labels\<close>

definition maxCustomerLabels :: nat where "maxCustomerLabels = 50"

definition isValidLabel :: "check_lib \<Rightarrow> string \<Rightarrow> string option \<Rightarrow> bool" where
  "isValidLabel K key val \<longleftrightarrow>
     \<not> has_prefix key ''seaplane.io/'' \<and> kl_IsQualifiedName K key \<and>
     (case val of None \<Rightarrow> True | Some v \<Rightarrow> kl_IsValidLabelValue K v)"

text \<open>A map's iteration order does not matter: an invalid label outweighs the limit.\<close>

definition validateCreateLabels :: "check_lib \<Rightarrow> (string \<times> string) list \<Rightarrow> reply option" where
  "validateCreateLabels K labels =
     (let customer = filter (\<lambda>(key, _). \<not> has_prefix key ''seaplane.io/'') labels in
      if \<not> list_all (\<lambda>(key, val). isValidLabel K key (Some val)) customer then Some (APIError ''errLabelSyntax'')
      else if length customer > maxCustomerLabels then Some (APIError ''errLabelLimit'')
      else None)"

definition applyLabelPatch :: "(string \<times> string) list \<Rightarrow> (string \<times> string option) list \<Rightarrow> (string \<times> string) list" where
  "applyLabelPatch stored patch =
     fold (\<lambda>(key, val). case val of None \<Rightarrow> AList.delete key | Some v \<Rightarrow> AList.update key v) patch stored"

definition maps_equal :: "(string \<times> string) list \<Rightarrow> (string \<times> string) list \<Rightarrow> bool" where
  "maps_equal a b \<longleftrightarrow> list_all (\<lambda>(k, _). map_of a k = map_of b k) (a @ b)"

text \<open>A request for labels: reading them, a body that is not a JSON object of strings and nulls, or a patch.\<close>

datatype label_request = ReadLabels | BadLabels | PatchLabels "(string \<times> string option) list"

definition patch_sets :: "(string \<times> string option) list \<Rightarrow> (string \<times> string) list" where
  "patch_sets patch = concat (map (\<lambda>(key, val). case val of None \<Rightarrow> [] | Some v \<Rightarrow> [(key, v)]) patch)"

definition patch_removes :: "(string \<times> string option) list \<Rightarrow> bool" where
  "patch_removes patch \<longleftrightarrow> list_ex (\<lambda>(key, val). val = None) patch"

text \<open>The actions a patch needs: the operation and additional ones.\<close>

definition patch_actions :: "(string \<times> string option) list \<Rightarrow> string \<times> string list" where
  "patch_actions patch =
     (if patch_sets patch \<noteq> [] then (''LabelResource'', if patch_removes patch then [''UnlabelResource''] else [])
      else (''UnlabelResource'', []))"

text \<open>The write at the end of an attempt.\<close>

definition label_write ::
  "(string \<times> string option) list \<Rightarrow> ('x obj_scheme \<Rightarrow> (fleet, 'y) prog) \<Rightarrow> 'x obj_scheme \<Rightarrow> (fleet, reply option) prog" where
  "label_write patch save x =
     (let tags = applyLabelPatch (ob_annotations x) patch in
      if maps_equal tags (ob_annotations x) then ret (Some (Reply 204 NoContent))
      else if length (remdups (map fst tags)) > maxCustomerLabels then ret (Some (APIError ''errLabelLimit''))
      else attempt (save (x\<lparr>ob_annotations := tags\<rparr>)) (\<lambda>r. case r of
             Inr _ \<Rightarrow> ret (Some (Reply 204 NoContent))
           | Inl Conflict \<Rightarrow> ret None
           | Inl NotFound \<Rightarrow> ret (Some (APIError ''ErrResourceConflict''))
           | Inl _ \<Rightarrow> ret (Some (APIError ''errLabelFailed''))))"

text \<open>One attempt; its state is the UID that an earlier attempt has seen, or empty.  \<open>patch\<close> is \<open>None\<close> for reading.\<close>

definition label_attempt ::
  "'p api \<Rightarrow> request \<Rightarrow> (string \<times> string option) list option \<Rightarrow> (fleet, 'x obj_scheme) prog \<Rightarrow>
   ('x obj_scheme \<Rightarrow> (fleet, 'y) prog) \<Rightarrow> ('x obj_scheme \<Rightarrow> (fleet, Resource) prog) \<Rightarrow> string \<Rightarrow>
   (fleet, string \<times> reply option) prog" where
  "label_attempt A rq patch load save resource uid =
     (let (operation, additional) = (case patch of None \<Rightarrow> (''ListLabelsForResource'', []) | Some p \<Rightarrow> patch_actions p);
          requested = (case patch of None \<Rightarrow> [] | Some p \<Rightarrow> patch_sets p);
          respond = (\<lambda>u reply. ret (u, Some reply)) in
      attempt load (\<lambda>got. case got of
        Inl NotFound \<Rightarrow> respond uid (APIError (if uid \<noteq> [] then ''ErrResourceConflict'' else ''errLabelNotFound''))
      | Inl _ \<Rightarrow> respond uid (APIError ''errLabelFailed'')
      | Inr x \<Rightarrow>
          if uid \<noteq> [] \<and> ob_uid x \<noteq> uid then respond uid (APIError ''ErrResourceConflict'')
          else attempt (resource x) (\<lambda>r. case r of
            Inl NotFound \<Rightarrow> respond (ob_uid x) (APIError ''errLabelNotFound'')
          | Inl _ \<Rightarrow> respond (ob_uid x) (APIError ''errAuthzFailed'')
          | Inr rsc \<Rightarrow>
              andThen (authorizeResource A rq (map_of requested) operation rsc additional) (\<lambda>denied. case denied of
                Some reply \<Rightarrow> respond (ob_uid x) reply
              | None \<Rightarrow>
                  (case patch of
                     None \<Rightarrow> respond (ob_uid x) (Reply 200 (LabelsBody (ob_annotations x)))
                   | Some p \<Rightarrow> andThen (label_write p save x) (\<lambda>outcome. ret (ob_uid x, outcome)))))))"

definition resourceLabels ::
  "'p api \<Rightarrow> request \<Rightarrow> label_request \<Rightarrow> (fleet, 'x obj_scheme) prog \<Rightarrow> ('x obj_scheme \<Rightarrow> (fleet, 'y) prog) \<Rightarrow>
   ('x obj_scheme \<Rightarrow> (fleet, Resource) prog) \<Rightarrow> (fleet, reply) prog" where
  "resourceLabels A rq req load save resource =
     (let attempts = (\<lambda>patch. andThen (RetryAttempts [] (label_attempt A rq patch load save resource)) (\<lambda>r.
            case r of Some reply \<Rightarrow> ret reply | None \<Rightarrow> ret (APIError ''ErrResourceConflict''))) in
      case req of
        ReadLabels \<Rightarrow> attempts None
      | BadLabels \<Rightarrow> ret (APIError ''errLabelBody'')
      | PatchLabels patch \<Rightarrow>
          if patch = [] then ret (APIError ''errLabelBody'')
          else if \<not> list_all (\<lambda>(key, val). isValidLabel (ap_checks A) key val) patch then ret (APIError ''errLabelSyntax'')
          else attempts (Some patch))"

end
