(* ===== verification/ClusterHandlers.thy ===== *)
theory ClusterHandlers
  imports HandlerBase
begin

text \<open>
  The handlers for clusters, \<open>cluster.go\<close> and \<open>cluster_claims.go\<close> in \<open>seaplane-api/pkg/handlers\<close>.  \<open>I\<close> holds the UIDs
  and times the database and the clock give to the request: the cluster gets the first UID, the queue claims of
  a creation the ones after it.
\<close>

section \<open>Claims on reservations and OIDC configs\<close>

record 'x claimable =
  ca_load :: "(fleet, nsname \<times> 'x) prog"
  ca_requestedUID :: string
  ca_ready :: "'x \<Rightarrow> bool"
  ca_save :: "nsname \<Rightarrow> 'x \<Rightarrow> (fleet, 'x) prog"
  ca_notFound :: string
  ca_notReady :: string
  ca_inUse :: string

definition dnsReservation_ready :: "DNSReservation \<Rightarrow> bool" where
  "dnsReservation_ready x \<longleftrightarrow>
     \<not> ob_deleting x \<and> dr_Phase x = ''Ready'' \<and> dr_BaseDomain x \<noteq> [] \<and> dr_InternalHostedClusterName x \<noteq> []"

definition dnsReservationClaimableResource :: "string \<Rightarrow> string \<Rightarrow> DNSReservation claimable" where
  "dnsReservationClaimableResource account uid =
     \<lparr>ca_load = GetDNSReservationByUID account uid, ca_requestedUID = uid, ca_ready = dnsReservation_ready,
      ca_save = UpdateDNSReservation account,
      ca_notFound = ''ErrClusterCreateDNSReservationNotFound'',
      ca_notReady = ''ErrClusterCreateDNSReservationNotReady'',
      ca_inUse = ''ErrClusterCreateDNSReservationInUse''\<rparr>"

definition oidcConfigUsable :: "OidcConfig \<Rightarrow> bool" where
  "oidcConfigUsable oc \<longleftrightarrow> oc_Phase oc \<noteq> ''Error'' \<and> (oc_Type oc \<noteq> ''unmanaged'' \<or> oc_Phase oc = ''Ready'')"

definition oidcConfigClaimableResource :: "string \<Rightarrow> string \<Rightarrow> OidcConfig claimable" where
  "oidcConfigClaimableResource account uid =
     \<lparr>ca_load = GetOidcConfigByUID account uid, ca_requestedUID = uid, ca_ready = oidcConfigUsable,
      ca_save = UpdateOidcConfigObject account,
      ca_notFound = ''ErrClusterCreateOidcConfigNotFound'',
      ca_notReady = ''ErrClusterCreateOidcConfigNotReady'',
      ca_inUse = ''ErrClusterCreateOidcConfigInUse''\<rparr>"

definition claim_once :: "string \<Rightarrow> 'x obj_scheme claimable \<Rightarrow> (fleet, reply option) prog" where
  "claim_once clusterUID c =
     attempt (ca_load c) (\<lambda>r. case r of
       Inl err \<Rightarrow> if err = NotFound then ret (Some (APIError (ca_notFound c))) else fail err
     | Inr (k, x) \<Rightarrow>
         if ob_uid x \<noteq> ca_requestedUID c then ret (Some (APIError (ca_notFound c)))
         else let claimedBy = label claimedByClusterUIDLabel x in
           if claimedBy = clusterUID then ret None
           else if claimedBy \<noteq> [] then ret (Some (APIError (ca_inUse c)))
           else if \<not> ca_ready c x then ret (Some (APIError (ca_notReady c)))
           else andThen (ca_save c k (set_label claimedByClusterUIDLabel clusterUID x)) (\<lambda>_. ret None))"

definition claimResource :: "string \<Rightarrow> 'x obj_scheme claimable \<Rightarrow> (fleet, reply option) prog" where
  "claimResource clusterUID c = RetryOnConflict (claim_once clusterUID c)"

definition claimDNSReservation :: "string \<Rightarrow> string \<Rightarrow> string \<Rightarrow> (fleet, reply option) prog" where
  "claimDNSReservation account reservationUID clusterUID =
     attempt (claimResource clusterUID (dnsReservationClaimableResource account reservationUID)) (\<lambda>r. case r of
       Inl _ \<Rightarrow> ret (Some (APIError ''ErrClusterCreateFailed''))
     | Inr claimAPIError \<Rightarrow> ret claimAPIError)"

definition claimOidcConfig :: "string \<Rightarrow> string \<Rightarrow> string \<Rightarrow> (fleet, reply option) prog" where
  "claimOidcConfig account oidcConfigUID clusterUID =
     attempt (claimResource clusterUID (oidcConfigClaimableResource account oidcConfigUID)) (\<lambda>r. case r of
       Inl _ \<Rightarrow> ret (Some (APIError ''ErrClusterCreateOidcConfigLookupFailed''))
     | Inr claimAPIError \<Rightarrow> ret claimAPIError)"

definition resolveDNSReservation :: "string \<Rightarrow> string \<Rightarrow> (fleet, reply + nsname \<times> DNSReservation) prog" where
  "resolveDNSReservation account reservationUID =
     (if reservationUID = [] then ret (Inl (APIError ''ErrClusterCreateDNSReservationRequired''))
      else attempt (GetDNSReservationByUID account reservationUID) (\<lambda>r. ret (case r of
        Inl NotFound \<Rightarrow> Inl (APIError ''ErrClusterCreateDNSReservationNotFound'')
      | Inl _ \<Rightarrow> Inl (APIError ''ErrClusterCreateFailed'')
      | Inr (k, x) \<Rightarrow>
          if ob_uid x \<noteq> reservationUID then Inl (APIError ''ErrClusterCreateDNSReservationNotFound'')
          else if \<not> dnsReservation_ready x then Inl (APIError ''ErrClusterCreateDNSReservationNotReady'')
          else if label claimedByClusterUIDLabel x \<noteq> [] then Inl (APIError ''ErrClusterCreateDNSReservationInUse'')
          else Inr (k, x))))"

definition resolveOidcConfig :: "string \<Rightarrow> string \<Rightarrow> (fleet, reply + (nsname \<times> OidcConfig) option) prog" where
  "resolveOidcConfig account oidcConfigUID =
     (if oidcConfigUID = [] then ret (Inr None)
      else attempt (GetOidcConfigByUID account oidcConfigUID) (\<lambda>r. ret (case r of
        Inl NotFound \<Rightarrow> Inl (APIError ''ErrClusterCreateOidcConfigNotFound'')
      | Inl _ \<Rightarrow> Inl (APIError ''ErrClusterCreateOidcConfigLookupFailed'')
      | Inr (k, oc) \<Rightarrow>
          if ob_uid oc \<noteq> oidcConfigUID then Inl (APIError ''ErrClusterCreateOidcConfigNotFound'')
          else if \<not> oidcConfigUsable oc then Inl (APIError ''ErrClusterCreateOidcConfigNotReady'')
          else if label claimedByClusterUIDLabel oc \<noteq> [] then Inl (APIError ''ErrClusterCreateOidcConfigInUse'')
          else Inr (Some (k, oc)))))"

definition authorizeReferences ::
  "'p api \<Rightarrow> request \<Rightarrow> labels \<Rightarrow> (nsname \<times> DNSReservation) option \<Rightarrow> (nsname \<times> OidcConfig) option \<Rightarrow>
   (fleet, reply option) prog" where
  "authorizeReferences A rq requestLabels dns oidc =
     andThen (case dns of
         None \<Rightarrow> ret None
       | Some (k, x) \<Rightarrow> authorizeResource A rq requestLabels ''DescribeDNSReservation'' (dnsReservationResource k x) [])
     (\<lambda>denied. case denied of
        Some reply \<Rightarrow> ret (Some reply)
      | None \<Rightarrow>
          (case oidc of
             None \<Rightarrow> ret None
           | Some (k, x) \<Rightarrow> authorizeResource A rq requestLabels ''DescribeOIDCConfig'' (oidcConfigResource k x) []))"

section \<open>Creating a cluster\<close>

text \<open>The request to create an object: its metadata, the \<open>spec\<close> member of the body if there is one, and what it decodes to.
  A body that cannot be decoded is \<open>None\<close>.\<close>

record 'x create_request =
  rc_Name :: string
  rc_Namespace :: string
  rc_Annotations :: "(string \<times> string) list"
  rc_RawSpec :: "json option"
  rc_Spec :: 'x

text \<open>The members of a \<open>spec\<close>, or the error for a missing or empty one or for one that is not an object.\<close>

definition spec_members :: "string \<Rightarrow> string \<Rightarrow> json option \<Rightarrow> reply + members" where
  "spec_members missing bad raw =
     (case raw of
        None \<Rightarrow> Inl (APIError missing)
      | Some JNull \<Rightarrow> Inl (APIError missing)
      | Some (JObj m) \<Rightarrow> if m = [] then Inl (APIError missing) else Inr m
      | Some _ \<Rightarrow> Inl (APIError bad))"

definition clusterCleanupFinalizer :: string where "clusterCleanupFinalizer = ''seaplane.io/cluster''"

definition decodeClusterCreateRequest ::
  "'p api \<Rightarrow> string \<Rightarrow> ClusterSpec create_request option \<Rightarrow> reply + ClusterSpec create_request" where
  "decodeClusterCreateRequest A account body =
     (case body of
        None \<Rightarrow> Inl (APIError ''ErrClusterCreateInvalidBody'')
      | Some req \<Rightarrow>
          if rc_Name req = [] then Inl (APIError ''ErrClusterCreateMissingFields'')
          else sbind (spec_members ''ErrClusterCreateMissingFields'' ''ErrClusterCreateInvalidBody'' (rc_RawSpec req)) (\<lambda>_.
          let spc = rc_Spec req; C = ap_clusterCodec A; K = ap_checks A in
          if \<not> ValidateClusterNameForDNSReservation K (rc_Name req) (cs_DNSReservationID spc \<noteq> [])
          then Inl (APIError ''ErrClusterCreateInvalidName'')
          else if \<not> ValidateAccountNamespace (rc_Namespace req) account
          then Inl (APIError ''ErrClusterCreateNamespaceMismatch'')
          else case ValidateCreate (ap_clusterValidator A) (co_marshal C spc) (co_pointers C spc) ''Default'' of
            None \<Rightarrow> Inl NoReply
          | Some fieldErrs \<Rightarrow>
              let errs = fieldErrs @ ValidateCustomerAWSTags K (cs_Tags spc) @ ValidateClusterAWSTagBudget (cs_Tags spc) in
              if errs \<noteq> [] then Inl (Invalid ''ErrClusterValidation'' errs)
              else let cidrErrs = ValidateNetworkCIDRs (ap_float A) (Some (cs_Networking spc)) in
                if cidrErrs \<noteq> [] then Inl (Invalid ''ErrClusterValidation'' (map BadNetwork cidrErrs))
                else Inr req))"

text \<open>The labels of a creation are those that the new object will have.\<close>

definition create_labels :: "string \<Rightarrow> (string \<times> string) list \<Rightarrow> labels" where
  "create_labels account annotations = map_of (ob_annotations (customerObjectMeta annotations account))"

definition authorizeCreate :: "'p api \<Rightarrow> request \<Rightarrow> ClusterSpec create_request \<Rightarrow> (fleet, reply option) prog" where
  "authorizeCreate A rq req =
     (case validateCreateLabels (ap_checks A) (rc_Annotations req) of
        Some reply \<Rightarrow> ret (Some reply)
      | None \<Rightarrow>
          let cr = PublicToInternalCluster (rc_Annotations req) (rc_Spec req) (rq_AccountID rq) in
          authorizeResource A rq (create_labels (rq_AccountID rq) (rc_Annotations req)) ''CreateCluster''
            (candidateResource (clusterResource cr) (rc_Name req)) [])"

text \<open>\<open>requestedTerminationHandlerQueue\<close> and \<open>clusterTerminationHandlerQueue\<close>: queue and region.\<close>

definition terminationHandlerQueue :: "ClusterSpec \<Rightarrow> string \<times> string" where
  "terminationHandlerQueue spc =
     (case cs_AWS spc of None \<Rightarrow> ([], []) | Some aws \<Rightarrow> (aw_TerminationHandlerQueueURL aws, aw_Region aws))"

definition terminationHandlerQueueURLs :: "(nsname \<times> Cluster) list \<Rightarrow> string \<Rightarrow> string list" where
  "terminationHandlerQueueURLs clusters excludeName =
     filter (\<lambda>url. url \<noteq> []) (map (\<lambda>(k, c). fst (terminationHandlerQueue (cu_Spec c)))
       (filter (\<lambda>(k, c). \<not> (excludeName \<noteq> [] \<and> snd k = excludeName)) clusters))"

text \<open>The check that nobody in the account uses the queue, with the error for a failed list.\<close>

definition check_queue :: "string \<Rightarrow> string \<Rightarrow> string \<Rightarrow> string \<times> string \<Rightarrow> (fleet, reply option) prog" where
  "check_queue failed account excludeName queue =
     attempt (ListClusters account) (\<lambda>r. ret (case r of
       Inl _ \<Rightarrow> Some (APIError failed)
     | Inr existing \<Rightarrow>
         let errs = ValidateSpotTerminationHandlerQueueURL (fst queue) (snd queue)
                      (terminationHandlerQueueURLs existing excludeName) in
         if errs \<noteq> [] then Some (Invalid ''ErrClusterValidation'' errs) else None))"

text \<open>The cluster to store; \<open>None\<close> if its reservation has no internal name.\<close>

definition new_cluster ::
  "'p api \<Rightarrow> request \<Rightarrow> inputs \<Rightarrow> ClusterSpec create_request \<Rightarrow> (nsname \<times> DNSReservation) option \<Rightarrow>
   (nsname \<times> OidcConfig) option \<Rightarrow> Cluster option" where
  "new_cluster A rq I req reservation oidcConfig =
     (let spc = rc_Spec req;
          spc = (if ap_defaultClusterExpiration A > 0 \<and> cs_ExpirationTimestamp spc = None
                 then spc\<lparr>cs_ExpirationTimestamp := Some (in_now I 10 + ap_defaultClusterExpiration A)\<rparr> else spc);
          spc = (case reservation of None \<Rightarrow> spc | Some (_, x) \<Rightarrow> spc\<lparr>cs_DNSReservationID := ob_uid x\<rparr>);
          spc = (case oidcConfig of None \<Rightarrow> spc | Some (_, x) \<Rightarrow> spc\<lparr>cs_OidcConfigID := ob_uid x\<rparr>);
          cr = PublicToInternalCluster (rc_Annotations req) spc (rq_AccountID rq);
          hostedName = (case reservation of None \<Rightarrow> rc_Name req | Some (_, x) \<Rightarrow> dr_InternalHostedClusterName x);
          spc = (cu_Spec cr)\<lparr>cs_HostedClusterName := hostedName\<rparr>;
          spc = (if rq_CallerARN rq \<noteq> [] then spc\<lparr>cs_CreatorARN := rq_CallerARN rq\<rparr> else spc);
          spc = (case oidcConfig of None \<Rightarrow> spc | Some (_, x) \<Rightarrow> spc\<lparr>cs_IssuerURL := oc_IssuerUrl x\<rparr>) in
      if reservation \<noteq> None \<and> hostedName = [] then None
      else Some (cr\<lparr>ob_finalizers := [clusterCleanupFinalizer], cu_Spec := spc\<rparr>))"

definition updateManagedIssuerURL :: "string \<Rightarrow> string \<Rightarrow> string \<Rightarrow> string \<Rightarrow> (fleet, Cluster) prog" where
  "updateManagedIssuerURL account clusterName clusterUID issuerURL =
     RetryOnConflict (andThen (GetCluster account clusterName) (\<lambda>cluster.
       if ob_uid cluster \<noteq> clusterUID then fail (OtherError ''cluster UID changed during create'')
       else UpdateCluster account (accountNamespace account, clusterName)
              (cluster\<lparr>cu_Spec := (cu_Spec cluster)\<lparr>cs_IssuerURL := issuerURL\<rparr>\<rparr>)))"

definition deleteClusterForCleanup :: "string \<Rightarrow> string \<Rightarrow> string \<Rightarrow> (fleet, unit) prog" where
  "deleteClusterForCleanup account clusterName clusterUID =
     attempt (RetryOnConflict (attempt (GetCluster account clusterName) (\<lambda>r. case r of
       Inl err \<Rightarrow> if err = NotFound then ret () else fail err
     | Inr current \<Rightarrow>
         if ob_uid current \<noteq> clusterUID then ret ()
         else DeleteClusterObject account (accountNamespace account, clusterName) current))) (\<lambda>_. ret ())"

definition set_issuer ::
  "'p api \<Rightarrow> string \<Rightarrow> string \<Rightarrow> Cluster \<Rightarrow> (nsname \<times> OidcConfig) option \<Rightarrow> (fleet, reply + Cluster) prog" where
  "set_issuer A account clusterName cluster oidcConfig =
     (if oidcConfig = None \<and> ap_oidcIssuerBaseURL A \<noteq> [] then
        let issuerURL = trim_right (CHR ''/'') (ap_oidcIssuerBaseURL A) @ ''/'' @ ob_uid cluster in
        attempt (updateManagedIssuerURL account clusterName (ob_uid cluster) issuerURL) (\<lambda>r. case r of
          Inl _ \<Rightarrow> andThen (deleteClusterForCleanup account clusterName (ob_uid cluster)) (\<lambda>_.
                    ret (Inl (APIError ''ErrClusterCreateFailed'')))
        | Inr _ \<Rightarrow> ret (Inr (cluster\<lparr>cu_Spec := (cu_Spec cluster)\<lparr>cs_IssuerURL := issuerURL\<rparr>\<rparr>)))
      else ret (Inr cluster))"

text \<open>A claim; if it fails, the cluster is deleted again.\<close>

definition claiming ::
  "(fleet, reply option) prog \<Rightarrow> (fleet, unit) prog \<Rightarrow> (fleet, reply + 'a) prog \<Rightarrow> (fleet, reply + 'a) prog" where
  "claiming claim cleanup k =
     andThen claim (\<lambda>r. case r of
       Some apiErr \<Rightarrow> andThen cleanup (\<lambda>_. ret (Inl apiErr))
     | None \<Rightarrow> k)"

definition completeClusterCreate ::
  "'p api \<Rightarrow> string \<Rightarrow> inputs \<Rightarrow> string \<Rightarrow> Cluster \<Rightarrow> (nsname \<times> DNSReservation) option \<Rightarrow> (nsname \<times> OidcConfig) option \<Rightarrow>
   (fleet, reply + Cluster) prog" where
  "completeClusterCreate A account I clusterName cluster reservation oidcConfig =
     (let clusterUID = ob_uid cluster; cleanup = deleteClusterForCleanup account clusterName clusterUID in
      andThen (set_issuer A account clusterName cluster oidcConfig) (\<lambda>r. case r of
        Inl reply \<Rightarrow> ret (Inl reply)
      | Inr cluster \<Rightarrow>
          claiming (case reservation of
              None \<Rightarrow> ret None
            | Some (_, x) \<Rightarrow> claimDNSReservation account (ob_uid x) clusterUID) cleanup
          (claiming (case oidcConfig of
              None \<Rightarrow> ret None
            | Some (_, x) \<Rightarrow> claimOidcConfig account (ob_uid x) clusterUID) cleanup
          (attempt (case oidcConfig of
              None \<Rightarrow> ret ()
            | Some (_, x) \<Rightarrow> UpdateOidcConfigLastUsedTimestamp account (ob_uid x) (in_now I 12)) (\<lambda>_.
           attempt (GetCluster account clusterName) (\<lambda>latest.
             ret (Inr (case latest of Inr c \<Rightarrow> c | Inl _ \<Rightarrow> cluster))))))))"

definition release_queue :: "'p api \<Rightarrow> string \<Rightarrow> string \<Rightarrow> string \<Rightarrow> bool \<Rightarrow> (fleet, unit) prog" where
  "release_queue A account queueURL clusterName created =
     (if created then attempt (ReleaseSpotTerminationQueue (ap_client A) account queueURL clusterName) (\<lambda>_. ret ())
      else ret ())"

text \<open>From the claim of the queue on.\<close>

definition store_new_cluster ::
  "'p api \<Rightarrow> string \<Rightarrow> inputs \<Rightarrow> string \<Rightarrow> string \<Rightarrow> Cluster \<Rightarrow> (nsname \<times> DNSReservation) option \<Rightarrow>
   (nsname \<times> OidcConfig) option \<Rightarrow> (fleet, reply) prog" where
  "store_new_cluster A account I name queueURL cr reservation oidcConfig =
     attempt (if queueURL \<noteq> [] then ClaimSpotTerminationQueue (ap_client A) I account queueURL name else ret False)
     (\<lambda>claimed. case claimed of
       Inl err \<Rightarrow> ret (if err = AlreadyExists then Invalid ''ErrClusterValidation'' [QueueNotUnique]
                       else APIError ''ErrClusterCreateFailed'')
     | Inr queueClaimCreated \<Rightarrow>
         let release = release_queue A account queueURL name queueClaimCreated; k = (accountNamespace account, name) in
         attempt (CreateCluster account (in_uid I 0) (in_now I 11) k cr) (\<lambda>r. case r of
           Inl err \<Rightarrow> andThen release (\<lambda>_. ret (APIError (if err = AlreadyExists then ''ErrClusterCreateNameConflict''
                                                              else ''ErrClusterCreateFailed'')))
         | Inr cluster \<Rightarrow>
             andThen (completeClusterCreate A account I name cluster reservation oidcConfig) (\<lambda>res. case res of
               Inl reply \<Rightarrow> andThen release (\<lambda>_. ret reply)
             | Inr c \<Rightarrow> ret (Reply 201 (ClusterBody k c)))))"

definition cluster_Create :: "'p api \<Rightarrow> request \<Rightarrow> inputs \<Rightarrow> ClusterSpec create_request option \<Rightarrow> (fleet, reply) prog" where
  "cluster_Create A rq I body =
     (let account = rq_AccountID rq in
      case decodeClusterCreateRequest A account body of
        Inl reply \<Rightarrow> ret reply
      | Inr req \<Rightarrow>
          let spc = rc_Spec req; requestLabels = create_labels account (rc_Annotations req);
              queue = terminationHandlerQueue spc in
          responding (authorizeCreate A rq req)
          (andThen (if cs_DNSReservationID spc = [] then ret (Inr None)
                    else andThen (resolveDNSReservation account (cs_DNSReservationID spc)) (\<lambda>r. ret (map_sum id Some r)))
           (\<lambda>dns. case dns of Inl reply \<Rightarrow> ret reply | Inr reservation \<Rightarrow>
           andThen (resolveOidcConfig account (cs_OidcConfigID spc))
           (\<lambda>oidc. case oidc of Inl reply \<Rightarrow> ret reply | Inr oidcConfig \<Rightarrow>
           responding (authorizeReferences A rq requestLabels reservation oidcConfig)
          (responding (if fst queue \<noteq> [] then check_queue ''ErrClusterCreateNameCheck'' account [] queue else ret None)
          (case new_cluster A rq I req reservation oidcConfig of
             None \<Rightarrow> ret (APIError ''ErrClusterCreateDNSReservationNotReady'')
           | Some cr \<Rightarrow> store_new_cluster A account I (rc_Name req) (fst queue) cr reservation oidcConfig))))))"

section \<open>Reading, updating and deleting clusters\<close>

definition cluster_List :: "'p api \<Rightarrow> request \<Rightarrow> string \<Rightarrow> string \<Rightarrow> (fleet, reply) prog" where
  "cluster_List A rq limitStr offsetStr =
     responding (authorizeCollection A rq ''ListClusters'' ''Cluster'')
     (let limit = parsePositiveInt limitStr 50 100; offset = parseNonNegativeInt offsetStr in
      attempt (ListClusters (rq_AccountID rq)) (\<lambda>r. ret (case r of
        Inl _ \<Rightarrow> APIError ''ErrClusterList''
      | Inr items \<Rightarrow>
          Reply 200 (ListBody (page limit offset (map (\<lambda>(k, c). ClusterBody k c) items)) (length items) limit offset))))"

definition cluster_Get :: "'p api \<Rightarrow> request \<Rightarrow> string \<Rightarrow> (fleet, reply) prog" where
  "cluster_Get A rq clusterName =
     andThen cancelled (\<lambda>c.
       case prepareResourceAuthz A rq Map.empty c of
         Inl _ \<Rightarrow> ret (APIError ''errAuthzFailed'')
       | Inr p \<Rightarrow>
           attempt (GetCluster (rq_AccountID rq) clusterName) (\<lambda>r. case r of
             Inl err \<Rightarrow> ret (APIError (if err = NotFound then ''ErrClusterGetNotFound'' else ''ErrClusterGetFailed''))
           | Inr cr \<Rightarrow>
               responding (check_all A p (clusterResource cr) [''DescribeCluster''])
               (ret (Reply 200 (ClusterBody (accountNamespace (rq_AccountID rq), clusterName) cr)))))"

text \<open>An update: the namespace of the body and its \<open>spec\<close> member.\<close>

record update_request =
  ru_Namespace :: string
  ru_RawSpec :: "json option"

text \<open>The tag check of an update.  Its error is only looked at if it found nothing wrong.\<close>

definition pool_budget_errors :: "string \<Rightarrow> (string \<times> string) list \<Rightarrow> nsname \<times> NodePool \<Rightarrow> check_error list" where
  "pool_budget_errors clusterName tags kp =
     (case kp of (k, np) \<Rightarrow>
        if ns_ClusterName (np_Spec np) \<noteq> clusterName \<and> \<not> has_prefix (snd k) (clusterName @ ''.'') then []
        else map (\<lambda>e. case e of TooManyTags n \<Rightarrow> TooManyPoolTags (snd k) n | _ \<Rightarrow> e)
               (ValidateNodePoolAWSTagBudget tags (ns_Tags (np_Spec np))))"

definition validateUpdatedClusterTags :: "'p api \<Rightarrow> string \<Rightarrow> string \<Rightarrow> Cluster \<Rightarrow> (fleet, reply option) prog" where
  "validateUpdatedClusterTags A account clusterName candidate =
     (let tags = cs_Tags (cu_Spec candidate);
          errs = ValidateCustomerAWSTags (ap_checks A) tags @ ValidateClusterAWSTagBudget tags in
      if errs \<noteq> [] then ret (Some (Invalid ''ErrClusterValidation'' errs))
      else attempt (ListNodePools account (ob_uid candidate)) (\<lambda>r. ret (case r of
        Inl _ \<Rightarrow> Some (APIError ''ErrClusterUpdateFailed'')
      | Inr pools \<Rightarrow>
          let poolErrs = concat (map (pool_budget_errors clusterName tags) pools) in
          if poolErrs \<noteq> [] then Some (Invalid ''ErrClusterValidation'' poolErrs) else None)))"

definition clusterTagsSupplied :: "members \<Rightarrow> bool" where
  "clusterTagsSupplied rawSpec \<longleftrightarrow> map_of rawSpec ''tags'' \<noteq> None"

text \<open>The candidate of an update, or the reply to an invalid one.\<close>

definition cluster_candidate :: "'p api \<Rightarrow> members \<Rightarrow> Cluster \<Rightarrow> reply + Cluster" where
  "cluster_candidate A doc cr =
     (let V = ap_clusterValidator A; C = ap_clusterCodec A in
      case ValidateUpdate V (decode_map doc) (co_marshal C (cu_Spec cr)) ''Default'' of
        None \<Rightarrow> Inl NoReply
      | Some errs \<Rightarrow>
          if errs \<noteq> [] then Inl (Invalid ''ErrClusterValidation'' errs)
          else case MergeClusterSpec C doc (cu_Spec cr) of
            None \<Rightarrow> Inl (APIError ''ErrClusterUpdateInvalidSpec'')
          | Some merged \<Rightarrow>
              (case preserve_spec V C merged (cu_Spec cr) of
                 None \<Rightarrow> Inl (APIError ''ErrClusterUpdateFailed'')
               | Some spc \<Rightarrow> Inr (cr\<lparr>cu_Spec := spc\<rparr>)))"

text \<open>Claiming a queue that the update changes to.\<close>

definition claim_changed_queue ::
  "'p api \<Rightarrow> string \<Rightarrow> inputs \<Rightarrow> string \<Rightarrow> Cluster \<Rightarrow> Cluster \<Rightarrow> (fleet, reply option) prog" where
  "claim_changed_queue A account I clusterName cr candidate =
     (let old = terminationHandlerQueue (cu_Spec cr); new = terminationHandlerQueue (cu_Spec candidate) in
      if new \<noteq> old \<and> fst new \<noteq> [] then
        andThen (check_queue ''ErrClusterUpdateFailed'' account clusterName new) (\<lambda>r. case r of
          Some reply \<Rightarrow> ret (Some reply)
        | None \<Rightarrow>
            attempt (ClaimSpotTerminationQueue (ap_client A) I account (fst new) clusterName) (\<lambda>claimed. ret (case claimed of
              Inl err \<Rightarrow> Some (if err = AlreadyExists then Invalid ''ErrClusterValidation'' [QueueNotUnique]
                               else APIError ''ErrClusterUpdateFailed'')
            | Inr _ \<Rightarrow> None)))
      else ret None)"

text \<open>One attempt of an update; \<open>None\<close> is a conflict.\<close>

definition cluster_updateOnce ::
  "'p api \<Rightarrow> request \<Rightarrow> inputs \<Rightarrow> string \<Rightarrow> members \<Rightarrow> (fleet, reply option) prog" where
  "cluster_updateOnce A rq I clusterName doc =
     (let account = rq_AccountID rq; k = (accountNamespace account, clusterName); finish = (\<lambda>reply. ret (Some reply)) in
      attempt (GetCluster account clusterName) (\<lambda>got. case got of
        Inl err \<Rightarrow> finish (APIError (if err = NotFound then ''ErrClusterUpdateNotFound'' else ''ErrClusterUpdateFailed''))
      | Inr cr \<Rightarrow>
          andThen (authorizeResource A rq Map.empty ''UpdateCluster'' (clusterResource cr) []) (\<lambda>r1.
          case r1 of Some reply \<Rightarrow> finish reply | None \<Rightarrow>
          case cluster_candidate A doc cr of Inl reply \<Rightarrow> finish reply | Inr candidate \<Rightarrow>
          andThen (authorizeResource A rq Map.empty ''UpdateCluster'' (clusterResource cr)
                     (clusterUpdateActions (cu_Spec cr) (cu_Spec candidate))) (\<lambda>r2.
          case r2 of Some reply \<Rightarrow> finish reply | None \<Rightarrow>
          andThen (if clusterTagsSupplied (decode_map doc) then validateUpdatedClusterTags A account clusterName candidate
                   else ret None) (\<lambda>r3.
          case r3 of Some reply \<Rightarrow> finish reply | None \<Rightarrow>
          andThen (claim_changed_queue A account I clusterName cr candidate) (\<lambda>r4.
          case r4 of Some reply \<Rightarrow> finish reply | None \<Rightarrow>
          attempt (UpdateCluster account k candidate) (\<lambda>updated. case updated of
            Inr c \<Rightarrow> finish (Reply 200 (ClusterBody k c))
          | Inl Conflict \<Rightarrow> ret None
          | Inl NotFound \<Rightarrow> finish (APIError ''ErrClusterUpdateNotFound'')
          | Inl _ \<Rightarrow> finish (APIError ''ErrClusterUpdateFailed''))))))))"

text \<open>Each attempt has its own inputs.\<close>

definition cluster_Update ::
  "'p api \<Rightarrow> request \<Rightarrow> (nat \<Rightarrow> inputs) \<Rightarrow> string \<Rightarrow> update_request option \<Rightarrow> (fleet, reply) prog" where
  "cluster_Update A rq Is clusterName body =
     (case body of
        None \<Rightarrow> ret (APIError ''ErrClusterUpdateInvalidBody'')
      | Some req \<Rightarrow>
          if \<not> ValidateAccountNamespace (ru_Namespace req) (rq_AccountID rq)
          then ret (APIError ''ErrClusterUpdateNamespaceMismatch'')
          else case spec_members ''ErrClusterUpdateMissingFields'' ''ErrClusterUpdateInvalidBody'' (ru_RawSpec req) of
            Inl reply \<Rightarrow> ret reply
          | Inr doc \<Rightarrow>
              andThen (RetryAttempts 0 (\<lambda>i. andThen (cluster_updateOnce A rq (Is i) clusterName doc) (\<lambda>r. ret (Suc i, r))))
              (\<lambda>r. case r of Some reply \<Rightarrow> ret reply | None \<Rightarrow> ret (APIError ''ErrClusterUpdateConflict'')))"

definition cluster_Delete :: "'p api \<Rightarrow> request \<Rightarrow> string \<Rightarrow> (fleet, reply) prog" where
  "cluster_Delete A rq clusterName =
     (let account = rq_AccountID rq in
      attempt (GetCluster account clusterName) (\<lambda>got. case got of
        Inl err \<Rightarrow> ret (APIError (if err = NotFound then ''ErrClusterDeleteNotFound'' else ''ErrClusterDeleteFailed''))
      | Inr cr \<Rightarrow>
          responding (authorizeResource A rq Map.empty ''DeleteCluster'' (clusterResource cr) [])
          (attempt (DeleteClusterObject account (accountNamespace account, clusterName) cr) (\<lambda>r. ret (case r of
             Inr _ \<Rightarrow> Reply 202 (DeletionInitiated clusterName)
           | Inl Conflict \<Rightarrow> APIError ''ErrResourceConflict''
           | Inl NotFound \<Rightarrow> APIError ''ErrClusterDeleteNotFound''
           | Inl _ \<Rightarrow> APIError ''ErrClusterDeleteFailed'')))))"

definition cluster_Labels :: "'p api \<Rightarrow> request \<Rightarrow> string \<Rightarrow> label_request \<Rightarrow> (fleet, reply) prog" where
  "cluster_Labels A rq clusterName req =
     (let account = rq_AccountID rq in
      resourceLabels A rq req (GetCluster account clusterName)
        (UpdateCluster account (accountNamespace account, clusterName)) (\<lambda>x. ret (clusterResource x)))"

end
