(* ===== verification/ResourceHandlers.thy ===== *)
theory ResourceHandlers
  imports ClusterHandlers
begin

text \<open>
  The handlers for node pools (\<open>nodepool.go\<close>), OIDC configs (\<open>oidcconfig.go\<close>), DNS reservations (\<open>dnsreservation.go\<close>) and
  the account allowlist (\<open>accounts.go\<close>) in \<open>seaplane-api/pkg/handlers\<close>.
\<close>

section \<open>Node pools\<close>

definition validateNodePoolReplicas :: "NodePoolSpec \<Rightarrow> check_error list" where
  "validateNodePoolReplicas spc =
     (case ns_Replicas spc of None \<Rightarrow> [] | Some n \<Rightarrow> if n \<ge> 0 then [] else [NegativeReplicas])"

definition validateNodePoolEC2InstanceMetadataHttpTokens :: "string \<Rightarrow> check_error list" where
  "validateNodePoolEC2InstanceMetadataHttpTokens value =
     (if value \<in> set [''required'', ''optional''] then [] else [InvalidHttpTokens])"

text \<open>The query of a list; the parsers of selectors and of UUIDs are library functions.  A requirement is key, operator
  and values.\<close>

record list_query =
  lq_limit :: string
  lq_offset :: string
  lq_clusterUID :: string
  lq_clusterId :: string
  lq_labelSelector :: string

record query_lib =
  ql_parseSelector :: "string \<Rightarrow> (string \<times> string \<times> string list) list option"
  ql_uuidString :: "string \<Rightarrow> string option" \<comment> \<open>the canonical text of a UUID\<close>

definition selected_uid :: "query_lib \<Rightarrow> string \<Rightarrow> string \<Rightarrow> reply + string" where
  "selected_uid L clusterUID selector =
     (case ql_parseSelector L selector of
        Some [(key, operator, [uid])] \<Rightarrow>
          if key \<noteq> clusterUIDLabel \<or> operator \<noteq> ''='' \<and> operator \<noteq> ''=='' \<or> clusterUID \<noteq> [] \<and> clusterUID \<noteq> uid
          then Inl (APIError ''ErrNodePoolListInvalidLabelSelector'')
          else Inr uid
      | _ \<Rightarrow> Inl (APIError ''ErrNodePoolListInvalidLabelSelector''))"

definition listClusterUID :: "query_lib \<Rightarrow> list_query \<Rightarrow> reply + string" where
  "listClusterUID L q =
     (if lq_clusterUID q \<noteq> [] \<and> lq_clusterId q \<noteq> [] \<and> lq_clusterUID q \<noteq> lq_clusterId q
      then Inl (APIError ''ErrNodePoolListInvalidClusterUID'')
      else let clusterUID = (if lq_clusterUID q = [] then lq_clusterId q else lq_clusterUID q) in
        sbind (if lq_labelSelector q = [] then Inr clusterUID else selected_uid L clusterUID (lq_labelSelector q)) (\<lambda>uid.
          if uid \<noteq> [] \<and> ql_uuidString L uid \<noteq> Some uid then Inl (APIError ''ErrNodePoolListInvalidClusterUID'')
          else Inr uid))"

definition nodepool_List :: "'p api \<Rightarrow> query_lib \<Rightarrow> request \<Rightarrow> list_query \<Rightarrow> (fleet, reply) prog" where
  "nodepool_List A L rq q =
     (case listClusterUID L q of
        Inl reply \<Rightarrow> ret reply
      | Inr clusterUID \<Rightarrow>
          responding (authorizeCollection A rq ''ListNodePools'' ''NodePool'')
          (let limit = parsePositiveInt (lq_limit q) 50 100; offset = parseNonNegativeInt (lq_offset q) in
           attempt (ListNodePools (rq_AccountID rq) clusterUID) (\<lambda>r. ret (case r of
             Inl _ \<Rightarrow> APIError ''ErrNodePoolList''
           | Inr items \<Rightarrow>
               if offset \<ge> length items then Reply 200 (NullList (length items) limit offset)
               else Reply 200 (ListBody (page limit offset (map (\<lambda>(k, np). NodePoolBody k np) items))
                                 (length items) limit offset)))))"

text \<open>The request to create a node pool, with all members of its body.\<close>

record pool_create_request = "NodePoolSpec create_request" +
  rp_RawRequest :: members

definition pool_create_spec :: "pool_create_request \<Rightarrow> string \<Rightarrow> NodePoolSpec" where
  "pool_create_spec req clusterName =
     (let spc = (rc_Spec req)\<lparr>ns_ClusterName := clusterName\<rparr> in
      if HasJSONField (rp_RawRequest req) ''spec.ec2InstanceMetadataHttpTokens'' then spc
      else spc\<lparr>ns_EC2InstanceMetadataHttpTokens := ''required''\<rparr>)"

text \<open>The checks before the parent is looked up: the parent's name and the spec.\<close>

definition decode_pool_create :: "'p api \<Rightarrow> string \<Rightarrow> pool_create_request option \<Rightarrow> reply + string \<times> NodePoolSpec" where
  "decode_pool_create A account body =
     (case body of
        None \<Rightarrow> Inl (APIError ''ErrNodePoolCreateInvalidBody'')
      | Some req \<Rightarrow>
          if rc_Name req = [] then Inl (APIError ''ErrNodePoolCreateMissingFields'')
          else if \<not> ValidateAccountNamespace (rc_Namespace req) account
          then Inl (APIError ''ErrNodePoolCreateInvalidNamespace'')
          else case ParseNodePoolName (ap_checks A) (rc_Name req) of
            None \<Rightarrow> Inl (APIError ''ErrNodePoolCreateInvalidName'')
          | Some (clusterName, _) \<Rightarrow>
              let spc = pool_create_spec req clusterName; C = ap_nodePoolCodec A in
              (case ValidateCreate (ap_nodePoolValidator A) (co_marshal C spc) (co_pointers C spc) ''Default'' of
                 None \<Rightarrow> Inl NoReply
               | Some fieldErrs \<Rightarrow>
                   let errs = fieldErrs @ validateNodePoolReplicas spc @
                              ValidateCustomerAWSTags (ap_checks A) (ns_Tags spc) @
                              validateNodePoolEC2InstanceMetadataHttpTokens (ns_EC2InstanceMetadataHttpTokens spc) in
                   if errs \<noteq> [] then Inl (Invalid ''ErrNodePoolValidation'' errs) else Inr (clusterName, spc)))"

definition new_pool :: "string \<Rightarrow> string \<Rightarrow> (string \<times> string) list \<Rightarrow> NodePoolSpec \<Rightarrow> string \<Rightarrow> Cluster \<Rightarrow> NodePool" where
  "new_pool account internalPoolID annotations spc clusterName cluster =
     (let cr = PublicToInternalNodePool annotations spc account internalPoolID in
      set_label clusterUIDLabel (ob_uid cluster)
        (cr\<lparr>np_Spec := (np_Spec cr)\<lparr>ns_ClusterName := clusterName\<rparr>,
            np_Owner := Some \<lparr>ow_Kind = ''Cluster'', ow_Name = clusterName, ow_UID = ob_uid cluster\<rparr>\<rparr>))"

text \<open>The second UID of the inputs is the generated internal ID.\<close>

definition nodepool_Create :: "'p api \<Rightarrow> request \<Rightarrow> inputs \<Rightarrow> pool_create_request option \<Rightarrow> (fleet, reply) prog" where
  "nodepool_Create A rq I body =
     (let account = rq_AccountID rq in
      case decode_pool_create A account body of
        Inl reply \<Rightarrow> ret reply
      | Inr (clusterName, spc) \<Rightarrow>
          let req = the body; k = (accountNamespace account, rc_Name req) in
          attempt (GetCluster account clusterName) (\<lambda>got. case got of
            Inl err \<Rightarrow> ret (APIError (if err = NotFound then ''ErrNodePoolCreateClusterNotFound''
                                       else ''ErrNodePoolCreateClusterCheck''))
          | Inr cluster \<Rightarrow>
              if ob_deleting cluster then ret (APIError ''ErrNodePoolCreateClusterDeleting'')
              else let budget = ValidateNodePoolAWSTagBudget (cs_Tags (cu_Spec cluster)) (ns_Tags spc) in
              if budget \<noteq> [] then ret (Invalid ''ErrNodePoolValidation'' budget)
              else case validateCreateLabels (ap_checks A) (rc_Annotations req) of
                Some reply \<Rightarrow> ret reply
              | None \<Rightarrow>
                  let cr = new_pool account (in_uid I 1) (rc_Annotations req) spc clusterName cluster in
                  responding (authorizeNodePool A rq (create_labels account (rc_Annotations req)) ''CreateNodePool''
                                (rc_Name req) cr [])
                  (attempt (CreateNodePool account (in_uid I 0) k cr) (\<lambda>r. ret (case r of
                     Inr np \<Rightarrow> Reply 201 (NodePoolBody k np)
                   | Inl AlreadyExists \<Rightarrow> APIError ''ErrNodePoolCreateNameConflict''
                   | Inl _ \<Rightarrow> APIError ''ErrNodePoolCreateFailed'')))))"

definition nodepool_Get :: "'p api \<Rightarrow> request \<Rightarrow> string \<Rightarrow> (fleet, reply) prog" where
  "nodepool_Get A rq name =
     attempt (GetNodePool (rq_AccountID rq) name) (\<lambda>got. case got of
       Inl err \<Rightarrow> ret (APIError (if err = NotFound then ''ErrNodePoolGetNotFound'' else ''ErrNodePoolGetFailed''))
     | Inr cr \<Rightarrow>
         responding (authorizeNodePool A rq Map.empty ''DescribeNodePool'' name cr [])
         (ret (Reply 200 (NodePoolBody (accountNamespace (rq_AccountID rq), name) cr))))"

text \<open>The replicas that are checked are those of the request, not those of the candidate.\<close>

definition pool_candidate :: "'p api \<Rightarrow> members \<Rightarrow> NodePoolSpec \<Rightarrow> NodePool \<Rightarrow> reply + NodePool" where
  "pool_candidate A doc reqSpec cr =
     (let V = ap_nodePoolValidator A; C = ap_nodePoolCodec A in
      case ValidateUpdate V (decode_map doc) (co_marshal C (np_Spec cr)) ''Default'' of
        None \<Rightarrow> Inl NoReply
      | Some fieldErrs \<Rightarrow>
          let errs = fieldErrs @ validateNodePoolReplicas reqSpec in
          if errs \<noteq> [] then Inl (Invalid ''ErrNodePoolValidation'' errs)
          else case MergeNodePoolSpec C doc (np_Spec cr) of
            None \<Rightarrow> Inl (APIError ''ErrNodePoolUpdateInvalidSpec'')
          | Some merged \<Rightarrow>
              (case preserve_spec V C merged (np_Spec cr) of
                 None \<Rightarrow> Inl (APIError ''ErrNodePoolUpdateFailed'')
               | Some spc \<Rightarrow> Inr (cr\<lparr>np_Spec := spc\<rparr>)))"

definition nodePoolTagsSupplied :: "members \<Rightarrow> bool" where
  "nodePoolTagsSupplied rawSpec \<longleftrightarrow> map_of rawSpec ''tags'' \<noteq> None"

definition validateUpdatedNodePoolTags :: "'p api \<Rightarrow> string \<Rightarrow> string \<Rightarrow> NodePool \<Rightarrow> (fleet, reply option) prog" where
  "validateUpdatedNodePoolTags A account name np =
     (let tags = ns_Tags (np_Spec np); errs = ValidateCustomerAWSTags (ap_checks A) tags;
          invalid = (\<lambda>es. Some (Invalid ''ErrNodePoolValidation'' es)) in
      if errs \<noteq> [] then ret (invalid errs)
      else case (if ns_ClusterName (np_Spec np) \<noteq> [] then Some (ns_ClusterName (np_Spec np))
                 else map_option fst (ParseNodePoolName (ap_checks A) name)) of
        None \<Rightarrow> ret (invalid [ParentUnresolved])
      | Some clusterName \<Rightarrow>
          attempt (GetCluster account clusterName) (\<lambda>r. ret (case r of
            Inl NotFound \<Rightarrow> invalid [ParentMissing]
          | Inl _ \<Rightarrow> Some (APIError ''ErrNodePoolUpdateFailed'')
          | Inr cluster \<Rightarrow>
              let budget = ValidateNodePoolAWSTagBudget (cs_Tags (cu_Spec cluster)) tags in
              if budget \<noteq> [] then invalid budget else None)))"

definition nodepool_updateOnce ::
  "'p api \<Rightarrow> request \<Rightarrow> string \<Rightarrow> NodePoolSpec \<Rightarrow> members \<Rightarrow> (fleet, reply option) prog" where
  "nodepool_updateOnce A rq name reqSpec doc =
     (let account = rq_AccountID rq; k = (accountNamespace account, name); finish = (\<lambda>reply. ret (Some reply)) in
      attempt (GetNodePool account name) (\<lambda>got. case got of
        Inl err \<Rightarrow> finish (APIError (if err = NotFound then ''ErrNodePoolUpdateNotFound'' else ''ErrNodePoolUpdateFailed''))
      | Inr cr \<Rightarrow>
          andThen (authorizeNodePool A rq Map.empty ''UpdateNodePool'' name cr []) (\<lambda>r1.
          case r1 of Some reply \<Rightarrow> finish reply | None \<Rightarrow>
          case pool_candidate A doc reqSpec cr of Inl reply \<Rightarrow> finish reply | Inr candidate \<Rightarrow>
          andThen (authorizeNodePool A rq Map.empty ''UpdateNodePool'' name cr
                     (nodePoolUpdateActions (np_Spec cr) (np_Spec candidate))) (\<lambda>r2.
          case r2 of Some reply \<Rightarrow> finish reply | None \<Rightarrow>
          andThen (if nodePoolTagsSupplied (decode_map doc) then validateUpdatedNodePoolTags A account name candidate
                   else ret None) (\<lambda>r3.
          case r3 of Some reply \<Rightarrow> finish reply | None \<Rightarrow>
          attempt (UpdateNodePool account k candidate) (\<lambda>updated. case updated of
            Inr np \<Rightarrow> finish (Reply 200 (NodePoolBody k np))
          | Inl Conflict \<Rightarrow> ret None
          | Inl NotFound \<Rightarrow> finish (APIError ''ErrNodePoolUpdateNotFound'')
          | Inl _ \<Rightarrow> finish (APIError ''ErrNodePoolUpdateFailed'')))))))"

text \<open>A missing \<open>spec\<close> is an invalid body here.\<close>

record pool_update_request = update_request +
  ru_Spec :: NodePoolSpec

definition nodepool_Update :: "'p api \<Rightarrow> request \<Rightarrow> string \<Rightarrow> pool_update_request option \<Rightarrow> (fleet, reply) prog" where
  "nodepool_Update A rq name body =
     (case body of
        None \<Rightarrow> ret (APIError ''ErrNodePoolUpdateInvalidBody'')
      | Some req \<Rightarrow>
          if \<not> ValidateAccountNamespace (ru_Namespace req) (rq_AccountID rq)
          then ret (APIError ''ErrNodePoolUpdateInvalidNamespace'')
          else if ru_RawSpec req = None then ret (APIError ''ErrNodePoolUpdateInvalidBody'')
          else case spec_members ''ErrNodePoolUpdateMissingFields'' ''ErrNodePoolUpdateInvalidBody'' (ru_RawSpec req) of
            Inl reply \<Rightarrow> ret reply
          | Inr doc \<Rightarrow>
              andThen (RetryAttempts () (\<lambda>_. andThen (nodepool_updateOnce A rq name (ru_Spec req) doc) (\<lambda>r. ret ((), r))))
              (\<lambda>r. case r of Some reply \<Rightarrow> ret reply | None \<Rightarrow> ret (APIError ''ErrNodePoolUpdateConflict'')))"

definition nodepool_Delete :: "'p api \<Rightarrow> request \<Rightarrow> string \<Rightarrow> (fleet, reply) prog" where
  "nodepool_Delete A rq name =
     (let account = rq_AccountID rq in
      attempt (GetNodePool account name) (\<lambda>got. case got of
        Inl err \<Rightarrow> ret (APIError (if err = NotFound then ''ErrNodePoolDeleteNotFound'' else ''ErrNodePoolDeleteFailed''))
      | Inr cr \<Rightarrow>
          responding (authorizeNodePool A rq Map.empty ''DeleteNodePool'' name cr [])
          (attempt (DeleteNodePoolObject account (accountNamespace account, name) cr) (\<lambda>r. ret (case r of
             Inr _ \<Rightarrow> Reply 202 (DeletionInitiated name)
           | Inl Conflict \<Rightarrow> APIError ''ErrResourceConflict''
           | Inl NotFound \<Rightarrow> APIError ''ErrNodePoolDeleteNotFound''
           | Inl _ \<Rightarrow> APIError ''ErrNodePoolDeleteFailed'')))))"

definition nodepool_Labels :: "'p api \<Rightarrow> request \<Rightarrow> string \<Rightarrow> label_request \<Rightarrow> (fleet, reply) prog" where
  "nodepool_Labels A rq name req =
     (let account = rq_AccountID rq in
      resourceLabels A rq req (GetNodePool account name) (UpdateNodePool account (accountNamespace account, name))
        (nodePoolResource account))"

section \<open>OIDC configs\<close>

definition maxIssuerURLLength :: nat where "maxIssuerURLLength = 2048"

definition normalizeIssuerURL :: "'p api \<Rightarrow> string \<Rightarrow> string option" where
  "normalizeIssuerURL A raw =
     (if raw = [] \<or> length raw > maxIssuerURLLength \<or> list_ex (\<lambda>c. char_nat c \<le> 32 \<or> char_nat c = 127) raw then None
      else case ap_parseURL A raw of
        None \<Rightarrow> None
      | Some (scheme, host, opaque, hasUser, hostname, port, escapedPath) \<Rightarrow>
          if scheme \<noteq> ''https'' \<or> host = [] \<or> opaque \<noteq> [] \<or> hasUser then None
          else let h = to_lower hostname; h = (if port \<noteq> [] \<and> port \<noteq> ''443'' then h @ '':'' @ port else h) in
               Some (''https://'' @ h @ trim_right (CHR ''/'') escapedPath))"

definition oidcconfig_List :: "'p api \<Rightarrow> request \<Rightarrow> string \<Rightarrow> string \<Rightarrow> (fleet, reply) prog" where
  "oidcconfig_List A rq limitStr offsetStr =
     responding (authorizeCollection A rq ''ListOIDCConfigs'' ''OIDCConfig'')
     (let limit = parsePositiveInt limitStr 50 100; offset = parseNonNegativeInt offsetStr in
      attempt (ListOidcConfigs (rq_AccountID rq)) (\<lambda>r. ret (case r of
        Inl _ \<Rightarrow> APIError ''ErrOidcConfigList''
      | Inr items \<Rightarrow>
          Reply 200 (ListBody (page limit offset (map (\<lambda>(k, oc). OidcConfigBody k oc) items)) (length items) limit offset))))"

text \<open>The decoded spec of a creation: type, issuer URL, secret and installer role.\<close>

record oidc_spec =
  os_Type :: string
  os_IssuerUrl :: string
  os_SecretArn :: string
  os_InstallerRoleArn :: string

definition decode_oidc_create :: "'p api \<Rightarrow> string \<Rightarrow> oidc_spec create_request option \<Rightarrow> reply + oidc_spec create_request" where
  "decode_oidc_create A account body =
     (case body of
        None \<Rightarrow> Inl (APIError ''ErrOidcConfigCreateInvalidBody'')
      | Some req \<Rightarrow>
          if rc_Name req = [] then Inl (APIError ''ErrOidcConfigCreateMissingFields'')
          else if \<not> ValidateResourceName (ap_checks A) (rc_Name req) then Inl (APIError ''ErrOidcConfigCreateInvalidName'')
          else if \<not> ValidateAccountNamespace (rc_Namespace req) account
          then Inl (APIError ''ErrOidcConfigCreateNamespaceMismatch'')
          else sbind (spec_members ''ErrOidcConfigCreateMissingFields'' ''ErrOidcConfigCreateInvalidBody'' (rc_RawSpec req)) (\<lambda>_.
          let spc = rc_Spec req in
          if os_Type spc = [] then Inl (APIError ''ErrOidcConfigCreateMissingFields'')
          else if os_Type spc \<noteq> ''managed'' \<and> os_Type spc \<noteq> ''unmanaged''
          then Inl (APIError ''ErrOidcConfigCreateInvalidType'')
          else if os_Type spc = ''managed'' \<and> (os_SecretArn spc \<noteq> [] \<or> os_InstallerRoleArn spc \<noteq> []) \<or>
                  os_Type spc = ''unmanaged'' \<and> (os_SecretArn spc = [] \<or> os_InstallerRoleArn spc = [] \<or> os_IssuerUrl spc = [])
          then Inl (APIError ''ErrOidcConfigCreateInvalidFields'')
          else Inr req))"

definition IssuerURLIndexName :: "client_lib \<Rightarrow> string \<Rightarrow> string" where
  "IssuerURLIndexName L normalizedIssuerURL = lb_sha256Hex L normalizedIssuerURL"

text \<open>The second UID of the inputs is the generated issuer ID, with its dashes.\<close>

definition oidcconfig_Create :: "'p api \<Rightarrow> request \<Rightarrow> inputs \<Rightarrow> oidc_spec create_request option \<Rightarrow> (fleet, reply) prog" where
  "oidcconfig_Create A rq I body =
     (let account = rq_AccountID rq in
      case decode_oidc_create A account body of
        Inl reply \<Rightarrow> ret reply
      | Inr req \<Rightarrow>
          let spc = rc_Spec req; managed = (os_Type spc = ''managed''); issuerID = filter (\<lambda>c. c \<noteq> CHR ''-'') (in_uid I 1) in
          if managed \<and> ap_oidcIssuerBaseURL A = [] then ret (APIError ''ErrOidcConfigCreateIssuerNotConfigured'')
          else case normalizeIssuerURL A (if managed then trim_right (CHR ''/'') (ap_oidcIssuerBaseURL A) @ ''/'' @ issuerID
                                          else os_IssuerUrl spc) of
            None \<Rightarrow> ret (APIError ''ErrOidcConfigCreateInvalidIssuerUrl'')
          | Some issuerURL \<Rightarrow>
              (case validateCreateLabels (ap_checks A) (rc_Annotations req) of
                 Some reply \<Rightarrow> ret reply
               | None \<Rightarrow>
                   let cr = PublicToInternalOidcConfig (rc_Annotations req) (os_Type spc) issuerURL (os_SecretArn spc)
                              (os_InstallerRoleArn spc) account;
                       k = (accountNamespace account, rc_Name req) in
                   responding (authorizeResource A rq (create_labels account (rc_Annotations req)) ''CreateOIDCConfig''
                                 (candidateResource (oidcConfigResource k cr) (rc_Name req)) [])
                   (attempt (GetOidcIssuerIndex (IssuerURLIndexName (ap_client A) issuerURL)) (\<lambda>index. case index of
                      Inr _ \<Rightarrow> ret (APIError ''ErrOidcConfigCreateDuplicateIssuerUrl'')
                    | Inl _ \<Rightarrow>
                        attempt (CreateOidcConfig account (in_uid I 0) k cr) (\<lambda>r. ret (case r of
                          Inr oc \<Rightarrow> Reply 201 (OidcConfigBody k oc)
                        | Inl AlreadyExists \<Rightarrow> APIError ''ErrOidcConfigCreateNameConflict''
                        | Inl _ \<Rightarrow> APIError ''ErrOidcConfigCreateFailed''))))))"

definition oidcconfig_Get :: "'p api \<Rightarrow> request \<Rightarrow> string \<Rightarrow> (fleet, reply) prog" where
  "oidcconfig_Get A rq name =
     (let k = (accountNamespace (rq_AccountID rq), name) in
      attempt (GetOidcConfig (rq_AccountID rq) name) (\<lambda>got. case got of
        Inl err \<Rightarrow> ret (APIError (if err = NotFound then ''ErrOidcConfigGetNotFound'' else ''ErrOidcConfigGetFailed''))
      | Inr cr \<Rightarrow>
          responding (authorizeResource A rq Map.empty ''DescribeOIDCConfig'' (oidcConfigResource k cr) [])
          (ret (Reply 200 (OidcConfigBody k cr)))))"

definition oidcconfig_Delete :: "'p api \<Rightarrow> request \<Rightarrow> string \<Rightarrow> (fleet, reply) prog" where
  "oidcconfig_Delete A rq name =
     (let account = rq_AccountID rq; k = (accountNamespace account, name) in
      attempt (GetOidcConfig account name) (\<lambda>got. case got of
        Inl err \<Rightarrow> ret (APIError (if err = NotFound then ''ErrOidcConfigDeleteNotFound'' else ''ErrOidcConfigDeleteFailed''))
      | Inr oc \<Rightarrow>
          responding (authorizeResource A rq Map.empty ''DeleteOIDCConfig'' (oidcConfigResource k oc) [])
          (if label claimedByClusterUIDLabel oc \<noteq> [] then ret (APIError ''ErrOidcConfigDeleteInUse'')
           else attempt (DeleteOidcConfigObject account k oc) (\<lambda>r. ret (case r of
             Inr _ \<Rightarrow> Reply 202 (DeletionInitiated name)
           | Inl NotFound \<Rightarrow> APIError ''ErrOidcConfigDeleteNotFound''
           | Inl Conflict \<Rightarrow> APIError ''ErrOidcConfigDeleteInUse''
           | Inl _ \<Rightarrow> APIError ''ErrOidcConfigDeleteFailed'')))))"

definition oidcconfig_Labels :: "'p api \<Rightarrow> request \<Rightarrow> string \<Rightarrow> label_request \<Rightarrow> (fleet, reply) prog" where
  "oidcconfig_Labels A rq name req =
     (let account = rq_AccountID rq; k = (accountNamespace account, name) in
      resourceLabels A rq req (GetOidcConfig account name) (UpdateOidcConfigObject account k)
        (\<lambda>x. ret (oidcConfigResource k x)))"

section \<open>DNS reservations\<close>

definition dnsreservation_List :: "'p api \<Rightarrow> request \<Rightarrow> string \<Rightarrow> string \<Rightarrow> (fleet, reply) prog" where
  "dnsreservation_List A rq limitStr offsetStr =
     responding (authorizeCollection A rq ''ListDNSReservations'' ''DNSReservation'')
     (let limit = parsePositiveInt limitStr 50 100; offset = parseNonNegativeInt offsetStr in
      attempt (ListDNSReservations (rq_AccountID rq)) (\<lambda>r. ret (case r of
        Inl _ \<Rightarrow> APIError ''ErrDNSReservationListFailed''
      | Inr items \<Rightarrow>
          Reply 200 (ListBody (page limit offset (map (\<lambda>(k, x). DNSReservationBody k x) items)) (length items) limit offset))))"

definition dnsreservation_Create :: "'p api \<Rightarrow> request \<Rightarrow> inputs \<Rightarrow> unit create_request option \<Rightarrow> (fleet, reply) prog" where
  "dnsreservation_Create A rq I body =
     (let account = rq_AccountID rq in
      case body of
        None \<Rightarrow> ret (APIError ''ErrDNSReservationCreateInvalidBody'')
      | Some req \<Rightarrow>
          if rc_Name req = [] then ret (APIError ''ErrDNSReservationCreateMissingName'')
          else if \<not> ValidateResourceName (ap_checks A) (rc_Name req)
          then ret (APIError ''ErrDNSReservationCreateInvalidName'')
          else if \<not> ValidateAccountNamespace (rc_Namespace req) account
          then ret (APIError ''ErrDNSReservationCreateNamespaceMismatch'')
          else case validateCreateLabels (ap_checks A) (rc_Annotations req) of
            Some reply \<Rightarrow> ret reply
          | None \<Rightarrow>
              let reservation = PublicToInternalDNSReservation (rc_Annotations req) account;
                  k = (accountNamespace account, rc_Name req) in
              responding (authorizeResource A rq (create_labels account (rc_Annotations req)) ''CreateDNSReservation''
                            (candidateResource (dnsReservationResource k reservation) (rc_Name req)) [])
              (attempt (CreateDNSReservation account (in_uid I 0) k (reservation\<lparr>dr_Phase := ''Pending''\<rparr>)) (\<lambda>r. ret (case r of
                 Inr x \<Rightarrow> Reply 201 (DNSReservationBody k x)
               | Inl AlreadyExists \<Rightarrow> APIError ''ErrDNSReservationCreateNameConflict''
               | Inl _ \<Rightarrow> APIError ''ErrDNSReservationCreateFailed''))))"

definition dnsreservation_Get :: "'p api \<Rightarrow> request \<Rightarrow> string \<Rightarrow> (fleet, reply) prog" where
  "dnsreservation_Get A rq name =
     (let k = (accountNamespace (rq_AccountID rq), name) in
      attempt (GetDNSReservation (rq_AccountID rq) name) (\<lambda>got. case got of
        Inl err \<Rightarrow> ret (APIError (if err = NotFound then ''ErrDNSReservationGetNotFound'' else ''ErrDNSReservationGetFailed''))
      | Inr x \<Rightarrow>
          responding (authorizeResource A rq Map.empty ''DescribeDNSReservation'' (dnsReservationResource k x) [])
          (ret (Reply 200 (DNSReservationBody k x)))))"

text \<open>One attempt of a deletion; \<open>None\<close> is a conflict.\<close>

definition dns_delete_once :: "'p api \<Rightarrow> request \<Rightarrow> string \<Rightarrow> (fleet, reply option) prog" where
  "dns_delete_once A rq name =
     (let k = (accountNamespace (rq_AccountID rq), name);
          failed = (\<lambda>err. case err of
             Conflict \<Rightarrow> None
           | NotFound \<Rightarrow> Some (APIError ''ErrDNSReservationDeleteNotFound'')
           | _ \<Rightarrow> Some (APIError ''ErrDNSReservationDeleteFailed'')) in
      attempt (GetDNSReservation (rq_AccountID rq) name) (\<lambda>got. case got of
        Inl err \<Rightarrow> ret (failed err)
      | Inr x \<Rightarrow>
          andThen (authorizeResource A rq Map.empty ''DeleteDNSReservation'' (dnsReservationResource k x) []) (\<lambda>denied.
          case denied of Some reply \<Rightarrow> ret (Some reply) | None \<Rightarrow>
          if label claimedByClusterUIDLabel x \<noteq> [] then ret (Some (APIError ''ErrDNSReservationDeleteClaimed''))
          else attempt (DeleteDNSReservationObject k x) (\<lambda>r. ret (case r of
             Inr _ \<Rightarrow> Some (Reply 202 (DeletionInitiated name))
           | Inl err \<Rightarrow> failed err)))))"

definition dnsreservation_Delete :: "'p api \<Rightarrow> request \<Rightarrow> string \<Rightarrow> (fleet, reply) prog" where
  "dnsreservation_Delete A rq name =
     andThen (RetryAttempts () (\<lambda>_. andThen (dns_delete_once A rq name) (\<lambda>r. ret ((), r)))) (\<lambda>r.
       case r of Some reply \<Rightarrow> ret reply | None \<Rightarrow> ret (APIError ''ErrDNSReservationDeleteFailed''))"

definition dnsreservation_Labels :: "'p api \<Rightarrow> request \<Rightarrow> string \<Rightarrow> label_request \<Rightarrow> (fleet, reply) prog" where
  "dnsreservation_Labels A rq name req =
     (let account = rq_AccountID rq; k = (accountNamespace account, name) in
      resourceLabels A rq req (GetDNSReservation account name) (UpdateDNSReservation account k)
        (\<lambda>x. ret (dnsReservationResource k x)))"

section \<open>The account allowlist\<close>

definition isPlatformCaller :: "'p api \<Rightarrow> request \<Rightarrow> bool" where
  "isPlatformCaller A rq \<longleftrightarrow> \<not> (ap_platformAccountID A = [] \<or> rq_AccountID rq \<noteq> ap_platformAccountID A)"

text \<open>The body of an enrolment: the account, or \<open>None\<close> if it cannot be decoded.\<close>

definition accounts_Enroll :: "'p api \<Rightarrow> request \<Rightarrow> inputs \<Rightarrow> string option \<Rightarrow> (fleet, reply) prog" where
  "accounts_Enroll A rq I body =
     (if \<not> isPlatformCaller A rq then ret (APIError ''ErrAccountsForbidden'')
      else case body of
        None \<Rightarrow> ret (APIError ''ErrAccountsInvalidID'')
      | Some accountID \<Rightarrow>
          if \<not> accountPattern accountID then ret (APIError ''ErrAccountsInvalidID'')
          else attempt (EnrollAccount (in_uid I 0) accountID) (\<lambda>r. ret (case r of
                 Inl _ \<Rightarrow> APIError ''ErrAccountsFailed''
               | Inr _ \<Rightarrow> Reply 204 NoContent)))"

definition accounts_Unenroll :: "'p api \<Rightarrow> request \<Rightarrow> string \<Rightarrow> (fleet, reply) prog" where
  "accounts_Unenroll A rq accountID =
     (if \<not> isPlatformCaller A rq then ret (APIError ''ErrAccountsForbidden'')
      else if \<not> accountPattern accountID then ret (APIError ''ErrAccountsInvalidID'')
      else attempt (UnenrollAccount accountID) (\<lambda>r. ret (case r of
             Inl _ \<Rightarrow> APIError ''ErrAccountsFailed''
           | Inr _ \<Rightarrow> Reply 204 NoContent)))"

section \<open>All requests\<close>

text \<open>A request to the API, and the program that answers it.\<close>

datatype operation =
  ListClustersOp string string
| CreateClusterOp "ClusterSpec create_request option"
| GetClusterOp string
| UpdateClusterOp string "update_request option"
| DeleteClusterOp string
| ClusterLabelsOp string label_request
| ListNodePoolsOp list_query
| CreateNodePoolOp "pool_create_request option"
| GetNodePoolOp string
| UpdateNodePoolOp string "pool_update_request option"
| DeleteNodePoolOp string
| NodePoolLabelsOp string label_request
| ListOidcConfigsOp string string
| CreateOidcConfigOp "oidc_spec create_request option"
| GetOidcConfigOp string
| DeleteOidcConfigOp string
| OidcConfigLabelsOp string label_request
| ListDNSReservationsOp string string
| CreateDNSReservationOp "unit create_request option"
| GetDNSReservationOp string
| DeleteDNSReservationOp string
| DNSReservationLabelsOp string label_request
| EnrollAccountOp "string option"
| UnenrollAccountOp string

primrec handle :: "'p api \<Rightarrow> query_lib \<Rightarrow> request \<Rightarrow> (nat \<Rightarrow> inputs) \<Rightarrow> operation \<Rightarrow> (fleet, reply) prog" where
  "handle A L rq Is (ListClustersOp l f) = cluster_List A rq l f"
| "handle A L rq Is (CreateClusterOp body) = cluster_Create A rq (Is 0) body"
| "handle A L rq Is (GetClusterOp n) = cluster_Get A rq n"
| "handle A L rq Is (UpdateClusterOp n body) = cluster_Update A rq Is n body"
| "handle A L rq Is (DeleteClusterOp n) = cluster_Delete A rq n"
| "handle A L rq Is (ClusterLabelsOp n req) = cluster_Labels A rq n req"
| "handle A L rq Is (ListNodePoolsOp q) = nodepool_List A L rq q"
| "handle A L rq Is (CreateNodePoolOp body) = nodepool_Create A rq (Is 0) body"
| "handle A L rq Is (GetNodePoolOp n) = nodepool_Get A rq n"
| "handle A L rq Is (UpdateNodePoolOp n body) = nodepool_Update A rq n body"
| "handle A L rq Is (DeleteNodePoolOp n) = nodepool_Delete A rq n"
| "handle A L rq Is (NodePoolLabelsOp n req) = nodepool_Labels A rq n req"
| "handle A L rq Is (ListOidcConfigsOp l f) = oidcconfig_List A rq l f"
| "handle A L rq Is (CreateOidcConfigOp body) = oidcconfig_Create A rq (Is 0) body"
| "handle A L rq Is (GetOidcConfigOp n) = oidcconfig_Get A rq n"
| "handle A L rq Is (DeleteOidcConfigOp n) = oidcconfig_Delete A rq n"
| "handle A L rq Is (OidcConfigLabelsOp n req) = oidcconfig_Labels A rq n req"
| "handle A L rq Is (ListDNSReservationsOp l f) = dnsreservation_List A rq l f"
| "handle A L rq Is (CreateDNSReservationOp body) = dnsreservation_Create A rq (Is 0) body"
| "handle A L rq Is (GetDNSReservationOp n) = dnsreservation_Get A rq n"
| "handle A L rq Is (DeleteDNSReservationOp n) = dnsreservation_Delete A rq n"
| "handle A L rq Is (DNSReservationLabelsOp n req) = dnsreservation_Labels A rq n req"
| "handle A L rq Is (EnrollAccountOp body) = accounts_Enroll A rq (Is 0) body"
| "handle A L rq Is (UnenrollAccountOp account) = accounts_Unenroll A rq account"

text \<open>The middleware of the resource routes: accounts outside the bundle are marked if they are on the allowlist, callers
  without a consistent identity and accounts that are neither in the bundle nor marked are rejected.\<close>

definition allowlistAccounts :: "'p api \<Rightarrow> request \<Rightarrow> (fleet, request) prog" where
  "allowlistAccounts A rq =
     (if \<not> accountPattern (rq_AccountID rq) then ret rq
      else andThen cancelled (\<lambda>c.
        if IsAccountRegistered (ap_authorizer A) c (rq_AccountID rq) then ret rq
        else attempt (IsAccountEnrolled (rq_AccountID rq)) (\<lambda>r.
          ret (if r = Inr True then rq\<lparr>rq_IsAllowlisted := True\<rparr> else rq))))"

definition RequireIdentity :: "'p api \<Rightarrow> request \<Rightarrow> (fleet, reply option) prog" where
  "RequireIdentity A rq =
     (if rq_AccountID rq = [] \<or> rq_CallerARN rq = [] then ret (Some (APIError ''AUTH-001''))
      else case checkedIdentity (ap_parseARN A) (request_identity rq) of
        Inl _ \<Rightarrow> ret (Some (APIError ''AUTH-001''))
      | Inr _ \<Rightarrow>
          andThen cancelled (\<lambda>c.
            if IsAccountRegistered (ap_authorizer A) c (rq_AccountID rq) \<or> rq_IsAllowlisted rq then ret None
            else ret (Some (APIError ''AUTH-002''))))"

definition serve :: "'p api \<Rightarrow> query_lib \<Rightarrow> request \<Rightarrow> (nat \<Rightarrow> inputs) \<Rightarrow> operation \<Rightarrow> (fleet, reply) prog" where
  "serve A L rq Is op =
     andThen (allowlistAccounts A (rq\<lparr>rq_IsAllowlisted := False\<rparr>)) (\<lambda>rq.
       responding (RequireIdentity A rq) (handle A L rq Is op))"

end
