(* ===== verification/HandlerProps.thy ===== *)
theory HandlerProps
  imports ResourceHandlers
begin

text \<open>
  What requests may do.  \<open>well_behaved\<close> is what every program on the fleet keeps to: versions do not change their content and
  UIDs do not repeat.  \<open>lawful\<close> says which effects of a request the policies permit, on the very objects that the
  effects replace.  The locale \<open>kind\<close> gives each client call a contract with the former as its rely and both as its guarantee;
  parts of handlers that only read are \<open>silent\<close>.
\<close>

section \<open>Rely and guarantee\<close>

definition sound :: "string set \<Rightarrow> 'a obj_scheme store \<Rightarrow> bool" where
  "sound U st \<longleftrightarrow> known_uids U st \<and> distinct (map fst st)"

definition known_fleet :: "fleet \<Rightarrow> bool" where
  "known_fleet s \<longleftrightarrow>
     sound (fl_uids s) (fl_clusters s) \<and> sound (fl_uids s) (fl_nodepools s) \<and>
     sound (fl_uids s) (fl_oidcconfigs s) \<and> sound (fl_uids s) (fl_reservations s)"

definition well_behaved :: "fleet \<Rightarrow> fleet \<Rightarrow> bool" where
  "well_behaved s s' \<longleftrightarrow>
     fl_uids s \<subseteq> fl_uids s' \<and> (known_fleet s \<longrightarrow> known_fleet s') \<and>
     versioned (fl_uids s) (fl_clusters s) (fl_clusters s') \<and> versioned (fl_uids s) (fl_nodepools s) (fl_nodepools s') \<and>
     versioned (fl_uids s) (fl_oidcconfigs s) (fl_oidcconfigs s') \<and>
     versioned (fl_uids s) (fl_reservations s) (fl_reservations s')"

lemma well_behaved_refl [simp]: "well_behaved s s"
  by (simp add: well_behaved_def)

lemma well_behaved_trans: "well_behaved s s' \<Longrightarrow> well_behaved s' s'' \<Longrightarrow> well_behaved s s''"
  unfolding well_behaved_def by (blast intro: versioned_trans)

text \<open>An action that the policies permit for a request on a resource.\<close>

definition permitted :: "'p api \<Rightarrow> request \<Rightarrow> labels \<Rightarrow> Resource \<Rightarrow> string \<Rightarrow> bool" where
  "permitted A rq requestLabels resource action \<longleftrightarrow>
     (\<exists>p d. prepareResourceAuthz A rq requestLabels False = Inr p \<and>
        Check (ap_cedar A) False False p action resource = Inr d \<and> de_Allowed d)"

text \<open>An object is replaced or goes away; \<open>y\<close> is what is written, its new version aside.\<close>

definition replaces :: "nsname \<Rightarrow> 'a obj_scheme \<Rightarrow> 'a obj_scheme \<Rightarrow> 'a obj_scheme store \<Rightarrow> 'a obj_scheme store \<Rightarrow> bool" where
  "replaces k x y st st' \<longleftrightarrow>
     map_of st k = Some x \<and>
     (st' = st \<or> st' = AList.update k (y\<lparr>ob_rv := Suc (ob_rv x)\<rparr>) st \<or>
      st' = AList.delete k st \<and> ob_deleting y \<and> ob_finalizers y = [])"

definition removes :: "nsname \<Rightarrow> 'a obj_scheme \<Rightarrow> 'a obj_scheme store \<Rightarrow> 'a obj_scheme store \<Rightarrow> bool" where
  "removes k x st st' \<longleftrightarrow>
     map_of st k = Some x \<and>
     (st' = AList.update k (x\<lparr>ob_deleting := True, ob_rv := Suc (ob_rv x)\<rparr>) st \<and> ob_finalizers x \<noteq> [] \<or>
      st' = AList.delete k st \<and> ob_finalizers x = [])"

text \<open>The effects on the objects of one kind.  \<open>may\<close> tells what is permitted for a version of an object, with which labels of
  the request; \<open>changes x y\<close> are the actions that replacing \<open>x\<close> by \<open>y\<close> needs, if that is a change a handler makes.\<close>

inductive lawful_store ::
  "(labels \<Rightarrow> nsname \<Rightarrow> 'a obj_scheme \<Rightarrow> string \<Rightarrow> bool) \<Rightarrow> (nsname \<Rightarrow> 'a obj_scheme \<Rightarrow> bool) \<Rightarrow>
   ('a obj_scheme \<Rightarrow> 'a obj_scheme \<Rightarrow> string set option) \<Rightarrow> string \<Rightarrow> nsname \<Rightarrow>
   'a obj_scheme store \<Rightarrow> 'a obj_scheme store \<Rightarrow> bool"
  for may may_create changes delete k where
  created: "map_of st k = None \<Longrightarrow> may_create k x \<Longrightarrow> lawful_store may may_create changes delete k st (AList.update k x st)"
| changed: "replaces k x y st st' \<Longrightarrow> changes x y = Some actions \<Longrightarrow> (\<And>a. a \<in> actions \<Longrightarrow> may Map.empty k x a) \<Longrightarrow>
    lawful_store may may_create changes delete k st st'"
| labelled: "replaces k x y st st' \<Longrightarrow> y = x\<lparr>ob_annotations := applyLabelPatch (ob_annotations x) patch\<rparr> \<Longrightarrow>
    patch_actions patch = (op, additional) \<Longrightarrow>
    (\<And>a. a \<in> set (op # additional) \<Longrightarrow> may (map_of (patch_sets patch)) k x a) \<Longrightarrow>
    lawful_store may may_create changes delete k st st'"
| deleted: "removes k x st st' \<Longrightarrow> may Map.empty k x delete \<Longrightarrow> lawful_store may may_create changes delete k st st'"

definition cluster_changes :: "Cluster \<Rightarrow> Cluster \<Rightarrow> string set option" where
  "cluster_changes x y =
     (if y = x\<lparr>cu_Spec := cu_Spec y, ob_generation := ob_generation y\<rparr>
      then Some (set (''UpdateCluster'' # clusterUpdateActions (cu_Spec x) (cu_Spec y))) else None)"

definition pool_changes :: "NodePool \<Rightarrow> NodePool \<Rightarrow> string set option" where
  "pool_changes x y =
     (if y = x\<lparr>np_Spec := np_Spec y, ob_generation := ob_generation y\<rparr>
      then Some (set (''UpdateNodePool'' # nodePoolUpdateActions (np_Spec x) (np_Spec y))) else None)"

definition cluster_may :: "'p api \<Rightarrow> request \<Rightarrow> labels \<Rightarrow> nsname \<Rightarrow> Cluster \<Rightarrow> string \<Rightarrow> bool" where
  "cluster_may A rq ls k x = permitted A rq ls (clusterResource x)"

definition cluster_may_create :: "'p api \<Rightarrow> request \<Rightarrow> nsname \<Rightarrow> Cluster \<Rightarrow> bool" where
  "cluster_may_create A rq k x =
     permitted A rq (map_of (ob_annotations x)) (candidateResource (clusterResource x) (snd k)) ''CreateCluster''"

text \<open>A node pool's resource shows a version of its parent.\<close>

definition parent_of :: "NodePool \<Rightarrow> Cluster \<Rightarrow> bool" where
  "parent_of np parent \<longleftrightarrow> (\<exists>owner. nodePoolParent np = Some owner \<and> ob_uid parent = ow_UID owner)"

definition pool_may :: "'p api \<Rightarrow> request \<Rightarrow> labels \<Rightarrow> nsname \<Rightarrow> NodePool \<Rightarrow> string \<Rightarrow> bool" where
  "pool_may A rq ls k x a \<longleftrightarrow> (\<exists>parent. parent_of x parent \<and> permitted A rq ls (pool_resource x parent) a)"

definition pool_may_create :: "'p api \<Rightarrow> request \<Rightarrow> nsname \<Rightarrow> NodePool \<Rightarrow> bool" where
  "pool_may_create A rq k x \<longleftrightarrow>
     (\<exists>parent. parent_of x parent \<and>
        permitted A rq (map_of (ob_annotations x)) (candidateResource (pool_resource x parent) (snd k)) ''CreateNodePool'')"

definition oidc_may :: "'p api \<Rightarrow> request \<Rightarrow> labels \<Rightarrow> nsname \<Rightarrow> OidcConfig \<Rightarrow> string \<Rightarrow> bool" where
  "oidc_may A rq ls k x = permitted A rq ls (oidcConfigResource k x)"

definition oidc_may_create :: "'p api \<Rightarrow> request \<Rightarrow> nsname \<Rightarrow> OidcConfig \<Rightarrow> bool" where
  "oidc_may_create A rq k x =
     permitted A rq (map_of (ob_annotations x)) (candidateResource (oidcConfigResource k x) (snd k)) ''CreateOIDCConfig''"

definition dns_may :: "'p api \<Rightarrow> request \<Rightarrow> labels \<Rightarrow> nsname \<Rightarrow> DNSReservation \<Rightarrow> string \<Rightarrow> bool" where
  "dns_may A rq ls k x = permitted A rq ls (dnsReservationResource k x)"

definition dns_may_create :: "'p api \<Rightarrow> request \<Rightarrow> nsname \<Rightarrow> DNSReservation \<Rightarrow> bool" where
  "dns_may_create A rq k x =
     permitted A rq (map_of (ob_annotations x)) (candidateResource (dnsReservationResource k x) (snd k)) ''CreateDNSReservation''"

text \<open>The effects of a request on the fleet.  \<open>own\<close> is the UID of the cluster that the request creates: creating it permits
  setting its issuer, deleting it again, and claiming a reservation and an OIDC config that the caller may describe.\<close>

inductive lawful :: "'p api \<Rightarrow> request \<Rightarrow> string \<Rightarrow> fleet \<Rightarrow> fleet \<Rightarrow> bool" for A rq own where
  idle: "lawful A rq own s s"
| on_cluster: "fst k = accountNamespace (rq_AccountID rq) \<Longrightarrow>
    lawful_store (cluster_may A rq) (cluster_may_create A rq) cluster_changes ''DeleteCluster'' k (fl_clusters s) st \<Longrightarrow>
    lawful A rq own s (s\<lparr>fl_clusters := st, fl_uids := U\<rparr>)"
| on_pool: "fst k = accountNamespace (rq_AccountID rq) \<Longrightarrow>
    lawful_store (pool_may A rq) (pool_may_create A rq) pool_changes ''DeleteNodePool'' k (fl_nodepools s) st \<Longrightarrow>
    lawful A rq own s (s\<lparr>fl_nodepools := st, fl_uids := U\<rparr>)"
| on_oidc: "fst k = accountNamespace (rq_AccountID rq) \<Longrightarrow>
    lawful_store (oidc_may A rq) (oidc_may_create A rq) (\<lambda>_ _. None) ''DeleteOIDCConfig'' k (fl_oidcconfigs s) st \<Longrightarrow>
    lawful A rq own s (s\<lparr>fl_oidcconfigs := st, fl_uids := U\<rparr>)"
| on_reservation: "fst k = accountNamespace (rq_AccountID rq) \<Longrightarrow>
    lawful_store (dns_may A rq) (dns_may_create A rq) (\<lambda>_ _. None) ''DeleteDNSReservation'' k (fl_reservations s) st \<Longrightarrow>
    lawful A rq own s (s\<lparr>fl_reservations := st, fl_uids := U\<rparr>)"
| own_issuer: "fst k = accountNamespace (rq_AccountID rq) \<Longrightarrow> ob_uid x = own \<Longrightarrow> cluster_may_create A rq k x0 \<Longrightarrow>
    replaces k x (x\<lparr>cu_Spec := (cu_Spec x)\<lparr>cs_IssuerURL := url\<rparr>, ob_generation := g\<rparr>) (fl_clusters s) st \<Longrightarrow>
    lawful A rq own s (s\<lparr>fl_clusters := st\<rparr>)"
| own_removed: "fst k = accountNamespace (rq_AccountID rq) \<Longrightarrow> ob_uid x = own \<Longrightarrow> cluster_may_create A rq k x0 \<Longrightarrow>
    removes k x (fl_clusters s) st \<Longrightarrow> lawful A rq own s (s\<lparr>fl_clusters := st\<rparr>)"
| claimed_reservation: "fst k = accountNamespace (rq_AccountID rq) \<Longrightarrow> ob_uid x0 = ob_uid x \<Longrightarrow>
    dns_may A rq ls k x0 ''DescribeDNSReservation'' \<Longrightarrow> label claimedByClusterUIDLabel x = [] \<Longrightarrow>
    replaces k x (set_label claimedByClusterUIDLabel own x) (fl_reservations s) st \<Longrightarrow>
    lawful A rq own s (s\<lparr>fl_reservations := st\<rparr>)"
| claimed_oidc: "fst k = accountNamespace (rq_AccountID rq) \<Longrightarrow> ob_uid x0 = ob_uid x \<Longrightarrow>
    oidc_may A rq ls k x0 ''DescribeOIDCConfig'' \<Longrightarrow> label claimedByClusterUIDLabel x = [] \<Longrightarrow>
    replaces k x (set_label claimedByClusterUIDLabel own x) (fl_oidcconfigs s) st \<Longrightarrow>
    lawful A rq own s (s\<lparr>fl_oidcconfigs := st\<rparr>)"
| used_oidc: "fst k = accountNamespace (rq_AccountID rq) \<Longrightarrow> ob_uid x0 = ob_uid x \<Longrightarrow>
    oidc_may A rq ls k x0 ''DescribeOIDCConfig'' \<Longrightarrow>
    replaces k x (x\<lparr>oc_LastUsedTimestamp := t\<rparr>) (fl_oidcconfigs s) st \<Longrightarrow>
    lawful A rq own s (s\<lparr>fl_oidcconfigs := st\<rparr>)"
| on_queue: "(\<And>k. k \<notin> range (queue_key (ap_client A) (rq_AccountID rq)) \<Longrightarrow> map_of st k = map_of (fl_indexes s) k) \<Longrightarrow>
    lawful A rq own s (s\<lparr>fl_indexes := st, fl_uids := U\<rparr>)"
| on_allowlist: "isPlatformCaller A rq \<Longrightarrow> lawful A rq own s (s\<lparr>fl_accounts := st, fl_uids := U\<rparr>)"

definition guar :: "'p api \<Rightarrow> request \<Rightarrow> string \<Rightarrow> fleet \<Rightarrow> fleet \<Rightarrow> bool" where
  "guar A rq own s s' \<longleftrightarrow> well_behaved s s' \<and> lawful A rq own s s'"

lemma lawful_guar_refl [simp]: "guar A rq own s s"
  by (simp add: guar_def lawful.idle)

section \<open>Writes of a snapshot\<close>

lemma same_version_self [simp]: "same_version x x"
  by (simp add: same_version_def)

lemma same_version_join: "same_version y x \<Longrightarrow> same_version y z \<Longrightarrow> same_version x z"
  by (simp add: same_version_def)

lemma update_replaces:
  assumes "store_update keep k y st = (r, st')" "snapshot U st k x" "same_version y x"
  shows "st' = st \<or> replaces k x ((keep y x)\<lparr>ob_uid := ob_uid x, ob_rv := ob_rv x, ob_deleting := ob_deleting x\<rparr>) st st'"
  using assms(1)
proof (cases rule: store_update_cases)
  case (2 cur)
  have "cur = x" by (rule snapshot_current [OF assms(2) 2(1) same_version_join [OF assms(3) 2(2)]])
  note put = 2(1,3) [unfolded this]
  from put(2) show ?thesis
    by (cases rule: store_put_cases) (simp_all add: replaces_def put(1))
qed simp

lemma delete_removes:
  assumes "store_delete k y st = (r, st')" "snapshot U st k x" "same_version y x"
  shows "st' = st \<or> removes k x st st'"
proof -
  have current: "cur = x" if "map_of st k = Some cur" "same_version y cur" for cur
    by (rule snapshot_current [OF assms(2) that(1) same_version_join [OF assms(3) that(2)]])
  from assms(1) show ?thesis
  proof (cases rule: store_delete_cases)
    case (2 cur)
    note 2 [unfolded current [OF 2(1,2)]]
    then show ?thesis by (simp add: removes_def)
  next
    case (3 cur)
    note 3 [unfolded current [OF 3(1,2)]]
    then show ?thesis by (simp add: removes_def)
  qed simp
qed

lemma sound_subset: "sound U st \<Longrightarrow> U \<subseteq> U' \<Longrightarrow> sound U' st"
  unfolding sound_def known_uids_def by blast

lemma distinct_put: "store_put k x cur st = (r, st') \<Longrightarrow> distinct (map fst st) \<Longrightarrow> distinct (map fst st')"
  by (elim store_put_cases) (simp_all add: distinct_update distinct_delete)

lemma sound_update:
  assumes "store_update keep k x st = (r, st')" "sound U st"
  shows "sound U st'"
proof -
  have "distinct (map fst st')"
    using assms(1) assms(2) [unfolded sound_def] by (cases rule: store_update_cases) (auto intro: distinct_put)
  then show ?thesis using versioned_update(2) [OF assms(1)] assms(2) by (simp add: sound_def)
qed

lemma sound_status_update:
  assumes "store_status_update put k x st = (r, st')" "\<And>cur. ob_uid (put x cur) = ob_uid cur" "sound U st"
  shows "sound U st'"
proof -
  have "distinct (map fst st')"
    using assms(1) assms(3) [unfolded sound_def] by (cases rule: store_status_update_cases) (auto intro: distinct_put)
  then show ?thesis using versioned_status_update(2) [OF assms(1,2)] assms(3) by (simp add: sound_def)
qed

lemma sound_delete:
  assumes "store_delete k x st = (r, st')" "sound U st"
  shows "sound U st'"
proof -
  have "distinct (map fst st')"
    using assms(1) assms(2) [unfolded sound_def]
    by (cases rule: store_delete_cases) (simp_all add: distinct_update distinct_delete)
  then show ?thesis using versioned_delete(2) [OF assms(1)] assms(2) by (simp add: sound_def)
qed

lemma sound_create:
  assumes "store_create u k x st = (r, st')" "u \<notin> U" "sound U st"
  shows "sound (insert u U) st'"
proof -
  have "distinct (map fst st')"
    using assms(1) assms(3) [unfolded sound_def] by (cases rule: store_create_cases) (simp_all add: distinct_update)
  then show ?thesis using versioned_create(2) [OF assms(1,2)] assms(3) by (simp add: sound_def)
qed

section \<open>The kinds of object\<close>

text \<open>What the calls on one store of the fleet have in common: the client's operations keep to \<open>well_behaved\<close>, and a write of
  a snapshot replaces that very object.  \<open>L\<close> stands for the effects that are lawful.\<close>

locale kind =
  fixes get :: "fleet \<Rightarrow> 'a obj_scheme store" and put :: "'a obj_scheme store \<Rightarrow> fleet \<Rightarrow> fleet"
  assumes behaves: "versioned (fl_uids s) (get s) st \<Longrightarrow> (sound (fl_uids s) (get s) \<Longrightarrow> sound U st) \<Longrightarrow>
      fl_uids s \<subseteq> U \<Longrightarrow> well_behaved s ((put st s)\<lparr>fl_uids := U\<rparr>)"
    and versions: "well_behaved s s' \<Longrightarrow> versioned (fl_uids s) (get s) (get s')"
    and known: "known_fleet s \<Longrightarrow> sound (fl_uids s) (get s)"
    and same_uids: "(put st s)\<lparr>fl_uids := fl_uids s\<rparr> = put st s"
    and put_same: "put (get s) s = s"
begin

definition reads :: "nsname \<Rightarrow> 'a obj_scheme \<Rightarrow> fleet \<Rightarrow> bool" where
  "reads k x s \<longleftrightarrow> known_fleet s \<and> snapshot (fl_uids s) (get s) k x"

definition calls :: "('a obj_scheme store \<Rightarrow> 'r \<times> 'a obj_scheme store) \<Rightarrow> fleet \<Rightarrow> 'r \<times> fleet" where
  "calls f s = (case f (get s) of (r, st) \<Rightarrow> (r, put st s))"

lemma put_uids: "fl_uids (put st s) = fl_uids s"
  using arg_cong [OF same_uids, of fl_uids s st] by simp

lemma behaves_same_uids:
  assumes "versioned (fl_uids s) (get s) st" "sound (fl_uids s) (get s) \<Longrightarrow> sound (fl_uids s) st"
  shows "well_behaved s (put st s)"
  using behaves [OF assms subset_refl] by (simp add: same_uids)

lemma known_objects_stable: "stable well_behaved known_fleet"
  by (auto simp: stable_def well_behaved_def)

lemma reads_stable: "stable well_behaved (reads k x)"
proof (rule stableI)
  fix s s' assume *: "well_behaved s s'" "reads k x s"
  then have "known_fleet s'" "fl_uids s \<subseteq> fl_uids s'" by (auto simp: well_behaved_def reads_def)
  moreover have "snapshot (fl_uids s') (get s') k x"
    by (rule snapshot_later [OF _ versions [OF *(1)]]) (use * in \<open>auto simp: well_behaved_def reads_def\<close>)
  ultimately show "reads k x s'" by (simp add: reads_def)
qed

lemma readsI: "known_fleet s \<Longrightarrow> map_of (get s) k = Some x \<Longrightarrow> reads k x s"
  unfolding reads_def using known [of s] by (auto simp: sound_def intro: snapshot_now)

lemma reads_known: "reads k x s \<Longrightarrow> known_fleet s"
  by (simp add: reads_def)

text \<open>A write call whose effects are lawful.\<close>

lemma write_call:
  assumes "\<And>s r st. P s \<Longrightarrow> f (get s) = (r, st) \<Longrightarrow>
      versioned (fl_uids s) (get s) st \<and> (sound (fl_uids s) (get s) \<longrightarrow> sound (fl_uids s) st) \<and>
      (st = get s \<or> L s (put st s))"
    and "stable well_behaved P" "\<And>s. P s \<Longrightarrow> known_fleet s" "\<And>s. L s s"
  shows "contract well_behaved (\<lambda>s s'. well_behaved s s' \<and> L s s') P (api_call (calls f)) (\<lambda>r. known_fleet)"
proof (rule contract_call)
  fix s r s' assume s: "P s" "calls f s = (r, s')"
  then obtain st where st: "f (get s) = (r, st)" "s' = put st s" by (auto simp: calls_def split: prod.splits)
  note w = assms(1) [OF s(1) st(1)]
  have "well_behaved s s'" unfolding st(2) by (rule behaves_same_uids) (use w in blast)+
  moreover have "known_fleet s'" using \<open>well_behaved s s'\<close> assms(3) [OF s(1)] by (simp add: well_behaved_def)
  moreover have "L s s'" using w assms(4) put_same unfolding st(2) by metis
  ultimately show "(well_behaved s s' \<and> L s s') \<and> known_fleet s' \<and> (\<forall>m::lost. known_fleet s')" by simp
qed (use assms(2-4) in auto)

lemma update_call:
  assumes "\<And>s st. reads k x s \<Longrightarrow>
      replaces k x ((keep y x)\<lparr>ob_uid := ob_uid x, ob_rv := ob_rv x, ob_deleting := ob_deleting x\<rparr>) (get s) st \<Longrightarrow> L s (put st s)"
    and "same_version y x" "\<And>s. L s s"
  shows "contract well_behaved (\<lambda>s s'. well_behaved s s' \<and> L s s') (reads k x)
    (api_call (calls (store_update keep k y))) (\<lambda>r. known_fleet)"
proof (rule write_call)
  fix s r st assume s: "reads k x s" "store_update keep k y (get s) = (r, st)"
  have "st = get s \<or> L s (put st s)"
    using update_replaces [OF s(2) _ assms(2)] s(1) assms(1) [OF s(1)] unfolding reads_def by blast
  then show "versioned (fl_uids s) (get s) st \<and> (sound (fl_uids s) (get s) \<longrightarrow> sound (fl_uids s) st) \<and>
      (st = get s \<or> L s (put st s))"
    using versioned_update [OF s(2)] sound_update [OF s(2)] by blast
qed (use reads_stable reads_known assms(3) in auto)

lemma delete_call:
  assumes "\<And>s st. reads k x s \<Longrightarrow> removes k x (get s) st \<Longrightarrow> L s (put st s)" "\<And>s. L s s"
  shows "contract well_behaved (\<lambda>s s'. well_behaved s s' \<and> L s s') (reads k x)
    (api_call (calls (store_delete k x))) (\<lambda>r. known_fleet)"
proof (rule write_call)
  fix s r st assume s: "reads k x s" "store_delete k x (get s) = (r, st)"
  have "st = get s \<or> L s (put st s)"
    using delete_removes [OF s(2) _ same_version_self] s(1) assms(1) [OF s(1)] unfolding reads_def by blast
  then show "versioned (fl_uids s) (get s) st \<and> (sound (fl_uids s) (get s) \<longrightarrow> sound (fl_uids s) st) \<and>
      (st = get s \<or> L s (put st s))"
    using versioned_delete [OF s(2)] sound_delete [OF s(2)] by blast
qed (use reads_stable reads_known assms(2) in auto)

text \<open>A creation returns the object as it was stored, and a later reader may have seen it.\<close>

lemma create_call:
  assumes "\<And>s. map_of (get s) k = None \<Longrightarrow>
      L s ((put (AList.update k (x\<lparr>ob_uid := u, ob_rv := 1, ob_generation := 1\<rparr>) (get s)) s)\<lparr>fl_uids := insert u (fl_uids s)\<rparr>)"
    and "\<And>s. L s s"
  shows "contract well_behaved (\<lambda>s s'. well_behaved s s' \<and> L s s') known_fleet
    (api_call (minting u (calls (store_create u k x))))
    (\<lambda>r s. known_fleet s \<and> (\<forall>y. r = Inr y \<longrightarrow> y = x\<lparr>ob_uid := u, ob_rv := 1, ob_generation := 1\<rparr>))"
proof (rule contract_call)
  fix s r s' assume s: "known_fleet s" "minting u (calls (store_create u k x)) s = (r, s')"
  let ?x = "x\<lparr>ob_uid := u, ob_rv := 1, ob_generation := 1\<rparr>"
  have "well_behaved s s' \<and> L s s' \<and> (\<forall>y. r = Inr y \<longrightarrow> y = ?x)"
  proof (cases "u \<notin> fl_uids s \<and> map_of (get s) k = None")
    case True
    then have c: "store_create u k x (get s) = (Inr ?x, AList.update k ?x (get s))" by (simp add: store_create_def Let_def)
    then have s': "r = Inr ?x" "s' = (put (AList.update k ?x (get s)) s)\<lparr>fl_uids := insert u (fl_uids s)\<rparr>"
      using s(2) True by (auto simp: minting_def calls_def put_uids)
    have "well_behaved s s'" unfolding s'(2)
      by (rule behaves) (use True versioned_create [OF c] sound_create [OF c] in auto)
    then show ?thesis using s' assms(1) True by simp
  next
    case False
    then have "s' = s \<and> (\<exists>e. r = Inl e)"
      using s(2) put_same [of s] by (auto simp: minting_def calls_def store_create_def split: if_splits)
    then show ?thesis using assms(2) by auto
  qed
  moreover have "known_fleet s'" using calculation s(1) by (auto simp: well_behaved_def)
  ultimately show "(well_behaved s s' \<and> L s s') \<and> (known_fleet s' \<and> (\<forall>y. r = Inr y \<longrightarrow> y = ?x)) \<and>
      (\<forall>m. known_fleet s' \<and> (\<forall>y. Inl (lost_error m) = Inr y \<longrightarrow> y = ?x))" by simp
qed (use known_objects_stable assms(2) in auto)

end

interpretation cl: kind fl_clusters "\<lambda>st s. s\<lparr>fl_clusters := st\<rparr>"
  by unfold_locales (auto simp: well_behaved_def known_fleet_def intro: sound_subset)

interpretation np: kind fl_nodepools "\<lambda>st s. s\<lparr>fl_nodepools := st\<rparr>"
  by unfold_locales (auto simp: well_behaved_def known_fleet_def intro: sound_subset)

interpretation oi: kind fl_oidcconfigs "\<lambda>st s. s\<lparr>fl_oidcconfigs := st\<rparr>"
  by unfold_locales (auto simp: well_behaved_def known_fleet_def intro: sound_subset)

interpretation dn: kind fl_reservations "\<lambda>st s. s\<lparr>fl_reservations := st\<rparr>"
  by unfold_locales (auto simp: well_behaved_def known_fleet_def intro: sound_subset)

lemma on_calls:
  "on_clusters = cl.calls" "on_nodepools = np.calls" "on_oidcconfigs = oi.calls" "on_reservations = dn.calls"
  by (auto simp: fun_eq_iff on_clusters_def on_nodepools_def on_oidcconfigs_def on_reservations_def cl.calls_def np.calls_def
      oi.calls_def dn.calls_def)

section \<open>Calls that only read\<close>

text \<open>A contract that a program without effects has for everything that others keep.\<close>

definition silent :: "(fleet, 'a) prog \<Rightarrow> (api_error + 'a \<Rightarrow> bool) \<Rightarrow> bool" where
  "silent m Q \<longleftrightarrow> (\<forall>G P. (\<forall>s. G s s) \<longrightarrow> stable well_behaved P \<longrightarrow> contract well_behaved G P m (\<lambda>r s. P s \<and> Q r))"

lemma silentD:
  assumes "silent m Q" "\<And>s. G s s" "stable well_behaved P"
  shows "contract well_behaved G P m (\<lambda>r s. P s \<and> Q r)"
  using assms unfolding silent_def by blast

lemma silent_reading: "(\<And>s. Q (g s)) \<Longrightarrow> (\<And>m. Q (Inl (lost_error m))) \<Longrightarrow> silent (reading g) Q"
  unfolding silent_def reading_def by (intro allI impI contract_read) auto

lemma silent_ret: "Q (Inr x) \<Longrightarrow> silent (ret x) Q"
  unfolding silent_def by auto

lemma silent_attempt:
  assumes "silent m Q'" "\<And>r. Q' r \<Longrightarrow> silent (k r) Q"
  shows "silent (attempt m k) Q"
  unfolding silent_def
proof (intro allI impI)
  fix G :: "fleet \<Rightarrow> fleet \<Rightarrow> bool" and P assume *: "\<forall>s. G s s" "stable well_behaved P"
  show "contract well_behaved G P (attempt m k) (\<lambda>r s. P s \<and> Q r)"
  proof (rule contract_attempt)
    show "contract well_behaved G P m (\<lambda>r s. P s \<and> Q' r)" by (rule silentD [OF assms(1)]) (use * in auto)
    fix r
    have "contract well_behaved G (\<lambda>s. Q' r \<and> P s) (k r) (\<lambda>r s. P s \<and> Q r)"
      by (rule contract_pure, rule silentD [OF assms(2)]) (use * in auto)
    then show "contract well_behaved G (\<lambda>s. P s \<and> Q' r) (k r) (\<lambda>r s. P s \<and> Q r)"
      by (rule contract_conseq) auto
  qed
qed

lemma silent_andThen:
  assumes "silent m Q'" "\<And>x. Q' (Inr x) \<Longrightarrow> silent (k x) Q" "\<And>e. Q' (Inl e) \<Longrightarrow> Q (Inl e)"
  shows "silent (andThen m k) Q"
  unfolding andThen_def
proof (rule silent_attempt [OF assms(1)])
  fix r assume "Q' r"
  then show "silent (case r of Inl e \<Rightarrow> fail e | Inr x \<Rightarrow> k x) Q"
    using assms(2,3) by (cases r) (auto simp: silent_def)
qed

lemma silent_conseq:
  assumes "silent m Q'" "\<And>r. Q' r \<Longrightarrow> Q r"
  shows "silent m Q"
  unfolding silent_def
proof (intro allI impI)
  fix G :: "fleet \<Rightarrow> fleet \<Rightarrow> bool" and P assume *: "\<forall>s. G s s" "stable well_behaved P"
  have "contract well_behaved G P m (\<lambda>r s. P s \<and> Q' r)" by (rule silentD [OF assms(1)]) (use * in auto)
  then show "contract well_behaved G P m (\<lambda>r s. P s \<and> Q r)" by (rule contract_conseq) (use assms(2) in auto)
qed

lemma silent_cancelled: "silent cancelled (\<lambda>r. \<exists>c. r = Inr c)"
  unfolding cancelled_def by (rule silent_attempt [OF silent_reading [where Q = "\<lambda>_. True"]]) (auto intro: silent_ret)

lemma silent_check_all:
  assumes "prepareResourceAuthz A rq ls False = Inr p"
  shows "silent (check_all A p rsc actions) (\<lambda>r. (\<exists>x. r = Inr x) \<and> (r = Inr None \<longrightarrow> (\<forall>a \<in> set actions. permitted A rq ls rsc a)))"
proof (induction actions)
  case Nil
  show ?case by (auto intro: silent_ret)
next
  case (Cons a actions)
  show ?case unfolding check_all.simps
  proof (rule silent_andThen [OF silent_cancelled])
    fix c assume "\<exists>c'. Inr c = (Inr c' :: api_error + bool)"
    show "silent (case Check (ap_cedar A) c c p a rsc of Inl _ \<Rightarrow> ret (Some (APIError ''errAuthzFailed''))
        | Inr decision \<Rightarrow> if de_Allowed decision then check_all A p rsc actions else ret (Some (APIError ''errAuthzDenied'')))
        (\<lambda>r. (\<exists>x. r = Inr x) \<and> (r = Inr None \<longrightarrow> (\<forall>a \<in> set (a # actions). permitted A rq ls rsc a)))"
    proof (cases "Check (ap_cedar A) c c p a rsc")
      case (Inr d)
      then have "\<not> c" by (auto simp: Check_def)
      then have "de_Allowed d \<Longrightarrow> permitted A rq ls rsc a" using Inr assms by (auto simp: permitted_def)
      then show ?thesis using Inr by (auto intro!: silent_ret intro: silent_conseq [OF Cons.IH])
    qed (auto intro!: silent_ret)
  qed simp
qed

lemma silent_authorize:
  "silent (authorizeResource A rq ls op rsc additional)
     (\<lambda>r. (\<exists>x. r = Inr x) \<and> (r = Inr None \<longrightarrow> (\<forall>a \<in> set (op # additional). permitted A rq ls rsc a)))"
  unfolding authorizeResource_def
proof (rule silent_andThen [OF silent_cancelled])
  fix c assume "\<exists>c'. Inr c = (Inr c' :: api_error + bool)"
  show "silent (case prepareResourceAuthz A rq ls c of Inl _ \<Rightarrow> ret (Some (APIError ''errAuthzFailed''))
      | Inr p \<Rightarrow> check_all A p rsc (op # additional))
      (\<lambda>r. (\<exists>x. r = Inr x) \<and> (r = Inr None \<longrightarrow> (\<forall>a \<in> set (op # additional). permitted A rq ls rsc a)))"
  proof (cases "prepareResourceAuthz A rq ls c")
    case (Inr p)
    then have "\<not> c" by (auto simp: prepareResourceAuthz_def Prepare_def)
    then show ?thesis using Inr silent_check_all [of A rq ls p rsc "op # additional"] by simp
  qed (auto intro!: silent_ret)
qed simp

end
