(* ===== verification/RequestProps.thy ===== *)
theory RequestProps
  imports HandlerProps
begin

text \<open>
  Contracts of the handlers.  A handler is composed of parts that only read (\<open>silent\<close>), of claims on queues, which
  leave all other objects alone (\<open>aside\<close>), and of writes of a snapshot, which its authorization must precede.
  \<open>keeps P m\<close> says that, started where \<open>P\<close> holds, all effects of \<open>m\<close> are permitted to the request.
\<close>

section \<open>Composing contracts\<close>

named_theorems quiets

abbreviation quiet :: "(fleet, 'a) prog \<Rightarrow> bool" where
  "quiet m \<equiv> silent m (\<lambda>_. True)"

lemma silent_quiet: "silent m Q \<Longrightarrow> quiet m"
  by (rule silent_conseq) auto

lemma silent_fail: "Q (Inl e) \<Longrightarrow> silent (fail e) Q"
  unfolding silent_def by auto

lemma silent_returning: "Q r \<Longrightarrow> silent (returning r) Q"
  unfolding returning_def by (cases r) (auto intro: silent_ret silent_fail)

lemma quiet_ret [quiets]: "quiet (ret x)"
  by (simp add: silent_ret)

lemma quiet_fail [quiets]: "quiet (fail e)"
  by (simp add: silent_fail)

lemma quiet_reading [quiets]: "quiet (reading g)"
  by (simp add: silent_reading)

lemma quiet_attempt [quiets]: "quiet m \<Longrightarrow> (\<And>r. quiet (k r)) \<Longrightarrow> quiet (attempt m k)"
  by (rule silent_attempt)

lemma quiet_andThen [quiets]: "quiet m \<Longrightarrow> (\<And>r. quiet (k r)) \<Longrightarrow> quiet (andThen m k)"
  by (rule silent_andThen) auto

lemma quiet_responding [quiets]: "quiet m \<Longrightarrow> quiet k \<Longrightarrow> quiet (responding m k)"
  unfolding responding_def by (rule quiet_andThen) (auto split: option.splits intro: quiet_ret)

text \<open>A precondition that others keep, of a fleet in order.\<close>

definition firm :: "(fleet \<Rightarrow> bool) \<Rightarrow> bool" where
  "firm P \<longleftrightarrow> stable well_behaved P \<and> (\<forall>s. P s \<longrightarrow> known_fleet s)"

lemma firm_known [simp]: "firm known_fleet"
  by (simp add: firm_def cl.known_objects_stable)

lemma firm_reads [simp]: "firm (cl.reads k x)" "firm (np.reads k y)" "firm (oi.reads k z)" "firm (dn.reads k u)"
  by (simp_all add: firm_def cl.reads_stable np.reads_stable oi.reads_stable dn.reads_stable
      cl.reads_known np.reads_known oi.reads_known dn.reads_known)

definition keeps :: "'p api \<Rightarrow> request \<Rightarrow> string \<Rightarrow> (fleet \<Rightarrow> bool) \<Rightarrow> (fleet, 'a) prog \<Rightarrow> bool" where
  "keeps A rq own P m \<longleftrightarrow> contract well_behaved (guar A rq own) P m (\<lambda>_. known_fleet)"

definition aside :: "'p api \<Rightarrow> request \<Rightarrow> string \<Rightarrow> (fleet, 'a) prog \<Rightarrow> bool" where
  "aside A rq own m \<longleftrightarrow> (\<forall>P. firm P \<longrightarrow> contract well_behaved (guar A rq own) P m (\<lambda>_. P))"

lemma silent_aside:
  assumes "silent m Q"
  shows "aside A rq own m"
  unfolding aside_def
proof (intro allI impI)
  fix P assume "firm P"
  then have "contract well_behaved (guar A rq own) P m (\<lambda>r s. P s \<and> Q r)" by (intro silentD [OF assms]) (auto simp: firm_def)
  then show "contract well_behaved (guar A rq own) P m (\<lambda>_. P)" by (rule contract_conseq) auto
qed

lemma aside_attempt: "aside A rq own m \<Longrightarrow> (\<And>r. aside A rq own (k r)) \<Longrightarrow> aside A rq own (attempt m k)"
  unfolding aside_def by (blast intro: contract_attempt)

lemma aside_andThen: "aside A rq own m \<Longrightarrow> (\<And>r. aside A rq own (k r)) \<Longrightarrow> aside A rq own (andThen m k)"
  unfolding andThen_def
  by (rule aside_attempt) (auto split: sum.splits intro: silent_aside [OF quiet_fail])

lemma keeps_weaken: "keeps A rq own P m \<Longrightarrow> (\<And>s. P' s \<Longrightarrow> P s) \<Longrightarrow> keeps A rq own P' m"
  unfolding keeps_def by (rule contract_conseq)

lemma aside_keeps: "aside A rq own m \<Longrightarrow> firm P \<Longrightarrow> keeps A rq own P m"
  unfolding aside_def keeps_def
  by (rule contract_conseq [where P' = P and Q' = "\<lambda>_. P"]) (auto simp: firm_def)

lemma quiet_keeps: "quiet m \<Longrightarrow> firm P \<Longrightarrow> keeps A rq own P m"
  by (rule aside_keeps [OF silent_aside])

text \<open>What comes before and after a part of a handler.\<close>

lemma keeps_silent:
  assumes "silent m Q" "firm P" "\<And>r. Q r \<Longrightarrow> keeps A rq own P (k r)"
  shows "keeps A rq own P (attempt m k)"
  unfolding keeps_def
proof (rule contract_attempt)
  show "contract well_behaved (guar A rq own) P m (\<lambda>r s. Q r \<and> P s)"
    by (rule contract_conseq [OF silentD [OF assms(1), where P = P]]) (use assms(2) in \<open>auto simp: firm_def\<close>)
  show "contract well_behaved (guar A rq own) (\<lambda>s. Q r \<and> P s) (k r) (\<lambda>_. known_fleet)" for r
    by (rule contract_pure) (use assms(3) in \<open>simp add: keeps_def\<close>)
qed

lemma keeps_aside:
  assumes "aside A rq own m" "firm P" "\<And>r. keeps A rq own P (k r)"
  shows "keeps A rq own P (attempt m k)"
  using assms unfolding aside_def keeps_def by (blast intro: contract_attempt)

lemma keeps_attempt:
  assumes "keeps A rq own P m" "\<And>r. keeps A rq own known_fleet (k r)"
  shows "keeps A rq own P (attempt m k)"
  using assms unfolding keeps_def by (rule contract_attempt)

lemma keeps_fail [simp]: "firm P \<Longrightarrow> keeps A rq own P (fail e)"
  by (rule quiet_keeps [OF quiet_fail])

lemma keeps_ret [simp]: "firm P \<Longrightarrow> keeps A rq own P (ret x)"
  by (rule quiet_keeps [OF quiet_ret])

lemma keeps_silent_then:
  assumes "silent m Q" "firm P" "\<And>x. Q (Inr x) \<Longrightarrow> keeps A rq own P (k x)"
  shows "keeps A rq own P (andThen m k)"
  unfolding andThen_def by (rule keeps_silent [OF assms(1,2)]) (use assms(2,3) in \<open>auto split: sum.splits\<close>)

lemma keeps_aside_then:
  assumes "aside A rq own m" "firm P" "\<And>r. keeps A rq own P (k r)"
  shows "keeps A rq own P (andThen m k)"
  unfolding andThen_def by (rule keeps_aside [OF assms(1,2)]) (use assms(2,3) in \<open>auto split: sum.splits\<close>)

lemma keeps_andThen:
  assumes "keeps A rq own P m" "\<And>r. keeps A rq own known_fleet (k r)"
  shows "keeps A rq own P (andThen m k)"
  unfolding andThen_def by (rule keeps_attempt [OF assms(1)]) (use assms(2) in \<open>auto split: sum.splits\<close>)

lemma keeps_responding:
  assumes "silent m (\<lambda>r. (\<exists>x. r = Inr x) \<and> (r = Inr None \<longrightarrow> C))" "firm P" "C \<Longrightarrow> keeps A rq own P k"
  shows "keeps A rq own P (responding m k)"
  unfolding responding_def by (rule keeps_silent_then [OF assms(1,2)]) (use assms(2,3) in \<open>auto split: option.splits\<close>)

lemma keeps_RetryOnConflict: "keeps A rq own known_fleet m \<Longrightarrow> keeps A rq own known_fleet (RetryOnConflict m)"
  unfolding keeps_def by (rule contract_RetryOnConflict) simp

lemma keeps_retries:
  assumes "\<And>c. keeps A rq own known_fleet (f c)"
  shows "keeps A rq own known_fleet (retries n c f)"
  by (induction n arbitrary: c) (auto intro!: keeps_andThen assms split: prod.splits option.splits)

lemma keeps_RetryAttempts: "(\<And>c. keeps A rq own known_fleet (f c)) \<Longrightarrow> keeps A rq own known_fleet (RetryAttempts c f)"
  unfolding RetryAttempts_def by (rule keeps_retries)

section \<open>Calls on one kind of object\<close>

context kind
begin

text \<open>Reading an object, by name or by UID, makes its snapshot known.\<close>

lemma keeps_get:
  assumes "\<And>x. keeps A rq own (reads k x) (c (Inr x))" "\<And>e. keeps A rq own known_fleet (c (Inl e))"
  shows "keeps A rq own known_fleet (attempt (reading (\<lambda>s. store_get k (get s))) c)"
  unfolding keeps_def
proof (rule contract_attempt)
  let ?Q = "\<lambda>r s. case r of Inl e \<Rightarrow> known_fleet s | Inr x \<Rightarrow> reads k x s"
  show "contract well_behaved (guar A rq own) known_fleet (reading (\<lambda>s. store_get k (get s))) ?Q"
    unfolding reading_def
    by (rule contract_read) (auto simp: known_objects_stable store_get_def of_option_def readsI split: option.splits)
  show "contract well_behaved (guar A rq own) (?Q r) (c r) (\<lambda>_. known_fleet)" for r
    using assms by (cases r) (simp_all add: keeps_def)
qed

lemma keeps_by_uid:
  assumes "\<And>k x. fst k = accountNamespace account \<Longrightarrow> ob_uid x = uid \<Longrightarrow> keeps A rq own (reads k x) (c (Inr (k, x)))"
    and "\<And>e. keeps A rq own known_fleet (c (Inl e))"
  shows "keeps A rq own known_fleet (attempt (reading (\<lambda>s. store_by_uid account uid (get s))) c)"
  unfolding keeps_def
proof (rule contract_attempt)
  let ?Q = "\<lambda>r s. case r of Inl e \<Rightarrow> known_fleet s
    | Inr (k, x) \<Rightarrow> (fst k = accountNamespace account \<and> ob_uid x = uid) \<and> reads k x s"
  have found: "?Q (store_by_uid account uid (get s)) s" if "known_fleet s" for s
  proof (cases "store_by_uid account uid (get s)")
    case (Inr kx)
    obtain k x where kx: "kx = (k, x)" by (cases kx)
    then have "(k, x) \<in> set (store_list (\<lambda>k x. fst k = accountNamespace account \<and> ob_uid x = uid) (get s))"
      using Inr by (auto simp: store_by_uid_def simp del: split_paired_All split: list.splits)
    then have "(k, x) \<in> set (get s)" "fst k = accountNamespace account" "ob_uid x = uid" unfolding store_list_iff by simp_all
    moreover from this(1) have "map_of (get s) k = Some x" using known [OF that] by (simp add: sound_def)
    ultimately show ?thesis unfolding Inr kx using readsI [OF that] by simp
  qed (use that in simp)
  show "contract well_behaved (guar A rq own) known_fleet (reading (\<lambda>s. store_by_uid account uid (get s))) ?Q"
    unfolding reading_def by (rule contract_read) (use found in \<open>auto simp: known_objects_stable\<close>)
  show "contract well_behaved (guar A rq own) (?Q r) (c r) (\<lambda>_. known_fleet)" for r
  proof (cases r)
    case (Inr kx)
    obtain k x where "kx = (k, x)" by (cases kx)
    then show ?thesis unfolding Inr
      using assms(1) [of k x] by (simp add: keeps_def contract_pure del: split_paired_All)
  qed (use assms(2) in \<open>simp add: keeps_def\<close>)
qed

lemma keeps_update:
  assumes "\<And>s st. replaces k x ((keep y x)\<lparr>ob_uid := ob_uid x, ob_rv := ob_rv x, ob_deleting := ob_deleting x\<rparr>) (get s) st \<Longrightarrow>
      lawful A rq own s (put st s)" "same_version y x"
  shows "keeps A rq own (reads k x) (api_call (calls (store_update keep k y)))"
  unfolding keeps_def guar_def by (rule update_call) (use assms lawful.idle in auto)

lemma keeps_delete:
  assumes "\<And>s st. removes k x (get s) st \<Longrightarrow> lawful A rq own s (put st s)"
  shows "keeps A rq own (reads k x) (api_call (calls (store_delete k x)))"
  unfolding keeps_def guar_def by (rule delete_call) (use assms lawful.idle in auto)

lemma keeps_create:
  assumes "\<And>s. map_of (get s) k = None \<Longrightarrow> lawful A rq own s
      ((put (AList.update k (x\<lparr>ob_uid := u, ob_rv := 1, ob_generation := 1\<rparr>) (get s)) s)\<lparr>fl_uids := insert u (fl_uids s)\<rparr>)"
    and "\<And>r. (\<And>y. r = Inr y \<Longrightarrow> y = x\<lparr>ob_uid := u, ob_rv := 1, ob_generation := 1\<rparr>) \<Longrightarrow> keeps A rq own known_fleet (c r)"
  shows "keeps A rq own known_fleet (attempt (api_call (minting u (calls (store_create u k x)))) c)"
  unfolding keeps_def
proof (rule contract_attempt)
  let ?y = "x\<lparr>ob_uid := u, ob_rv := 1, ob_generation := 1\<rparr>"
  show "contract well_behaved (guar A rq own) known_fleet (api_call (minting u (calls (store_create u k x))))
      (\<lambda>r s. (\<forall>y. r = Inr y \<longrightarrow> y = ?y) \<and> known_fleet s)"
    unfolding guar_def by (rule contract_conseq [OF create_call]) (use assms(1) lawful.idle in auto)
  show "contract well_behaved (guar A rq own) (\<lambda>s. (\<forall>y. r = Inr y \<longrightarrow> y = ?y) \<and> known_fleet s) (c r) (\<lambda>_. known_fleet)" for r
    by (rule contract_pure) (use assms(2) in \<open>auto simp: keeps_def\<close>)
qed

end

lemmas kind_calls = on_calls [symmetric]

section \<open>Labels\<close>

definition permitted_all :: "'p api \<Rightarrow> request \<Rightarrow> labels \<Rightarrow> Resource \<Rightarrow> string list \<Rightarrow> bool" where
  "permitted_all A rq ls rsc actions \<longleftrightarrow> (\<forall>a \<in> set actions. permitted A rq ls rsc a)"

lemma keeps_authorized:
  assumes "firm P" "\<And>reply. keeps A rq own P (c (Some reply))"
    "permitted_all A rq ls rsc (op # additional) \<Longrightarrow> keeps A rq own P (c None)"
  shows "keeps A rq own P (andThen (authorizeResource A rq ls op rsc additional) c)"
proof (rule keeps_silent_then [OF silent_authorize assms(1)])
  fix x :: "reply option"
  assume "(\<exists>y. Inr x = (Inr y :: api_error + reply option)) \<and>
    (Inr x = (Inr None :: api_error + reply option) \<longrightarrow> (\<forall>a \<in> set (op # additional). permitted A rq ls rsc a))"
  then show "keeps A rq own P (c x)" using assms(2,3) by (cases x) (auto simp: permitted_all_def)
qed

context kind
begin

lemma keeps_label_write:
  assumes save: "\<And>y. save y = andThen (returning (validateOwnedSnapshot account k y)) (\<lambda>_. api_call (calls (store_update keep k y)))"
    and keep: "\<And>a. keep (x\<lparr>ob_annotations := a\<rparr>) x = x\<lparr>ob_annotations := a\<rparr>"
    and law: "\<And>s st. replaces k x (x\<lparr>ob_annotations := applyLabelPatch (ob_annotations x) patch\<rparr>) (get s) st \<Longrightarrow>
        lawful A rq own s (put st s)"
  shows "keeps A rq own (reads k x) (label_write patch save x)"
proof -
  let ?y = "x\<lparr>ob_annotations := applyLabelPatch (ob_annotations x) patch\<rparr>"
  have "keeps A rq own (reads k x) (api_call (calls (store_update keep k ?y)))"
    by (rule keeps_update) (use law in \<open>auto simp: keep same_version_def\<close>)
  then have "keeps A rq own (reads k x) (save ?y)" unfolding save
    by (intro keeps_silent_then [OF silent_returning [where Q = "\<lambda>_. True"]])
      (simp_all add: firm_def reads_stable reads_known)
  moreover have "firm (reads k x)" by (simp add: firm_def reads_stable reads_known)
  ultimately show ?thesis unfolding label_write_def Let_def
    by (auto intro!: keeps_attempt split: sum.splits api_error.splits)
qed

lemma keeps_label_attempt:
  assumes save: "\<And>y. save y = andThen (returning (validateOwnedSnapshot account k y)) (\<lambda>_. api_call (calls (store_update keep k y)))"
    and keep: "\<And>x a. keep (x\<lparr>ob_annotations := a\<rparr>) x = x\<lparr>ob_annotations := a\<rparr>"
    and resource: "\<And>x. silent (resource x) (\<lambda>r. \<forall>rsc. r = Inr rsc \<longrightarrow> may x rsc)"
    and law: "\<And>s st x rsc patch. replaces k x (x\<lparr>ob_annotations := applyLabelPatch (ob_annotations x) patch\<rparr>) (get s) st \<Longrightarrow>
        may x rsc \<Longrightarrow>
        permitted_all A rq (map_of (patch_sets patch)) rsc (fst (patch_actions patch) # snd (patch_actions patch)) \<Longrightarrow>
        lawful A rq own s (put st s)"
  shows "keeps A rq own known_fleet
    (label_attempt A rq patch (reading (\<lambda>s. store_get k (get s))) save resource uid)"
proof -
  have reads: "firm (reads k x)" for x by (simp add: firm_def reads_stable reads_known)
  have res: "keeps A rq own (reads k x) (attempt (resource x) c)"
    if "\<And>rsc. may x rsc \<Longrightarrow> keeps A rq own (reads k x) (c (Inr rsc))" "\<And>e. keeps A rq own (reads k x) (c (Inl e))"
    for x and c :: "api_error + Resource \<Rightarrow> (fleet, string \<times> reply option) prog"
  proof (rule keeps_silent [OF resource reads])
    fix r :: "api_error + Resource" assume "\<forall>rsc. r = Inr rsc \<longrightarrow> may x rsc"
    then show "keeps A rq own (reads k x) (c r)" using that by (cases r) blast+
  qed
  have "keeps A rq own (reads k x) (andThen (label_write p save x) (\<lambda>outcome. ret (ob_uid x, outcome)))"
    if "may x rsc" "permitted_all A rq (map_of (patch_sets p)) rsc (fst (patch_actions p) # snd (patch_actions p))"
    for x rsc p
    by (rule keeps_andThen [OF keeps_label_write [OF save keep law [OF _ that]]]) simp_all
  then show ?thesis
    unfolding label_attempt_def Let_def split_beta
    by (intro keeps_get)
      (auto simp: reads intro!: res keeps_authorized split: api_error.splits option.splits)
qed

lemma keeps_labels:
  assumes "load = reading (\<lambda>s. store_get k (get s))"
    and "\<And>y. save y = andThen (returning (validateOwnedSnapshot account k y)) (\<lambda>_. api_call (calls (store_update keep k y)))"
    and "\<And>x a. keep (x\<lparr>ob_annotations := a\<rparr>) x = x\<lparr>ob_annotations := a\<rparr>"
    and "\<And>x. silent (resource x) (\<lambda>r. \<forall>rsc. r = Inr rsc \<longrightarrow> may x rsc)"
    and "\<And>s st x rsc patch. replaces k x (x\<lparr>ob_annotations := applyLabelPatch (ob_annotations x) patch\<rparr>) (get s) st \<Longrightarrow>
        may x rsc \<Longrightarrow>
        permitted_all A rq (map_of (patch_sets patch)) rsc (fst (patch_actions patch) # snd (patch_actions patch)) \<Longrightarrow>
        lawful A rq own s (put st s)"
  shows "keeps A rq own known_fleet (resourceLabels A rq req load save resource)"
proof -
  have "keeps A rq own known_fleet (label_attempt A rq patch load save resource uid)" for patch uid
    unfolding assms(1) by (rule keeps_label_attempt [OF assms(2-5)])
  then show ?thesis unfolding resourceLabels_def Let_def
    by (auto intro!: keeps_andThen keeps_RetryAttempts split: label_request.splits option.splits)
qed

end

text \<open>A call that gives out no UID.\<close>

lemma lawful_cluster:
  "fst k = accountNamespace (rq_AccountID rq) \<Longrightarrow>
    lawful_store (cluster_may A rq) (cluster_may_create A rq) cluster_changes ''DeleteCluster'' k (fl_clusters s) st \<Longrightarrow>
    lawful A rq own s (s\<lparr>fl_clusters := st\<rparr>)"
  using lawful.on_cluster [of k rq A s st own "fl_uids s"] by (simp add: cl.same_uids)

lemma lawful_pool:
  "fst k = accountNamespace (rq_AccountID rq) \<Longrightarrow>
    lawful_store (pool_may A rq) (pool_may_create A rq) pool_changes ''DeleteNodePool'' k (fl_nodepools s) st \<Longrightarrow>
    lawful A rq own s (s\<lparr>fl_nodepools := st\<rparr>)"
  using lawful.on_pool [of k rq A s st own "fl_uids s"] by (simp add: np.same_uids)

lemma lawful_oidc:
  "fst k = accountNamespace (rq_AccountID rq) \<Longrightarrow>
    lawful_store (oidc_may A rq) (oidc_may_create A rq) (\<lambda>_ _. None) ''DeleteOIDCConfig'' k (fl_oidcconfigs s) st \<Longrightarrow>
    lawful A rq own s (s\<lparr>fl_oidcconfigs := st\<rparr>)"
  using lawful.on_oidc [of k rq A s st own "fl_uids s"] by (simp add: oi.same_uids)

lemma lawful_reservation:
  "fst k = accountNamespace (rq_AccountID rq) \<Longrightarrow>
    lawful_store (dns_may A rq) (dns_may_create A rq) (\<lambda>_ _. None) ''DeleteDNSReservation'' k (fl_reservations s) st \<Longrightarrow>
    lawful A rq own s (s\<lparr>fl_reservations := st\<rparr>)"
  using lawful.on_reservation [of k rq A s st own "fl_uids s"] by (simp add: dn.same_uids)

lemma lawful_labels:
  assumes "replaces k x (x\<lparr>ob_annotations := applyLabelPatch (ob_annotations x) patch\<rparr>) st st'"
    "permitted_all A rq (map_of (patch_sets patch)) rsc (fst (patch_actions patch) # snd (patch_actions patch))"
    "\<And>ls a. permitted A rq ls rsc a \<Longrightarrow> may ls k x a"
  shows "lawful_store may may_create changes delete k st st'"
  by (rule lawful_store.labelled [OF assms(1) refl prod.collapse [symmetric]]) (use assms(2,3) in \<open>auto simp: permitted_all_def\<close>)

text \<open>The resource of a node pool shows the parent it was read with.\<close>

lemma silent_nodePoolResource:
  "silent (nodePoolResource account np) (\<lambda>r. \<forall>rsc. r = Inr rsc \<longrightarrow> (\<exists>parent. parent_of np parent \<and> rsc = pool_resource np parent))"
proof (cases "nodePoolParent np")
  case (Some owner)
  show ?thesis unfolding nodePoolResource_def Some option.case GetCluster_def
    by (rule silent_andThen [OF quiet_reading]) (auto intro!: silent_fail silent_ret exI simp: parent_of_def Some)
qed (simp add: nodePoolResource_def silent_fail)

lemma update_keeps_labels:
  "keep_Cluster (c\<lparr>ob_annotations := a\<rparr>) c = c\<lparr>ob_annotations := a\<rparr>"
  "keep_NodePool (n\<lparr>ob_annotations := a\<rparr>) n = n\<lparr>ob_annotations := a\<rparr>"
  "keep_OidcConfig (o'\<lparr>ob_annotations := a\<rparr>) o' = o'\<lparr>ob_annotations := a\<rparr>"
  "keep_DNSReservation (d\<lparr>ob_annotations := a\<rparr>) d = d\<lparr>ob_annotations := a\<rparr>"
  by (simp_all add: keep_Cluster_def keep_NodePool_def keep_OidcConfig_def keep_DNSReservation_def put_OidcConfig_def
      put_DNSReservation_def)

lemma cluster_Labels_keeps: "keeps A rq own known_fleet (cluster_Labels A rq name req)"
  unfolding cluster_Labels_def Let_def
  by (rule cl.keeps_labels [where account = "rq_AccountID rq" and keep = keep_Cluster
        and may = "\<lambda>x rsc. rsc = clusterResource x"])
    (auto simp: GetCluster_def UpdateCluster_def on_calls update_keeps_labels cluster_may_def silent_ret
      intro!: lawful_cluster lawful_labels)

lemma nodepool_Labels_keeps: "keeps A rq own known_fleet (nodepool_Labels A rq name req)"
  unfolding nodepool_Labels_def Let_def
  by (rule np.keeps_labels [where account = "rq_AccountID rq" and keep = keep_NodePool
      and may = "\<lambda>x rsc. \<exists>parent. parent_of x parent \<and> rsc = pool_resource x parent"])
    (auto simp: GetNodePool_def UpdateNodePool_def on_calls update_keeps_labels pool_may_def
      intro!: lawful_pool lawful_labels silent_nodePoolResource)

lemma oidcconfig_Labels_keeps: "keeps A rq own known_fleet (oidcconfig_Labels A rq name req)"
  unfolding oidcconfig_Labels_def Let_def
  by (rule oi.keeps_labels [where account = "rq_AccountID rq" and keep = keep_OidcConfig
      and may = "\<lambda>x rsc. rsc = oidcConfigResource (accountNamespace (rq_AccountID rq), name) x"])
    (auto simp: GetOidcConfig_def UpdateOidcConfigObject_def on_calls update_keeps_labels oidc_may_def silent_ret
      intro!: lawful_oidc lawful_labels)

lemma dnsreservation_Labels_keeps: "keeps A rq own known_fleet (dnsreservation_Labels A rq name req)"
  unfolding dnsreservation_Labels_def Let_def
  by (rule dn.keeps_labels [where account = "rq_AccountID rq" and keep = keep_DNSReservation
      and may = "\<lambda>x rsc. rsc = dnsReservationResource (accountNamespace (rq_AccountID rq), name) x"])
    (auto simp: GetDNSReservation_def UpdateDNSReservation_def on_calls update_keeps_labels dns_may_def silent_ret
      intro!: lawful_reservation lawful_labels)

section \<open>Handlers that only read\<close>

lemma quiet_cancelled [quiets]: "quiet cancelled"
  by (rule silent_quiet [OF silent_cancelled])

lemma quiet_check_all [quiets]: "quiet (check_all A p rsc actions)"
  by (induction actions) (auto intro!: quiets split: sum.splits)

lemma quiet_authorize [quiets]:
  "quiet (authorizeResource A rq ls op rsc additional)" "quiet (authorizeCollection A rq op kd)"
  unfolding authorizeCollection_def by (rule silent_quiet [OF silent_authorize])+

lemma quiet_nodePoolResource [quiets]: "quiet (nodePoolResource account np)"
  by (rule silent_quiet [OF silent_nodePoolResource])

lemma quiet_authorizeNodePool [quiets]: "quiet (authorizeNodePool A rq ls op name np additional)"
  unfolding authorizeNodePool_def by (auto intro!: quiets split: sum.splits option.splits)

lemma quiet_client [quiets]:
  "quiet (GetCluster account name)" "quiet (ListClusters account)" "quiet (GetNodePool account name)"
  "quiet (ListNodePools account uid)" "quiet (GetOidcConfig account name)" "quiet (ListOidcConfigs account)"
  "quiet (GetDNSReservation account name)" "quiet (ListDNSReservations account)" "quiet (GetOidcIssuerIndex name)"
  "quiet (GetDNSReservationByUID account uid)" "quiet (GetOidcConfigByUID account uid)"
  by (simp_all add: GetCluster_def ListClusters_def GetNodePool_def ListNodePools_def GetOidcConfig_def ListOidcConfigs_def
      GetDNSReservation_def ListDNSReservations_def GetOidcIssuerIndex_def GetDNSReservationByUID_def
      GetOidcConfigByUID_def quiet_reading)

lemma quiet_requireOwnedCluster [quiets]: "quiet (requireOwnedCluster account np)"
  unfolding requireOwnedCluster_def by (auto intro!: quiets split: option.splits)

lemma quiet_returning [quiets]: "quiet (returning r)"
  by (simp add: silent_returning)

lemma quiet_cluster_reads [quiets]: "quiet (cluster_List A rq l f)" "quiet (cluster_Get A rq name)"
  unfolding cluster_List_def cluster_Get_def Let_def by (auto intro!: quiets split: sum.splits)

lemma quiet_nodepool_reads [quiets]: "quiet (nodepool_List A L rq q)" "quiet (nodepool_Get A rq name)"
  unfolding nodepool_List_def nodepool_Get_def Let_def by (auto intro!: quiets split: sum.splits)

lemma quiet_oidc_reads [quiets]: "quiet (oidcconfig_List A rq l f)" "quiet (oidcconfig_Get A rq name)"
  unfolding oidcconfig_List_def oidcconfig_Get_def Let_def by (auto intro!: quiets split: sum.splits)

lemma quiet_dns_reads [quiets]: "quiet (dnsreservation_List A rq l f)" "quiet (dnsreservation_Get A rq name)"
  unfolding dnsreservation_List_def dnsreservation_Get_def Let_def by (auto intro!: quiets split: sum.splits)

section \<open>Deletions\<close>

text \<open>Authorizing a node pool, for any operation on a stored one and for a creation.\<close>

lemma silent_authorizeNodePool:
  "silent (authorizeNodePool A rq ls op name np additional) (\<lambda>r. (\<exists>x. r = Inr x) \<and> (r = Inr None \<longrightarrow>
     (\<exists>parent. parent_of np parent \<and> permitted_all A rq ls
        (if op = ''CreateNodePool'' then candidateResource (pool_resource np parent) name else pool_resource np parent)
        (op # additional))))"
  unfolding authorizeNodePool_def
proof (rule silent_attempt [OF silent_nodePoolResource])
  fix r :: "api_error + Resource"
  assume r: "\<forall>rsc. r = Inr rsc \<longrightarrow> (\<exists>parent. parent_of np parent \<and> rsc = pool_resource np parent)"
  let ?Q = "\<lambda>r. (\<exists>x. r = Inr x) \<and> (r = Inr None \<longrightarrow>
     (\<exists>parent. parent_of np parent \<and> permitted_all A rq ls
        (if op = ''CreateNodePool'' then candidateResource (pool_resource np parent) name else pool_resource np parent)
        (op # additional)))"
  show "silent (case r of
      Inl err \<Rightarrow> (case nodePoolNotFound op of
          Some notFound \<Rightarrow> ret (Some (APIError (if err = NotFound then notFound else ''errAuthzFailed'')))
        | None \<Rightarrow> ret (Some (APIError ''errAuthzFailed'')))
    | Inr resource \<Rightarrow> authorizeResource A rq ls op
        (if op = ''CreateNodePool'' then candidateResource resource name else resource) additional) ?Q"
  proof (cases r)
    case (Inr rsc)
    then obtain parent where parent: "parent_of np parent" "rsc = pool_resource np parent" using r by blast
    show ?thesis unfolding Inr sum.case
      by (rule silent_conseq [OF silent_authorize]) (use parent in \<open>auto simp: permitted_all_def\<close>)
  qed (auto intro!: silent_ret split: option.splits)
qed

lemma lawful_delete: "removes k x st st' \<Longrightarrow> may Map.empty k x delete \<Longrightarrow> lawful_store may may_create changes delete k st st'"
  by (rule lawful_store.deleted)

lemma keeps_owned:
  "firm P \<Longrightarrow> keeps A rq own P m \<Longrightarrow> keeps A rq own P (andThen (returning r) (\<lambda>_. m))"
  by (rule keeps_silent_then [OF quiet_returning])

lemma cluster_Delete_keeps: "keeps A rq own known_fleet (cluster_Delete A rq name)"
  unfolding cluster_Delete_def GetCluster_def DeleteClusterObject_def on_calls Let_def
  by (rule cl.keeps_get)
    (auto intro!: keeps_responding [OF silent_authorize] keeps_attempt keeps_owned cl.keeps_delete lawful_cluster lawful_delete
      simp: cluster_may_def)

lemma nodepool_Delete_keeps: "keeps A rq own known_fleet (nodepool_Delete A rq name)"
  unfolding nodepool_Delete_def GetNodePool_def DeleteNodePoolObject_def on_calls Let_def
  by (rule np.keeps_get)
    (auto intro!: keeps_responding [OF silent_authorizeNodePool] keeps_attempt keeps_owned np.keeps_delete lawful_pool lawful_delete
      simp: pool_may_def permitted_all_def)

lemma oidcconfig_Delete_keeps: "keeps A rq own known_fleet (oidcconfig_Delete A rq name)"
  unfolding oidcconfig_Delete_def GetOidcConfig_def DeleteOidcConfigObject_def on_calls Let_def
  by (rule oi.keeps_get)
    (auto intro!: keeps_responding [OF silent_authorize] keeps_attempt keeps_owned oi.keeps_delete lawful_oidc lawful_delete
      simp: oidc_may_def)

lemma dnsreservation_Delete_keeps: "keeps A rq own known_fleet (dnsreservation_Delete A rq name)"
proof -
  have "keeps A rq own known_fleet (dns_delete_once A rq name)"
    unfolding dns_delete_once_def GetDNSReservation_def DeleteDNSReservationObject_def on_calls Let_def
    by (rule dn.keeps_get)
      (auto intro!: keeps_authorized keeps_attempt dn.keeps_delete
          lawful_reservation [where k = "(accountNamespace (rq_AccountID rq), name)"] lawful_delete
        simp: dns_may_def permitted_all_def)
  then show ?thesis unfolding dnsreservation_Delete_def
    by (auto intro!: keeps_andThen keeps_RetryAttempts split: option.splits)
qed

section \<open>Creations\<close>

text \<open>What a creation needs does not depend on what the database fills in.\<close>

lemma cluster_may_create_cong:
  "ob_labels x = ob_labels y \<Longrightarrow> ob_annotations x = ob_annotations y \<Longrightarrow> cluster_may_create A rq k x = cluster_may_create A rq k y"
  by (simp add: cluster_may_create_def clusterResource_def candidateResource_def label_def)

lemma pool_may_create_cong:
  assumes "ob_labels x = ob_labels y" "ob_annotations x = ob_annotations y" "np_Owner x = np_Owner y"
  shows "pool_may_create A rq k x = pool_may_create A rq k y"
proof -
  have "label l x = label l y" for l by (simp add: label_def assms(1))
  then have "nodePoolParent x = nodePoolParent y"
    "candidateResource (pool_resource x parent) n = candidateResource (pool_resource y parent) n" for parent n
    by (simp_all add: nodePoolParent_def candidateResource_def pool_resource_def assms split: option.split)
  then show ?thesis by (simp add: pool_may_create_def parent_of_def assms(2))
qed

lemma oidc_may_create_cong:
  "ob_annotations x = ob_annotations y \<Longrightarrow> oidc_may_create A rq k x = oidc_may_create A rq k y"
  by (simp add: oidc_may_create_def oidcConfigResource_def candidateResource_def)

lemma dns_may_create_cong:
  "ob_annotations x = ob_annotations y \<Longrightarrow> dns_may_create A rq k x = dns_may_create A rq k y"
  by (simp add: dns_may_create_def dnsReservationResource_def candidateResource_def)

context kind
begin

lemma keeps_created:
  assumes "\<And>s. map_of (get s) k = None \<Longrightarrow> lawful A rq own s
      ((put (AList.update k (x\<lparr>ob_uid := u, ob_rv := 1, ob_generation := 1\<rparr>) (get s)) s)\<lparr>fl_uids := insert u (fl_uids s)\<rparr>)"
  shows "keeps A rq own known_fleet (api_call (minting u (calls (store_create u k x))))"
  unfolding keeps_def guar_def by (rule contract_conseq [OF create_call]) (use assms lawful.idle in auto)

end

lemma CreateOidcConfig_keeps:
  assumes "fst k = accountNamespace (rq_AccountID rq)" "oidc_may_create A rq k oc"
  shows "keeps A rq own known_fleet (CreateOidcConfig account u k oc)"
proof -
  have "oidc_may_create A rq k (oc\<lparr>ob_uid := u, ob_rv := 1, ob_generation := 1\<rparr>)"
    using assms(2) by (subst oidc_may_create_cong [where y = oc]) simp_all
  then have "keeps A rq own known_fleet (api_call (minting u (oi.calls (store_create u k oc))))"
    by (intro oi.keeps_created lawful.on_oidc [OF assms(1)] lawful_store.created)
  then show ?thesis unfolding CreateOidcConfig_def on_calls by (rule keeps_owned [OF firm_known])
qed

lemma CreateDNSReservation_keeps:
  assumes "fst k = accountNamespace (rq_AccountID rq)" "dns_may_create A rq k res"
  shows "keeps A rq own known_fleet (CreateDNSReservation account u k res)"
proof -
  have "dns_may_create A rq k (res\<lparr>ob_uid := u, ob_rv := 1, ob_generation := 1\<rparr>)"
    using assms(2) by (subst dns_may_create_cong [where y = res]) simp_all
  then have "keeps A rq own known_fleet (api_call (minting u (dn.calls (store_create u k res))))"
    by (intro dn.keeps_created lawful.on_reservation [OF assms(1)] lawful_store.created)
  then show ?thesis unfolding CreateDNSReservation_def on_calls by (rule keeps_owned [OF firm_known])
qed

lemma CreateNodePool_keeps:
  assumes "fst k = accountNamespace (rq_AccountID rq)" "pool_may_create A rq k np"
  shows "keeps A rq own known_fleet (CreateNodePool account u k np)"
proof -
  have "keeps A rq own known_fleet
    (api_call (minting u (np.calls (store_create u k (np\<lparr>np_Spec := (np_Spec np)\<lparr>ns_AccountID := a\<rparr>\<rparr>)))))" for a
  proof (intro np.keeps_created lawful.on_pool [OF assms(1)] lawful_store.created)
    show "pool_may_create A rq k
        (np\<lparr>np_Spec := (np_Spec np)\<lparr>ns_AccountID := a\<rparr>, ob_uid := u, ob_rv := 1, ob_generation := 1\<rparr>)"
      using assms(2) by (subst pool_may_create_cong [where y = np]) simp_all
  qed
  then show ?thesis unfolding CreateNodePool_def on_calls
    by (intro keeps_silent_then [OF quiet_returning] keeps_silent_then [OF quiet_requireOwnedCluster]) auto
qed

lemma new_annotations [simp]:
  "ob_annotations (PublicToInternalCluster ann c account) = ob_annotations (customerObjectMeta ann account)"
  "ob_annotations (PublicToInternalNodePool ann n account i) = ob_annotations (customerObjectMeta ann account)"
  "ob_annotations (PublicToInternalOidcConfig ann t u sec role account) = ob_annotations (customerObjectMeta ann account)"
  "ob_annotations (PublicToInternalDNSReservation ann account) = ob_annotations (customerObjectMeta ann account)"
  by (simp_all add: PublicToInternalCluster_def PublicToInternalNodePool_def PublicToInternalOidcConfig_def
      PublicToInternalDNSReservation_def Let_def)

lemma oidcconfig_Create_keeps: "keeps A rq own known_fleet (oidcconfig_Create A rq I body)"
proof -
  have "keeps A rq own known_fleet (CreateOidcConfig account u k oc)"
    if "permitted A rq (map_of (ob_annotations oc)) (candidateResource (oidcConfigResource k oc) (snd k)) ''CreateOIDCConfig''"
      "fst k = accountNamespace (rq_AccountID rq)" for account u k oc
    using that by (intro CreateOidcConfig_keeps) (simp_all add: oidc_may_create_def)
  note create = this
  show ?thesis
    unfolding oidcconfig_Create_def Let_def
    by (auto intro!: keeps_responding [OF silent_authorize] keeps_attempt quiet_keeps [OF quiet_client(9)] create
        simp: create_labels_def split: sum.splits option.splits)
qed

lemma dnsreservation_Create_keeps: "keeps A rq own known_fleet (dnsreservation_Create A rq I body)"
proof -
  have "keeps A rq own known_fleet (CreateDNSReservation account u k (res\<lparr>dr_Phase := p\<rparr>))"
    if "permitted A rq (map_of (ob_annotations res)) (candidateResource (dnsReservationResource k res) (snd k)) ''CreateDNSReservation''"
      "fst k = accountNamespace (rq_AccountID rq)" for account u k res p
    using that
    by (intro CreateDNSReservation_keeps) (simp_all add: dns_may_create_def dnsReservationResource_def candidateResource_def)
  note create = this
  show ?thesis
    unfolding dnsreservation_Create_def Let_def
    by (auto intro!: keeps_responding [OF silent_authorize] keeps_attempt create
        simp: create_labels_def split: option.splits)
qed

lemma new_pool_annotations [simp]:
  "ob_annotations (new_pool account i ann spc name cluster) = ob_annotations (customerObjectMeta ann account)"
  by (simp add: new_pool_def set_label_def Let_def)

lemma nodepool_Create_keeps: "keeps A rq own known_fleet (nodepool_Create A rq I body)"
proof -
  have create: "keeps A rq own known_fleet (CreateNodePool account u k np)"
    if "parent_of np parent" "fst k = accountNamespace (rq_AccountID rq)"
      "permitted A rq (map_of (ob_annotations np)) (candidateResource (pool_resource np parent) (snd k)) ''CreateNodePool''"
    for account u k np parent
    using that by (intro CreateNodePool_keeps) (auto simp: pool_may_create_def)
  show ?thesis
    unfolding nodepool_Create_def Let_def
    by (auto intro!: keeps_responding [OF silent_authorizeNodePool] keeps_attempt quiet_keeps [OF quiet_client(1)] create
        simp: create_labels_def permitted_all_def split: sum.splits option.splits)
qed

section \<open>Queues and the allowlist\<close>

lemma on_index_lawful:
  assumes "k \<in> range (queue_key (ap_client A) (rq_AccountID rq))" "\<And>k'. k' \<noteq> k \<Longrightarrow> map_of st k' = map_of (fl_indexes s) k'"
  shows "lawful A rq own s (s\<lparr>fl_indexes := st, fl_uids := U\<rparr>)"
  by (rule lawful.on_queue) (use assms in auto)

text \<open>An index or an enrolled account is no business of the other objects.\<close>

lemma well_behaved_elsewhere:
  assumes "fl_clusters s' = fl_clusters s" "fl_nodepools s' = fl_nodepools s" "fl_oidcconfigs s' = fl_oidcconfigs s"
    "fl_reservations s' = fl_reservations s" "fl_uids s \<subseteq> fl_uids s'"
  shows "well_behaved s s'"
  using assms by (auto simp: well_behaved_def known_fleet_def intro: sound_subset)

lemma aside_call:
  assumes "\<And>s r s'. f s = (r, s') \<Longrightarrow> guar A rq own s s'"
  shows "aside A rq own (api_call f)"
  unfolding aside_def
proof (intro allI impI contract_call)
  fix P s r s' assume "firm P" "P s" "f s = (r, s')"
  moreover from this assms have "guar A rq own s s'" by blast
  ultimately show "guar A rq own s s' \<and> P s' \<and> (\<forall>m::lost. P s')"
    by (auto simp: firm_def stable_def guar_def)
qed (auto simp: firm_def)

lemma aside_index:
  assumes "k \<in> range (queue_key (ap_client A) (rq_AccountID rq))"
    and "\<And>st r st' k'. f st = (r, st') \<Longrightarrow> k' \<noteq> k \<Longrightarrow> map_of st' k' = map_of st k'"
  shows "aside A rq own (api_call (on_indexes f))" "aside A rq own (api_call (minting u (on_indexes f)))"
proof -
  have "guar A rq own s (s\<lparr>fl_indexes := st, fl_uids := U\<rparr>)" if "f (fl_indexes s) = (r, st)" "fl_uids s \<subseteq> U" for s r st U
    unfolding guar_def using assms that by (intro conjI well_behaved_elsewhere on_index_lawful) auto
  moreover have "s\<lparr>fl_indexes := st, fl_uids := fl_uids s\<rparr> = s\<lparr>fl_indexes := st\<rparr>" for s st
    by (cases s) simp
  ultimately have 1: "guar A rq own s (s\<lparr>fl_indexes := st\<rparr>)"
    "guar A rq own s (s\<lparr>fl_indexes := st, fl_uids := insert u (fl_uids s)\<rparr>)" if "f (fl_indexes s) = (r, st)" for s r st
    using that by (metis order_refl, blast)
  show "aside A rq own (api_call (on_indexes f))"
    by (rule aside_call) (auto simp: on_indexes_def 1 split: prod.splits)
  show "aside A rq own (api_call (minting u (on_indexes f)))"
    by (rule aside_call) (auto simp: on_indexes_def minting_def 1 split: prod.splits sum.splits if_splits)
qed

lemma store_elsewhere:
  "store_create u k x st = (r, st') \<Longrightarrow> k' \<noteq> k \<Longrightarrow> map_of st' k' = map_of st k'"
  "store_update keep k x st = (r2, st') \<Longrightarrow> k' \<noteq> k \<Longrightarrow> map_of st' k' = map_of st k'"
  "store_delete k x st = (r3, st') \<Longrightarrow> k' \<noteq> k \<Longrightarrow> map_of st' k' = map_of st k'"
  by (auto simp: store_create_def store_update_def store_put_def store_delete_def Let_def update_conv' map_of_delete
      split: option.splits if_splits)

lemma queue_calls:
  "aside A rq own (api_call (minting u (on_indexes (store_create u (queue_key (ap_client A) (rq_AccountID rq) url) x))))"
  "aside A rq own (api_call (on_indexes (store_update keep (queue_key (ap_client A) (rq_AccountID rq) url) x)))"
  "aside A rq own (api_call (on_indexes (store_delete (queue_key (ap_client A) (rq_AccountID rq) url) x)))"
  by (rule aside_index [where k = "queue_key (ap_client A) (rq_AccountID rq) url"], simp, erule store_elsewhere, simp)+

lemmas asides = aside_attempt aside_andThen queue_calls silent_aside [OF quiet_ret] silent_aside [OF quiet_fail]
  silent_aside [OF quiet_reading] silent_aside [OF quiet_client(1)] silent_aside [OF quiet_client(2)]
  silent_aside [OF quiet_returning]

lemma aside_reclaim:
  "aside A rq own again \<Longrightarrow>
    aside A rq own (reclaim_queue (ap_client A) now (queue_key (ap_client A) (rq_AccountID rq) url) existing again)"
  unfolding reclaim_queue_def by (auto intro!: asides split: sum.splits)

lemma aside_claim_attempts: "aside A rq own (claim_attempts (ap_client A) I (rq_AccountID rq) url name i n)"
  by (induction n arbitrary: i) (auto simp: Let_def intro!: asides aside_reclaim split: sum.splits)

lemma aside_queues:
  "aside A rq own (ClaimSpotTerminationQueue (ap_client A) I (rq_AccountID rq) url name)"
  "aside A rq own (ReleaseSpotTerminationQueue (ap_client A) (rq_AccountID rq) url name)"
  unfolding ClaimSpotTerminationQueue_def ReleaseSpotTerminationQueue_def Let_def
  by (auto intro!: aside_claim_attempts asides split: sum.splits)

lemma aside_check_queue: "aside A rq own (check_queue failed account ex queue)"
  unfolding check_queue_def by (auto intro!: asides)

lemma aside_claim_changed_queue: "aside A rq own (claim_changed_queue A (rq_AccountID rq) I name cr candidate)"
  unfolding claim_changed_queue_def Let_def
  by (auto intro!: asides aside_check_queue aside_queues split: option.splits)

lemma accounts_keep:
  "keeps A rq own known_fleet (accounts_Enroll A rq I body)" "keeps A rq own known_fleet (accounts_Unenroll A rq account)"
proof -
  have "guar A rq own s (s\<lparr>fl_accounts := st, fl_uids := U\<rparr>)" if "isPlatformCaller A rq" "fl_uids s \<subseteq> U" for s st U
    unfolding guar_def using that by (intro conjI well_behaved_elsewhere lawful.on_allowlist) auto
  moreover have "s\<lparr>fl_accounts := st, fl_uids := fl_uids s\<rparr> = s\<lparr>fl_accounts := st\<rparr>" for s st
    by (cases s) simp
  ultimately have 1: "guar A rq own s (s\<lparr>fl_accounts := st\<rparr>)"
    "guar A rq own s (s\<lparr>fl_accounts := st, fl_uids := insert u (fl_uids s)\<rparr>)" if "isPlatformCaller A rq" for s st u
    using that by (metis order_refl, blast)
  have "aside A rq own (api_call (on_accounts f))" "aside A rq own (api_call (minting u (on_accounts g)))"
    if "isPlatformCaller A rq" for f :: "obj store \<Rightarrow> (api_error + unit) \<times> obj store" and u
      and g :: "obj store \<Rightarrow> (api_error + obj) \<times> obj store"
    using that 1
    by (auto intro!: aside_call simp: on_accounts_def minting_def split: prod.splits sum.splits if_splits)
  then show "keeps A rq own known_fleet (accounts_Enroll A rq I body)"
    "keeps A rq own known_fleet (accounts_Unenroll A rq account)"
    unfolding accounts_Enroll_def accounts_Unenroll_def EnrollAccount_def UnenrollAccount_def
    by (auto intro!: aside_keeps asides split: option.splits sum.splits)
qed

section \<open>Updates\<close>

lemma cluster_candidate_spec: "cluster_candidate A doc cr = Inr candidate \<Longrightarrow> \<exists>spc. candidate = cr\<lparr>cu_Spec := spc\<rparr>"
  by (auto simp: cluster_candidate_def Let_def split: option.splits if_splits)

lemma pool_candidate_spec: "pool_candidate A doc reqSpec cr = Inr candidate \<Longrightarrow> \<exists>spc. candidate = cr\<lparr>np_Spec := spc\<rparr>"
  by (auto simp: pool_candidate_def Let_def split: option.splits if_splits)

lemma UpdateCluster_keeps:
  assumes "fst k = accountNamespace (rq_AccountID rq)"
    "permitted_all A rq Map.empty (clusterResource cr) (''UpdateCluster'' # clusterUpdateActions (cu_Spec cr) spc)"
  shows "keeps A rq own (cl.reads k cr) (UpdateCluster account k (cr\<lparr>cu_Spec := spc\<rparr>))"
  unfolding UpdateCluster_def on_calls
proof (intro keeps_owned firm_reads cl.keeps_update lawful_cluster [OF assms(1)] lawful_store.changed)
  let ?y = "(keep_Cluster (cr\<lparr>cu_Spec := spc\<rparr>) cr)\<lparr>ob_uid := ob_uid cr, ob_rv := ob_rv cr, ob_deleting := ob_deleting cr\<rparr>"
  show "cluster_changes cr ?y = Some (set (''UpdateCluster'' # clusterUpdateActions (cu_Spec cr) spc))"
    by (simp add: cluster_changes_def keep_Cluster_def)
qed (use assms in \<open>auto simp: permitted_all_def cluster_may_def same_version_def\<close>)

lemma UpdateNodePool_keeps:
  assumes "fst k = accountNamespace (rq_AccountID rq)" "parent_of np parent"
    "permitted_all A rq Map.empty (pool_resource np parent) (''UpdateNodePool'' # nodePoolUpdateActions (np_Spec np) spc)"
  shows "keeps A rq own (np.reads k np) (UpdateNodePool account k (np\<lparr>np_Spec := spc\<rparr>))"
  unfolding UpdateNodePool_def on_calls
proof (intro keeps_owned firm_reads np.keeps_update lawful_pool [OF assms(1)] lawful_store.changed)
  let ?y = "(keep_NodePool (np\<lparr>np_Spec := spc\<rparr>) np)\<lparr>ob_uid := ob_uid np, ob_rv := ob_rv np, ob_deleting := ob_deleting np\<rparr>"
  show "pool_changes np ?y = Some (set (''UpdateNodePool'' # nodePoolUpdateActions (np_Spec np) spc))"
    by (simp add: pool_changes_def keep_NodePool_def)
qed (use assms in \<open>auto simp: permitted_all_def pool_may_def same_version_def\<close>)

lemma quiet_tag_checks:
  "quiet (validateUpdatedClusterTags A account name candidate)" "quiet (validateUpdatedNodePoolTags A account name' np)"
  unfolding validateUpdatedClusterTags_def validateUpdatedNodePoolTags_def Let_def
  by (auto intro!: quiets split: option.splits)

text \<open>Going on if there is no reply yet.\<close>

lemma keeps_checked:
  assumes "quiet m" "firm P" "keeps A rq own P k"
  shows "keeps A rq own P (andThen m (\<lambda>r. case r of Some reply \<Rightarrow> ret (Some reply) | None \<Rightarrow> k))"
  by (rule keeps_silent_then [OF assms(1,2)]) (use assms(2,3) in \<open>auto split: option.splits\<close>)

lemmas tags_checked = keeps_checked [OF quiet_tag_checks(1)] keeps_checked [OF quiet_tag_checks(2)] keeps_checked [OF quiet_ret]

lemma cluster_updateOnce_keeps: "keeps A rq own known_fleet (cluster_updateOnce A rq I name doc)"
proof -
  let ?k = "(accountNamespace (rq_AccountID rq), name)"
  have store: "keeps A rq own (cl.reads ?k cr)
      (andThen (claim_changed_queue A (rq_AccountID rq) I name cr candidate) (\<lambda>r.
        case r of Some reply \<Rightarrow> ret (Some reply) | None \<Rightarrow>
        attempt (UpdateCluster (rq_AccountID rq) ?k candidate) (\<lambda>updated. case updated of
            Inr c \<Rightarrow> ret (Some (Reply 200 (ClusterBody ?k c)))
          | Inl Conflict \<Rightarrow> ret None
          | Inl NotFound \<Rightarrow> ret (Some (APIError ''ErrClusterUpdateNotFound''))
          | Inl _ \<Rightarrow> ret (Some (APIError ''ErrClusterUpdateFailed'')))))"
    if "cluster_candidate A doc cr = Inr candidate" "permitted_all A rq Map.empty (clusterResource cr)
        (''UpdateCluster'' # clusterUpdateActions (cu_Spec cr) (cu_Spec candidate))" for cr candidate
  proof -
    note that' = that
    obtain spc where spc: "candidate = cr\<lparr>cu_Spec := spc\<rparr>" using cluster_candidate_spec [OF that'(1)] by blast
    have "keeps A rq own (cl.reads ?k cr) (UpdateCluster (rq_AccountID rq) ?k candidate)"
      unfolding spc by (rule UpdateCluster_keeps) (use that'(2) spc in simp_all)
    then show ?thesis
      by (auto intro!: keeps_aside_then [OF aside_claim_changed_queue] keeps_attempt split: option.splits sum.splits api_error.splits)
  qed
  show ?thesis unfolding cluster_updateOnce_def GetCluster_def Let_def
    by (rule cl.keeps_get)
      (auto intro!: keeps_authorized tags_checked store split: sum.splits)
qed

lemma nodepool_updateOnce_keeps: "keeps A rq own known_fleet (nodepool_updateOnce A rq name reqSpec doc)"
proof -
  let ?k = "(accountNamespace (rq_AccountID rq), name)"
  have authorized: "keeps A rq own (np.reads ?k cr) (andThen (authorizeNodePool A rq Map.empty ''UpdateNodePool'' name cr actions) c)"
    if "\<And>reply. keeps A rq own (np.reads ?k cr) (c (Some reply))"
      "\<And>parent. parent_of cr parent \<Longrightarrow> permitted_all A rq Map.empty (pool_resource cr parent) (''UpdateNodePool'' # actions) \<Longrightarrow>
        keeps A rq own (np.reads ?k cr) (c None)"
    for cr actions and c :: "reply option \<Rightarrow> (fleet, reply option) prog"
    using that by (intro keeps_silent_then [OF silent_authorizeNodePool]) (auto split: option.splits, metis option.exhaust)
  have store: "keeps A rq own (np.reads ?k cr) (attempt (UpdateNodePool (rq_AccountID rq) ?k candidate) c)"
    if "pool_candidate A doc reqSpec cr = Inr candidate" "parent_of cr parent" "permitted_all A rq Map.empty (pool_resource cr parent)
        (''UpdateNodePool'' # nodePoolUpdateActions (np_Spec cr) (np_Spec candidate))"
      "\<And>r. keeps A rq own known_fleet (c r)" for cr candidate parent and c :: "api_error + NodePool \<Rightarrow> (fleet, reply option) prog"
  proof -
    note that' = that
    obtain spc where spc: "candidate = cr\<lparr>np_Spec := spc\<rparr>" using pool_candidate_spec [OF that'(1)] by blast
    have "keeps A rq own (np.reads ?k cr) (UpdateNodePool (rq_AccountID rq) ?k candidate)"
      unfolding spc by (rule UpdateNodePool_keeps [OF _ that'(2)]) (use that'(3) spc in simp_all)
    then show ?thesis using that'(4) by (rule keeps_attempt)
  qed
  show ?thesis unfolding nodepool_updateOnce_def GetNodePool_def Let_def
    by (rule np.keeps_get)
      (auto intro!: authorized tags_checked store split: sum.splits api_error.splits)
qed

lemma cluster_Update_keeps: "keeps A rq own known_fleet (cluster_Update A rq Is name body)"
  unfolding cluster_Update_def
  by (auto intro!: keeps_andThen keeps_RetryAttempts cluster_updateOnce_keeps split: option.splits sum.splits)

lemma nodepool_Update_keeps: "keeps A rq own known_fleet (nodepool_Update A rq name body)"
  unfolding nodepool_Update_def
  by (auto intro!: keeps_andThen keeps_RetryAttempts nodepool_updateOnce_keeps split: option.splits sum.splits)

section \<open>Creating a cluster\<close>

context kind
begin

lemma keeps_get_then:
  "(\<And>x. keeps A rq own (reads k x) (c x)) \<Longrightarrow> keeps A rq own known_fleet (andThen (reading (\<lambda>s. store_get k (get s))) c)"
  unfolding andThen_def by (rule keeps_get) simp_all

lemma keeps_by_uid_then:
  assumes "\<And>k x. fst k = accountNamespace account \<Longrightarrow> ob_uid x = uid \<Longrightarrow> keeps A rq own (reads k x) (c (k, x))"
  shows "keeps A rq own known_fleet (andThen (reading (\<lambda>s. store_by_uid account uid (get s))) c)"
  unfolding andThen_def by (rule keeps_by_uid) (use assms in simp_all)

lemma keeps_status_update:
  assumes "\<And>s st. replaces k x (f y x) (get s) st \<Longrightarrow> lawful A rq own s (put st s)" "same_version y x"
    "\<And>cur. ob_uid (f y cur) = ob_uid cur"
  shows "keeps A rq own (reads k x) (api_call (calls (store_status_update f k y)))"
  unfolding keeps_def guar_def
proof (rule write_call)
  fix s r st assume s: "reads k x s" "store_status_update f k y (get s) = (r, st)"
  have "st = get s \<or> replaces k x (f y x) (get s) st" using s(2)
  proof (cases rule: store_status_update_cases)
    case (2 cur)
    have "snapshot (fl_uids s) (get s) k x" using s(1) by (simp add: reads_def)
    then have "cur = x" by (rule snapshot_current [OF _ 2(1) same_version_join [OF assms(2) 2(2)]])
    note stored = 2(1,3) [unfolded this]
    from stored(2) show ?thesis by (cases rule: store_put_cases) (simp_all add: replaces_def stored(1))
  qed simp
  then show "versioned (fl_uids s) (get s) st \<and> (sound (fl_uids s) (get s) \<longrightarrow> sound (fl_uids s) st) \<and>
      (st = get s \<or> lawful A rq own s (put st s))"
    using versioned_status_update(1) [OF s(2) assms(3)] sound_status_update [OF s(2) assms(3)] assms(1) by blast
qed (use reads_stable reads_known lawful.idle in auto)

end

lemma deleteClusterForCleanup_keeps:
  assumes "cluster_may_create A rq (accountNamespace (rq_AccountID rq), name) x0"
  shows "keeps A rq own known_fleet (deleteClusterForCleanup (rq_AccountID rq) name own)"
proof -
  let ?k = "(accountNamespace (rq_AccountID rq), name)"
  have "keeps A rq own (cl.reads ?k x) (api_call (cl.calls (store_delete ?k x)))" if "ob_uid x = own" for x
    by (rule cl.keeps_delete, rule lawful.own_removed [OF _ that assms]) simp_all
  then show ?thesis
    unfolding deleteClusterForCleanup_def GetCluster_def DeleteClusterObject_def on_calls
    by (intro keeps_attempt keeps_RetryOnConflict cl.keeps_get) (auto intro!: keeps_owned)
qed

lemma updateManagedIssuerURL_keeps:
  assumes "cluster_may_create A rq (accountNamespace (rq_AccountID rq), name) x0"
  shows "keeps A rq own known_fleet (updateManagedIssuerURL (rq_AccountID rq) name own url)"
proof -
  let ?k = "(accountNamespace (rq_AccountID rq), name)"
  have "keeps A rq own (cl.reads ?k x)
    (api_call (cl.calls (store_update keep_Cluster ?k (x\<lparr>cu_Spec := (cu_Spec x)\<lparr>cs_IssuerURL := url\<rparr>\<rparr>))))" (is "keeps _ _ _ _ (api_call (cl.calls (store_update _ _ ?y)))")
    if "ob_uid x = own" for x
  proof (rule cl.keeps_update)
    fix s :: fleet and st
    assume "replaces ?k x ((keep_Cluster ?y x)\<lparr>ob_uid := ob_uid x, ob_rv := ob_rv x, ob_deleting := ob_deleting x\<rparr>) (fl_clusters s) st"
    also have "(keep_Cluster ?y x)\<lparr>ob_uid := ob_uid x, ob_rv := ob_rv x, ob_deleting := ob_deleting x\<rparr> =
        ?y\<lparr>ob_generation := ob_generation (keep_Cluster ?y x)\<rparr>"
      by (simp add: keep_Cluster_def)
    finally show "lawful A rq own s (s\<lparr>fl_clusters := st\<rparr>)" by (intro lawful.own_issuer [OF _ that assms]) simp_all
  qed (simp add: same_version_def)
  then show ?thesis
    unfolding updateManagedIssuerURL_def GetCluster_def UpdateCluster_def on_calls
    by (intro keeps_RetryOnConflict cl.keeps_get_then) (auto intro!: keeps_owned)
qed

lemma claimDNSReservation_keeps:
  assumes "permitted A rq ls (dnsReservationResource k0 x0) ''DescribeDNSReservation''" "fst k0 = accountNamespace (rq_AccountID rq)"
  shows "keeps A rq own known_fleet (claimDNSReservation (rq_AccountID rq) (ob_uid x0) own)"
proof -
  have "keeps A rq own (dn.reads k x)
      (api_call (dn.calls (store_update keep_DNSReservation k (set_label claimedByClusterUIDLabel own x))))"
    if "fst k = accountNamespace (rq_AccountID rq)" "ob_uid x = ob_uid x0" "label claimedByClusterUIDLabel x = []" for k x
  proof (rule dn.keeps_update, rule lawful.claimed_reservation [OF that(1) that(2) [symmetric] _ that(3)])
    show "dns_may A rq ls k x0 ''DescribeDNSReservation''"
      using assms that(1) by (simp add: dns_may_def dnsReservationResource_def)
  qed (simp_all add: keep_DNSReservation_def put_DNSReservation_def set_label_def same_version_def)
  then have "keeps A rq own known_fleet (claim_once own (dnsReservationClaimableResource (rq_AccountID rq) (ob_uid x0)))"
    unfolding claim_once_def dnsReservationClaimableResource_def Let_def claimable.simps
      GetDNSReservationByUID_def UpdateDNSReservation_def on_calls
    by (intro dn.keeps_by_uid) (auto intro!: keeps_andThen [OF keeps_owned])
  then show ?thesis unfolding claimDNSReservation_def claimResource_def
    by (auto intro!: keeps_attempt keeps_RetryOnConflict split: sum.splits)
qed

lemma claimOidcConfig_keeps:
  assumes "permitted A rq ls (oidcConfigResource k0 x0) ''DescribeOIDCConfig''" "fst k0 = accountNamespace (rq_AccountID rq)"
  shows "keeps A rq own known_fleet (claimOidcConfig (rq_AccountID rq) (ob_uid x0) own)"
    and "keeps A rq own known_fleet (UpdateOidcConfigLastUsedTimestamp (rq_AccountID rq) (ob_uid x0) ts)"
proof -
  have may: "oidc_may A rq ls k x0 ''DescribeOIDCConfig''" if "fst k = accountNamespace (rq_AccountID rq)" for k
    using assms that by (simp add: oidc_may_def oidcConfigResource_def)
  have "keeps A rq own (oi.reads k x)
      (api_call (oi.calls (store_update keep_OidcConfig k (set_label claimedByClusterUIDLabel own x))))"
    if "fst k = accountNamespace (rq_AccountID rq)" "ob_uid x = ob_uid x0" "label claimedByClusterUIDLabel x = []" for k x
    by (rule oi.keeps_update, rule lawful.claimed_oidc [OF that(1) that(2) [symmetric] may [OF that(1)] that(3)])
      (simp_all add: keep_OidcConfig_def put_OidcConfig_def set_label_def same_version_def)
  then have "keeps A rq own known_fleet (claim_once own (oidcConfigClaimableResource (rq_AccountID rq) (ob_uid x0)))"
    unfolding claim_once_def oidcConfigClaimableResource_def Let_def claimable.simps
      GetOidcConfigByUID_def UpdateOidcConfigObject_def on_calls
    by (intro oi.keeps_by_uid) (auto intro!: keeps_andThen [OF keeps_owned])
  then show "keeps A rq own known_fleet (claimOidcConfig (rq_AccountID rq) (ob_uid x0) own)"
    unfolding claimOidcConfig_def claimResource_def
    by (auto intro!: keeps_attempt keeps_RetryOnConflict split: sum.splits)
  have "keeps A rq own (oi.reads k x)
      (api_call (oi.calls (store_status_update put_OidcConfig k (x\<lparr>oc_LastUsedTimestamp := Some ts\<rparr>))))"
    if "fst k = accountNamespace (rq_AccountID rq)" "ob_uid x = ob_uid x0" for k x
    by (rule oi.keeps_status_update, rule lawful.used_oidc [OF that(1) that(2) [symmetric] may [OF that(1)]])
      (simp_all add: put_OidcConfig_def same_version_def)
  then show "keeps A rq own known_fleet (UpdateOidcConfigLastUsedTimestamp (rq_AccountID rq) (ob_uid x0) ts)"
    unfolding UpdateOidcConfigLastUsedTimestamp_def GetOidcConfigByUID_def on_calls
    by (intro oi.keeps_by_uid_then) (auto intro!: keeps_andThen)
qed

text \<open>The references of a creation that the caller may describe.\<close>

definition may_refer :: "'p api \<Rightarrow> request \<Rightarrow> (nsname \<times> DNSReservation) option \<Rightarrow> (nsname \<times> OidcConfig) option \<Rightarrow> bool" where
  "may_refer A rq dns oidc \<longleftrightarrow>
     (\<forall>k x. dns = Some (k, x) \<longrightarrow> fst k = accountNamespace (rq_AccountID rq) \<and>
        (\<exists>ls. permitted A rq ls (dnsReservationResource k x) ''DescribeDNSReservation'')) \<and>
     (\<forall>k x. oidc = Some (k, x) \<longrightarrow> fst k = accountNamespace (rq_AccountID rq) \<and>
        (\<exists>ls. permitted A rq ls (oidcConfigResource k x) ''DescribeOIDCConfig''))"

lemma completeClusterCreate_keeps:
  assumes own: "ob_uid cluster = own" and create: "cluster_may_create A rq (accountNamespace (rq_AccountID rq), name) x0"
    and refer: "may_refer A rq dns oidc"
  shows "keeps A rq own known_fleet (completeClusterCreate A (rq_AccountID rq) I name cluster dns oidc)"
proof -
  note cleanup = deleteClusterForCleanup_keeps [OF create] and issuer = updateManagedIssuerURL_keeps [OF create]
  have "keeps A rq own known_fleet (set_issuer A (rq_AccountID rq) name cluster oidc)"
    unfolding set_issuer_def Let_def own by (auto intro!: keeps_attempt keeps_andThen cleanup issuer split: sum.splits)
  moreover have "keeps A rq own known_fleet (case dns of None \<Rightarrow> ret None
      | Some (_, x) \<Rightarrow> claimDNSReservation (rq_AccountID rq) (ob_uid x) own)"
    using refer claimDNSReservation_keeps [of A rq _ _ _ own] by (fastforce simp: may_refer_def split: option.splits)
  moreover have "keeps A rq own known_fleet (case oidc of None \<Rightarrow> ret None
      | Some (_, x) \<Rightarrow> claimOidcConfig (rq_AccountID rq) (ob_uid x) own)"
    "keeps A rq own known_fleet (case oidc of None \<Rightarrow> ret ()
      | Some (_, x) \<Rightarrow> UpdateOidcConfigLastUsedTimestamp (rq_AccountID rq) (ob_uid x) (in_now I 12))"
    using refer claimOidcConfig_keeps [of A rq _ _ _ own] by (fastforce simp: may_refer_def split: option.splits)+
  ultimately show ?thesis
    unfolding completeClusterCreate_def Let_def own claiming_def
    by (auto intro!: keeps_andThen keeps_attempt cleanup quiet_keeps [OF quiet_client(1)] split: sum.splits option.splits)
qed

lemma attempt_owned: "attempt (andThen (returning v) f) c = (case v of Inl e \<Rightarrow> c (Inl e) | Inr x \<Rightarrow> attempt (f x) c)"
  by (cases v) (auto simp: attempt_def andThen_def returning_def ret_def fail_def fun_eq_iff)

lemma store_new_cluster_keeps:
  assumes own: "in_uid I 0 = own" and create: "cluster_may_create A rq (accountNamespace (rq_AccountID rq), name) cr"
    and refer: "may_refer A rq dns oidc"
  shows "keeps A rq own known_fleet (store_new_cluster A (rq_AccountID rq) I name url cr dns oidc)"
proof -
  let ?k = "(accountNamespace (rq_AccountID rq), name)"
  have stored: "keeps A rq own known_fleet (attempt (CreateCluster (rq_AccountID rq) own now ?k cr) c)"
    if c: "\<And>cluster. ob_uid cluster = own \<Longrightarrow> keeps A rq own known_fleet (c (Inr cluster))"
      "\<And>e. keeps A rq own known_fleet (c (Inl e))" for now and c :: "api_error + Cluster \<Rightarrow> (fleet, reply) prog"
  proof -
    have "keeps A rq own known_fleet (attempt (api_call (minting own (cl.calls (store_create own ?k
        (cr\<lparr>cu_Spec := (cu_Spec cr)\<lparr>cs_AccountID := a\<rparr>, cu_CreationTimestamp := now\<rparr>))))) c)" for a
    proof (rule cl.keeps_create)
      show "lawful A rq own s (s\<lparr>fl_clusters := AList.update ?k (cr\<lparr>cu_Spec := (cu_Spec cr)\<lparr>cs_AccountID := a\<rparr>, cu_CreationTimestamp := now,
          ob_uid := own, ob_rv := 1, ob_generation := 1\<rparr>) (fl_clusters s), fl_uids := insert own (fl_uids s)\<rparr>)"
        if "map_of (fl_clusters s) ?k = None" for s
        by (rule lawful.on_cluster [where k = ?k], simp, rule lawful_store.created [OF that])
          (use create in \<open>subst cluster_may_create_cong [where y = cr], simp_all\<close>)
      show "keeps A rq own known_fleet (c r)" if "\<And>y. r = Inr y \<Longrightarrow> y = cr\<lparr>cu_Spec := (cu_Spec cr)\<lparr>cs_AccountID := a\<rparr>,
          cu_CreationTimestamp := now, ob_uid := own, ob_rv := 1, ob_generation := 1\<rparr>" for r
        using that c by (cases r) auto
    qed
    then show ?thesis unfolding CreateCluster_def on_calls attempt_owned using c(2) by (auto split: sum.splits)
  qed
  have release: "keeps A rq own known_fleet (release_queue A (rq_AccountID rq) url name b)" for b own
    unfolding release_queue_def by (auto intro!: aside_keeps asides aside_queues)
  have "aside A rq own (if url \<noteq> [] then ClaimSpotTerminationQueue (ap_client A) I (rq_AccountID rq) url name else ret False)"
    by (auto intro: aside_queues asides)
  then show ?thesis unfolding store_new_cluster_def Let_def own
    by (rule keeps_aside [OF _ firm_known])
      (auto intro!: stored keeps_andThen release completeClusterCreate_keeps [OF _ create refer] split: sum.splits)
qed

lemma silent_authorizeCreate:
  "silent (authorizeCreate A rq req) (\<lambda>r. (\<exists>x. r = Inr x) \<and> (r = Inr None \<longrightarrow>
     cluster_may_create A rq (accountNamespace (rq_AccountID rq), rc_Name req)
       (PublicToInternalCluster (rc_Annotations req) (rc_Spec req) (rq_AccountID rq))))"
proof (cases "validateCreateLabels (ap_checks A) (rc_Annotations req)")
  case None
  show ?thesis unfolding authorizeCreate_def None option.case Let_def
    by (rule silent_conseq [OF silent_authorize]) (auto simp: cluster_may_create_def create_labels_def)
qed (auto simp: authorizeCreate_def intro: silent_ret)

lemma new_cluster_may_create:
  assumes "new_cluster A rq I req dns oidc = Some cr"
    "cluster_may_create A rq k (PublicToInternalCluster (rc_Annotations req) (rc_Spec req) (rq_AccountID rq))"
  shows "cluster_may_create A rq k cr"
  using assms
  by (subst cluster_may_create_cong [where y = "PublicToInternalCluster (rc_Annotations req) (rc_Spec req) (rq_AccountID rq)"])
    (auto simp: new_cluster_def PublicToInternalCluster_def Let_def split: if_splits)

lemma store_by_uid_namespace: "store_by_uid account uid st = Inr (k, x) \<Longrightarrow> fst k = accountNamespace account"
proof -
  assume "store_by_uid account uid st = Inr (k, x)"
  then have "(k, x) \<in> set (store_list (\<lambda>k x. fst k = accountNamespace account \<and> ob_uid x = uid) st)"
    by (simp add: store_by_uid_def split: list.splits)
  then show ?thesis unfolding store_list_iff by simp
qed

lemma silent_by_uid:
  "silent (reading (\<lambda>s. store_by_uid account uid (f s))) (\<lambda>r. \<forall>k x. r = Inr (k, x) \<longrightarrow> fst k = accountNamespace account)"
  by (rule silent_reading) (auto dest: store_by_uid_namespace)

lemma silent_resolve:
  "silent (resolveDNSReservation account uid) (\<lambda>r. \<forall>k x. r = Inr (Inr (k, x)) \<longrightarrow> fst k = accountNamespace account)"
  "silent (resolveOidcConfig account uid) (\<lambda>r. \<forall>k x. r = Inr (Inr (Some (k, x))) \<longrightarrow> fst k = accountNamespace account)"
  unfolding resolveDNSReservation_def GetDNSReservationByUID_def resolveOidcConfig_def GetOidcConfigByUID_def
  by (auto intro!: silent_ret silent_attempt [OF silent_by_uid] split: sum.splits api_error.splits if_splits)

lemma silent_authorizeReferences:
  assumes "\<And>k x. dns = Some (k, x) \<Longrightarrow> fst k = accountNamespace (rq_AccountID rq)"
    "\<And>k x. oidc = Some (k, x) \<Longrightarrow> fst k = accountNamespace (rq_AccountID rq)"
  shows "silent (authorizeReferences A rq ls dns oidc) (\<lambda>r. (\<exists>x. r = Inr x) \<and> (r = Inr None \<longrightarrow> may_refer A rq dns oidc))"
  unfolding authorizeReferences_def
proof (rule silent_andThen)
  let ?Q = "\<lambda>r. (\<exists>x. r = Inr x) \<and>
    (r = Inr None \<longrightarrow> (\<forall>k x. dns = Some (k, x) \<longrightarrow> permitted A rq ls (dnsReservationResource k x) ''DescribeDNSReservation''))"
  show "silent (case dns of None \<Rightarrow> ret None
      | Some (k, x) \<Rightarrow> authorizeResource A rq ls ''DescribeDNSReservation'' (dnsReservationResource k x) []) ?Q"
    by (cases dns) (auto intro!: silent_ret silent_conseq [OF silent_authorize])
  fix denied :: "reply option" assume "?Q (Inr denied)"
  then show "silent (case denied of Some reply \<Rightarrow> ret (Some reply) | None \<Rightarrow>
      (case oidc of None \<Rightarrow> ret None
       | Some (k, x) \<Rightarrow> authorizeResource A rq ls ''DescribeOIDCConfig'' (oidcConfigResource k x) []))
      (\<lambda>r. (\<exists>x. r = Inr x) \<and> (r = Inr None \<longrightarrow> may_refer A rq dns oidc))"
    using assms
    by (cases denied; cases oidc) (auto intro!: silent_ret silent_conseq [OF silent_authorize] simp: may_refer_def)
qed auto

lemma keeps_responding_quiet: "quiet m \<Longrightarrow> firm P \<Longrightarrow> keeps A rq own P k \<Longrightarrow> keeps A rq own P (responding m k)"
  unfolding responding_def by (rule keeps_silent_then [where Q = "\<lambda>_. True"]) (auto split: option.splits)

lemma silent_reference:
  "silent (if uid = [] then ret (Inr None)
     else andThen (resolveDNSReservation account uid) (\<lambda>r. ret (map_sum id Some r)))
     (\<lambda>r. \<forall>k x. r = Inr (Inr (Some (k, x))) \<longrightarrow> fst k = accountNamespace account)"
proof (cases "uid = []")
  case False
  have "silent (andThen (resolveDNSReservation account uid) (\<lambda>r. ret (map_sum id Some r)))
     (\<lambda>r. \<forall>k x. r = Inr (Inr (Some (k, x))) \<longrightarrow> fst k = accountNamespace account)"
  proof (rule silent_andThen [OF silent_resolve(1)], rule silent_ret)
    fix r :: "reply + nsname \<times> DNSReservation"
    assume "\<forall>k x. (Inr r :: api_error + _) = Inr (Inr (k, x)) \<longrightarrow> fst k = accountNamespace account"
    then show "\<forall>k x. (Inr (map_sum id Some r) :: api_error + _) = Inr (Inr (Some (k, x))) \<longrightarrow> fst k = accountNamespace account"
      by (cases r) simp_all
  qed simp
  with False show ?thesis by simp
qed (simp add: silent_ret)

lemma cluster_Create_keeps: "keeps A rq (in_uid I 0) known_fleet (cluster_Create A rq I body)"
proof -
  note store = store_new_cluster_keeps [OF refl new_cluster_may_create]
  have stored: "keeps A rq (in_uid I 0) known_fleet (case new_cluster A rq I req dns oidc of
        None \<Rightarrow> ret (APIError ''ErrClusterCreateDNSReservationNotReady'')
      | Some cr \<Rightarrow> store_new_cluster A (rq_AccountID rq) I (rc_Name req) url cr dns oidc)"
    if "cluster_may_create A rq (accountNamespace (rq_AccountID rq), rc_Name req)
        (PublicToInternalCluster (rc_Annotations req) (rc_Spec req) (rq_AccountID rq))" "may_refer A rq dns oidc" for req dns oidc url
    using that by (auto intro: store split: option.splits)
  have queue: "quiet (if b then check_queue failed account ex queue else ret None)" for b failed account ex queue
    unfolding check_queue_def by (auto intro!: quiets)
  have referred: "keeps A rq (in_uid I 0) known_fleet (responding (authorizeReferences A rq ls dns oidc)
      (responding (if b then check_queue failed account ex queue else ret None)
        (case new_cluster A rq I req dns oidc of
          None \<Rightarrow> ret (APIError ''ErrClusterCreateDNSReservationNotReady'')
        | Some cr \<Rightarrow> store_new_cluster A (rq_AccountID rq) I (rc_Name req) url cr dns oidc)))"
    if "cluster_may_create A rq (accountNamespace (rq_AccountID rq), rc_Name req)
        (PublicToInternalCluster (rc_Annotations req) (rc_Spec req) (rq_AccountID rq))"
      "\<forall>k x. dns = Some (k, x) \<longrightarrow> fst k = accountNamespace (rq_AccountID rq)"
      "\<forall>k x. oidc = Some (k, x) \<longrightarrow> fst k = accountNamespace (rq_AccountID rq)"
    for req dns oidc url ls b failed account ex queue
    by (rule keeps_responding [OF silent_authorizeReferences firm_known])
      (use that in \<open>blast intro: keeps_responding_quiet [OF queue firm_known] stored\<close>)+
  show ?thesis
  proof (cases "decodeClusterCreateRequest A (rq_AccountID rq) body")
    case (Inr req)
    show ?thesis unfolding cluster_Create_def Let_def Inr sum.case
      apply (rule keeps_responding [OF silent_authorizeCreate firm_known])
      apply (rule keeps_silent_then [OF silent_reference firm_known])
      subgoal for dns
        apply (cases dns; simp only: sum.case keeps_ret firm_known)
        apply (rule keeps_silent_then [OF silent_resolve(2) firm_known])
        subgoal for reservation oidc
          by (cases oidc; simp only: sum.case keeps_ret firm_known) (rule referred, simp_all)
        done
      done
  qed (simp add: cluster_Create_def)
qed

section \<open>All requests\<close>

lemma handle_keeps: "keeps A rq (in_uid (Is 0) 0) known_fleet (handle A L rq Is op)"
  by (cases op)
    (auto intro!: quiet_keeps quiets cluster_Create_keeps cluster_Update_keeps cluster_Delete_keeps cluster_Labels_keeps
      nodepool_Create_keeps nodepool_Update_keeps nodepool_Delete_keeps nodepool_Labels_keeps
      oidcconfig_Create_keeps oidcconfig_Delete_keeps oidcconfig_Labels_keeps dnsreservation_Create_keeps
      dnsreservation_Delete_keeps dnsreservation_Labels_keeps accounts_keep)

text \<open>What the middleware lets through.\<close>

definition admitted :: "'p api \<Rightarrow> request \<Rightarrow> bool" where
  "admitted A rq \<longleftrightarrow>
     (\<exists>caller. checkedIdentity (ap_parseARN A) (request_identity rq) = Inr caller) \<and>
     (rq_AccountID rq \<in> au_accounts (ap_authorizer A) \<or> rq_IsAllowlisted rq)"

text \<open>The effects of a served request: whether the account is on the allowlist is found out on the way.\<close>

definition served :: "'p api \<Rightarrow> request \<Rightarrow> string \<Rightarrow> fleet \<Rightarrow> fleet \<Rightarrow> bool" where
  "served A rq own s s' \<longleftrightarrow>
     well_behaved s s' \<and>
     (s' = s \<or> (\<exists>b. admitted A (rq\<lparr>rq_IsAllowlisted := b\<rparr>) \<and> lawful A (rq\<lparr>rq_IsAllowlisted := b\<rparr>) own s s'))"

lemma silent_allowlistAccounts:
  "silent (allowlistAccounts A rq) (\<lambda>r. \<forall>rq'. r = Inr rq' \<longrightarrow> (\<exists>b. rq' = rq\<lparr>rq_IsAllowlisted := b\<rparr>))"
proof -
  have same: "\<exists>b. rq = rq\<lparr>rq_IsAllowlisted := b\<rparr>" "\<exists>b. rq\<lparr>rq_IsAllowlisted := c\<rparr> = rq\<lparr>rq_IsAllowlisted := b\<rparr>" for c
    by (rule exI [of _ "rq_IsAllowlisted rq"], simp) blast
  show ?thesis unfolding allowlistAccounts_def IsAccountEnrolled_def
    by (auto intro!: silent_ret silent_andThen [OF quiet_cancelled] silent_attempt [OF quiet_attempt] quiets
        simp: same split: sum.splits)
qed

lemma silent_RequireIdentity:
  "silent (RequireIdentity A rq) (\<lambda>r. (\<exists>x. r = Inr x) \<and> (r = Inr None \<longrightarrow> admitted A rq))"
  unfolding RequireIdentity_def
  by (auto intro!: silent_ret silent_andThen [OF silent_cancelled] simp: admitted_def IsAccountRegistered_def split: sum.splits)

lemma contract_guarantee: "contract R G P m Q \<Longrightarrow> (\<And>s s'. G s s' \<Longrightarrow> G' s s') \<Longrightarrow> contract R G' P m Q"
  unfolding contract_def by fast

lemma serve_contract:
  "contract well_behaved (served A rq (in_uid (Is 0) 0)) known_fleet (serve A L rq Is op) (\<lambda>_. known_fleet)"
  unfolding serve_def responding_def
proof (rule contract_andThen)
  let ?own = "in_uid (Is 0) 0" and ?rq = "rq\<lparr>rq_IsAllowlisted := False\<rparr>"
  have idle: "served A rq ?own s s" for s by (simp add: served_def)
  let ?Q = "\<lambda>r s. (\<forall>rq'. r = Inr rq' \<longrightarrow> (\<exists>b. rq' = rq\<lparr>rq_IsAllowlisted := b\<rparr>)) \<and> known_fleet s"
  show "contract well_behaved (served A rq ?own) known_fleet (allowlistAccounts A ?rq) ?Q"
    by (rule contract_conseq [OF silentD [OF silent_allowlistAccounts, where P = known_fleet]])
      (auto simp: idle cl.known_objects_stable)
  fix rq'
  have handled: "contract well_behaved (served A rq ?own) known_fleet (handle A L (rq\<lparr>rq_IsAllowlisted := b\<rparr>) Is op) (\<lambda>_. known_fleet)"
    if "admitted A (rq\<lparr>rq_IsAllowlisted := b\<rparr>)" for b
    by (rule contract_guarantee [OF handle_keeps [unfolded keeps_def]]) (use that in \<open>auto simp: served_def guar_def\<close>)
  have "contract well_behaved (served A rq ?own) known_fleet
      (andThen (RequireIdentity A rq') (\<lambda>r. case r of Some reply \<Rightarrow> ret reply | None \<Rightarrow> handle A L rq' Is op)) (\<lambda>_. known_fleet)"
    if rq': "rq' = rq\<lparr>rq_IsAllowlisted := b\<rparr>" for b
  proof (rule contract_andThen)
    show "contract well_behaved (served A rq ?own) known_fleet (RequireIdentity A rq')
        (\<lambda>r s. (r = Inr None \<longrightarrow> admitted A rq') \<and> known_fleet s)"
      by (rule contract_conseq [OF silentD [OF silent_RequireIdentity, where P = known_fleet]])
        (auto simp: idle cl.known_objects_stable)
    show "contract well_behaved (served A rq ?own) (\<lambda>s. (Inr x = (Inr None :: api_error + _) \<longrightarrow> admitted A rq') \<and> known_fleet s)
        (case x of Some reply \<Rightarrow> ret reply | None \<Rightarrow> handle A L rq' Is op) (\<lambda>_. known_fleet)" for x
      by (rule contract_pure) (use handled rq' in \<open>cases x; auto\<close>)
  qed auto
  then show "contract well_behaved (served A rq ?own) (?Q (Inr rq'))
      (andThen (RequireIdentity A rq') (\<lambda>r. case r of Some reply \<Rightarrow> ret reply | None \<Rightarrow> handle A L rq' Is op)) (\<lambda>_. known_fleet)"
    by (intro contract_pure) auto
qed auto

text \<open>All requests run at once, each relying on the others.\<close>

interpretation srv: concurrent known_fleet "\<lambda>_. well_behaved" "\<lambda>(rq, Is, op). served A rq (in_uid (Is 0) 0)"
  "\<lambda>(rq, Is, op). serve A L rq Is op" for A :: "'p api" and L
proof unfold_locales
  fix k k' :: "request \<times> (nat \<Rightarrow> inputs) \<times> operation" and s s'
  show "well_behaved s s'" if "(case k of (rq, Is, op) \<Rightarrow> served A rq (in_uid (Is 0) 0)) s s'"
    using that by (cases k) (simp add: served_def)
  show "contract well_behaved (case k of (rq, Is, op) \<Rightarrow> served A rq (in_uid (Is 0) 0)) known_fleet
      (case k of (rq, Is, op) \<Rightarrow> serve A L rq Is op) (\<lambda>_. known_fleet)"
    by (cases k) (simp add: serve_contract)
qed (auto intro: well_behaved_trans)

text \<open>C5: Whatever request the API serves, whatever other programs do to the objects between two of its calls, and whichever
  calls fail, every change it makes is authorized.  The middleware has admitted the caller; the changed object is in the namespace
  of the caller's account; and the policies permit the caller the action on the very version of the object that the change
  replaces or deletes (for a node pool: together with a version of its parent), including the extra actions for a changed
  configuration, version or size and for setting and removing labels; a new object is permitted with the labels it is stored with.
  Beyond these, a request that was permitted to create a cluster sets the issuer of that cluster or deletes it again, and claims an
  unclaimed reservation and OIDC config that the caller may describe; claims on queues touch no other index than those of the
  caller's account, and only the platform's account changes the allowlist.  Each change keeps versions and UIDs in order,
  which is what the program itself relies on.\<close>

theorem every_write_is_authorized:
  assumes "known_fleet (w_state w)" "relies well_behaved w" "serve A L rq Is op w = (r, w')"
  shows "known_fleet (w_state w') \<and>
    (\<exists>l. w_log w' = w_log w @ l \<and>
       (\<forall>(s, s') \<in> set l. well_behaved s s' \<and>
          (s' = s \<or> (\<exists>b. admitted A (rq\<lparr>rq_IsAllowlisted := b\<rparr>) \<and>
                         lawful A (rq\<lparr>rq_IsAllowlisted := b\<rparr>) (in_uid (Is 0) 0) s s'))))"
  using srv.main_keeps_inv [where k = "(rq, Is, op)" and A = A and L = L, OF assms(1,2)] assms(3)
  unfolding served_def by fastforce

definition empty_cluster_spec :: ClusterSpec where
  "empty_cluster_spec =
     \<lparr>cs_AccountID = [], cs_CreatorARN = [], cs_DNSReservationID = [], cs_OidcConfigID = [], cs_HostedClusterName = [],
      cs_ExpirationTimestamp = None, cs_Tags = [], cs_ControlPlaneUpgradePolicy = [], cs_Configuration = [], cs_Release = [],
      cs_IssuerURL = [], cs_AWS = None, cs_Networking = \<lparr>nw_MachineNetwork = [], nw_ServiceNetwork = [], nw_ClusterNetwork = []\<rparr>,
      cs_Other = []\<rparr>"

definition empty_pool_spec :: NodePoolSpec where
  "empty_pool_spec =
     \<lparr>ns_AccountID = [], ns_ClusterName = [], ns_Replicas = None, ns_AutoScaling = [], ns_Release = [], ns_Tags = [],
      ns_EC2InstanceMetadataHttpTokens = [], ns_AutoRepair = None, ns_Labels = [], ns_ManagementAutoRepair = False,
      ns_NodeLabels = [], ns_InternalPoolID = [], ns_Other = []\<rparr>"

definition ex_api :: "unit api" where
  "ex_api =
     (let bundle = \<lparr>bl_parseARN = (\<lambda>_. None), bl_trimSpace = id, bl_pemDecode = (\<lambda>_. None), bl_isCA = (\<lambda>_. False)\<rparr>;
          validator = \<lparr>va_registry = [], va_resourceType = [], va_bundle = bundle\<rparr> in
      \<lparr>ap_cedar = ex_cedar, ap_parseARN = ex_arnp, ap_authorizer = ex_authorizer,
       ap_client = \<lparr>lb_sha256Hex = id, lb_formatTime = (\<lambda>_. []), lb_parseTime = (\<lambda>_. None)\<rparr>,
       ap_checks = \<lparr>kl_IsDNS1123Label = (\<lambda>_. True), kl_IsDNS1123Subdomain = (\<lambda>_. True), kl_IsQualifiedName = (\<lambda>_. True),
                    kl_IsValidLabelValue = (\<lambda>_. True), kl_tagKeyPattern = (\<lambda>_. True), kl_tagValuePattern = (\<lambda>_. True)\<rparr>,
       ap_clusterValidator = validator,
       ap_clusterCodec = \<lparr>co_marshal = (\<lambda>_. []), co_unmarshal = (\<lambda>_. Some), co_zero = empty_cluster_spec,
                          co_pointers = (\<lambda>_. {})\<rparr>,
       ap_nodePoolValidator = validator,
       ap_nodePoolCodec = \<lparr>co_marshal = (\<lambda>_. []), co_unmarshal = (\<lambda>_. Some), co_zero = empty_pool_spec,
                           co_pointers = (\<lambda>_. {})\<rparr>,
       ap_float = id, ap_parseURL = (\<lambda>_. None), ap_oidcIssuerBaseURL = [], ap_defaultClusterExpiration = 0,
       ap_platformAccountID = []\<rparr>)"

definition ex_caller_request :: request where
  "ex_caller_request =
     \<lparr>rq_AccountID = ''111111111111'', rq_CallerARN = ex_session, rq_IsAllowlisted = False, rq_SourceIP = [],
      rq_UserAgent = [], rq_Time = 0\<rparr>"

definition ex_served_fleet :: fleet where
  "ex_served_fleet =
     \<lparr>fl_indexes = [],
      fl_reservations = [((''account-111111111111'', ''a''),
        \<lparr>ob_uid = ''u1'', ob_rv = 1, ob_generation = 1, ob_labels = [], ob_annotations = [], ob_finalizers = [],
         ob_deleting = False, dr_ClusterDeletionPolicy = [], dr_Phase = [], dr_BaseDomain = [],
         dr_InternalHostedClusterName = [], dr_ObservedGeneration = 0, dr_Conditions = []\<rparr>)],
      fl_oidcconfigs = [], fl_clusters = [], fl_placements = [], fl_nodepools = [], fl_rendered = [],
      fl_renderedPools = [], fl_mcs = [], fl_manifests = [], fl_accounts = [],
      fl_dynamo = \<lparr>dc_items = (\<lambda>_. None), dc_cache = (\<lambda>_. None)\<rparr>, fl_statuses = (\<lambda>_. None), fl_uids = {''u1''}\<rparr>"

definition ex_inputs :: "nat \<Rightarrow> inputs" where
  "ex_inputs = (\<lambda>_. \<lparr>in_uid = (\<lambda>_. ''new''), in_now = (\<lambda>_. 0)\<rparr>)"

lemma runs_cancelled: "runs cancelled s (Inr False) s"
proof -
  have "runs cancelled s (Inr (Inr () \<noteq> (Inr () :: api_error + unit))) s"
    unfolding cancelled_def reading_def by (rule runs_attempt [OF runs_call runs_ret]) simp
  then show ?thesis by simp
qed

lemma runs_authorized:
  assumes "prepareResourceAuthz A rq ls False = Inr p" "Check (ap_cedar A) False False p op rsc = Inr d" "de_Allowed d"
  shows "runs (authorizeResource A rq ls op rsc []) s (Inr None) s"
  unfolding authorizeResource_def
  by (rule runs_andThen [OF runs_cancelled])
    (use assms in \<open>auto intro!: runs_andThen [OF runs_cancelled] runs_ret\<close>)

lemma ex_served_run:
  "runs (serve ex_api \<lparr>ql_parseSelector = (\<lambda>_. None), ql_uuidString = (\<lambda>_. None)\<rparr> ex_caller_request ex_inputs
     (DeleteDNSReservationOp ''a'')) ex_served_fleet (Inr (Reply 202 (DeletionInitiated ''a'')))
     (ex_served_fleet\<lparr>fl_reservations := []\<rparr>)"
proof -
  let ?x = "snd (hd (fl_reservations ex_served_fleet))" and ?k = "(''account-111111111111'', ''a'')" and ?s = ex_served_fleet
  have fields: "ap_cedar ex_api = ex_cedar" "ap_parseARN ex_api = ex_arnp" "ap_authorizer ex_api = ex_authorizer"
    "request_identity ex_caller_request = ex_identity" "request_context ex_caller_request Map.empty = ex_request"
    "rq_AccountID ex_caller_request = ''111111111111''" "ex_caller_request\<lparr>rq_IsAllowlisted := False\<rparr> = ex_caller_request"
    "accountNamespace ''111111111111'' = ''account-111111111111''"
    by (simp_all add: ex_api_def Let_def request_identity_def ex_caller_request_def ex_identity_def request_context_def
        ex_request_def accountNamespace_def)
  obtain p where p: "Prepare ex_cedar ex_arnp False False ex_authorizer ex_identity ex_request = Inr p" by (rule ex_prepared)
  have names: "idPattern ''u1''" "namespaceAccount ''account-111111111111'' = ''111111111111''" by code_simp+
  have "\<exists>e. resourceEntities p ''DeleteDNSReservation'' (dnsReservationResource ?k ?x) = Inr e"
    by (simp add: resourceEntities_def validateResourceIdentity_def sbind_def ex_prepared_parts [OF p] ex_identity_def Let_def
        actionResourceKind_def listAction_def label_contradicts_def dnsReservationResource_def ex_served_fleet_def names)
  then obtain e where e: "resourceEntities p ''DeleteDNSReservation'' (dnsReservationResource ?k ?x) = Inr e" by blast
  have authorized: "runs (authorizeResource ex_api ex_caller_request Map.empty ''DeleteDNSReservation'' (dnsReservationResource ?k ?x) [])
      ?s (Inr None) ?s"
    by (rule runs_authorized [where p = p and d = "\<lparr>de_Allowed = True, de_Provenance = [pt_Provenance ex_attachment]\<rparr>"])
      (use ex_permitted [OF p e] in \<open>simp_all add: prepareResourceAuthz_def fields p\<close>)
  have got: "runs (GetDNSReservation ''111111111111'' ''a'') ?s (Inr ?x) ?s"
    unfolding GetDNSReservation_def reading_def fields
    by (rule runs_call) (simp add: ex_served_fleet_def store_get_def of_option_def)
  have deleted: "runs (DeleteDNSReservationObject ?k ?x) ?s (Inr ()) (?s\<lparr>fl_reservations := []\<rparr>)"
    unfolding DeleteDNSReservationObject_def
    by (rule runs_call) (simp add: ex_served_fleet_def on_reservations_def store_delete_def same_version_def)
  have "label claimedByClusterUIDLabel ?x = []" by (simp add: ex_served_fleet_def label_def)
  then have once: "runs (dns_delete_once ex_api ex_caller_request ''a'') ?s (Inr (Some (Reply 202 (DeletionInitiated ''a''))))
      (?s\<lparr>fl_reservations := []\<rparr>)"
    unfolding dns_delete_once_def Let_def fields
    by (intro runs_attempt [OF got])
      (auto intro!: runs_andThen [OF authorized] runs_attempt [OF deleted] runs_ret)
  have "runs (retries 4 () (\<lambda>_. andThen (dns_delete_once ex_api ex_caller_request ''a'') (\<lambda>r. ret ((), r)))) ?s
      (Inr (Some (Reply 202 (DeletionInitiated ''a'')))) (?s\<lparr>fl_reservations := []\<rparr>)"
    unfolding numeral_eq_Suc retries.simps
    by (rule runs_andThen [OF runs_andThen [OF once runs_ret]]) (simp add: runs_ret)
  then have handled: "runs (dnsreservation_Delete ex_api ex_caller_request ''a'') ?s (Inr (Reply 202 (DeletionInitiated ''a'')))
      (?s\<lparr>fl_reservations := []\<rparr>)"
    unfolding dnsreservation_Delete_def RetryAttempts_def by (rule runs_andThen) (simp add: runs_ret)
  have registered: "IsAccountRegistered ex_authorizer False ''111111111111''"
    by (simp add: IsAccountRegistered_def ex_authorizer_def)
  have admitted: "runs (allowlistAccounts ex_api ex_caller_request) ?s (Inr ex_caller_request) ?s"
    unfolding allowlistAccounts_def fields using registered
    by (auto simp: ex_patterns intro!: runs_ret runs_andThen [OF runs_cancelled])
  have "rq_CallerARN ex_caller_request \<noteq> []" by (simp add: ex_caller_request_def ex_session_def)
  then have identity: "runs (RequireIdentity ex_api ex_caller_request) ?s (Inr None) ?s"
    unfolding RequireIdentity_def fields using registered
    by (auto simp: ex_checked intro!: runs_ret runs_andThen [OF runs_cancelled])
  show ?thesis unfolding serve_def fields responding_def
    by (rule runs_andThen [OF admitted], rule runs_andThen [OF identity]) (simp add: handled)
qed

theorem every_write_is_authorized_witness:
  "\<exists>w'. serve ex_api \<lparr>ql_parseSelector = (\<lambda>_. None), ql_uuidString = (\<lambda>_. None)\<rparr> ex_caller_request ex_inputs
       (DeleteDNSReservationOp ''a'') \<lparr>w_state = ex_served_fleet, w_script = [], w_log = []\<rparr> =
       (Inr (Reply 202 (DeletionInitiated ''a'')), w') \<and>
     fl_reservations ex_served_fleet \<noteq> [] \<and> fl_reservations (w_state w') = [] \<and> known_fleet (w_state w')"
proof -
  let ?w = "\<lparr>w_state = ex_served_fleet, w_script = [], w_log = []\<rparr>"
  let ?q = "\<lparr>ql_parseSelector = (\<lambda>_. None), ql_uuidString = (\<lambda>_. None)\<rparr>"
  obtain w' where w': "serve ex_api ?q ex_caller_request ex_inputs (DeleteDNSReservationOp ''a'') ?w =
      (Inr (Reply 202 (DeletionInitiated ''a'')), w')" "fl_reservations (w_state w') = []"
    using ex_served_run [unfolded runs_def, rule_format, of ?w] by auto
  have "known_fleet ex_served_fleet"
    by (simp add: known_fleet_def sound_def known_uids_def ex_served_fleet_def)
  then have "known_fleet (w_state w')"
    using every_write_is_authorized [OF _ _ w'(1)] by (simp add: relies_def)
  then show ?thesis using w' by (auto simp: ex_served_fleet_def)
qed

end
