(* ===== verification/Spec2Isabelle.thy ===== *)
theory Spec2Isabelle
  imports PgWatch ListProps WatchLoop Doorbell NetworkCIDR RateLimit Authz DesireProps DnsProps RenderTags FieldProps RequestProps
begin

text \<open>
  Verification of the ROSA Seaplane API: the database library \<open>seaplane-db\<close>, the REST gateway \<open>seaplane-api\<close> and parts of
  the operator \<open>seaplane-operator\<close>.

  \<^bold>\<open>The program.\<close>  \<open>seaplane-db\<close> stores Kubernetes-style objects as rows of one PostgreSQL table.  All writes go through the
  procedure \<open>pgctl_write\<close>, which stamps a row with the id of its transaction; readers list a snapshot and then poll for rows with
  higher stamps, woken by a doorbell.  On top it offers the client, cache and watch interfaces of controller-runtime.  The
  gateway admits requests (identity, account allowlist, rate limit), authorizes them with Cedar policies, validates them and
  reads and writes objects through that client.  The operator reconciles the objects; it allocates base domains for DNS
  reservations and publishes desires to DynamoDB tables that kube-applier carries out in the management clusters.

  \<^bold>\<open>Conventions.\<close>  A Go function is a HOL function of the same name where that is free.  Results with errors are sums, with
  the error on the left; error texts are replaced by constructors with their operands where no code looks at the text.  Maps are
  partial functions, or association lists where the code stores them in documents.  Transaction ids, versions and times are
  natural numbers or integers; 64-bit arithmetic is written with its wrap-around or saturation where the code can reach it (parsing
  of integers, rate limiting).  Timestamps are whole numbers of the unit that the table keeps, so the truncation of a finer deletion
  timestamp by \<open>TIMESTAMPTZ\<close> is outside the model.  Failures of connections, of DynamoDB and of calls are arguments, so that theorems hold for all of
  them.  Libraries that are not part of the repository are parameters in records: PostgreSQL's \<open>hashtext\<close>, SHA-256, Cedar, the ARN
  parser, the Kubernetes name checks, PEM and X.509, URL and UUID parsing, and \<open>encoding/json\<close> for whole specs.

  \<^bold>\<open>Foundations.\<close>  \<open>Prelude\<close> has errors as values, \<open>GoLib\<close> and \<open>GoNet\<close> the parts of Go's \<open>strings\<close>, \<open>strconv\<close> and \<open>net\<close> in use,
  \<open>Json\<close> documents as Go and \<open>JSONB\<close> see them, \<open>Sql\<close> the predicates and their three-valued meaning.

  \<^bold>\<open>The database library\<close> (\<open>seaplane-db\<close>).
  \<^item> \<open>ResourceVersion\<close> (\<open>internal/resourceversion\<close>), \<open>Metadata\<close> and \<open>Convert\<close> (\<open>convert.go\<close>): versions and objects as they are printed
    and stored, with their round trips.
  \<^item> \<open>Store\<close> (\<open>schema/migrations/001_initial.sql\<close>) and \<open>Writer\<close> (\<open>internal/writer\<close>): the procedure and both write paths;
    \<open>WriterProps\<close>: the two paths agree but for a nil status, an update is a compare-and-swap, a create is put-if-absent, status and object writes
    touch disjoint columns.
  \<^item> \<open>Database\<close> (\<open>compaction\<close>): all interleavings of write transactions and compaction as a step relation, with its invariants.
  \<^item> \<open>Reader\<close> (\<open>internal/reader\<close>): list, shards and poll.  \<open>Feed\<close> proves once, in the locale \<open>snapshot_feed\<close>, that a list followed
    by polls keeps a cache exact, and interprets it for the machine; \<open>WatchLoop\<close> adds the loops \<open>Run\<close> and \<open>listenLoop\<close> with timers
    and backoff and deliveries that are cut short, \<open>PgWatch\<close> (\<open>pgwatch.go\<close>) the relay to the watch interface, \<open>Doorbell\<close> the notifications.
  \<^item> \<open>PgClient\<close> (\<open>pgclient.go\<close>, \<open>errors.go\<close>) and \<open>ClientProps\<close>: every operation of the client against concurrent writers;
    \<open>Selectors\<close> and \<open>ListProps\<close> (\<open>fieldselector.go\<close>, \<open>labelselector.go\<close>): the generated SQL means what the selectors ask of the
    object, and pages add up.

  \<^bold>\<open>Programs on shared objects.\<close>  \<open>Programs\<close> models controllers and handlers as programs whose calls may fail, before or after
  taking effect, and between whose calls others act; \<open>contract\<close> is a rely-guarantee triple and the locale \<open>concurrent\<close> combines the
  contracts of programs that run at once.  \<open>Objects\<close> are typed objects with versions and the laws of the client, \<open>Fleet\<close> the kinds
  of object (\<open>api/v1alpha1\<close>) and the shared state.

  \<^bold>\<open>The operator\<close> (\<open>seaplane-operator\<close>).
  \<^item> \<open>DnsController\<close> (\<open>internal/controller/dnsreservation_controller.go\<close>) and \<open>DnsProps\<close>: reconciliations of all reservations, run at
    once and failing anywhere, never give two reservations one base domain, and an undisturbed one assigns the first free prefix.
  \<^item> \<open>Desire\<close> (\<open>internal/dynamo/client.go\<close>, \<open>internal/controller/desire_status.go\<close>) and \<open>DesireProps\<close>: if reads are current and
    failed writes did not happen, a successful upsert has published the spec, and \<open>Synced\<close> means that kube-applier applied what is
    published; and what goes wrong without that.
  \<^item> \<open>RenderTags\<close> (\<open>internal/render\<close>): the AWS tags of hosted clusters and node pools, which the tag budgets of the gateway bound.

  \<^bold>\<open>The gateway\<close> (\<open>seaplane-api\<close>).
  \<^item> \<open>RateLimit\<close> (\<open>pkg/ratelimit\<close>): GCRA bounds every caller's rate and keeps callers apart; the locale \<open>rate_limiter\<close> is the
    interface of the middleware.
  \<^item> \<open>Authz\<close> (\<open>pkg/authz\<close>): bundles, principals, prepared requests and checks; access needs a grant of the caller's own account.
  \<^item> \<open>NetworkCIDR\<close>, \<open>RequestChecks\<close>, \<open>FieldValidator\<close>, \<open>FieldProps\<close> (\<open>pkg/validation\<close>): networks, names, tags and the write rules of
    spec fields; accepted updates leave immutable fields alone, and repeated keys and other letter case get around that.
  \<^item> \<open>ApiClient\<close> (\<open>pkg/clients/seaplanedb/client.go\<close>): every method as a program on the fleet.
  \<^item> \<open>HandlerBase\<close>, \<open>ClusterHandlers\<close>, \<open>ResourceHandlers\<close> (\<open>pkg/handlers\<close>, \<open>pkg/clients/seaplanedb/convert.go\<close>, the routes of
    \<open>pkg/server\<close> and \<open>pkg/middleware/identity.go\<close>): all handlers of clusters, node pools, OIDC configs, DNS reservations, labels and
    the account allowlist.  \<open>HandlerProps\<close> has the rely and guarantee and, in the locale \<open>kind\<close>, the contracts of the calls on one
    kind of object; \<open>RequestProps\<close> composes them: every write of every request is authorized on the version it replaces.

  \<^bold>\<open>Bounds.\<close>  Recursion follows lists and documents.  \<open>RetryOnConflict\<close> makes five attempts, as \<open>retry.DefaultRetry\<close> does, the
  allocation of a prefix and the claim of a queue as many as the code says; the loop over a trust bundle is a
  \<open>partial_function\<close> that is proved to return.  Loops that run until they are cancelled are functions of the list of their inputs.

  \<^bold>\<open>Not modelled.\<close>  The SQL migration runner, cache and manager assembly, metrics, tracing and logs; HTTP encoding, the projection of
  stored objects to the public types and the management handlers for policies; Cedar itself and the YAML shape of bundles; the Redis
  rate limiter; of the operator the controllers of clusters, node pools, manifests, OIDC configs, placements and silences beyond
  the names they share, rendering apart from tags, and the AWS and Alertmanager clients; the generated client set and the code generators.  These are
  I/O, generated code or code around third-party types.  Of objects, the fields that no modelled code looks at are one field.
\<close>

end
